(* ===== verification/Prelude.thy ===== *)
theory Prelude
  imports Main "HOL-Library.Word" "HOL-Library.Char_ord" "HOL-Library.List_Lexorder"
begin

text \<open>
  Shared ground of the development: the exceptions the C++ code throws, results as a sum
  with the exception on the left, the two integer ranges the code stores numbers in, and the
  lemmas on results and lists that every component uses.

  A C++ function that may throw is a function into \<open>exn + 'a\<close>: \<open>Inl\<close> is the thrown
  exception, \<open>Inr\<close> the returned value. \<open>Undefined\<close> marks a step whose behaviour the
  language leaves undefined (an unchecked index past the end, a signed overflow): a function that
  reaches it has no promised result.
\<close>

section \<open>Exceptions and results\<close>

datatype exn =
    RuntimeError string
  | InvalidArgument string
  | OutOfRange string
  | DbFailure string
  | Undefined string

type_synonym 'a res = "exn + 'a"

named_theorems res_simps \<open>evaluation of the result combinators\<close>

definition rbind :: "'a res \<Rightarrow> ('a \<Rightarrow> 'b res) \<Rightarrow> 'b res" where
  "rbind r f = (case r of Inl e \<Rightarrow> Inl e | Inr x \<Rightarrow> f x)"

lemma rbind_Inl [simp, res_simps]: "rbind (Inl e) f = Inl e"
  by (simp add: rbind_def)

lemma rbind_Inr [simp, res_simps]: "rbind (Inr x) f = f x"
  by (simp add: rbind_def)

lemma rbind_eq_Inr: "rbind r f = Inr y \<longleftrightarrow> (\<exists>x. r = Inr x \<and> f x = Inr y)"
  by (cases r) simp_all

lemma rbind_InrE [elim!]:
  assumes "rbind r f = Inr y"
  obtains x where "r = Inr x" and "f x = Inr y"
  using assms by (auto simp: rbind_eq_Inr)

text \<open>A loop that stops at the first exception.\<close>

fun rmap :: "('a \<Rightarrow> 'b res) \<Rightarrow> 'a list \<Rightarrow> 'b list res" where
  "rmap f [] = Inr []"
| "rmap f (x # xs) = rbind (f x) (\<lambda>y. rbind (rmap f xs) (\<lambda>ys. Inr (y # ys)))"

lemma rmap_cong [fundef_cong]:
  "xs = ys \<Longrightarrow> (\<And>x. x \<in> set ys \<Longrightarrow> f x = g x) \<Longrightarrow> rmap f xs = rmap g ys"
  by (induction ys arbitrary: xs) auto

lemma rmap_Inr: "(\<And>x. x \<in> set xs \<Longrightarrow> f x = Inr (g x)) \<Longrightarrow> rmap f xs = Inr (map g xs)"
  by (induction xs) auto

lemma rmap_Inl_all:
  "(\<And>x e'. x \<in> set xs \<Longrightarrow> f x = Inl e' \<Longrightarrow> e' = e) \<Longrightarrow> \<exists>x \<in> set xs. \<exists>e'. f x = Inl e' \<Longrightarrow>
   rmap f xs = Inl e"
proof (induction xs)
  case (Cons x xs)
  show ?case
  proof (cases "f x")
    case (Inl e')
    then have "e' = e" using Cons.prems(1) [of x e'] by simp
    with Inl show ?thesis by simp
  next
    case (Inr y)
    then have "rmap f xs = Inl e" using Cons by auto
    with Inr show ?thesis by simp
  qed
qed simp

lemma length_rmap: "rmap f xs = Inr ys \<Longrightarrow> length ys = length xs"
  by (induction xs arbitrary: ys) auto

lemma rmap_nth: "rmap f xs = Inr ys \<Longrightarrow> i < length xs \<Longrightarrow> f (xs ! i) = Inr (ys ! i)"
  by (induction xs arbitrary: ys i) (auto simp: nth_Cons split: nat.splits)

section \<open>Integer ranges\<close>

text \<open>
  \<open>int\<close> is 32 bits and \<open>int64_t\<close>/\<open>long long\<close> 64 bits on the two platforms the
  repository builds for; PostgreSQL's \<open>bigint\<close> has the same 64-bit range.
\<close>

definition in_i32 :: "int \<Rightarrow> bool" where
  "in_i32 n \<longleftrightarrow> - (2 ^ 31) \<le> n \<and> n < 2 ^ 31"

definition in_i64 :: "int \<Rightarrow> bool" where
  "in_i64 n \<longleftrightarrow> - (2 ^ 63) \<le> n \<and> n < 2 ^ 63"

text \<open>C++ addition and multiplication of signed integers: an overflow is undefined.\<close>

definition cpp_int :: "int \<Rightarrow> int res" where
  "cpp_int n = (if in_i32 n then Inr n else Inl (Undefined ''int overflow''))"

definition cpp_int64 :: "int \<Rightarrow> int res" where
  "cpp_int64 n = (if in_i64 n then Inr n else Inl (Undefined ''int64_t overflow''))"

text \<open>SQL arithmetic on \<open>bigint\<close>: an overflow fails the statement.\<close>

definition sql_bigint :: "int \<Rightarrow> int res" where
  "sql_bigint n = (if in_i64 n then Inr n else Inl (DbFailure ''bigint out of range''))"

lemma sql_bigint_Inr: "sql_bigint n = Inr m \<longleftrightarrow> m = n \<and> in_i64 n"
  by (auto simp: sql_bigint_def)

lemma cpp_int64_Inr: "cpp_int64 n = Inr m \<longleftrightarrow> m = n \<and> in_i64 n"
  by (auto simp: cpp_int64_def)

lemma cpp_int_Inr: "cpp_int n = Inr m \<longleftrightarrow> m = n \<and> in_i32 n"
  by (auto simp: cpp_int_def)

lemmas range_res = sql_bigint_Inr cpp_int64_Inr cpp_int_Inr

section \<open>Lists\<close>

lemma sorted_wrt_less_distinct: "sorted_wrt (<) (xs :: 'a :: linorder list) \<Longrightarrow> distinct xs"
  by (induction xs) auto

lemma map_of_filter_other:
  "k \<noteq> j \<Longrightarrow> map_of (filter (\<lambda>p. fst p \<noteq> j) xs) k = map_of xs k"
  by (induction xs) auto

lemma map_of_filter_same: "map_of (filter (\<lambda>p. fst p \<noteq> j) xs) j = None"
  by (induction xs) auto

lemma dropWhile_none: "\<forall>c \<in> set s. \<not> P c \<Longrightarrow> dropWhile P s = s \<and> dropWhile P (rev s) = rev s"
  by (metis dropWhile_eq_self_iff list.set_sel(1) set_rev)

lemma takeWhile_to: "x \<notin> set k \<Longrightarrow> takeWhile (\<lambda>c. c \<noteq> x) (k @ x # v) = k"
  "x \<notin> set k \<Longrightarrow> dropWhile (\<lambda>c. c \<noteq> x) (k @ x # v) = x # v"
  by (induction k) auto

text \<open>The first row a condition finds, in a table changed in place.\<close>

lemma find_map_inv:
  "(\<And>r. Q (g r) = Q r) \<Longrightarrow> List.find Q (map g xs) = map_option g (List.find Q xs)"
  by (induction xs) auto

lemma find_unique:
  assumes "distinct (map key xs)" "\<And>r. P r \<Longrightarrow> key r = k"
  shows "List.find P xs =
    (case List.find (\<lambda>r. key r = k) xs of None \<Rightarrow> None | Some r \<Rightarrow> if P r then Some r else None)"
  using assms
proof (induction xs)
  case (Cons x xs)
  show ?case
  proof (cases "key x = k")
    case True
    have "\<not> P r" if "r \<in> set xs" for r
      using Cons.prems that True by (auto simp: image_iff)
    then have "List.find P xs = None" by (simp add: find_None_iff)
    with True show ?thesis by simp
  next
    case False
    then have "\<not> P x" using Cons.prems(2) by blast
    with False Cons show ?thesis by simp
  qed
qed simp

lemma length_filter_mono:
  "(\<And>x. x \<in> set xs \<Longrightarrow> P x \<Longrightarrow> Q x) \<Longrightarrow> length (filter P xs) \<le> length (filter Q xs)"
  by (induction xs) auto

lemma find_SomeD: "List.find P xs = Some r \<Longrightarrow> r \<in> set xs \<and> P r"
  by (auto simp: find_Some_iff)

end
