(* ===== verification/CppTypes.thy ===== *)
theory CppTypes
  imports Prelude
begin

text \<open>
  The value types and string utilities of \<open>components/foundation/util/types.h\<close> and
  \<open>types.cpp\<close>: the key/value table (\<open>std::map<std::string, std::string>\<close>), query results,
  number/string conversion, URL query encoding, line-end normalisation and the FNV-1a hash.
  A \<open>std::string\<close> is a list of bytes (\<open>char\<close>); its order is the unsigned byte order that
  \<open>std::map\<close> sorts its keys by. \<open>URLEncode\<close> and \<open>URLDecode\<close> only call Boost.URL
  and are parameters where they are used.
\<close>

section \<open>The ordered string map\<close>

text \<open>
  The contract of \<open>std::map\<close> the code relies on: \<open>insert\<close> keeps an existing entry,
  \<open>operator[]=\<close> overwrites it, \<open>erase\<close> removes it, and no operation touches another key.
\<close>

locale std_map =
  fixes ok :: "'m \<Rightarrow> bool"
    and empty :: "'m"
    and find :: "'m \<Rightarrow> 'k \<Rightarrow> 'v option"
    and ins :: "'k \<Rightarrow> 'v \<Rightarrow> 'm \<Rightarrow> 'm"
    and asg :: "'k \<Rightarrow> 'v \<Rightarrow> 'm \<Rightarrow> 'm"
    and del :: "'k \<Rightarrow> 'm \<Rightarrow> 'm"
  assumes ok_empty: "ok empty"
    and ok_ins: "ok m \<Longrightarrow> ok (ins k v m)"
    and ok_asg: "ok m \<Longrightarrow> ok (asg k v m)"
    and ok_del: "ok m \<Longrightarrow> ok (del k m)"
    and find_empty: "find empty k = None"
    and find_ins: "ok m \<Longrightarrow>
      find (ins k v m) j = (if j = k \<and> find m k = None then Some v else find m j)"
    and find_asg: "ok m \<Longrightarrow> find (asg k v m) j = (if j = k then Some v else find m j)"
    and find_del: "ok m \<Longrightarrow> find (del k m) j = (if j = k then None else find m j)"
begin

lemma ok_fold_ins: "ok m \<Longrightarrow> ok (fold (\<lambda>(k, v). ins k v) kvs m)"
  by (induction kvs arbitrary: m) (auto simp: ok_ins)

lemma find_fold_ins:
  "ok m \<Longrightarrow> find (fold (\<lambda>(k, v). ins k v) kvs m) j =
     (case find m j of Some v \<Rightarrow> Some v | None \<Rightarrow> map_of kvs j)"
proof (induction kvs arbitrary: m)
  case Nil
  then show ?case by (simp split: option.split)
next
  case (Cons kv kvs)
  then show ?case
    by (cases kv) (auto simp: ok_ins find_ins split: option.split)
qed

lemma ok_fold_asg: "ok m \<Longrightarrow> ok (fold (\<lambda>(k, v). asg k v) kvs m)"
  by (induction kvs arbitrary: m) (auto simp: ok_asg)

end

type_synonym KeyValueTable = "(string \<times> string) list"
type_synonym StringArray = "string list"
type_synonym StringTable = "StringArray list"

text \<open>The map as its entries in key order.\<close>

fun kv_insert :: "string \<Rightarrow> 'v \<Rightarrow> (string \<times> 'v) list \<Rightarrow> (string \<times> 'v) list" where
  "kv_insert k v [] = [(k, v)]"
| "kv_insert k v ((k', v') # t) =
     (if k < k' then (k, v) # (k', v') # t
      else if k = k' then (k', v') # t
      else (k', v') # kv_insert k v t)"

fun kv_assign :: "string \<Rightarrow> 'v \<Rightarrow> (string \<times> 'v) list \<Rightarrow> (string \<times> 'v) list" where
  "kv_assign k v [] = [(k, v)]"
| "kv_assign k v ((k', v') # t) =
     (if k < k' then (k, v) # (k', v') # t
      else if k = k' then (k, v) # t
      else (k', v') # kv_assign k v t)"

definition kv_erase :: "string \<Rightarrow> (string \<times> 'v) list \<Rightarrow> (string \<times> 'v) list" where
  "kv_erase k t = filter (\<lambda>p. fst p \<noteq> k) t"

definition kvt_ok :: "(string \<times> 'v) list \<Rightarrow> bool" where
  "kvt_ok t \<longleftrightarrow> sorted_wrt (<) (map fst t)"

lemma kvt_ok_Nil [simp]: "kvt_ok []"
  by (simp add: kvt_ok_def)

lemma kvt_ok_Cons [simp]: "kvt_ok ((k, v) # t) \<longleftrightarrow> (\<forall>k' \<in> fst ` set t. k < k') \<and> kvt_ok t"
  by (simp add: kvt_ok_def)

lemma kvt_ok_distinct: "kvt_ok t \<Longrightarrow> distinct (map fst t)"
  unfolding kvt_ok_def by (rule sorted_wrt_less_distinct)

lemma keys_kv_insert: "fst ` set (kv_insert k v t) = insert k (fst ` set t)"
  by (induction k v t rule: kv_insert.induct) (simp_all add: insert_commute)

lemma keys_kv_assign: "fst ` set (kv_assign k v t) = insert k (fst ` set t)"
  by (induction k v t rule: kv_assign.induct) (simp_all add: insert_commute)

lemma kvt_ok_insert: "kvt_ok t \<Longrightarrow> kvt_ok (kv_insert k v t)"
proof (induction t)
  case (Cons p t)
  then show ?case
    by (cases p) (auto simp: keys_kv_insert simp del: set_map intro: less_trans)
qed simp

lemma kvt_ok_assign: "kvt_ok t \<Longrightarrow> kvt_ok (kv_assign k v t)"
proof (induction t)
  case (Cons p t)
  then show ?case
    by (cases p) (auto simp: keys_kv_assign simp del: set_map intro: less_trans)
qed simp

lemma kvt_ok_erase: "kvt_ok t \<Longrightarrow> kvt_ok (kv_erase k t)"
  by (induction t) (auto simp: kv_erase_def)

lemma map_of_none_less: "\<forall>k' \<in> fst ` set t. (k :: string) < k' \<Longrightarrow> map_of t k = None"
  by (force simp: map_of_eq_None_iff)

lemma map_of_kv_insert:
  "kvt_ok t \<Longrightarrow>
   map_of (kv_insert k v t) j = (if j = k \<and> map_of t k = None then Some v else map_of t j)"
proof (induction t)
  case (Cons p t)
  obtain k' v' where p: "p = (k', v')" by (cases p)
  have "k < k' \<Longrightarrow> map_of (p # t) k = None"
    using Cons.prems p by (intro map_of_none_less) auto
  then show ?case using Cons p by auto
qed simp

lemma map_of_kv_assign: "kvt_ok t \<Longrightarrow> map_of (kv_assign k v t) j = (if j = k then Some v else map_of t j)"
  by (induction t) auto

lemma map_of_kv_erase: "map_of (kv_erase k t) j = (if j = k then None else map_of t j)"
  by (simp add: kv_erase_def map_of_filter_other map_of_filter_same)

interpretation kvt: std_map kvt_ok "[]" map_of kv_insert kv_assign kv_erase
  by unfold_locales
    (simp_all add: kvt_ok_insert kvt_ok_assign kvt_ok_erase map_of_kv_insert map_of_kv_assign
      map_of_kv_erase)

text \<open>A table in key order is determined by its entries.\<close>

lemma kv_insert_below: "\<forall>k' \<in> fst ` set t. k' < k \<Longrightarrow> kv_insert k v t = t @ [(k, v)]"
  by (induction t) (auto dest: less_asym)

lemma fold_insert_append:
  "kvt_ok t \<Longrightarrow> (\<forall>k \<in> fst ` set acc. \<forall>k' \<in> fst ` set t. k < k') \<Longrightarrow>
   fold (\<lambda>(k, v). kv_insert k v) t acc = acc @ t"
proof (induction t arbitrary: acc)
  case (Cons p t)
  obtain k v where p: "p = (k, v)" by (cases p)
  have "kv_insert k v acc = acc @ [(k, v)]"
    using Cons.prems p by (intro kv_insert_below) auto
  then show ?case using Cons p by auto
qed simp

lemma fold_insert_id: "kvt_ok t \<Longrightarrow> fold (\<lambda>(k, v). kv_insert k v) t [] = t"
  by (simp add: fold_insert_append)

section \<open>Key/value tables and query results\<close>

definition MakeKeyValueTable :: "(string \<times> string) list \<Rightarrow> KeyValueTable" where
  "MakeKeyValueTable items = fold (\<lambda>(k, v). kv_insert k v) items []"

definition AddToKeyValueTable :: "KeyValueTable \<Rightarrow> string \<Rightarrow> string \<Rightarrow> KeyValueTable" where
  "AddToKeyValueTable t k v = kv_insert k v t"

record DataResults =
  sortedColumnNames :: StringArray
  dataTable :: StringTable

definition emptyDataResults :: DataResults where
  "emptyDataResults = \<lparr>sortedColumnNames = [], dataTable = []\<rparr>"

fun index_from :: "nat \<Rightarrow> string list \<Rightarrow> string \<Rightarrow> int" where
  "index_from i [] c = -1"
| "index_from i (x # xs) c = (if x = c then int i else index_from (Suc i) xs c)"

definition IndexOfColumn :: "DataResults \<Rightarrow> string \<Rightarrow> int" where
  "IndexOfColumn d c = index_from 0 (sortedColumnNames d) c"

text \<open>The unchecked \<open>operator[]\<close> of a vector.\<close>

definition vec_at :: "'a list \<Rightarrow> nat \<Rightarrow> 'a res" where
  "vec_at xs i = (if i < length xs then Inr (xs ! i) else Inl (Undefined ''vector index''))"

text \<open>
  \<open>MakeDataResultsParamterized\<close> with the accessors of \<open>MakeDataResults\<close>: the map from
  column name to its first position, then every row read in the map's order.
\<close>

definition sortedColumns :: "StringArray \<Rightarrow> (string \<times> nat) list" where
  "sortedColumns cols = fold (\<lambda>(c, i). kv_insert c i) (zip cols [0..<length cols]) []"

definition MakeDataResults :: "StringArray \<Rightarrow> StringTable \<Rightarrow> DataResults res" where
  "MakeDataResults cols tab =
     (let sc = sortedColumns cols in
      rbind (rmap (\<lambda>row. rmap (\<lambda>(_, i). vec_at row i) sc) tab)
        (\<lambda>rows. Inr \<lparr>sortedColumnNames = map fst sc, dataTable = rows\<rparr>))"

definition MakeDataResultsFromKeyValueTable :: "KeyValueTable \<Rightarrow> DataResults" where
  "MakeDataResultsFromKeyValueTable t =
     \<lparr>sortedColumnNames = map fst t,
      dataTable = (if t = [] then [] else [map snd t])\<rparr>"

definition MakeDataResultsFromKeyValueTableArray :: "KeyValueTable list \<Rightarrow> DataResults res" where
  "MakeDataResultsFromKeyValueTableArray a =
     (case a of [] \<Rightarrow> Inr emptyDataResults
      | first # _ \<Rightarrow>
        (let keySet = map fst first in
         rbind (rmap (\<lambda>t. rmap (\<lambda>(k, v). if k \<in> set keySet then Inr v
                                else Inl (RuntimeError ''Inconsistent keys in KeyValueTableArray'')) t) a)
           (\<lambda>st. MakeDataResults keySet st)))"

definition GetDataResultsValue :: "DataResults \<Rightarrow> string \<Rightarrow> nat \<Rightarrow> string" where
  "GetDataResultsValue d c index =
     (let col = IndexOfColumn d c in
      if col < 0 then []
      else if length (dataTable d) \<le> index then []
      else let row = dataTable d ! index in
        if length row \<le> nat col then [] else row ! nat col)"

definition GetDataResultsValueIsEmpty :: "DataResults \<Rightarrow> string \<Rightarrow> nat \<Rightarrow> bool" where
  "GetDataResultsValueIsEmpty d c index = (GetDataResultsValue d c index = [])"

definition KeyValueTableArrayFromDataResults :: "DataResults \<Rightarrow> KeyValueTable list" where
  "KeyValueTableArrayFromDataResults d =
     map (\<lambda>row. fold (\<lambda>(k, v). kv_insert k v) (zip (sortedColumnNames d) row) []) (dataTable d)"

definition StringArrayFromDataResultsColumn :: "DataResults \<Rightarrow> nat \<Rightarrow> StringArray" where
  "StringArrayFromDataResultsColumn d columnIndex =
     (if length (sortedColumnNames d) \<le> columnIndex then []
      else map (\<lambda>row. if columnIndex < length row then row ! columnIndex else []) (dataTable d))"

definition StringArrayFromKeyValueTableArrayColumn ::
  "KeyValueTable list \<Rightarrow> nat \<Rightarrow> StringArray res" where
  "StringArrayFromKeyValueTableArrayColumn a columnIndex =
     (case a of [] \<Rightarrow> Inr []
      | first # _ \<Rightarrow>
        if length first \<le> columnIndex then Inl (OutOfRange ''Invalid column index'')
        else let key = fst (first ! columnIndex) in
          rmap (\<lambda>t. case map_of t key of
                 None \<Rightarrow> Inl (RuntimeError ''Inconsistent keys in KeyValueTableArray'')
               | Some v \<Rightarrow> Inr v) a)"

fun StringArrayToCommaSeparatedString :: "StringArray \<Rightarrow> string" where
  "StringArrayToCommaSeparatedString [] = []"
| "StringArrayToCommaSeparatedString [s] = s"
| "StringArrayToCommaSeparatedString (s # ss) =
     s @ '', '' @ StringArrayToCommaSeparatedString ss"


section \<open>Numbers and strings\<close>

text \<open>\<open>std::stringstream << n\<close>: the decimal digits, with a minus sign below zero.\<close>

definition digit_char :: "nat \<Rightarrow> char" where
  "digit_char d = char_of (48 + d)"

fun show_nat :: "nat \<Rightarrow> string" where
  "show_nat n = (if n < 10 then [digit_char n] else show_nat (n div 10) @ [digit_char (n mod 10)])"

declare show_nat.simps [simp del]

definition StringFromInt :: "int \<Rightarrow> string" where
  "StringFromInt n = (if n < 0 then CHR ''-'' # show_nat (nat (- n)) else show_nat (nat n))"

definition is_digit :: "char \<Rightarrow> bool" where
  "is_digit c \<longleftrightarrow> 48 \<le> (of_char c :: nat) \<and> (of_char c :: nat) \<le> 57"

definition digit_val :: "char \<Rightarrow> nat" where
  "digit_val c = of_char c - 48"

definition is_space :: "char \<Rightarrow> bool" where
  "is_space c \<longleftrightarrow> (let b = (of_char c :: nat) in b = 32 \<or> (9 \<le> b \<and> b \<le> 13))"

fun read_digits :: "nat \<Rightarrow> string \<Rightarrow> nat" where
  "read_digits acc [] = acc"
| "read_digits acc (c # cs) = (if is_digit c then read_digits (10 * acc + digit_val c) cs else acc)"

text \<open>
  The number \<open>std::stoi\<close> and \<open>std::stoll\<close> read: leading white space, an optional sign, then
  digits up to the first other character. No digit throws \<open>std::invalid_argument\<close>, a number
  outside the target type \<open>std::out_of_range\<close>.
\<close>

definition parse_int :: "string \<Rightarrow> string \<Rightarrow> int res" where
  "parse_int who s0 =
     (let s1 = dropWhile is_space s0;
          (neg, s2) = (case s1 of [] \<Rightarrow> (False, [])
             | c # cs \<Rightarrow> if c = CHR ''-'' then (True, cs)
                         else if c = CHR ''+'' then (False, cs) else (False, c # cs))
      in if s2 \<noteq> [] \<and> is_digit (hd s2)
         then Inr (if neg then - int (read_digits 0 s2) else int (read_digits 0 s2))
         else Inl (InvalidArgument who))"

definition stoll :: "string \<Rightarrow> int res" where
  "stoll s = rbind (parse_int ''stoll'' s) (\<lambda>n. if in_i64 n then Inr n else Inl (OutOfRange ''stoll''))"

definition stoi :: "string \<Rightarrow> int res" where
  "stoi s = rbind (parse_int ''stoi'' s) (\<lambda>n. if in_i32 n then Inr n else Inl (OutOfRange ''stoi''))"

definition GetDataResultsValueAsInt :: "DataResults \<Rightarrow> string \<Rightarrow> nat \<Rightarrow> int res" where
  "GetDataResultsValueAsInt d c i = stoi (GetDataResultsValue d c i)"

definition GetDataResultsValueAsInt64 :: "DataResults \<Rightarrow> string \<Rightarrow> nat \<Rightarrow> int res" where
  "GetDataResultsValueAsInt64 d c i = stoll (GetDataResultsValue d c i)"

lemma of_char_digit_char: "d < 10 \<Longrightarrow> (of_char (digit_char d) :: nat) = 48 + d"
  by (simp add: digit_char_def of_char_of)

lemma is_digit_digit_char: "d < 10 \<Longrightarrow> is_digit (digit_char d)"
  by (simp add: is_digit_def of_char_digit_char)

lemma digit_val_digit_char: "d < 10 \<Longrightarrow> digit_val (digit_char d) = d"
  by (simp add: digit_val_def of_char_digit_char)

lemma show_nat_digits: "\<forall>c \<in> set (show_nat n). is_digit c"
proof (induction n rule: show_nat.induct)
  case (1 n)
  then show ?case
    by (cases "n < 10") (simp_all add: show_nat.simps [of n] is_digit_digit_char)
qed

lemma show_nat_nonempty: "show_nat n \<noteq> []"
  by (subst show_nat.simps) simp

lemma read_digits_append:
  "\<forall>c \<in> set xs. is_digit c \<Longrightarrow> read_digits a (xs @ ys) = read_digits (read_digits a xs) ys"
  by (induction xs arbitrary: a) auto

lemma read_digits_show_nat: "read_digits 0 (show_nat n) = n"
proof (induction n rule: show_nat.induct)
  case (1 n)
  show ?case
  proof (cases "n < 10")
    case True
    then show ?thesis
      by (simp add: show_nat.simps [of n] is_digit_digit_char digit_val_digit_char)
  next
    case False
    then have "read_digits 0 (show_nat n)
        = read_digits (read_digits 0 (show_nat (n div 10))) [digit_char (n mod 10)]"
      by (simp add: show_nat.simps [of n] read_digits_append show_nat_digits)
    with False 1 show ?thesis
      by (simp add: is_digit_digit_char digit_val_digit_char)
  qed
qed

lemma is_digit_not_space: "is_digit c \<Longrightarrow> \<not> is_space c"
  by (auto simp: is_digit_def is_space_def Let_def)

lemma is_digit_not_sign: "is_digit c \<Longrightarrow> c \<noteq> CHR ''-'' \<and> c \<noteq> CHR ''+''"
  by (auto simp: is_digit_def)

lemma parse_int_StringFromInt: "parse_int who (StringFromInt n) = Inr n"
proof -
  obtain c cs where sh: "show_nat (nat \<bar>n\<bar>) = c # cs"
    using show_nat_nonempty by (meson list.exhaust)
  have dc: "is_digit c"
    using show_nat_digits [of "nat \<bar>n\<bar>"] sh by simp
  have rd: "read_digits 0 (c # cs) = nat \<bar>n\<bar>"
    using read_digits_show_nat [of "nat \<bar>n\<bar>"] sh by simp
  show ?thesis
  proof (cases "n < 0")
    case True
    then have "StringFromInt n = CHR ''-'' # c # cs"
      using sh by (simp add: StringFromInt_def)
    moreover have "\<not> is_space CHR ''-''" by (simp add: is_space_def)
    ultimately show ?thesis
      using True dc rd by (simp add: parse_int_def)
  next
    case False
    then have "StringFromInt n = c # cs"
      using sh by (simp add: StringFromInt_def)
    then show ?thesis
      using False dc rd is_digit_not_space [OF dc] is_digit_not_sign [OF dc]
      by (simp add: parse_int_def)
  qed
qed

section \<open>Tables and query results\<close>

lemma vec_at_row: "k \<le> length row \<Longrightarrow> rmap (vec_at row) [k..<length row] = Inr (drop k row)"
proof (induction "length row - k" arbitrary: k)
  case (Suc n)
  then have "k < length row" by simp
  then have "[k..<length row] = k # [Suc k..<length row]" "drop k row = row ! k # drop (Suc k) row"
    by (simp_all add: upt_conv_Cons Cons_nth_drop_Suc)
  with Suc \<open>k < length row\<close> show ?case by (simp add: vec_at_def)
qed simp

lemma sortedColumns_sorted: "sorted_wrt (<) cols \<Longrightarrow> sortedColumns cols = zip cols [0..<length cols]"
  unfolding sortedColumns_def by (rule fold_insert_id) (simp add: kvt_ok_def)

lemma row_in_order:
  "sorted_wrt (<) cols \<Longrightarrow> rmap (\<lambda>(_, i). vec_at row i) (sortedColumns cols) = rmap (vec_at row) [0..<length cols]"
proof -
  assume "sorted_wrt (<) cols"
  moreover have "rmap (\<lambda>(_, i). vec_at row i) (zip xs ns) = rmap (vec_at row) ns"
    if "length xs = length ns" for xs :: "string list" and ns
    using that by (induction xs ns rule: list_induct2) auto
  ultimately show ?thesis by (simp add: sortedColumns_sorted)
qed

lemma table_values:
  "\<forall>t \<in> set a. set (map fst t) \<subseteq> set ks \<Longrightarrow>
   rmap (\<lambda>t. rmap (\<lambda>(k, v). if k \<in> set ks then Inr v else Inl e) t) a = Inr (map (map snd) a)"
  by (intro rmap_Inr) (force intro: rmap_Inr)

lemma short_row:
  "length row < n \<Longrightarrow> rmap (vec_at row) [0..<n] = Inl (Undefined ''vector index'')"
  by (intro rmap_Inl_all) (auto simp: vec_at_def split: if_splits)

section \<open>Properties\<close>

text \<open>
  A number printed by \<open>StringFromInt\<close> is read back by \<open>std::stoll\<close>: the representation of
  every 64-bit column value as text loses nothing.
\<close>

theorem stoll_StringFromInt:
  assumes "in_i64 n"
  shows "stoll (StringFromInt n) = Inr n"
  using assms by (simp add: stoll_def parse_int_StringFromInt)

theorem stoll_StringFromInt_witness: "stoll (StringFromInt (- 9223372036854775808)) = Inr (- 9223372036854775808)"
  by (rule stoll_StringFromInt) (simp add: in_i64_def)

text \<open>
  Rows with the same columns survive the trip through a \<open>DataResults\<close> and back: no column
  is lost, swapped or renamed.
\<close>

theorem KeyValueTableArray_roundtrip:
  assumes "\<forall>t \<in> set a. kvt_ok t \<and> map fst t = ks"
  shows "\<exists>d. MakeDataResultsFromKeyValueTableArray a = Inr d \<and> KeyValueTableArrayFromDataResults d = a"
proof (cases a)
  case Nil
  then show ?thesis
    by (simp add: MakeDataResultsFromKeyValueTableArray_def KeyValueTableArrayFromDataResults_def
        emptyDataResults_def)
next
  case (Cons first rest)
  have ks: "map fst first = ks" "sorted_wrt (<) ks"
    using assms Cons by (auto simp: kvt_ok_def)
  have vals: "rmap (\<lambda>t. rmap (\<lambda>(k, v). if k \<in> set ks then Inr v
        else Inl (RuntimeError ''Inconsistent keys in KeyValueTableArray'')) t) a = Inr (map (map snd) a)"
    using assms by (intro table_values) auto
  have len: "length t = length ks" if "t \<in> set a" for t
    using assms that by (metis length_map)
  have rows: "rmap (\<lambda>row. rmap (\<lambda>(_, i). vec_at row i) (sortedColumns ks)) (map (map snd) a) = Inr (map id (map (map snd) a))"
  proof (intro rmap_Inr)
    fix row assume "row \<in> set (map (map snd) a)"
    then have "length row = length ks" using len by auto
    then show "rmap (\<lambda>(_, i). vec_at row i) (sortedColumns ks) = Inr (id row)"
      using vec_at_row [of 0 row] by (simp add: row_in_order [OF ks(2)])
  qed
  have cols: "map fst (sortedColumns ks) = ks"
    by (simp add: sortedColumns_sorted [OF ks(2)])
  have "fold (\<lambda>(k, v). kv_insert k v) (zip ks (map snd t)) [] = t" if "t \<in> set a" for t
  proof -
    have "zip ks (map snd t) = t" using assms that by (metis zip_map_fst_snd)
    then show ?thesis using assms that fold_insert_id by metis
  qed
  then have back_again: "map (\<lambda>row. fold (\<lambda>(k, v). kv_insert k v) (zip ks row) []) (map (map snd) a) = a"
    by (simp add: map_idI)
  show ?thesis
    using Cons vals rows back_again cols ks(1)
    by (simp add: MakeDataResultsFromKeyValueTableArray_def MakeDataResults_def
        KeyValueTableArrayFromDataResults_def Let_def)
qed

theorem KeyValueTableArray_roundtrip_witness:
  "\<exists>d. MakeDataResultsFromKeyValueTableArray [[(''a'', ''1''), (''b'', ''2'')], [(''a'', ''3''), (''b'', ''4'')]] = Inr d \<and>
       KeyValueTableArrayFromDataResults d = [[(''a'', ''1''), (''b'', ''2'')], [(''a'', ''3''), (''b'', ''4'')]]"
  by (rule KeyValueTableArray_roundtrip [where ks = "[''a'', ''b'']"]) simp

text \<open>
  The key check of \<open>MakeDataResultsFromKeyValueTableArray\<close> only asks that a row has no key
  the first row lacks. A later row with fewer keys passes it, and then a value is read past the end
  of its row: undefined behaviour, where the check means to throw.
\<close>

theorem missing_key_undefined:
  assumes "kvt_ok first" "\<forall>t \<in> set rest. set (map fst t) \<subseteq> set (map fst first)"
    and "\<exists>t \<in> set rest. length t < length first"
  shows "MakeDataResultsFromKeyValueTableArray (first # rest) = Inl (Undefined ''vector index'')"
proof -
  let ?ks = "map fst first"
  have srt: "sorted_wrt (<) ?ks" using assms(1) by (simp add: kvt_ok_def)
  have vals: "rmap (\<lambda>t. rmap (\<lambda>(k, v). if k \<in> set ?ks then Inr v
        else Inl (RuntimeError ''Inconsistent keys in KeyValueTableArray'')) t) (first # rest)
      = Inr (map (map snd) (first # rest))"
    using assms(2) by (intro table_values) auto
  obtain t where t: "t \<in> set rest" "length t < length first" using assms(3) by blast
  have "rmap (\<lambda>row. rmap (\<lambda>(_, i). vec_at row i) (sortedColumns ?ks)) (map (map snd) (first # rest))
      = Inl (Undefined ''vector index'')"
  proof (rule rmap_Inl_all)
    fix row e' assume "rmap (\<lambda>(_, i). vec_at row i) (sortedColumns ?ks) = Inl e'"
    then have e: "rmap (vec_at row) [0..<length ?ks] = Inl e'" by (simp only: row_in_order [OF srt])
    have "length row < length ?ks"
    proof (rule ccontr)
      assume "\<not> length row < length ?ks"
      then have "rmap (vec_at row) [0..<length ?ks] = Inr (map ((!) row) [0..<length ?ks])"
        by (intro rmap_Inr) (simp add: vec_at_def)
      with e show False by simp
    qed
    with e short_row show "e' = Undefined ''vector index''" by fastforce
  next
    have "rmap (\<lambda>(_, i). vec_at (map snd t) i) (sortedColumns ?ks) = Inl (Undefined ''vector index'')"
      unfolding row_in_order [OF srt] using t(2) by (intro short_row) simp
    then show "\<exists>x \<in> set (map (map snd) (first # rest)). \<exists>e'.
        rmap (\<lambda>(_, i). vec_at x i) (sortedColumns ?ks) = Inl e'"
      using t(1) by auto
  qed
  then show ?thesis
    using vals by (simp only: MakeDataResultsFromKeyValueTableArray_def MakeDataResults_def Let_def
        list.case rbind_Inr rbind_Inl)
qed

theorem missing_key_undefined_witness:
  "MakeDataResultsFromKeyValueTableArray [[(''a'', ''1''), (''b'', ''2'')], [(''a'', ''3'')]]
     = Inl (Undefined ''vector index'')"
  by (rule missing_key_undefined) auto

end
