(* ===== verification/StringUtil.thy ===== *)
theory StringUtil
  imports CppTypes
begin

unbundle bit_operations_syntax

text \<open>
  The string utilities of \<open>components/foundation/util/types.cpp\<close> (case folding, trimming,
  template substitution, query-value encoding, splitting, line ends), the FNV-1a hash of
  \<open>types.h\<close> on 64-bit words, and PostgreSQL's hex form of \<open>bytea\<close>
  (\<open>components/data/sql_util/database_access/bytea.cpp\<close>).
\<close>

section \<open>Case, white space, booleans\<close>

text \<open>\<open>std::tolower\<close> and \<open>std::isspace\<close> in the C locale, the only one the servers run in.\<close>

definition to_lower :: "char \<Rightarrow> char" where
  "to_lower c = (let b = (of_char c :: nat) in if 65 \<le> b \<and> b \<le> 90 then char_of (b + 32) else c)"

definition StringToLower :: "string \<Rightarrow> string" where
  "StringToLower s = map to_lower s"

definition StringTrim :: "string \<Rightarrow> string" where
  "StringTrim s = rev (dropWhile is_space (rev (dropWhile is_space s)))"

definition StringToBool :: "string \<Rightarrow> bool" where
  "StringToBool s = (let l = StringToLower s in l = ''t'' \<or> l = ''true'' \<or> l = ''1'')"

lemma of_char_lt [simp]: "(of_char c :: nat) < 256"
  by (metis nat_of_char_less_256)

lemma to_lower_idem: "to_lower (to_lower c) = to_lower c"
  by (auto simp: to_lower_def Let_def of_char_of)

lemma StringToLower_idem: "StringToLower (StringToLower s) = StringToLower s"
  by (simp add: StringToLower_def to_lower_idem)

text \<open>The comparison of secrets in \<open>platform/business_logic/auth/auth_helper.cpp\<close>.\<close>

definition ConstantTimeEqual :: "string \<Rightarrow> string \<Rightarrow> bool" where
  "ConstantTimeEqual a b = (if length a \<noteq> length b then False else if a = [] then True else a = b)"

lemma ConstantTimeEqual_iff: "ConstantTimeEqual a b \<longleftrightarrow> a = b"
  by (auto simp: ConstantTimeEqual_def)

section \<open>Searching and template substitution\<close>

fun starts_with :: "string \<Rightarrow> string \<Rightarrow> bool" where
  "starts_with [] s = True"
| "starts_with (p # ps) [] = False"
| "starts_with (p # ps) (c # cs) = (p = c \<and> starts_with ps cs)"

text \<open>\<open>std::string::find\<close>: the first position the needle occurs at; \<open>None\<close> is \<open>npos\<close>.\<close>

fun find_str :: "string \<Rightarrow> string \<Rightarrow> nat option" where
  "find_str p [] = (if p = [] then Some 0 else None)"
| "find_str p (c # cs) =
     (if starts_with p (c # cs) then Some 0 else map_option Suc (find_str p cs))"

lemma starts_with_iff: "starts_with p s \<longleftrightarrow> (\<exists>r. s = p @ r)"
  by (induction p s rule: starts_with.induct) auto

lemma find_str_Some: "find_str p s = Some i \<Longrightarrow> i + length p \<le> length s \<and> take (length p) (drop i s) = p"
proof (induction s arbitrary: i)
  case Nil
  then show ?case by (auto split: if_splits)
next
  case (Cons c cs)
  show ?case
  proof (cases "starts_with p (c # cs)")
    case True
    then obtain r where "c # cs = p @ r" by (auto simp: starts_with_iff)
    then have "length p \<le> length (c # cs) \<and> take (length p) (c # cs) = p" by simp
    with True Cons.prems show ?thesis by simp
  next
    case False
    with Cons.prems obtain j where "find_str p cs = Some j" "i = Suc j" by auto
    with Cons.IH show ?thesis by auto
  qed
qed

lemma find_str_least: "find_str p s = Some i \<Longrightarrow> j < i \<Longrightarrow> \<not> starts_with p (drop j s)"
proof (induction s arbitrary: i j)
  case Nil
  then show ?case by (auto split: if_splits)
next
  case (Cons c cs)
  then show ?case by (cases j) (auto split: if_splits)
qed

lemma find_str_None: "find_str p s = None \<Longrightarrow> \<not> starts_with p (drop j s)"
proof (induction s arbitrary: j)
  case Nil
  then show ?case by (cases p) (auto split: if_splits)
next
  case (Cons c cs)
  then show ?case by (cases j) (auto split: if_splits)
qed

lemma find_str_shrink: "p \<noteq> [] \<Longrightarrow> find_str p s = Some i \<Longrightarrow> length s - (i + length p) < length s"
  by (drule find_str_Some) (cases p, auto)

text \<open>
  The replacement loop of \<open>FormatString\<close>: find the placeholder from the current position, put
  the value in its place and go on behind the value. What lies before the position is final.
\<close>

function replace_from :: "string \<Rightarrow> string \<Rightarrow> string \<Rightarrow> string" where
  "replace_from p v s =
     (if p = [] then s
      else case find_str p s of None \<Rightarrow> s
        | Some i \<Rightarrow> take i s @ v @ replace_from p v (drop (i + length p) s))"
  by pat_completeness auto
termination
  by (relation "measure (\<lambda>(p, v, s). length s)") (auto intro: find_str_shrink)

declare replace_from.simps [simp del]

definition FormatString :: "string \<Rightarrow> KeyValueTable \<Rightarrow> string" where
  "FormatString fmt t = foldl (\<lambda>r (k, v). replace_from (''{'' @ k @ ''}'') v r) fmt t"

text \<open>\<open>SplitString\<close> cuts at the first delimiter and drops it; without one, everything is left.\<close>

definition SplitString :: "string \<Rightarrow> string \<Rightarrow> string \<times> string" where
  "SplitString s d =
     (if d = [] then (s, [])
      else case find_str d s of None \<Rightarrow> (s, [])
        | Some pos \<Rightarrow> (take pos s, drop (pos + length d) s))"

lemma SplitString_join:
  assumes "find_str d s = Some i" "d \<noteq> []"
  shows "fst (SplitString s d) @ d @ snd (SplitString s d) = s"
proof -
  have "take (length d) (drop i s) = d" "i + length d \<le> length s"
    using find_str_Some [OF assms(1)] by auto
  then have "take i s @ d @ drop (i + length d) s = s"
    by (metis append_take_drop_id drop_drop add.commute)
  with assms show ?thesis by (simp add: SplitString_def)
qed

section \<open>Query-value encoding\<close>

definition hex_digit_upper :: "nat \<Rightarrow> char" where
  "hex_digit_upper n = ''0123456789ABCDEF'' ! n"

definition url_unreserved :: "char \<Rightarrow> bool" where
  "url_unreserved c \<longleftrightarrow>
     (let b = (of_char c :: nat) in
      (65 \<le> b \<and> b \<le> 90) \<or> (97 \<le> b \<and> b \<le> 122) \<or> (48 \<le> b \<and> b \<le> 57) \<or>
      c = CHR ''-'' \<or> c = CHR ''.'' \<or> c = CHR ''_'' \<or> c = CHR ''~'')"

definition URLEncodeQueryValue :: "string \<Rightarrow> string" where
  "URLEncodeQueryValue s =
     concat (map (\<lambda>c. if url_unreserved c then [c]
        else [CHR ''%'', hex_digit_upper (of_char c div 16), hex_digit_upper (of_char c mod 16)]) s)"

text \<open>Percent decoding as RFC 3986 defines it: the reference the encoder is measured against.\<close>

definition hex_value :: "char \<Rightarrow> nat option" where
  "hex_value c =
     (let b = (of_char c :: nat) in
      if 48 \<le> b \<and> b \<le> 57 then Some (b - 48)
      else if 97 \<le> b \<and> b \<le> 102 then Some (b - 97 + 10)
      else if 65 \<le> b \<and> b \<le> 70 then Some (b - 65 + 10)
      else None)"

fun pct_decode :: "string \<Rightarrow> string option" where
  "pct_decode [] = Some []"
| "pct_decode (c # cs) =
     (if c = CHR ''%'' then
        (case cs of h # l # rest \<Rightarrow>
           (case (hex_value h, hex_value l) of
              (Some a, Some b) \<Rightarrow> map_option ((#) (char_of (16 * a + b))) (pct_decode rest)
            | _ \<Rightarrow> None)
         | _ \<Rightarrow> None)
      else map_option ((#) c) (pct_decode cs))"

lemma hex_upper_all: "n < 16 \<Longrightarrow> hex_value (hex_digit_upper n) = Some n"
proof -
  have "\<forall>n \<in> set [0..<16]. hex_value (hex_digit_upper n) = Some n"
    by code_simp
  then show "n < 16 \<Longrightarrow> hex_value (hex_digit_upper n) = Some n" by simp
qed

lemma pct_not_unreserved: "url_unreserved c \<Longrightarrow> c \<noteq> CHR ''%''"
  by (auto simp: url_unreserved_def)

lemma pct_decode_encode: "pct_decode (URLEncodeQueryValue s) = Some s"
proof (induction s)
  case Nil
  then show ?case by (simp add: URLEncodeQueryValue_def)
next
  case (Cons c s)
  have lt: "(of_char c :: nat) div 16 < 16" "(of_char c :: nat) mod 16 < 16"
    using of_char_lt [of c] by linarith+
  have join: "char_of (16 * ((of_char c :: nat) div 16) + of_char c mod 16) = c"
    by simp
  show ?case
  proof (cases "url_unreserved c")
    case True
    with Cons show ?thesis
      by (simp add: URLEncodeQueryValue_def pct_not_unreserved)
  next
    case False
    with Cons show ?thesis
      by (simp add: URLEncodeQueryValue_def hex_upper_all [OF lt(1)] hex_upper_all [OF lt(2)] join)
  qed
qed

section \<open>Line ends\<close>

text \<open>The loop of \<open>NormalizeCrLf\<close>; \<open>prev\<close> is \<open>in[i - 1]\<close>, \<open>None\<close> at the start.\<close>

fun crlf_from :: "char option \<Rightarrow> string \<Rightarrow> string" where
  "crlf_from prev [] = []"
| "crlf_from prev (c # cs) =
     (if c = CHR 0x0A \<and> prev \<noteq> Some (CHR 0x0D) then [CHR 0x0D] else []) @ c # crlf_from (Some c) cs"

definition NormalizeCrLf :: "string \<Rightarrow> string" where
  "NormalizeCrLf s = crlf_from None s"

fun no_bare_lf :: "char option \<Rightarrow> string \<Rightarrow> bool" where
  "no_bare_lf prev [] = True"
| "no_bare_lf prev (c # cs) = ((c = CHR 0x0A \<longrightarrow> prev = Some (CHR 0x0D)) \<and> no_bare_lf (Some c) cs)"

lemma no_bare_lf_crlf: "no_bare_lf prev (crlf_from prev s)"
  by (induction s arbitrary: prev) auto

lemma crlf_from_id: "no_bare_lf prev s \<Longrightarrow> crlf_from prev s = s"
  by (induction s arbitrary: prev) auto

lemma crlf_from_lf: "filter (\<lambda>c. c \<noteq> CHR 0x0D) (crlf_from prev s) = filter (\<lambda>c. c \<noteq> CHR 0x0D) s"
  by (induction s arbitrary: prev) auto

section \<open>FNV-1a\<close>

definition kFnvOffsetBasis64 :: "64 word" where
  "kFnvOffsetBasis64 = 14695981039346656037"

definition kFnvPrime64 :: "64 word" where
  "kFnvPrime64 = 1099511628211"

definition HashInit :: "64 word \<Rightarrow> 64 word" where
  "HashInit seed = kFnvOffsetBasis64 XOR (seed + 0x9e3779b97f4a7c15)"

definition HashAddBytes :: "64 word \<Rightarrow> 8 word list \<Rightarrow> 64 word" where
  "HashAddBytes h bs = foldl (\<lambda>h b. (h XOR ucast b) * kFnvPrime64) h bs"

definition HashAddString :: "64 word \<Rightarrow> string \<Rightarrow> 64 word" where
  "HashAddString h s = HashAddBytes h (map (\<lambda>c. of_nat (of_char c)) s)"

definition HashAddU64 :: "64 word \<Rightarrow> 64 word \<Rightarrow> 64 word" where
  "HashAddU64 h x = HashAddBytes h (map (\<lambda>i. ucast (drop_bit (8 * i) x)) [0..<8])"

lemma HashAddBytes_append: "HashAddBytes h (xs @ ys) = HashAddBytes (HashAddBytes h xs) ys"
  by (simp add: HashAddBytes_def)

section \<open>The hex form of bytea\<close>

definition hex_digit_lower :: "nat \<Rightarrow> char" where
  "hex_digit_lower n = ''0123456789abcdef'' ! n"

definition ByteaHexEncode :: "string \<Rightarrow> string" where
  "ByteaHexEncode bytes =
     CHR 0x5C # CHR ''x'' #
     concat (map (\<lambda>c. [hex_digit_lower (of_char c div 16), hex_digit_lower (of_char c mod 16)]) bytes)"

text \<open>The decoding loop: pairs of digits up to the first other character or a lone last digit.\<close>

fun bytea_pairs :: "string \<Rightarrow> string" where
  "bytea_pairs (h # l # rest) =
     (case (hex_value h, hex_value l) of
        (Some a, Some b) \<Rightarrow> char_of (16 * a + b) # bytea_pairs rest
      | _ \<Rightarrow> [])"
| "bytea_pairs _ = []"

definition ByteaHexDecode :: "string \<Rightarrow> string" where
  "ByteaHexDecode hex =
     (case hex of
        c0 # c1 # rest \<Rightarrow> if c0 = CHR 0x5C \<and> c1 = CHR ''x'' then bytea_pairs rest else hex
      | _ \<Rightarrow> hex)"

lemma hex_lower_all: "n < 16 \<Longrightarrow> hex_value (hex_digit_lower n) = Some n"
proof -
  have "\<forall>n \<in> set [0..<16]. hex_value (hex_digit_lower n) = Some n"
    by code_simp
  then show "n < 16 \<Longrightarrow> hex_value (hex_digit_lower n) = Some n" by simp
qed

lemma bytea_pairs_encode:
  "bytea_pairs (concat (map (\<lambda>c. [hex_digit_lower (of_char c div 16), hex_digit_lower (of_char c mod 16)]) s)) = s"
proof (induction s)
  case (Cons c s)
  have lt: "(of_char c :: nat) div 16 < 16" "(of_char c :: nat) mod 16 < 16"
    using of_char_lt [of c] by linarith+
  have join: "char_of (16 * ((of_char c :: nat) div 16) + of_char c mod 16) = c"
    by simp
  show ?case
    using Cons by (simp add: hex_lower_all [OF lt(1)] hex_lower_all [OF lt(2)] join)
qed simp

lemma ByteaHexDecode_encode: "ByteaHexDecode (ByteaHexEncode s) = s"
  by (simp add: ByteaHexEncode_def ByteaHexDecode_def bytea_pairs_encode)

lemma ByteaHexDecode_plain: "\<not> starts_with [CHR 0x5C, CHR ''x''] s \<Longrightarrow> ByteaHexDecode s = s"
  by (auto simp: ByteaHexDecode_def split: list.split)

section \<open>Properties\<close>

lemma hex_upper_chars: "n < 16 \<Longrightarrow> url_unreserved (hex_digit_upper n)"
proof -
  have "\<forall>n \<in> set [0..<16]. url_unreserved (hex_digit_upper n)" by code_simp
  then show "n < 16 \<Longrightarrow> url_unreserved (hex_digit_upper n)" by simp
qed

text \<open>
  \<open>URLEncodeQueryValue\<close> is decoded to the original bytes by percent decoding, and what it
  writes is unreserved characters and percent signs only: no value can end the query parameter it is
  put in or be read back as another one.
\<close>

theorem URLEncodeQueryValue_decodes:
  "pct_decode (URLEncodeQueryValue s) = Some s \<and>
   (\<forall>c \<in> set (URLEncodeQueryValue s). url_unreserved c \<or> c = CHR ''%'')"
proof
  show "pct_decode (URLEncodeQueryValue s) = Some s" by (rule pct_decode_encode)
  show "\<forall>c \<in> set (URLEncodeQueryValue s). url_unreserved c \<or> c = CHR ''%''"
  proof (induction s)
    case (Cons c s)
    have "(of_char c :: nat) div 16 < 16" "(of_char c :: nat) mod 16 < 16"
      using of_char_lt [of c] by linarith+
    with Cons show ?case by (auto simp: URLEncodeQueryValue_def hex_upper_chars)
  qed (simp add: URLEncodeQueryValue_def)
qed

theorem URLEncodeQueryValue_decodes_witness:
  "pct_decode (URLEncodeQueryValue ''a+b&c=%'') = Some ''a+b&c=%''"
  using URLEncodeQueryValue_decodes [of "''a+b&c=%''"] by simp

text \<open>
  A byte string written as PostgreSQL's hex form is decoded to itself, whatever bytes it
  holds, and text that is not in that form passes through unchanged.
\<close>

theorem bytea_roundtrip:
  "ByteaHexDecode (ByteaHexEncode s) = s \<and>
   (\<not> starts_with [CHR 0x5C, CHR ''x''] u \<longrightarrow> ByteaHexDecode u = u)"
  by (simp add: ByteaHexDecode_encode ByteaHexDecode_plain)

theorem bytea_roundtrip_witness:
  "ByteaHexDecode (ByteaHexEncode ''k:y'') = ''k:y'' \<and> ByteaHexDecode ''plain'' = ''plain''"
proof -
  have "\<not> starts_with [CHR 0x5C, CHR ''x''] ''plain''" by simp
  with bytea_roundtrip [of "''k:y''" "''plain''"] show ?thesis by blast
qed

text \<open>
  \<open>NormalizeCrLf\<close> leaves no bare line feed, changes nothing but carriage returns, and
  normalising twice is normalising once.
\<close>

theorem NormalizeCrLf_correct:
  "no_bare_lf None (NormalizeCrLf s) \<and>
   filter (\<lambda>c. c \<noteq> CHR 0x0D) (NormalizeCrLf s) = filter (\<lambda>c. c \<noteq> CHR 0x0D) s \<and>
   NormalizeCrLf (NormalizeCrLf s) = NormalizeCrLf s"
  by (simp add: NormalizeCrLf_def no_bare_lf_crlf crlf_from_lf crlf_from_id)

end
