(* ===== verification/Schema.thy ===== *)
theory Schema
  imports StringUtil
begin

text \<open>
  The schema model of \<open>components/data/sql_util/schema/\<close> (\<open>ColumnInfo\<close>, \<open>TableInfo\<close>,
  \<open>ForeignKeyManager\<close>, \<open>DatabaseInfo\<close>) and the DDL text \<open>db_and_table_operations.cpp\<close>
  generates from it. The C++ classes hold their data behind a shared pointer; a schema here is the
  value behind it, and an operation returns the schema it leaves, also when it throws.
\<close>

section \<open>Columns\<close>

datatype DatabaseTypes =
    DB_TYPE_INT | DB_TYPE_SERIAL | DB_TYPE_BOOL | DB_TYPE_DOUBLE | DB_TYPE_STRING | DB_TYPE_JSON
  | DB_TYPE_BYTES | DB_TYPE_DATE | DB_TYPE_TIME | DB_TYPE_UUID | DB_TYPE_NULL | DB_TYPE_TIMESTAMP
  | DB_TYPE_TIMESTAMPTZ | DB_TYPE_BIGINT | DB_TYPE_BIGSERIAL | DB_TYPE_CITEXT

record ColumnInfo =
  columnName :: string
  databaseType :: DatabaseTypes
  primaryKey :: bool
  unique :: bool
  nullable :: bool
  defaultValue :: string

definition mkColumn :: "string \<Rightarrow> DatabaseTypes \<Rightarrow> bool \<Rightarrow> bool \<Rightarrow> bool \<Rightarrow> string \<Rightarrow> ColumnInfo" where
  "mkColumn n t pk u nl d =
     \<lparr>columnName = n, databaseType = t, primaryKey = pk, unique = u, nullable = nl, defaultValue = d\<rparr>"

fun SqlTypeFromDatabaseType :: "DatabaseTypes \<Rightarrow> string" where
  "SqlTypeFromDatabaseType DB_TYPE_INT = ''INT''"
| "SqlTypeFromDatabaseType DB_TYPE_SERIAL = ''SERIAL''"
| "SqlTypeFromDatabaseType DB_TYPE_BOOL = ''BOOL''"
| "SqlTypeFromDatabaseType DB_TYPE_DOUBLE = ''FLOAT8''"
| "SqlTypeFromDatabaseType DB_TYPE_STRING = ''VARCHAR''"
| "SqlTypeFromDatabaseType DB_TYPE_JSON = ''JSON''"
| "SqlTypeFromDatabaseType DB_TYPE_BYTES = ''BYTEA''"
| "SqlTypeFromDatabaseType DB_TYPE_DATE = ''DATE''"
| "SqlTypeFromDatabaseType DB_TYPE_TIME = ''TIME''"
| "SqlTypeFromDatabaseType DB_TYPE_UUID = ''UUID''"
| "SqlTypeFromDatabaseType DB_TYPE_NULL = ''NULL''"
| "SqlTypeFromDatabaseType DB_TYPE_TIMESTAMP = ''TIMESTAMP''"
| "SqlTypeFromDatabaseType DB_TYPE_TIMESTAMPTZ = ''TIMESTAMPTZ''"
| "SqlTypeFromDatabaseType DB_TYPE_BIGINT = ''BIGINT''"
| "SqlTypeFromDatabaseType DB_TYPE_BIGSERIAL = ''BIGSERIAL''"
| "SqlTypeFromDatabaseType DB_TYPE_CITEXT = ''CITEXT''"

text \<open>\<open>operator==\<close> on columns. It compares neither the nullability nor anything derived from it.\<close>

definition column_eq :: "ColumnInfo \<Rightarrow> ColumnInfo \<Rightarrow> bool" where
  "column_eq a b \<longleftrightarrow>
     (defaultValue a \<noteq> []) = (defaultValue b \<noteq> []) \<and> defaultValue a = defaultValue b \<and>
     columnName a = columnName b \<and> databaseType a = databaseType b \<and>
     primaryKey a = primaryKey b \<and> unique a = unique b"

section \<open>Tables\<close>

record TableUniqueValues =
  uniqueName :: string
  uniqueColumns :: StringArray

record TableCheckConstraint =
  checkName :: string
  checkExpression :: string

record TableInfo =
  tableName :: string
  columnInfoList :: "ColumnInfo list"
  tableUniqueValuesArray :: "TableUniqueValues list"
  tableCheckConstraintArray :: "TableCheckConstraint list"

definition newTable :: "string \<Rightarrow> TableInfo" where
  "newTable n = \<lparr>tableName = n, columnInfoList = [], tableUniqueValuesArray = [],
     tableCheckConstraintArray = []\<rparr>"

definition AddColumn :: "ColumnInfo \<Rightarrow> TableInfo \<Rightarrow> TableInfo res" where
  "AddColumn c t =
     (if columnName c \<in> columnName ` set (columnInfoList t)
      then Inl (InvalidArgument ''TableInfoImpl::AddColumn - column already exists.'')
      else Inr (t\<lparr>columnInfoList := columnInfoList t @ [c]\<rparr>))"

definition IsPrimaryKey :: "TableInfo \<Rightarrow> bool" where
  "IsPrimaryKey t = list_ex primaryKey (columnInfoList t)"

definition GetPrimaryKey :: "TableInfo \<Rightarrow> string res" where
  "GetPrimaryKey t =
     (case List.find primaryKey (columnInfoList t) of
        Some c \<Rightarrow> Inr (columnName c)
      | None \<Rightarrow> Inl (InvalidArgument ''TableInfoImpl::GetPrimaryKey has no primary key.''))"

definition IsColumn :: "TableInfo \<Rightarrow> string \<Rightarrow> bool" where
  "IsColumn t n = list_ex (\<lambda>c. columnName c = n) (columnInfoList t)"

definition GetColumn :: "TableInfo \<Rightarrow> string \<Rightarrow> ColumnInfo res" where
  "GetColumn t n =
     (case List.find (\<lambda>c. columnName c = n) (columnInfoList t) of
        Some c \<Rightarrow> Inr c
      | None \<Rightarrow> Inl (InvalidArgument ''TableInfoImpl::GetColumn not found.''))"

definition AddUniqueConstraintHelper :: "TableUniqueValues \<Rightarrow> TableInfo \<Rightarrow> TableInfo res" where
  "AddUniqueConstraintHelper u t =
     (if uniqueColumns u = []
      then Inl (InvalidArgument ''unique constraint must have at least one column.'')
      else Inr (t\<lparr>tableUniqueValuesArray := tableUniqueValuesArray t @ [u]\<rparr>))"

definition AddCheckConstraint :: "string \<Rightarrow> string \<Rightarrow> TableInfo \<Rightarrow> TableInfo res" where
  "AddCheckConstraint n e t =
     (if e = []
      then Inl (InvalidArgument ''check constraint must have a non-empty expression.'')
      else Inr (t\<lparr>tableCheckConstraintArray :=
        tableCheckConstraintArray t @ [\<lparr>checkName = n, checkExpression = e\<rparr>]\<rparr>))"

lemma IsColumn_iff: "IsColumn t n \<longleftrightarrow> n \<in> columnName ` set (columnInfoList t)"
  by (auto simp: IsColumn_def list_ex_iff)

lemma GetColumn_Inr: "GetColumn t n = Inr c \<Longrightarrow> c \<in> set (columnInfoList t) \<and> columnName c = n"
  by (auto simp: GetColumn_def find_Some_iff split: option.splits)

lemma GetColumn_IsColumn: "(\<exists>c. GetColumn t n = Inr c) \<longleftrightarrow> IsColumn t n"
  by (auto simp: GetColumn_def IsColumn_def list_ex_iff find_None_iff find_Some_iff
      split: option.splits)

section \<open>Foreign keys\<close>

type_synonym TableColumnPair = "string \<times> string"

record ForeignKeyReference =
  parent :: TableColumnPair
  child :: TableColumnPair
  refNullable :: bool

type_synonym ForeignKeyManager = "ForeignKeyReference list"

text \<open>
  A child column has at most one reference: a second one for the same column returns quietly, or
  throws when the parent differs in both its table and its column.
\<close>

definition AddForeignKeyReference ::
  "TableColumnPair \<Rightarrow> TableColumnPair \<Rightarrow> bool \<Rightarrow> ForeignKeyManager \<Rightarrow> ForeignKeyManager res" where
  "AddForeignKeyReference p c nl refs =
     (case List.find (\<lambda>r. child r = c) refs of
        Some r \<Rightarrow>
          if fst (parent r) \<noteq> fst p \<and> snd (parent r) \<noteq> snd p
          then Inl (InvalidArgument ''ForeignKeyManagerImpl::AddForeignKeyReference'')
          else Inr refs
      | None \<Rightarrow> Inr (refs @ [\<lparr>parent = p, child = c, refNullable = nl\<rparr>]))"

definition GetChildReferences :: "TableColumnPair \<Rightarrow> ForeignKeyManager \<Rightarrow> TableColumnPair list" where
  "GetChildReferences p refs = map child (filter (\<lambda>r. parent r = p) refs)"

definition GetChildReferencesOfTable :: "string \<Rightarrow> ForeignKeyManager \<Rightarrow> TableColumnPair list" where
  "GetChildReferencesOfTable t refs = map child (filter (\<lambda>r. fst (parent r) = t) refs)"

definition IsRootTable :: "string \<Rightarrow> ForeignKeyManager \<Rightarrow> bool" where
  "IsRootTable t refs = list_all (\<lambda>r. fst (child r) \<noteq> t) refs"

definition GetForeignReferenceFields :: "string \<Rightarrow> ForeignKeyManager \<Rightarrow> TableColumnPair list" where
  "GetForeignReferenceFields t refs = map parent (filter (\<lambda>r. fst (child r) = t) refs)"

definition HasForeignReference :: "TableColumnPair \<Rightarrow> ForeignKeyManager \<Rightarrow> bool" where
  "HasForeignReference c refs = list_ex (\<lambda>r. child r = c) refs"

definition GetForeignReferenceOfField :: "TableColumnPair \<Rightarrow> ForeignKeyManager \<Rightarrow> TableColumnPair res" where
  "GetForeignReferenceOfField c refs =
     (case List.find (\<lambda>r. child r = c) refs of
        Some r \<Rightarrow> Inr (parent r)
      | None \<Rightarrow> Inl (InvalidArgument ''ForeignKeyManagerImpl::GetForeignReferenceOfField''))"

definition IsNullable :: "TableColumnPair \<Rightarrow> TableColumnPair \<Rightarrow> ForeignKeyManager \<Rightarrow> bool res" where
  "IsNullable p c refs =
     (case List.find (\<lambda>r. parent r = p \<and> child r = c) refs of
        Some r \<Rightarrow> Inr (refNullable r)
      | None \<Rightarrow> Inl (InvalidArgument ''ForeignKeyManagerImpl::IsNullable''))"

lemma AddForeignKeyReference_children:
  "AddForeignKeyReference p c nl refs = Inr refs' \<Longrightarrow> distinct (map child refs) \<Longrightarrow>
   distinct (map child refs') \<and> set (map child refs') = insert c (set (map child refs))"
  by (auto simp: AddForeignKeyReference_def find_None_iff find_Some_iff split: option.splits if_splits)

text \<open>The reference a child resolves to is the first one registered for it.\<close>

lemma AddForeignKeyReference_first_wins:
  assumes "GetForeignReferenceOfField c refs = Inr q"
    and "AddForeignKeyReference p c nl refs = Inr refs'"
  shows "GetForeignReferenceOfField c refs' = Inr q"
  using assms
  by (auto simp: AddForeignKeyReference_def GetForeignReferenceOfField_def
      split: option.splits if_splits)

section \<open>The schema of a database\<close>

record DatabaseInfo =
  databaseName :: string
  tableInfoList :: "TableInfo list"
  foreignKeyManager :: ForeignKeyManager

type_synonym schema_op = "DatabaseInfo \<Rightarrow> unit res \<times> DatabaseInfo"

definition newDatabaseInfo :: "string \<Rightarrow> DatabaseInfo" where
  "newDatabaseInfo n = \<lparr>databaseName = n, tableInfoList = [], foreignKeyManager = []\<rparr>"

definition GetTableInfo :: "DatabaseInfo \<Rightarrow> string \<Rightarrow> TableInfo res" where
  "GetTableInfo d n =
     (case List.find (\<lambda>t. tableName t = n) (tableInfoList d) of
        Some t \<Rightarrow> Inr t
      | None \<Rightarrow> Inl (InvalidArgument ''DatabaseInfoImpl::GetTableInfo - table not found''))"

definition GetRootTables :: "DatabaseInfo \<Rightarrow> StringArray" where
  "GetRootTables d =
     filter (\<lambda>n. IsRootTable n (foreignKeyManager d)) (map tableName (tableInfoList d))"

definition GetAllTables :: "DatabaseInfo \<Rightarrow> StringArray" where
  "GetAllTables d = map tableName (tableInfoList d)"

text \<open>
  The non-const \<open>GetTableInfo\<close> hands out a reference the caller changes in place: the table is
  found, changed, and takes its old place in the list.
\<close>

definition modify_table :: "string \<Rightarrow> (TableInfo \<Rightarrow> TableInfo res) \<Rightarrow> schema_op" where
  "modify_table n f d =
     (case GetTableInfo d n of
        Inl e \<Rightarrow> (Inl e, d)
      | Inr t \<Rightarrow>
         (case f t of
            Inl e \<Rightarrow> (Inl e, d)
          | Inr t' \<Rightarrow>
              (Inr (), d\<lparr>tableInfoList :=
                 map (\<lambda>u. if tableName u = n then t' else u) (tableInfoList d)\<rparr>)))"

definition AddTable :: "string \<Rightarrow> schema_op" where
  "AddTable n d =
     (if n \<in> tableName ` set (tableInfoList d)
      then (Inl (InvalidArgument ''DatabaseInfoImpl::AddTable - table already exists''), d)
      else (Inr (), d\<lparr>tableInfoList := tableInfoList d @ [newTable n]\<rparr>))"

definition AddColumnSimple :: "string \<Rightarrow> string \<Rightarrow> DatabaseTypes \<Rightarrow> schema_op" where
  "AddColumnSimple t c ty = modify_table t (AddColumn (mkColumn c ty False False False []))"

definition AddColumnPrimaryKey :: "string \<Rightarrow> string \<Rightarrow> DatabaseTypes \<Rightarrow> schema_op" where
  "AddColumnPrimaryKey t c ty = modify_table t (AddColumn (mkColumn c ty True False False []))"

definition AddColumnUnique :: "string \<Rightarrow> string \<Rightarrow> DatabaseTypes \<Rightarrow> schema_op" where
  "AddColumnUnique t c ty = modify_table t (AddColumn (mkColumn c ty False True False []))"

definition AddColumnNullable :: "string \<Rightarrow> string \<Rightarrow> DatabaseTypes \<Rightarrow> schema_op" where
  "AddColumnNullable t c ty = modify_table t (AddColumn (mkColumn c ty False False True []))"

definition AddColumnNotNullableWithDefault ::
  "string \<Rightarrow> string \<Rightarrow> DatabaseTypes \<Rightarrow> string \<Rightarrow> schema_op" where
  "AddColumnNotNullableWithDefault t c ty dv =
     modify_table t (AddColumn (mkColumn c ty False False False dv))"

text \<open>A reference to an auto-increment key is a plain integer of the same width.\<close>

fun fk_type :: "DatabaseTypes \<Rightarrow> DatabaseTypes" where
  "fk_type DB_TYPE_SERIAL = DB_TYPE_INT"
| "fk_type DB_TYPE_BIGSERIAL = DB_TYPE_BIGINT"
| "fk_type t = t"

definition add_fk_column :: "bool \<Rightarrow> string \<Rightarrow> string \<Rightarrow> string \<Rightarrow> string \<Rightarrow> schema_op" where
  "add_fk_column nl tp cp tc cc d =
     (case rbind (GetTableInfo d tp) (\<lambda>ti. rbind (GetTableInfo d tc) (\<lambda>_.
             rbind (GetColumn ti cp) (\<lambda>col.
             rbind (AddForeignKeyReference (tp, cp) (tc, cc) nl (foreignKeyManager d)) (\<lambda>refs.
               Inr (fk_type (databaseType col), refs))))) of
        Inl e \<Rightarrow> (Inl e, d)
      | Inr (ty, refs) \<Rightarrow>
          modify_table tc (AddColumn (mkColumn cc ty False False nl []))
            (d\<lparr>foreignKeyManager := refs\<rparr>))"

definition AddColumnForeignKeyRef :: "string \<Rightarrow> string \<Rightarrow> string \<Rightarrow> string \<Rightarrow> schema_op" where
  "AddColumnForeignKeyRef tp cp tc cc = add_fk_column False tp cp tc cc"

definition AddColumnForeignKeyRefNullable :: "string \<Rightarrow> string \<Rightarrow> string \<Rightarrow> string \<Rightarrow> schema_op" where
  "AddColumnForeignKeyRefNullable tp cp tc cc = add_fk_column True tp cp tc cc"

definition AddUniqueConstraint :: "string \<Rightarrow> TableUniqueValues \<Rightarrow> schema_op" where
  "AddUniqueConstraint t u = modify_table t (AddUniqueConstraintHelper u)"

definition AddTableCheckConstraint :: "string \<Rightarrow> string \<Rightarrow> string \<Rightarrow> schema_op" where
  "AddTableCheckConstraint t n e = modify_table t (AddCheckConstraint n e)"

section \<open>The invariant of a schema\<close>

definition has_column :: "DatabaseInfo \<Rightarrow> TableColumnPair \<Rightarrow> bool" where
  "has_column d p \<longleftrightarrow> (\<exists>t \<in> set (tableInfoList d). tableName t = fst p \<and> IsColumn t (snd p))"

definition table_ok :: "TableInfo \<Rightarrow> bool" where
  "table_ok t \<longleftrightarrow> distinct (map columnName (columnInfoList t)) \<and>
     (\<forall>u \<in> set (tableUniqueValuesArray t). uniqueColumns u \<noteq> []) \<and>
     (\<forall>c \<in> set (tableCheckConstraintArray t). checkExpression c \<noteq> [])"

definition schema_ok :: "DatabaseInfo \<Rightarrow> bool" where
  "schema_ok d \<longleftrightarrow>
     distinct (map tableName (tableInfoList d)) \<and>
     (\<forall>t \<in> set (tableInfoList d). table_ok t) \<and>
     distinct (map child (foreignKeyManager d)) \<and>
     (\<forall>r \<in> set (foreignKeyManager d). has_column d (parent r) \<and> has_column d (child r))"

lemma GetTableInfo_Inr: "GetTableInfo d n = Inr t \<Longrightarrow> t \<in> set (tableInfoList d) \<and> tableName t = n"
  by (auto simp: GetTableInfo_def find_Some_iff split: option.splits)

lemma modify_table_cases [consumes 1, case_names unchanged changed]:
  assumes "modify_table n f d = (r, d')"
  obtains "d' = d"
  | t t' where "t \<in> set (tableInfoList d)" "tableName t = n" "f t = Inr t'"
      "d' = d\<lparr>tableInfoList := map (\<lambda>u. if tableName u = n then t' else u) (tableInfoList d)\<rparr>"
proof (cases "GetTableInfo d n")
  case (Inl e)
  then show ?thesis using assms that(1) by (simp add: modify_table_def)
next
  case (Inr t)
  then have t: "t \<in> set (tableInfoList d)" "tableName t = n"
    using GetTableInfo_Inr by blast+
  show ?thesis
  proof (cases "f t")
    case (Inl e)
    then show ?thesis using assms Inr that(1) by (simp add: modify_table_def)
  next
    case f: (Inr t')
    then show ?thesis using assms Inr t that(2) by (simp add: modify_table_def)
  qed
qed

text \<open>
  The contract of the operations on one table, which \<open>modify_table\<close> lifts to the schema: the
  table keeps its name, its columns stay, and its own invariant is kept.
\<close>

locale table_op =
  fixes f :: "TableInfo \<Rightarrow> TableInfo res"
  assumes keeps_name: "f t = Inr t' \<Longrightarrow> tableName t' = tableName t"
    and keeps_columns: "f t = Inr t' \<Longrightarrow> IsColumn t n \<Longrightarrow> IsColumn t' n"
    and keeps_table_ok: "f t = Inr t' \<Longrightarrow> table_ok t \<Longrightarrow> table_ok t'"
begin

lemma modify_names:
  assumes "modify_table n f d = (r, d')"
  shows "map tableName (tableInfoList d') = map tableName (tableInfoList d)"
  using assms by (cases rule: modify_table_cases) (auto simp: keeps_name)

lemma modify_has_column:
  assumes "modify_table n f d = (r, d')" and dist: "distinct (map tableName (tableInfoList d))"
    and "has_column d p"
  shows "has_column d' p"
  using assms(1)
proof (cases rule: modify_table_cases)
  case unchanged
  then show ?thesis using assms(3) by simp
next
  case (changed t t')
  obtain u where u: "u \<in> set (tableInfoList d)" "tableName u = fst p" "IsColumn u (snd p)"
    using assms(3) by (auto simp: has_column_def)
  show ?thesis
  proof (cases "tableName u = n")
    case True
    then have "u = t"
      using changed u dist by (auto simp: distinct_map inj_on_def)
    then have "tableName t' = fst p" "IsColumn t' (snd p)"
      using u changed(3) keeps_name keeps_columns by auto
    moreover have "t' \<in> set (tableInfoList d')"
      using changed by auto
    ultimately show ?thesis by (auto simp: has_column_def)
  next
    case False
    then have "u \<in> set (tableInfoList d')"
      using u changed by force
    with u show ?thesis by (auto simp: has_column_def)
  qed
qed

lemma modify_tables_ok:
  assumes "modify_table n f d = (r, d')" and ok: "\<forall>t \<in> set (tableInfoList d). table_ok t"
  shows "\<forall>t \<in> set (tableInfoList d'). table_ok t"
  using assms(1)
proof (cases rule: modify_table_cases)
  case (changed t t')
  then have "table_ok t'"
    using ok keeps_table_ok by blast
  then show ?thesis using ok changed by auto
qed (use ok in simp)

lemma modify_schema_ok:
  assumes m: "modify_table n f d = (r, d')" and "schema_ok d"
  shows "schema_ok d'"
proof -
  have dist: "distinct (map tableName (tableInfoList d))"
    using assms(2) by (simp add: schema_ok_def)
  have fk: "foreignKeyManager d' = foreignKeyManager d"
    using m by (cases rule: modify_table_cases) simp_all
  have "\<forall>t \<in> set (tableInfoList d'). table_ok t"
    using modify_tables_ok [OF m] assms(2) by (simp add: schema_ok_def)
  moreover have "\<forall>r \<in> set (foreignKeyManager d'). has_column d' (parent r) \<and> has_column d' (child r)"
    using assms(2) modify_has_column [OF m dist] fk by (simp add: schema_ok_def)
  ultimately show ?thesis
    using assms(2) modify_names [OF m] fk by (simp add: schema_ok_def)
qed

end

interpretation add_column: table_op "AddColumn c"
  by unfold_locales (auto simp: AddColumn_def IsColumn_def table_ok_def split: if_splits)

interpretation add_unique: table_op "AddUniqueConstraintHelper u"
  by unfold_locales (auto simp: AddUniqueConstraintHelper_def IsColumn_def table_ok_def split: if_splits)

interpretation add_check: table_op "AddCheckConstraint n e"
  by unfold_locales (auto simp: AddCheckConstraint_def IsColumn_def table_ok_def split: if_splits)

lemma schema_ok_new: "schema_ok (newDatabaseInfo n)"
  by (simp add: schema_ok_def newDatabaseInfo_def)

lemma AddTable_schema_ok: "AddTable n d = (r, d') \<Longrightarrow> schema_ok d \<Longrightarrow> schema_ok d'"
  by (auto simp: AddTable_def schema_ok_def table_ok_def newTable_def has_column_def
      split: if_splits)

text \<open>A rejected foreign-key column may leave its reference behind; the reference is still sound.\<close>

lemma add_fk_column_schema_ok:
  assumes "add_fk_column nl tp cp tc cc d = (r, d')" and ok: "schema_ok d"
  shows "schema_ok d'"
proof (cases "rbind (GetTableInfo d tp) (\<lambda>ti. rbind (GetTableInfo d tc) (\<lambda>_.
             rbind (GetColumn ti cp) (\<lambda>col.
             rbind (AddForeignKeyReference (tp, cp) (tc, cc) nl (foreignKeyManager d)) (\<lambda>refs.
               Inr (fk_type (databaseType col), refs)))))")
  case (Inl e)
  then show ?thesis using assms by (simp add: add_fk_column_def)
next
  case (Inr p)
  obtain ty refs where p: "p = (ty, refs)" by (cases p)
  obtain ti tic col where ti: "GetTableInfo d tp = Inr ti" and tic: "GetTableInfo d tc = Inr tic"
    and col: "GetColumn ti cp = Inr col"
    and refs: "AddForeignKeyReference (tp, cp) (tc, cc) nl (foreignKeyManager d) = Inr refs"
    using Inr p by auto
  let ?d1 = "d\<lparr>foreignKeyManager := refs\<rparr>"
  have m: "modify_table tc (AddColumn (mkColumn cc ty False False nl [])) ?d1 = (r, d')"
    using assms(1) Inr p by (simp add: add_fk_column_def)
  have dist: "distinct (map tableName (tableInfoList d))" using ok by (simp add: schema_ok_def)
  have tabs: "tableInfoList ?d1 = tableInfoList d" by simp
  have mono: "has_column d q \<Longrightarrow> has_column d' q" for q
    using add_column.modify_has_column [OF m] dist by (simp add: has_column_def)
  have par: "has_column d' (tp, cp)"
    using GetTableInfo_Inr [OF ti] GetColumn_IsColumn col
    by (intro mono) (auto simp: has_column_def)
  have chi: "has_column d' (tc, cc)"
  proof (cases "cc \<in> columnName ` set (columnInfoList tic)")
    case True
    then show ?thesis
      using GetTableInfo_Inr [OF tic] by (intro mono) (auto simp: has_column_def IsColumn_iff)
  next
    case False
    have "GetTableInfo ?d1 tc = Inr tic"
      using tic by (simp add: GetTableInfo_def)
    let ?t' = "tic\<lparr>columnInfoList := columnInfoList tic @ [mkColumn cc ty False False nl []]\<rparr>"
    have d': "tableInfoList d' = map (\<lambda>u. if tableName u = tc then ?t' else u) (tableInfoList d)"
      using m \<open>GetTableInfo ?d1 tc = Inr tic\<close> False
      by (auto simp: modify_table_def AddColumn_def mkColumn_def)
    have "?t' \<in> set (tableInfoList d')"
      using GetTableInfo_Inr [OF tic] by (force simp: d')
    moreover have "tableName ?t' = tc" "IsColumn ?t' cc"
      using GetTableInfo_Inr [OF tic] by (simp_all add: IsColumn_def mkColumn_def)
    ultimately show ?thesis unfolding has_column_def fst_conv snd_conv by blast
  qed
  have fk: "foreignKeyManager d' = refs"
    using m by (cases rule: modify_table_cases) simp_all
  have old: "q \<in> set refs \<Longrightarrow> q \<in> set (foreignKeyManager d) \<or> (parent q = (tp, cp) \<and> child q = (tc, cc))" for q
    using refs by (auto simp: AddForeignKeyReference_def split: option.splits if_splits)
  have "\<forall>q \<in> set (foreignKeyManager d'). has_column d' (parent q) \<and> has_column d' (child q)"
    using old mono par chi ok fk unfolding schema_ok_def by metis
  moreover have "distinct (map child (foreignKeyManager d'))"
    using AddForeignKeyReference_children [OF refs] ok fk by (simp add: schema_ok_def)
  moreover have "\<forall>t \<in> set (tableInfoList d'). table_ok t"
    using add_column.modify_tables_ok [OF m] ok by (simp add: schema_ok_def)
  ultimately show ?thesis
    using add_column.modify_names [OF m] dist by (simp add: schema_ok_def)
qed

text \<open>The operations as data, and a program that runs them in order, going on after a throw.\<close>

datatype schema_cmd =
    CAddTable string
  | CAddColumnSimple string string DatabaseTypes
  | CAddColumnPrimaryKey string string DatabaseTypes
  | CAddColumnUnique string string DatabaseTypes
  | CAddColumnNullable string string DatabaseTypes
  | CAddColumnForeignKeyRef string string string string
  | CAddColumnForeignKeyRefNullable string string string string
  | CAddColumnNotNullableWithDefault string string DatabaseTypes string
  | CAddUniqueConstraint string TableUniqueValues
  | CAddTableCheckConstraint string string string

fun run_schema_cmd :: "schema_cmd \<Rightarrow> schema_op" where
  "run_schema_cmd (CAddTable n) = AddTable n"
| "run_schema_cmd (CAddColumnSimple t c ty) = AddColumnSimple t c ty"
| "run_schema_cmd (CAddColumnPrimaryKey t c ty) = AddColumnPrimaryKey t c ty"
| "run_schema_cmd (CAddColumnUnique t c ty) = AddColumnUnique t c ty"
| "run_schema_cmd (CAddColumnNullable t c ty) = AddColumnNullable t c ty"
| "run_schema_cmd (CAddColumnForeignKeyRef tp cp tc cc) = AddColumnForeignKeyRef tp cp tc cc"
| "run_schema_cmd (CAddColumnForeignKeyRefNullable tp cp tc cc) = AddColumnForeignKeyRefNullable tp cp tc cc"
| "run_schema_cmd (CAddColumnNotNullableWithDefault t c ty dv) = AddColumnNotNullableWithDefault t c ty dv"
| "run_schema_cmd (CAddUniqueConstraint t u) = AddUniqueConstraint t u"
| "run_schema_cmd (CAddTableCheckConstraint t n e) = AddTableCheckConstraint t n e"

definition run_schema :: "schema_cmd list \<Rightarrow> DatabaseInfo \<Rightarrow> DatabaseInfo" where
  "run_schema cmds d = foldl (\<lambda>d c. snd (run_schema_cmd c d)) d cmds"

lemma run_schema_cmd_ok: "run_schema_cmd c d = (r, d') \<Longrightarrow> schema_ok d \<Longrightarrow> schema_ok d'"
proof (cases c)
  case CAddTable
  then show "run_schema_cmd c d = (r, d') \<Longrightarrow> schema_ok d \<Longrightarrow> schema_ok d'"
    by (simp add: AddTable_schema_ok)
next
  case CAddColumnForeignKeyRef
  then show "run_schema_cmd c d = (r, d') \<Longrightarrow> schema_ok d \<Longrightarrow> schema_ok d'"
    by (simp add: AddColumnForeignKeyRef_def add_fk_column_schema_ok)
next
  case CAddColumnForeignKeyRefNullable
  then show "run_schema_cmd c d = (r, d') \<Longrightarrow> schema_ok d \<Longrightarrow> schema_ok d'"
    by (simp add: AddColumnForeignKeyRefNullable_def add_fk_column_schema_ok)
qed (simp_all add: AddColumnSimple_def AddColumnPrimaryKey_def AddColumnUnique_def
    AddColumnNullable_def AddColumnNotNullableWithDefault_def AddUniqueConstraint_def
    AddTableCheckConstraint_def add_column.modify_schema_ok add_unique.modify_schema_ok
    add_check.modify_schema_ok)

lemma run_schema_ok: "schema_ok d \<Longrightarrow> schema_ok (run_schema cmds d)"
proof (induction cmds arbitrary: d)
  case (Cons c cmds)
  obtain r d' where "run_schema_cmd c d = (r, d')" by (cases "run_schema_cmd c d")
  then show ?case
    using Cons run_schema_cmd_ok by (simp add: run_schema_def)
qed (simp add: run_schema_def)

section \<open>Properties\<close>

text \<open>
  C33. Whatever sequence of schema operations is run on a new schema, and whichever of them throw,
  what is left is well formed: table names are unique, the columns of a table are unique, every
  unique constraint names a column, every check constraint has an expression, every child column
  has one reference, and both ends of every reference are columns that exist.
\<close>

theorem schema_program_well_formed: "schema_ok (run_schema cmds (newDatabaseInfo n))"
  by (rule run_schema_ok, rule schema_ok_new)

text \<open>
  Registering a second parent for a child column never changes the reference it resolves to:
  it throws when the new parent differs in both table and column, and otherwise, also for a parent in
  another table with the same column name, it returns as if the new reference had been accepted.
\<close>

theorem second_parent_ignored:
  assumes "GetForeignReferenceOfField c refs = Inr q"
  shows "AddForeignKeyReference p c nl refs =
    (if fst q \<noteq> fst p \<and> snd q \<noteq> snd p
     then Inl (InvalidArgument ''ForeignKeyManagerImpl::AddForeignKeyReference'') else Inr refs)"
  using assms
  by (auto simp: AddForeignKeyReference_def GetForeignReferenceOfField_def split: option.splits)

theorem second_parent_ignored_witness:
  "AddForeignKeyReference (''rooms'', ''id'') (''bookings'', ''owner_id'') False
     [\<lparr>parent = (''people'', ''id''), child = (''bookings'', ''owner_id''), refNullable = False\<rparr>]
   = Inr [\<lparr>parent = (''people'', ''id''), child = (''bookings'', ''owner_id''), refNullable = False\<rparr>]"
proof -
  have "GetForeignReferenceOfField (''bookings'', ''owner_id'')
      [\<lparr>parent = (''people'', ''id''), child = (''bookings'', ''owner_id''), refNullable = False\<rparr>] = Inr (''people'', ''id'')"
    by (simp add: GetForeignReferenceOfField_def)
  from second_parent_ignored [OF this, of "(''rooms'', ''id'')" False] show ?thesis by simp
qed

end
