(* ===== verification/SqlText.thy ===== *)
theory SqlText
  imports Schema
begin

text \<open>
  The SQL text the data layer generates: identifier escaping (\<open>database_helper.cpp\<close>), bound
  parameters (\<open>ExecParamsHelper\<close>, \<open>transaction.h\<close>), DDL (\<open>db_and_table_operations.cpp\<close>) and
  the CRUD statements of \<open>database_crud_helpers.cpp\<close>. What libpqxx and the catalog answer is a
  parameter: \<open>quote_name\<close> quotes an identifier, \<open>listColumns\<close> gives a table's columns,
  \<open>getPrimaryKey\<close> its key.
\<close>

section \<open>Identifiers\<close>

definition is_alpha :: "char \<Rightarrow> bool" where
  "is_alpha c \<longleftrightarrow> (let b = (of_char c :: nat) in (65 \<le> b \<and> b \<le> 90) \<or> (97 \<le> b \<and> b \<le> 122))"

definition IsSimpleName :: "string \<Rightarrow> bool" where
  "IsSimpleName n =
     (case n of [] \<Rightarrow> False
      | c # _ \<Rightarrow> (is_alpha c \<or> c = CHR ''_'') \<and>
          list_all (\<lambda>c. is_alpha c \<or> is_digit c \<or> c = CHR ''_'') n)"

record pgmeta =
  quote_name :: "string \<Rightarrow> string"
  listColumns :: "string \<Rightarrow> StringArray"
  getPrimaryKey :: "string \<Rightarrow> string res"

definition EscSqlName :: "pgmeta \<Rightarrow> string \<Rightarrow> string" where
  "EscSqlName M n =
     (let l = StringToLower n in if IsSimpleName l then l else quote_name M l)"

definition EscSqlTableName :: "pgmeta \<Rightarrow> string \<Rightarrow> string" where
  "EscSqlTableName M n = EscSqlName M n"

definition EscSqlColumnName :: "pgmeta \<Rightarrow> string \<Rightarrow> string" where
  "EscSqlColumnName M n = EscSqlName M n"

section \<open>Bound parameters\<close>

type_synonym params = "string list"

definition AddParam :: "string \<Rightarrow> params \<Rightarrow> string \<times> params" where
  "AddParam v ps = (''$'' @ StringFromInt (int (length ps) + 1), ps @ [v])"

fun join :: "string \<Rightarrow> string list \<Rightarrow> string" where
  "join sep [] = []"
| "join sep [s] = s"
| "join sep (s # ss) = s @ sep @ join sep ss"

lemma StringArrayToCommaSeparatedString_join: "StringArrayToCommaSeparatedString ss = join '', '' ss"
  by (induction ss rule: StringArrayToCommaSeparatedString.induct) simp_all

section \<open>DDL\<close>

definition GenerateDropTableSql :: "string \<Rightarrow> string" where
  "GenerateDropTableSql t = ''DROP TABLE IF EXISTS '' @ t @ '' CASCADE''"

definition column_field :: "ColumnInfo \<Rightarrow> string" where
  "column_field c =
     columnName c @ '' '' @ SqlTypeFromDatabaseType (databaseType c) @
     (if primaryKey c then '' PRIMARY KEY''
      else (if unique c then '' UNIQUE'' else if \<not> nullable c then '' NOT NULL'' else []) @
           (if defaultValue c \<noteq> [] then '' DEFAULT '' @ defaultValue c else []))"

definition fk_constraint :: "ForeignKeyManager \<Rightarrow> string \<Rightarrow> ColumnInfo \<Rightarrow> string list" where
  "fk_constraint refs t c =
     (if primaryKey c then []
      else case GetForeignReferenceOfField (t, columnName c) refs of
          Inl _ \<Rightarrow> []
        | Inr p \<Rightarrow> [''CONSTRAINT fk_'' @ t @ ''_'' @ columnName c @ '' FOREIGN KEY('' @ columnName c @
                    '') REFERENCES '' @ fst p @ ''('' @ snd p @ '') ON DELETE CASCADE''])"

definition named_constraint :: "string \<Rightarrow> string" where
  "named_constraint n = (if n \<noteq> [] then ''CONSTRAINT '' @ n @ '' '' else [])"

definition create_table_fields :: "DatabaseInfo \<Rightarrow> string \<Rightarrow> TableInfo \<Rightarrow> string list" where
  "create_table_fields d t ti =
     map column_field (columnInfoList ti) @
     concat (map (fk_constraint (foreignKeyManager d) t) (columnInfoList ti)) @
     map (\<lambda>u. named_constraint (uniqueName u) @ ''UNIQUE ('' @
            StringArrayToCommaSeparatedString (uniqueColumns u) @ '')'') (tableUniqueValuesArray ti) @
     map (\<lambda>c. named_constraint (checkName c) @ ''CHECK ('' @ checkExpression c @ '')'')
       (tableCheckConstraintArray ti)"

definition GenerateCreateTableSql :: "bool \<Rightarrow> DatabaseInfo \<Rightarrow> string \<Rightarrow> string res" where
  "GenerateCreateTableSql ifNotExistsMode d t =
     rbind (GetTableInfo d t) (\<lambda>ti.
       Inr ((if ifNotExistsMode then ''CREATE TABLE IF NOT EXISTS '' else ''CREATE TABLE '') @ t @
            '' ('' @ StringArrayToCommaSeparatedString (create_table_fields d t ti) @ '')''))"

text \<open>Every registered reference of a non-key column becomes a cascading constraint to its parent.\<close>

lemma fk_constraint_registered:
  assumes "GetForeignReferenceOfField (t, columnName c) refs = Inr (pt, pc)" "\<not> primaryKey c"
  shows "fk_constraint refs t c =
    [''CONSTRAINT fk_'' @ t @ ''_'' @ columnName c @ '' FOREIGN KEY('' @ columnName c @
     '') REFERENCES '' @ pt @ ''('' @ pc @ '') ON DELETE CASCADE'']"
  using assms by (simp add: fk_constraint_def)

section \<open>Pieces of the CRUD statements\<close>

fun insert_params :: "StringArray \<Rightarrow> KeyValueTable \<Rightarrow> params \<Rightarrow> string list \<times> params" where
  "insert_params allowed [] ps = ([], ps)"
| "insert_params allowed ((k, v) # t) ps =
     (let (s, ps1) = (if v \<in> set allowed then (v, ps) else AddParam v ps);
          (ss, ps2) = insert_params allowed t ps1
      in (s # ss, ps2))"

definition GenerateInsertParams :: "StringArray \<Rightarrow> KeyValueTable \<Rightarrow> params \<Rightarrow> string \<times> params" where
  "GenerateInsertParams allowed t ps =
     (let (ss, ps') = insert_params allowed t ps in (StringArrayToCommaSeparatedString ss, ps'))"

definition GenerateInsertColumnNames :: "pgmeta \<Rightarrow> KeyValueTable \<Rightarrow> string" where
  "GenerateInsertColumnNames M t =
     StringArrayToCommaSeparatedString (map (\<lambda>(k, _). EscSqlColumnName M k) t)"

definition CheckKeysInTable :: "KeyValueTable \<Rightarrow> StringArray \<Rightarrow> unit res" where
  "CheckKeysInTable t cols =
     (if list_all (\<lambda>(k, _). k \<in> set cols) t then Inr ()
      else Inl (InvalidArgument ''CheckKeysInTable key not found in table.''))"

definition LookupColumn :: "StringArray \<Rightarrow> string \<Rightarrow> string res" where
  "LookupColumn cols c =
     (if c \<in> set cols \<and> c \<noteq> [] then Inr c
      else Inl (InvalidArgument ''LookupDatabaseColumnInfoByColumnName - column name not found: ''))"

definition GetColumnNames :: "pgmeta \<Rightarrow> StringArray \<Rightarrow> StringArray" where
  "GetColumnNames M cols = map (EscSqlColumnName M) cols"

fun where_conds :: "pgmeta \<Rightarrow> KeyValueTable \<Rightarrow> params \<Rightarrow> string list \<times> params" where
  "where_conds M [] ps = ([], ps)"
| "where_conds M ((k, v) # t) ps =
     (let (p, ps1) = AddParam v ps; (cs, ps2) = where_conds M t ps1
      in ((EscSqlColumnName M k @ '' = '' @ p) # cs, ps2))"

definition WhereClauseFromKeyValueTable :: "pgmeta \<Rightarrow> KeyValueTable \<Rightarrow> params \<Rightarrow> string \<times> params" where
  "WhereClauseFromKeyValueTable M t ps =
     (let (cs, ps') = where_conds M t ps in (join '' AND '' cs, ps'))"

definition order_dir :: "bool \<Rightarrow> string" where
  "order_dir asc = (if asc then '' ASC'' else '' DESC'')"

text \<open>
  \<open>page * pageSize\<close> is computed in \<open>int\<close> before it is printed: the two trailing parameters of
  every paged statement.
\<close>

definition page_params :: "int \<Rightarrow> int \<Rightarrow> params \<Rightarrow> ((string \<times> string) \<times> params) res" where
  "page_params pageSize page ps =
     rbind (cpp_int (page * pageSize)) (\<lambda>off.
       let (p1, ps1) = AddParam (StringFromInt pageSize) ps;
           (p2, ps2) = AddParam (StringFromInt off) ps1
       in Inr ((p1, p2), ps2))"

section \<open>The statements\<close>

definition GenerateAddRowToTableSql ::
  "pgmeta \<Rightarrow> string \<Rightarrow> KeyValueTable \<Rightarrow> StringArray \<Rightarrow> params \<Rightarrow> (string \<times> params) res" where
  "GenerateAddRowToTableSql M tab t allowed ps =
     rbind (CheckKeysInTable t (listColumns M tab)) (\<lambda>_.
       let (vals, ps') = GenerateInsertParams allowed t ps
       in Inr (''INSERT INTO '' @ EscSqlTableName M tab @ '' ('' @ GenerateInsertColumnNames M t @
               '') VALUES ('' @ vals @ '')'', ps'))"

definition GenerateAddRowToTableFetchIntPrimaryKeySql ::
  "pgmeta \<Rightarrow> string \<Rightarrow> KeyValueTable \<Rightarrow> StringArray \<Rightarrow> params \<Rightarrow> (string \<times> params) res" where
  "GenerateAddRowToTableFetchIntPrimaryKeySql M tab t allowed ps =
     rbind (CheckKeysInTable t (listColumns M tab)) (\<lambda>_.
       let (vals, ps') = GenerateInsertParams allowed t ps
       in rbind (getPrimaryKey M tab) (\<lambda>pk.
            Inr (''INSERT INTO '' @ EscSqlTableName M tab @ '' ('' @ GenerateInsertColumnNames M t @
                 '') VALUES ('' @ vals @ '') RETURNING '' @ pk, ps')))"

definition select_from :: "pgmeta \<Rightarrow> string \<Rightarrow> string" where
  "select_from M tab =
     ''SELECT '' @ StringArrayToCommaSeparatedString (GetColumnNames M (listColumns M tab)) @
     '' FROM '' @ EscSqlTableName M tab"

definition select_counted_from :: "pgmeta \<Rightarrow> string \<Rightarrow> string" where
  "select_counted_from M tab =
     ''SELECT '' @ StringArrayToCommaSeparatedString (GetColumnNames M (listColumns M tab)) @
     '', COUNT(*) OVER() AS _total_count'' @ '' FROM '' @ EscSqlTableName M tab"

definition GenerateLookupRowByValueSql :: "pgmeta \<Rightarrow> string \<Rightarrow> string \<Rightarrow> string res" where
  "GenerateLookupRowByValueSql M tab c =
     rbind (LookupColumn (listColumns M tab) c) (\<lambda>_.
       Inr (select_from M tab @ '' WHERE '' @ EscSqlColumnName M c @ '' = $1''))"

definition GenerateLookupRowByValuesSql ::
  "pgmeta \<Rightarrow> string \<Rightarrow> KeyValueTable \<Rightarrow> params \<Rightarrow> string \<times> params" where
  "GenerateLookupRowByValuesSql M tab t ps =
     (let (w, ps') = WhereClauseFromKeyValueTable M t ps in (select_from M tab @ '' WHERE '' @ w, ps'))"

definition GenerateGetRowsByColumnSql :: "pgmeta \<Rightarrow> string \<Rightarrow> string \<Rightarrow> bool \<Rightarrow> string res" where
  "GenerateGetRowsByColumnSql M tab c asc =
     rbind (LookupColumn (listColumns M tab) c) (\<lambda>_.
       Inr (select_from M tab @ '' ORDER BY '' @ EscSqlColumnName M c @ order_dir asc @
            '' LIMIT $1 OFFSET $2''))"

definition GenerateGetRowSql :: "pgmeta \<Rightarrow> string \<Rightarrow> string \<Rightarrow> string res" where
  "GenerateGetRowSql M tab c =
     rbind (LookupColumn (listColumns M tab) c) (\<lambda>_.
       Inr (select_from M tab @ '' WHERE '' @ EscSqlColumnName M c @ '' = $1''))"

definition GenerateUpdateRowSql ::
  "pgmeta \<Rightarrow> string \<Rightarrow> string \<Rightarrow> string \<Rightarrow> KeyValueTable \<Rightarrow> StringArray \<Rightarrow> params \<Rightarrow> (string \<times> params) res" where
  "GenerateUpdateRowSql M tab c cv t allowed ps =
     rbind (CheckKeysInTable t (listColumns M tab)) (\<lambda>_.
     rbind (LookupColumn (listColumns M tab) c) (\<lambda>_.
       let (p, ps1) = AddParam cv ps;
           (vals, ps2) = GenerateInsertParams allowed t ps1
       in Inr (''UPDATE '' @ EscSqlTableName M tab @ '' SET ('' @ GenerateInsertColumnNames M t @
               '') = ROW('' @ vals @ '') WHERE '' @ EscSqlColumnName M c @ '' = '' @ p, ps2)))"

definition GenerateDeleteRowSql :: "pgmeta \<Rightarrow> string \<Rightarrow> string \<Rightarrow> string res" where
  "GenerateDeleteRowSql M tab c =
     rbind (LookupColumn (listColumns M tab) c) (\<lambda>_.
       Inr (''DELETE FROM '' @ EscSqlTableName M tab @ '' WHERE '' @ EscSqlColumnName M c @ '' = $1''))"

definition GenerateDeleteRowsSql ::
  "pgmeta \<Rightarrow> string \<Rightarrow> KeyValueTable \<Rightarrow> params \<Rightarrow> (string \<times> params) res" where
  "GenerateDeleteRowsSql M tab t ps =
     rbind (rmap (\<lambda>(k, _). LookupColumn (listColumns M tab) k) t) (\<lambda>_.
       let (cs, ps') = where_conds M t ps
       in Inr (''DELETE FROM '' @ EscSqlTableName M tab @ '' WHERE'' @
               (if t = [] then [] else '' '' @ join '' AND '' cs), ps'))"

definition GenerateGetRowsByValuesWithOrderBySql ::
  "pgmeta \<Rightarrow> string \<Rightarrow> KeyValueTable \<Rightarrow> string \<Rightarrow> bool \<Rightarrow> params \<Rightarrow> (string \<times> params) res" where
  "GenerateGetRowsByValuesWithOrderBySql M tab t orderBy asc ps =
     rbind (LookupColumn (listColumns M tab) orderBy) (\<lambda>_.
     if t = [] then Inl (InvalidArgument ''GetRowsByValuesWithOrderBy - lookupValues must not be empty.'')
     else rbind (CheckKeysInTable t (listColumns M tab)) (\<lambda>_.
       let (w, ps') = WhereClauseFromKeyValueTable M t ps
       in Inr (select_from M tab @ '' WHERE '' @ w @ '' ORDER BY '' @ EscSqlColumnName M orderBy @
               order_dir asc, ps')))"

definition paged_tail :: "pgmeta \<Rightarrow> string \<Rightarrow> bool \<Rightarrow> string \<times> string \<Rightarrow> string" where
  "paged_tail M sortCol asc p =
     '' ORDER BY '' @ EscSqlColumnName M sortCol @ order_dir asc @
     '' LIMIT NULLIF('' @ fst p @ '', 0) OFFSET '' @ snd p"

definition GenerateGetRowsByValuesSql ::
  "pgmeta \<Rightarrow> string \<Rightarrow> string \<Rightarrow> KeyValueTable \<Rightarrow> bool \<Rightarrow> int \<Rightarrow> int \<Rightarrow> params \<Rightarrow> (string \<times> params) res" where
  "GenerateGetRowsByValuesSql M tab sortCol t asc pageSize page ps =
     rbind (LookupColumn (listColumns M tab) sortCol) (\<lambda>_.
     rbind (if t = [] then Inr ([], ps)
            else rbind (CheckKeysInTable t (listColumns M tab)) (\<lambda>_.
              let (w, ps') = WhereClauseFromKeyValueTable M t ps in Inr ('' WHERE '' @ w, ps')))
       (\<lambda>(w, ps1).
     rbind (page_params pageSize page ps1) (\<lambda>(p, ps2).
       Inr (select_counted_from M tab @ w @ paged_tail M sortCol asc p, ps2))))"

definition GenerateSearchRowsByILikeSql ::
  "pgmeta \<Rightarrow> string \<Rightarrow> string \<Rightarrow> StringArray \<Rightarrow> string \<Rightarrow> bool \<Rightarrow> int \<Rightarrow> int \<Rightarrow> params \<Rightarrow> (string \<times> params) res" where
  "GenerateSearchRowsByILikeSql M tab sortCol searchColumns txt asc pageSize page ps =
     rbind (LookupColumn (listColumns M tab) sortCol) (\<lambda>_.
     if \<not> list_all (\<lambda>c. c \<in> set (listColumns M tab)) searchColumns
     then Inl (InvalidArgument ''Search column not found in table.'')
     else
       (let (w, ps1) =
          (if searchColumns = [] then ([], ps)
           else (let (p, ps1) = AddParam (''%'' @ txt @ ''%'') ps
                 in ('' WHERE ('' @ join '' OR '' (map (\<lambda>c. EscSqlColumnName M c @ ''::text ILIKE '' @ p) searchColumns)
                     @ '')'', ps1)))
        in rbind (page_params pageSize page ps1) (\<lambda>(p, ps2).
             Inr (select_counted_from M tab @ w @ paged_tail M sortCol asc p, ps2))))"

definition LookupRowsByPrimaryKeyValuesSql :: "pgmeta \<Rightarrow> string \<Rightarrow> string \<Rightarrow> StringArray \<Rightarrow> (string \<times> params) option" where
  "LookupRowsByPrimaryKeyValuesSql M tab pk values =
     (if values = [] then None
      else Some (''SELECT * FROM '' @ EscSqlTableName M tab @ '' WHERE '' @ EscSqlColumnName M pk @ '' IN ('' @
             StringArrayToCommaSeparatedString (map (\<lambda>i. ''$'' @ StringFromInt (int i + 1)) [0..<length values]) @
             '')'', values))"

section \<open>What the client's values can reach\<close>

definition placeholder :: "nat \<Rightarrow> string" where
  "placeholder i = ''$'' @ StringFromInt (int i + 1)"

definition placeholders :: "nat \<Rightarrow> nat \<Rightarrow> string list" where
  "placeholders i n = map placeholder [i..<i + n]"

text \<open>No value is one of the SQL expressions the caller allows inline.\<close>

definition no_keyword :: "StringArray \<Rightarrow> KeyValueTable \<Rightarrow> bool" where
  "no_keyword allowed t \<longleftrightarrow> (\<forall>p \<in> set t. snd p \<notin> set allowed)"

lemma AddParam_eq: "AddParam v ps = (placeholder (length ps), ps @ [v])"
  by (simp add: AddParam_def placeholder_def)

lemma placeholders_Suc: "placeholders i (Suc n) = placeholder i # placeholders (Suc i) n"
  by (simp add: placeholders_def upt_conv_Cons del: upt_Suc)

lemma insert_params_eq:
  "no_keyword allowed t \<Longrightarrow>
   insert_params allowed t ps = (placeholders (length ps) (length t), ps @ map snd t)"
proof (induction t arbitrary: ps)
  case (Cons p t)
  obtain k v where p: "p = (k, v)" by (cases p)
  have "no_keyword allowed t" "v \<notin> set allowed"
    using Cons.prems p by (auto simp: no_keyword_def)
  then show ?case
    using Cons.IH [of "ps @ [v]"] p by (simp add: AddParam_eq placeholders_Suc)
qed (simp add: placeholders_def)

lemma where_conds_eq:
  "where_conds M t ps =
     (map2 (\<lambda>k i. EscSqlColumnName M k @ '' = '' @ placeholder i) (map fst t)
        [length ps..<length ps + length t], ps @ map snd t)"
proof (induction t arbitrary: ps)
  case (Cons p t)
  obtain k v where p: "p = (k, v)" by (cases p)
  show ?case
    using Cons.IH [of "ps @ [v]"] p by (simp add: AddParam_eq upt_conv_Cons del: upt_Suc)
qed simp

text \<open>The checks and the column list read the keys only.\<close>

definition check_keys :: "StringArray \<Rightarrow> string list \<Rightarrow> unit res" where
  "check_keys cols ks = (if list_all (\<lambda>k. k \<in> set cols) ks then Inr ()
     else Inl (InvalidArgument ''CheckKeysInTable key not found in table.''))"

definition column_list :: "pgmeta \<Rightarrow> string list \<Rightarrow> string" where
  "column_list M ks = StringArrayToCommaSeparatedString (map (EscSqlColumnName M) ks)"

lemma CheckKeysInTable_keys: "CheckKeysInTable t cols = check_keys cols (map fst t)"
  by (simp add: CheckKeysInTable_def check_keys_def list_all_iff case_prod_beta)

lemma GenerateInsertColumnNames_keys: "GenerateInsertColumnNames M t = column_list M (map fst t)"
proof -
  have "map (\<lambda>(k, _). EscSqlColumnName M k) t = map (EscSqlColumnName M) (map fst t)"
    by (induction t) auto
  then show ?thesis unfolding GenerateInsertColumnNames_def column_list_def by (rule arg_cong)
qed

lemma LookupColumns_keys:
  "rmap (\<lambda>(k, _). LookupColumn cols k) t = rmap (LookupColumn cols) (map fst t)"
  by (induction t) auto

lemma keys_length: "map fst t = map fst t' \<Longrightarrow> length t = length t' \<and> (t = []) = (t' = [])"
  by (metis length_map length_0_conv)

text \<open>
  The contract of a statement builder: the text it generates depends on the keys and on the number
  of parameters already bound, never on a value, and the values are bound in key order between a
  fixed prefix and a fixed suffix.
\<close>

locale statement_builder =
  fixes admissible :: "KeyValueTable \<Rightarrow> bool"
    and gen :: "KeyValueTable \<Rightarrow> params \<Rightarrow> (string \<times> params) res"
    and pre :: params and post :: params
  assumes text_of_keys: "admissible t \<Longrightarrow> admissible t' \<Longrightarrow> map fst t = map fst t' \<Longrightarrow>
      length ps = length ps' \<Longrightarrow> gen t ps = Inr (s, qs) \<Longrightarrow> \<exists>qs'. gen t' ps' = Inr (s, qs')"
    and binds: "admissible t \<Longrightarrow> gen t ps = Inr (s, qs) \<Longrightarrow> qs = ps @ pre @ map snd t @ post"
begin

lemma injection_free:
  assumes "admissible t" "admissible t'" "map fst t = map fst t'" "gen t [] = Inr (s, qs)"
  shows "gen t' [] = Inr (s, pre @ map snd t' @ post)"
proof -
  obtain qs' where q: "gen t' [] = Inr (s, qs')"
    using text_of_keys [OF assms(1-3), of "[]" "[]"] assms(4) by auto
  with binds [OF assms(2) q] show ?thesis by simp
qed

lemma values_bound: "admissible t \<Longrightarrow> gen t ps = Inr (s, qs) \<Longrightarrow> set (map snd t) \<subseteq> set qs"
  by (drule (1) binds) auto

end

lemmas builder_defs = GenerateInsertParams_def WhereClauseFromKeyValueTable_def insert_params_eq
  where_conds_eq Let_def AddParam_eq CheckKeysInTable_keys GenerateInsertColumnNames_keys
  LookupColumns_keys

interpretation insert_row: statement_builder "no_keyword allowed"
  "\<lambda>t. GenerateAddRowToTableSql M tab t allowed" "[]" "[]"
  by unfold_locales
    (auto simp: GenerateAddRowToTableSql_def builder_defs dest: keys_length)

interpretation insert_row_returning: statement_builder "no_keyword allowed"
  "\<lambda>t. GenerateAddRowToTableFetchIntPrimaryKeySql M tab t allowed" "[]" "[]"
  by unfold_locales
    (auto simp: GenerateAddRowToTableFetchIntPrimaryKeySql_def builder_defs dest: keys_length)

interpretation update_row: statement_builder "no_keyword allowed"
  "\<lambda>t. GenerateUpdateRowSql M tab c cv t allowed" "[cv]" "[]"
  by unfold_locales
    (auto simp: GenerateUpdateRowSql_def builder_defs dest: keys_length)

interpretation delete_rows: statement_builder "\<lambda>_. True"
  "\<lambda>t. GenerateDeleteRowsSql M tab t" "[]" "[]"
  by unfold_locales
    (auto simp: GenerateDeleteRowsSql_def builder_defs dest: keys_length)

interpretation lookup_row: statement_builder "\<lambda>_. True"
  "\<lambda>t ps. Inr (GenerateLookupRowByValuesSql M tab t ps)" "[]" "[]"
  by unfold_locales
    (auto simp: GenerateLookupRowByValuesSql_def builder_defs dest: keys_length)

interpretation rows_ordered: statement_builder "\<lambda>_. True"
  "\<lambda>t. GenerateGetRowsByValuesWithOrderBySql M tab t orderBy asc" "[]" "[]"
  by unfold_locales
    (auto simp: GenerateGetRowsByValuesWithOrderBySql_def builder_defs dest: keys_length
      split: if_splits)

interpretation rows_paged: statement_builder "\<lambda>_. True"
  "\<lambda>t. GenerateGetRowsByValuesSql M tab sortCol t asc pageSize page" "[]"
  "[StringFromInt pageSize, StringFromInt (page * pageSize)]"
  by unfold_locales
    (auto simp: GenerateGetRowsByValuesSql_def page_params_def builder_defs cpp_int_def
      dest: keys_length split: if_splits)

section \<open>Properties\<close>

text \<open>
  C22. No SQL injection through an UPDATE: with keys that pass the column check, two requests with
  the same columns generate the same statement text whatever the values are, and the values reach
  the database as bound parameters, the row key first and then one per column in key order. The one
  exception is a value equal to an SQL expression the caller whitelists (\<open>no_keyword\<close> excludes it).
\<close>

theorem update_injection_free:
  assumes "no_keyword allowed t" "no_keyword allowed t'" "map fst t = map fst t'"
    and "GenerateUpdateRowSql M tab c cv t allowed [] = Inr (s, qs)"
  shows "GenerateUpdateRowSql M tab c cv t' allowed [] = Inr (s, cv # map snd t')"
  using update_row.injection_free [OF assms] by simp

definition demo_meta :: pgmeta where
  "demo_meta = \<lparr>quote_name = (\<lambda>n. [CHR 0x22] @ n @ [CHR 0x22]),
     listColumns = (\<lambda>_. [''id'', ''name'', ''note'']), getPrimaryKey = (\<lambda>_. Inr ''id'')\<rparr>"

theorem update_injection_free_witness:
  "GenerateUpdateRowSql demo_meta ''people'' ''id'' ''7'' [(''name'', ''x'' @ [CHR 0x27] @ ''; DROP TABLE people'')] [''now_us()''] []
   = Inr (''UPDATE people SET (name) = ROW($2) WHERE id = $1'',
          [''7'', ''x'' @ [CHR 0x27] @ ''; DROP TABLE people''])"
proof -
  have base: "GenerateUpdateRowSql demo_meta ''people'' ''id'' ''7'' [(''name'', ''Ann'')] [''now_us()''] []
    = Inr (''UPDATE people SET (name) = ROW($2) WHERE id = $1'', [''7'', ''Ann''])"
    by code_simp
  show ?thesis
    using update_injection_free [OF _ _ _ base, of "[(''name'', ''x'' @ [CHR 0x27] @ ''; DROP TABLE people'')]"]
    by (simp add: no_keyword_def)
qed

text \<open>
  No SQL injection through a paged query: the statement depends on the filter's columns only,
  and its parameters are the filter values in key order, then the page size and the offset.
\<close>

theorem paged_injection_free:
  assumes "map fst t = map fst t'"
    and "GenerateGetRowsByValuesSql M tab sortCol t asc pageSize page [] = Inr (s, qs)"
  shows "GenerateGetRowsByValuesSql M tab sortCol t' asc pageSize page []
    = Inr (s, map snd t' @ [StringFromInt pageSize, StringFromInt (page * pageSize)])"
  using rows_paged.injection_free [OF TrueI TrueI assms] by simp

theorem paged_injection_free_witness:
  "GenerateGetRowsByValuesSql demo_meta ''people'' ''id'' [(''name'', [CHR 0x27] @ '' OR 1=1'')] True 10 2 []
   = Inr (''SELECT id, name, note, COUNT(*) OVER() AS _total_count FROM people WHERE name = $1 ORDER BY id ASC LIMIT NULLIF($2, 0) OFFSET $3'',
          [[CHR 0x27] @ '' OR 1=1'', ''10'', ''20''])"
proof -
  have base: "GenerateGetRowsByValuesSql demo_meta ''people'' ''id'' [(''name'', ''Ann'')] True 10 2 []
    = Inr (''SELECT id, name, note, COUNT(*) OVER() AS _total_count FROM people WHERE name = $1 ORDER BY id ASC LIMIT NULLIF($2, 0) OFFSET $3'',
        [''Ann'', ''10'', ''20''])"
    by code_simp
  have "StringFromInt 10 = ''10''" "StringFromInt (2 * 10) = ''20''" by code_simp+
  then show ?thesis
    using paged_injection_free [OF _ base, of "[(''name'', [CHR 0x27] @ '' OR 1=1'')]"] by simp
qed

text \<open>
  The offset of a page is computed in 32-bit \<open>int\<close>: a page number and size whose product
  leaves that range reach undefined behaviour, whatever the rest of the request is.
\<close>

theorem page_offset_overflow:
  assumes "sortCol \<in> set (listColumns M tab)" "sortCol \<noteq> []"
    and "\<forall>p \<in> set t. fst p \<in> set (listColumns M tab)" "\<not> in_i32 (page * pageSize)"
  shows "GenerateGetRowsByValuesSql M tab sortCol t asc pageSize page ps = Inl (Undefined ''int overflow'')"
proof -
  have "CheckKeysInTable t (listColumns M tab) = Inr ()"
    using assms(3) by (auto simp: CheckKeysInTable_def list_all_iff)
  with assms show ?thesis
    by (simp add: GenerateGetRowsByValuesSql_def LookupColumn_def page_params_def cpp_int_def
        split: prod.split)
qed

theorem page_offset_overflow_witness:
  "GenerateGetRowsByValuesSql demo_meta ''people'' ''id'' [] True 100000 100000 [] = Inl (Undefined ''int overflow'')"
  by (rule page_offset_overflow) (simp_all add: demo_meta_def in_i32_def)

end
