(* ===== verification/Crud.thy ===== *)
theory Crud
  imports SqlText
begin

text \<open>
  The public operations of \<open>database_crud_helpers.cpp\<close>: each generates its statement and hands it
  with its parameters to the transaction. The transaction is libpqxx's: its four calls are a
  parameter, state passing functions that may fail. Also here: the display templates and the
  total count of a paged query.
\<close>

section \<open>The transaction\<close>

record 's transaction =
  runSql :: "string \<Rightarrow> params \<Rightarrow> 's \<Rightarrow> unit res \<times> 's"
  runOneValue :: "string \<Rightarrow> params \<Rightarrow> 's \<Rightarrow> string res \<times> 's"
  runOneRow :: "string \<Rightarrow> params \<Rightarrow> 's \<Rightarrow> KeyValueTable res \<times> 's"
  runRows :: "string \<Rightarrow> params \<Rightarrow> 's \<Rightarrow> KeyValueTable list res \<times> 's"

text \<open>Run a generated statement; when generating it threw, nothing was sent.\<close>

definition send :: "(string \<times> params) res \<Rightarrow> (string \<Rightarrow> params \<Rightarrow> 's \<Rightarrow> 'a res \<times> 's) \<Rightarrow> 's \<Rightarrow> 'a res \<times> 's" where
  "send q run s = (case q of Inl e \<Rightarrow> (Inl e, s) | Inr (sql, ps) \<Rightarrow> run sql ps s)"

definition andThen :: "'a res \<times> 's \<Rightarrow> ('a \<Rightarrow> 'b res) \<Rightarrow> 'b res \<times> 's" where
  "andThen r f = (rbind (fst r) f, snd r)"

definition with_params :: "params \<Rightarrow> string res \<Rightarrow> (string \<times> params) res" where
  "with_params ps q = rbind q (\<lambda>sql. Inr (sql, ps))"

section \<open>Operations\<close>

definition AddRowToTable ::
  "'s transaction \<Rightarrow> pgmeta \<Rightarrow> string \<Rightarrow> KeyValueTable \<Rightarrow> StringArray \<Rightarrow> 's \<Rightarrow> unit res \<times> 's" where
  "AddRowToTable T M tab t allowed =
     send (GenerateAddRowToTableSql M tab t allowed []) (runSql T)"

definition AddRowToTableFetchIntPrimaryKey ::
  "'s transaction \<Rightarrow> pgmeta \<Rightarrow> string \<Rightarrow> KeyValueTable \<Rightarrow> StringArray \<Rightarrow> 's \<Rightarrow> int res \<times> 's" where
  "AddRowToTableFetchIntPrimaryKey T M tab t allowed s =
     andThen (send (GenerateAddRowToTableFetchIntPrimaryKeySql M tab t allowed []) (runOneValue T) s)
       (\<lambda>v. if v = [] then Inl (RuntimeError ''AddRowToTableFetchIntPrimaryKey - Most likely duplicate email.'')
            else stoi v)"

definition AddRowToTableFetchInt64PrimaryKey ::
  "'s transaction \<Rightarrow> pgmeta \<Rightarrow> string \<Rightarrow> KeyValueTable \<Rightarrow> StringArray \<Rightarrow> 's \<Rightarrow> int res \<times> 's" where
  "AddRowToTableFetchInt64PrimaryKey T M tab t allowed s =
     andThen (send (GenerateAddRowToTableFetchIntPrimaryKeySql M tab t allowed []) (runOneValue T) s)
       (\<lambda>v. if v = [] then Inl (RuntimeError ''AddRowToTableFetchInt64PrimaryKey - Most likely duplicate email.'')
            else stoll v)"

definition LookupRowByValue ::
  "'s transaction \<Rightarrow> pgmeta \<Rightarrow> string \<Rightarrow> string \<Rightarrow> string \<Rightarrow> 's \<Rightarrow> KeyValueTable res \<times> 's" where
  "LookupRowByValue T M tab c v =
     send (with_params [v] (GenerateLookupRowByValueSql M tab c)) (runOneRow T)"

definition LookupRowByValues ::
  "'s transaction \<Rightarrow> pgmeta \<Rightarrow> string \<Rightarrow> KeyValueTable \<Rightarrow> 's \<Rightarrow> KeyValueTable res \<times> 's" where
  "LookupRowByValues T M tab t =
     send (Inr (GenerateLookupRowByValuesSql M tab t [])) (runOneRow T)"

definition GetRow ::
  "'s transaction \<Rightarrow> pgmeta \<Rightarrow> string \<Rightarrow> string \<Rightarrow> string \<Rightarrow> 's \<Rightarrow> KeyValueTable res \<times> 's" where
  "GetRow T M tab c v = send (with_params [v] (GenerateGetRowSql M tab c)) (runOneRow T)"

definition GetTableRows :: "'s transaction \<Rightarrow> pgmeta \<Rightarrow> string \<Rightarrow> 's \<Rightarrow> KeyValueTable list res \<times> 's" where
  "GetTableRows T M tab =
     runRows T (''SELECT '' @ StringArrayToCommaSeparatedString (listColumns M tab) @ '' FROM '' @ tab) []"

definition GetRowsByColumn ::
  "'s transaction \<Rightarrow> pgmeta \<Rightarrow> string \<Rightarrow> string \<Rightarrow> bool \<Rightarrow> int \<Rightarrow> int \<Rightarrow> 's \<Rightarrow> KeyValueTable list res \<times> 's" where
  "GetRowsByColumn T M tab c asc pageSize page =
     send (rbind (GenerateGetRowsByColumnSql M tab c asc) (\<lambda>sql.
           rbind (cpp_int (page * pageSize)) (\<lambda>off.
             Inr (sql, [StringFromInt pageSize, StringFromInt off])))) (runRows T)"

definition ExtractTotalCount :: "bool \<Rightarrow> KeyValueTable list \<Rightarrow> (KeyValueTable list \<times> int option) res" where
  "ExtractTotalCount wanted rows =
     (case rows of
        [] \<Rightarrow> Inr ([], if wanted then Some 0 else None)
      | r # _ \<Rightarrow>
          rbind (if wanted
                 then rbind (stoll (case map_of r ''_total_count'' of None \<Rightarrow> [] | Some v \<Rightarrow> v))
                        (\<lambda>n. Inr (Some n))
                 else Inr None)
            (\<lambda>c. Inr (map (kv_erase ''_total_count'') rows, c)))"

definition GetRowsByValues ::
  "'s transaction \<Rightarrow> pgmeta \<Rightarrow> string \<Rightarrow> string \<Rightarrow> KeyValueTable \<Rightarrow> bool \<Rightarrow> int \<Rightarrow> int \<Rightarrow> bool \<Rightarrow> 's \<Rightarrow>
   (KeyValueTable list \<times> int option) res \<times> 's" where
  "GetRowsByValues T M tab sortCol t asc pageSize page wanted s =
     andThen (send (GenerateGetRowsByValuesSql M tab sortCol t asc pageSize page []) (runRows T) s)
       (ExtractTotalCount wanted)"

definition GetRowsByValuesWithOrderBy ::
  "'s transaction \<Rightarrow> pgmeta \<Rightarrow> string \<Rightarrow> KeyValueTable \<Rightarrow> string \<Rightarrow> bool \<Rightarrow> 's \<Rightarrow> KeyValueTable list res \<times> 's" where
  "GetRowsByValuesWithOrderBy T M tab t orderBy asc =
     send (GenerateGetRowsByValuesWithOrderBySql M tab t orderBy asc []) (runRows T)"

definition GetTableRowCount :: "'s transaction \<Rightarrow> pgmeta \<Rightarrow> string \<Rightarrow> 's \<Rightarrow> int res \<times> 's" where
  "GetTableRowCount T M tab s =
     andThen (runOneValue T (''SELECT COUNT(*) FROM '' @ EscSqlTableName M tab) [] s) stoll"

definition UpdateRow ::
  "'s transaction \<Rightarrow> pgmeta \<Rightarrow> string \<Rightarrow> string \<Rightarrow> string \<Rightarrow> KeyValueTable \<Rightarrow> StringArray \<Rightarrow> 's \<Rightarrow> unit res \<times> 's" where
  "UpdateRow T M tab c v t allowed = send (GenerateUpdateRowSql M tab c v t allowed []) (runSql T)"

definition DeleteRow ::
  "'s transaction \<Rightarrow> pgmeta \<Rightarrow> string \<Rightarrow> string \<Rightarrow> string \<Rightarrow> 's \<Rightarrow> unit res \<times> 's" where
  "DeleteRow T M tab c v = send (with_params [v] (GenerateDeleteRowSql M tab c)) (runSql T)"

definition DeleteRows ::
  "'s transaction \<Rightarrow> pgmeta \<Rightarrow> string \<Rightarrow> KeyValueTable \<Rightarrow> 's \<Rightarrow> unit res \<times> 's" where
  "DeleteRows T M tab t = send (GenerateDeleteRowsSql M tab t []) (runSql T)"

definition SearchRowsByILike ::
  "'s transaction \<Rightarrow> pgmeta \<Rightarrow> string \<Rightarrow> string \<Rightarrow> StringArray \<Rightarrow> string \<Rightarrow> bool \<Rightarrow> int \<Rightarrow> int \<Rightarrow> bool \<Rightarrow> 's \<Rightarrow>
   (KeyValueTable list \<times> int option) res \<times> 's" where
  "SearchRowsByILike T M tab sortCol cols txt asc pageSize page wanted s =
     andThen (send (GenerateSearchRowsByILikeSql M tab sortCol cols txt asc pageSize page []) (runRows T) s)
       (ExtractTotalCount wanted)"

definition LookupRowsByPrimaryKeyValues ::
  "'s transaction \<Rightarrow> pgmeta \<Rightarrow> string \<Rightarrow> string \<Rightarrow> StringArray \<Rightarrow> 's \<Rightarrow> KeyValueTable list res \<times> 's" where
  "LookupRowsByPrimaryKeyValues T M tab pk values s =
     (case LookupRowsByPrimaryKeyValuesSql M tab pk values of
        None \<Rightarrow> (Inr [], s)
      | Some (sql, ps) \<Rightarrow> runRows T sql ps s)"

section \<open>Display templates\<close>

text \<open>
  The scan of \<open>ParseTemplateColumns\<close>, on the part of the template from the current position: the
  next opening brace, the first closing brace behind it, the column between them.
\<close>

function ParseTemplateColumns :: "string \<Rightarrow> StringArray" where
  "ParseTemplateColumns s =
     (case find_str ''{'' s of
        None \<Rightarrow> []
      | Some i \<Rightarrow>
         (case find_str ''}'' (drop (i + 1) s) of
            None \<Rightarrow> []
          | Some j \<Rightarrow> take j (drop (i + 1) s) # ParseTemplateColumns (drop (i + 1 + j + 1) s)))"
  by pat_completeness auto
termination
  by (relation "measure length") (auto dest!: find_str_Some)

declare ParseTemplateColumns.simps [simp del]

definition ResolveDisplayValues :: "KeyValueTable list \<Rightarrow> string \<Rightarrow> string \<Rightarrow> KeyValueTable" where
  "ResolveDisplayValues rows pkCol template =
     foldl (\<lambda>result row.
        case map_of row pkCol of
          None \<Rightarrow> result
        | Some pkValue \<Rightarrow>
            kv_assign pkValue (if template = [] then pkValue else FormatString template row) result)
       [] rows"

text \<open>A template as text and columns in turn; \<open>render_template\<close> writes it with braces.\<close>

fun render_template :: "(string \<times> string) list \<Rightarrow> string \<Rightarrow> string" where
  "render_template [] rest = rest"
| "render_template ((lit, col) # ps) rest = lit @ ''{'' @ col @ ''}'' @ render_template ps rest"

lemma find_char_append:
  "c \<notin> set xs \<Longrightarrow> find_str [c] (xs @ c # ys) = Some (length xs)"
  by (induction xs) auto

lemma find_char_absent: "c \<notin> set xs \<Longrightarrow> find_str [c] xs = None"
  by (induction xs) auto

lemma ParseTemplateColumns_render:
  "\<forall>(lit, col) \<in> set ps. CHR ''{'' \<notin> set lit \<and> CHR ''}'' \<notin> set col \<Longrightarrow> CHR ''{'' \<notin> set rest \<Longrightarrow>
   ParseTemplateColumns (render_template ps rest) = map snd ps"
proof (induction ps)
  case Nil
  then show ?case
    by (subst ParseTemplateColumns.simps) (simp add: find_char_absent)
next
  case (Cons p ps)
  obtain lit col where p: "p = (lit, col)" by (cases p)
  let ?tail = "render_template ps rest"
  have rendered: "render_template (p # ps) rest = lit @ CHR ''{'' # col @ CHR ''}'' # ?tail"
    by (simp add: p)
  have f1: "find_str ''{'' (lit @ CHR ''{'' # col @ CHR ''}'' # ?tail) = Some (length lit)"
    using Cons.prems p by (intro find_char_append) auto
  have f2: "find_str ''}'' (col @ CHR ''}'' # ?tail) = Some (length col)"
    using Cons.prems p by (intro find_char_append) auto
  have "ParseTemplateColumns (render_template (p # ps) rest) = col # ParseTemplateColumns ?tail"
    unfolding rendered by (subst ParseTemplateColumns.simps) (simp add: f1 f2)
  then show ?case using Cons p by simp
qed

text \<open>A request the generator refuses leaves the database alone.\<close>

lemma send_refused: "q = Inl e \<Longrightarrow> send q run s = (Inl e, s)"
  by (simp add: send_def)

lemma CheckKeysInTable_unknown:
  "k \<in> fst ` set t \<Longrightarrow> k \<notin> set cols \<Longrightarrow>
   CheckKeysInTable t cols = Inl (InvalidArgument ''CheckKeysInTable key not found in table.'')"
  by (auto simp: CheckKeysInTable_def list_all_iff)

lemma LookupColumns_unknown:
  assumes "k \<in> fst ` set t" "k \<notin> set cols"
  shows "\<exists>e. rmap (\<lambda>(k, _). LookupColumn cols k) t = Inl e"
  using assms
proof (induction t)
  case (Cons p t)
  obtain a b where p: "p = (a, b)" by (cases p)
  show ?case
  proof (cases "a = k")
    case True
    then show ?thesis using Cons.prems(2) p by (simp add: LookupColumn_def)
  next
    case False
    then have "k \<in> fst ` set t" using Cons.prems(1) p by auto
    then obtain e where "rmap (\<lambda>(k, _). LookupColumn cols k) t = Inl e" using Cons by blast
    then show ?thesis using p by (cases "LookupColumn cols a") simp_all
  qed
qed simp

section \<open>Properties\<close>

text \<open>
  A request naming a column the table does not have is refused by every operation that takes
  columns from the caller, before anything is sent: the database's state is the one it was.
\<close>

theorem unknown_column_refused:
  assumes "k \<in> fst ` set t" "k \<notin> set (listColumns M tab)"
  shows "AddRowToTable T M tab t allowed s = (Inl (InvalidArgument ''CheckKeysInTable key not found in table.''), s) \<and>
    UpdateRow T M tab c v t allowed s = (Inl (InvalidArgument ''CheckKeysInTable key not found in table.''), s) \<and>
    (\<exists>e. DeleteRows T M tab t s = (Inl e, s)) \<and>
    (\<exists>e. GetRowsByValues T M tab sortCol t asc pageSize page wanted s = (Inl e, s))"
proof (intro conjI)
  note unknown = CheckKeysInTable_unknown [OF assms]
  show "AddRowToTable T M tab t allowed s = (Inl (InvalidArgument ''CheckKeysInTable key not found in table.''), s)"
    by (simp add: AddRowToTable_def GenerateAddRowToTableSql_def unknown send_def)
  show "UpdateRow T M tab c v t allowed s = (Inl (InvalidArgument ''CheckKeysInTable key not found in table.''), s)"
    by (simp add: UpdateRow_def GenerateUpdateRowSql_def unknown send_def)
  show "\<exists>e. DeleteRows T M tab t s = (Inl e, s)"
    using LookupColumns_unknown [OF assms] by (auto simp: DeleteRows_def GenerateDeleteRowsSql_def send_def)
  have "t \<noteq> []" using assms(1) by auto
  then show "\<exists>e. GetRowsByValues T M tab sortCol t asc pageSize page wanted s = (Inl e, s)"
    by (cases "LookupColumn (listColumns M tab) sortCol")
      (simp_all add: GetRowsByValues_def GenerateGetRowsByValuesSql_def unknown send_def andThen_def)
qed

definition demo_db :: "nat transaction" where
  "demo_db = \<lparr>runSql = (\<lambda>_ _ n. (Inr (), Suc n)), runOneValue = (\<lambda>_ _ n. (Inr ''1'', Suc n)),
     runOneRow = (\<lambda>_ _ n. (Inr [], Suc n)), runRows = (\<lambda>_ _ n. (Inr [], Suc n))\<rparr>"

theorem unknown_column_refused_witness:
  "AddRowToTable demo_db demo_meta ''people'' [(''admin'', ''t'')] [] 0
     = (Inl (InvalidArgument ''CheckKeysInTable key not found in table.''), 0)"
  using unknown_column_refused [of "''admin''" "[(''admin'', ''t'')]" demo_meta "''people''" demo_db "[]" 0]
  by (simp add: demo_meta_def)

text \<open>
  \<open>ParseTemplateColumns\<close> finds exactly the columns a display template is written with, in
  order, for literal text without an opening brace and column names without a closing one.
\<close>

theorem template_columns_found:
  assumes "\<forall>(lit, col) \<in> set ps. CHR ''{'' \<notin> set lit \<and> CHR ''}'' \<notin> set col" "CHR ''{'' \<notin> set rest"
  shows "ParseTemplateColumns (render_template ps rest) = map snd ps"
  using assms by (rule ParseTemplateColumns_render)

theorem template_columns_found_witness:
  "ParseTemplateColumns ''{first_name} {last_name} (active)'' = [''first_name'', ''last_name'']"
  using template_columns_found [of "[('''', ''first_name''), ('' '', ''last_name'')]" "'' (active)''"] by simp

text \<open>
  \<open>ExtractTotalCount\<close> takes the window-function column out of every row and reports its
  value: the caller sees the rows as stored, and the count the database computed.
\<close>

theorem ExtractTotalCount_correct:
  assumes "map_of r ''_total_count'' = Some (StringFromInt n)" "in_i64 n"
  shows "\<exists>out. ExtractTotalCount True (r # rs) = Inr (out, Some n) \<and> length out = Suc (length rs) \<and>
    (\<forall>i < Suc (length rs). map_of (out ! i) ''_total_count'' = None \<and>
       (\<forall>k. k \<noteq> ''_total_count'' \<longrightarrow> map_of (out ! i) k = map_of ((r # rs) ! i) k))"
proof -
  have "stoll (StringFromInt n) = Inr n"
    using assms(2) by (simp add: stoll_def parse_int_StringFromInt)
  then have "ExtractTotalCount True (r # rs) = Inr (map (kv_erase ''_total_count'') (r # rs), Some n)"
    using assms(1) by (simp add: ExtractTotalCount_def)
  moreover have "map (kv_erase ''_total_count'') (r # rs) ! i = kv_erase ''_total_count'' ((r # rs) ! i)"
    if "i < Suc (length rs)" for i
    using that by (metis length_Cons nth_map)
  ultimately show ?thesis
    by (intro exI [of _ "map (kv_erase ''_total_count'') (r # rs)"]) (simp add: map_of_kv_erase)
qed

theorem ExtractTotalCount_correct_witness:
  "\<exists>out. ExtractTotalCount True [[(''_total_count'', ''12''), (''id'', ''3'')]] = Inr (out, Some 12) \<and> length out = 1"
proof -
  have "StringFromInt 12 = ''12''" by code_simp
  then show ?thesis
    using ExtractTotalCount_correct [of "[(''_total_count'', ''12''), (''id'', ''3'')]" 12 "[]"]
    by (auto simp: in_i64_def)
qed

end
