(* ===== verification/World.thy ===== *)
theory World
  imports Crud
begin

text \<open>
  The database the authentication code works on, and what it calls outside the repository.
  \<open>env\<close> holds the services: PostgreSQL's clock, its UUID generator and input function, the
  case folding of \<open>CITEXT\<close>, and libsodium. \<open>world\<close> is one transaction's view of the
  tables. The clock, the UUID generator and the random source are streams read by position, so every
  reading may differ; nothing is assumed about them unless a lemma says so.

  A row is a record of its columns. The code reads rows as \<open>std::map<std::string, std::string>\<close>
  and converts numbers with \<open>std::stoll\<close>; \<open>parse_int_StringFromInt\<close> (CppTypes) shows that
  reading a printed 64-bit number gives the number back, so the records carry the number. A NULL
  column is \<open>None\<close>; an empty map (no row) is \<open>None\<close>.

  A failing statement aborts the transaction: every later statement of it fails too.

  Beside the tables, \<open>world\<close> holds what the request keeps outside the database: the fields of its
  \<open>Session\<close> object (\<open>session_personId\<close> is \<open>-1\<close> when signed out), its cookie manager (\<open>None\<close> is
  the null pointer), the mails sent and the jobs queued on the thread pool.
\<close>

section \<open>Rows\<close>

record PersonRow =
  p_id :: int
  p_email :: string
  p_firstName :: string
  p_lastName :: string
  p_passwordHash :: string
  p_emailVerifiedAt :: "int option"
  p_mustChangePassword :: bool
  p_createdAt :: int
  p_updatedAt :: int
  p_failedLoginAttempts :: int
  p_lockedUntil :: "int option"

record SessionRow =
  s_id :: int
  s_uuid :: string
  s_personId :: int
  s_createdAt :: int
  s_lastSeenAt :: int
  s_expiresAt :: int
  s_revoked :: bool

record DeviceTokenRow =
  d_id :: int
  d_uuid :: string
  d_personId :: int
  d_secretHash :: string
  d_createdAt :: int
  d_lastUsedAt :: "int option"
  d_expiresAt :: int
  d_revoked :: bool

record EmailVerificationRow =
  v_id :: int
  v_personId :: int
  v_tokenHash :: string
  v_expiresAt :: int
  v_attempts :: int

record PasswordResetRow =
  r_id :: int
  r_personId :: int
  r_tokenHash :: string
  r_expiresAt :: int
  r_attempts :: int
  r_createdAt :: int

record LoginAttemptRow =
  a_id :: int
  a_email :: string
  a_ip :: string
  a_attemptedAt :: int
  a_success :: bool
  a_kind :: string

record AuthEventRow =
  e_id :: int
  e_kind :: string
  e_personId :: "int option"
  e_ip :: string
  e_userAgent :: string
  e_whenUs :: int
  e_detailJson :: string

text \<open>A mail, and a job handed to the thread pool to run in a transaction of its own later.\<close>

record MailMessage =
  m_fromName :: string
  m_fromAddress :: string
  m_toName :: string
  m_toAddress :: string
  m_subject :: string
  m_bodyHtml :: string

text \<open>
  A job that writes opens its transaction on the deployment's global provider or on the provider of
  the request's tenant.
\<close>

datatype provider = GlobalProvider | RequestProvider

datatype job =
    SendMailJob MailMessage
  | UpdateLastSeenJob int
  | RecordAttemptJob provider string string string bool

text \<open>\<open>cookie_manager.h\<close>: the cookies of the request and those set on the response, in order.\<close>

datatype CookieSameSitePolicy = SameSiteStrict | SameSiteLax | SameSiteNone

record CookieProperties =
  c_domain :: string
  c_path :: string
  c_sameSite :: CookieSameSitePolicy
  c_secure :: bool
  c_httpOnly :: bool
  c_maxAgeInMicros :: int

record CookieManager =
  cookies_in :: "(string \<times> string) list"
  cookies_out :: "(string \<times> string \<times> CookieProperties) list"

section \<open>The services and the state\<close>

record env =
  clk :: "nat \<Rightarrow> int"
  new_uuid :: "nat \<Rightarrow> string"
  uuid_in :: "string \<Rightarrow> string option"
  citext :: "string \<Rightarrow> string"
  random_bytes :: "nat \<Rightarrow> nat \<Rightarrow> string"
  generichash :: "string \<Rightarrow> string"
  base64_encode :: "string \<Rightarrow> string"
  base64_decode :: "string \<Rightarrow> string option"
  url_decode :: "string \<Rightarrow> string"
  pwhash_str :: "nat \<Rightarrow> string \<Rightarrow> nat \<Rightarrow> nat \<Rightarrow> string option"
  pwhash_verify :: "string \<Rightarrow> string \<Rightarrow> bool"
  secretbox :: "string \<Rightarrow> string \<Rightarrow> string \<Rightarrow> string"
  secretbox_open :: "string \<Rightarrow> string \<Rightarrow> string \<Rightarrow> string option"
  url_encode :: "string \<Rightarrow> string"
  smtp :: "MailMessage \<Rightarrow> unit res"
  isProdMode :: bool

record world =
  people :: "PersonRow list"
  sessions :: "SessionRow list"
  device_tokens :: "DeviceTokenRow list"
  email_verifications :: "EmailVerificationRow list"
  password_reset_tokens :: "PasswordResetRow list"
  login_attempts :: "LoginAttemptRow list"
  auth_events :: "AuthEventRow list"
  admin_alerts :: "string list"
  roles :: "(int \<times> string) list"
  permissions :: "(int \<times> string) list"
  role_permissions :: "(int \<times> int) list"
  role_assignments :: "(int \<times> int) list"
  config_secrets :: "(string \<times> string) list"
  admin_table_permissions :: "(int \<times> string) list"
  admin_top_level_tables :: "string list"
  admin_nested_tables :: "string list"
  allowed_tables :: "string list"
  cookie_manager :: "CookieManager option"
  session_personId :: int
  session_csrfToken :: string
  outbox :: "MailMessage list"
  jobs :: "job list"
  seqs :: "string \<Rightarrow> int"
  tick :: nat
  uuids :: nat
  draws :: nat
  tx_start :: int
  aborted :: bool

text \<open>An empty database on which nothing has run, for evaluating the definitions on concrete input.\<close>

definition emptyWorld :: world where
  "emptyWorld = \<lparr>people = [], sessions = [], device_tokens = [], email_verifications = [],
     password_reset_tokens = [], login_attempts = [], auth_events = [], admin_alerts = [],
     roles = [], permissions = [], role_permissions = [], role_assignments = [],
     config_secrets = [], admin_table_permissions = [], admin_top_level_tables = [],
     admin_nested_tables = [], allowed_tables = [], cookie_manager = None, session_personId = -1,
     session_csrfToken = [], outbox = [], jobs = [], seqs = (\<lambda>_. 1), tick = 0, uuids = 0, draws = 0,
     tx_start = 0, aborted = False\<rparr>"

text \<open>
  A concrete environment with the same shape: a clock that advances by one, identifiers and random
  bytes that only count, and the simplest functions with libsodium's documented laws.
\<close>

definition demoEnv :: env where
  "demoEnv = \<lparr>clk = (\<lambda>n. int n), new_uuid = (\<lambda>n. replicate n (CHR ''u'')), uuid_in = Some,
     citext = (\<lambda>s. s), random_bytes = (\<lambda>i n. replicate n (char_of i)), generichash = take 2,
     base64_encode = (\<lambda>s. s), base64_decode = Some, url_decode = (\<lambda>s. s),
     pwhash_str = (\<lambda>salt p ops mem. Some p), pwhash_verify = (\<lambda>h p. h = p),
     secretbox = (\<lambda>k n m. replicate 16 (CHR ''m'') @ m), secretbox_open = (\<lambda>k n c. Some (drop 16 c)),
     url_encode = (\<lambda>s. s), smtp = (\<lambda>_. Inr ()), isProdMode = False\<rparr>"

section \<open>Transactions\<close>

type_synonym 'a tx = "world \<Rightarrow> 'a res \<times> world"

named_theorems tx_simps \<open>evaluation of the transaction combinators\<close>

definition ret :: "'a \<Rightarrow> 'a tx" where
  "ret x w = (Inr x, w)"

definition throw :: "exn \<Rightarrow> 'a tx" where
  "throw e w = (Inl e, w)"

definition lift :: "'a res \<Rightarrow> 'a tx" where
  "lift r w = (r, w)"

definition bindT :: "'a tx \<Rightarrow> ('a \<Rightarrow> 'b tx) \<Rightarrow> 'b tx" where
  "bindT m f w = (case m w of (Inl e, w') \<Rightarrow> (Inl e, w') | (Inr x, w') \<Rightarrow> f x w')"

text \<open>
  \<open>try { m } catch (...) { h }\<close>: what \<open>m\<close> wrote before it threw stays. Undefined behaviour is no
  exception and is not caught.
\<close>

definition catchT :: "'a tx \<Rightarrow> (exn \<Rightarrow> 'a tx) \<Rightarrow> 'a tx" where
  "catchT m h w = (case m w of
       (Inl (Undefined s), w') \<Rightarrow> (Inl (Undefined s), w')
     | (Inl e, w') \<Rightarrow> h e w'
     | (Inr x, w') \<Rightarrow> (Inr x, w'))"

text \<open>A loop that runs a step per element and collects the results.\<close>

fun mapT :: "('a \<Rightarrow> 'b tx) \<Rightarrow> 'a list \<Rightarrow> 'b list tx" where
  "mapT f [] = ret []"
| "mapT f (x # xs) = bindT (f x) (\<lambda>y. bindT (mapT f xs) (\<lambda>ys. ret (y # ys)))"

text \<open>One SQL statement: refused in an aborted transaction, and aborting it when it fails.\<close>

definition stmt :: "(world \<Rightarrow> 'a res \<times> world) \<Rightarrow> 'a tx" where
  "stmt f w =
     (if aborted w then (Inl (DbFailure ''current transaction is aborted''), w)
      else case f w of
          (Inl e, _) \<Rightarrow> (Inl e, w\<lparr>aborted := True\<rparr>)
        | (Inr x, w') \<Rightarrow> (Inr x, w'))"

definition query :: "(world \<Rightarrow> 'a) \<Rightarrow> 'a tx" where
  "query f = stmt (\<lambda>w. (Inr (f w), w))"

text \<open>The reading of \<open>now_us()\<close> in a statement, and the state once it has been read.\<close>

definition now_of :: "env \<Rightarrow> world \<Rightarrow> int" where
  "now_of E w = clk E (tick w)"

definition ticked :: "world \<Rightarrow> world" where
  "ticked w = w\<lparr>tick := Suc (tick w)\<rparr>"

definition now_us :: "env \<Rightarrow> int tx" where
  "now_us E = stmt (\<lambda>w. (Inr (now_of E w), ticked w))"

definition nextval :: "string \<Rightarrow> world \<Rightarrow> int \<times> world" where
  "nextval s w = (seqs w s, w\<lparr>seqs := (seqs w)(s := seqs w s + 1)\<rparr>)"

text \<open>A draw of \<open>randombytes_buf\<close>.\<close>

definition RandomBytes :: "env \<Rightarrow> nat \<Rightarrow> string tx" where
  "RandomBytes E n w = (Inr (random_bytes E (draws w) n), w\<lparr>draws := Suc (draws w)\<rparr>)"

text \<open>\<open>MailHelper::SendMail\<close>: what the mail service answers; an accepted mail is in the outbox.\<close>

definition SendMail :: "env \<Rightarrow> MailMessage \<Rightarrow> unit tx" where
  "SendMail E m w = (case smtp E m of Inl e \<Rightarrow> (Inl e, w) | Inr _ \<Rightarrow> (Inr (), w\<lparr>outbox := outbox w @ [m]\<rparr>))"

definition QueueJob :: "job \<Rightarrow> unit tx" where
  "QueueJob j w = (Inr (), w\<lparr>jobs := jobs w @ [j]\<rparr>)"

lemma bindT_ret [simp, tx_simps]: "bindT (ret x) f = f x"
  by (simp add: bindT_def ret_def fun_eq_iff)

lemma bindT_throw [simp, tx_simps]: "bindT (throw e) f = throw e"
  by (simp add: bindT_def throw_def fun_eq_iff)

lemma bindT_lift [tx_simps]: "bindT (lift r) f = (case r of Inl e \<Rightarrow> throw e | Inr x \<Rightarrow> f x)"
  by (simp add: bindT_def lift_def throw_def fun_eq_iff split: sum.split)

lemma bindT_assoc: "bindT (bindT m f) g = bindT m (\<lambda>x. bindT (f x) g)"
  by (auto simp: bindT_def fun_eq_iff split: prod.split sum.split)

lemma ret_apply [tx_simps]: "ret x w = (Inr x, w)"
  by (simp add: ret_def)

lemma throw_apply [tx_simps]: "throw e w = (Inl e, w)"
  by (simp add: throw_def)

lemma lift_apply [tx_simps]: "lift r w = (r, w)"
  by (simp add: lift_def)

lemma bindT_Inr: "m w = (Inr x, w') \<Longrightarrow> bindT m f w = f x w'"
  by (simp add: bindT_def)

lemma bindT_Inl: "m w = (Inl e, w') \<Longrightarrow> bindT m f w = (Inl e, w')"
  by (simp add: bindT_def)

lemma bindT_InrE [consumes 1, case_names step]:
  assumes "bindT m f w = (Inr y, w')"
  obtains x w1 where "m w = (Inr x, w1)" "f x w1 = (Inr y, w')"
  using assms by (auto simp: bindT_def split: prod.splits sum.splits)

lemma catchT_Inr: "m w = (Inr x, w') \<Longrightarrow> catchT m h w = (Inr x, w')"
  by (simp add: catchT_def)

lemma catchT_Inl: "m w = (Inl e, w') \<Longrightarrow> (\<And>s. e \<noteq> Undefined s) \<Longrightarrow> catchT m h w = h e w'"
  by (cases e) (auto simp: catchT_def)

lemma catchT_InrE [consumes 1, case_names returned caught]:
  assumes "catchT m h w = (Inr y, w')"
  obtains "m w = (Inr y, w')" | e w1 where "m w = (Inl e, w1)" "h e w1 = (Inr y, w')"
  using assms by (auto simp: catchT_def split: prod.splits sum.splits exn.splits)

lemma query_live [tx_simps]: "\<not> aborted w \<Longrightarrow> query f w = (Inr (f w), w)"
  by (simp add: query_def stmt_def)

lemma query_Inr: "query f w = (Inr x, w') \<longleftrightarrow> \<not> aborted w \<and> x = f w \<and> w' = w"
  by (auto simp: query_def stmt_def)

lemma query_state: "query f w = (r, w') \<Longrightarrow> w' = w"
  by (auto simp: query_def stmt_def split: if_splits)

lemma now_us_live [tx_simps]: "\<not> aborted w \<Longrightarrow> now_us E w = (Inr (now_of E w), ticked w)"
  by (simp add: now_us_def stmt_def)

lemma now_us_Inr: "now_us E w = (Inr x, w') \<longleftrightarrow> \<not> aborted w \<and> x = now_of E w \<and> w' = ticked w"
  by (auto simp: now_us_def stmt_def)

lemma stmt_Inr: "stmt f w = (Inr x, w') \<longleftrightarrow> \<not> aborted w \<and> f w = (Inr x, w')"
  by (auto simp: stmt_def split: prod.splits sum.splits)

lemma RandomBytes_Inr: "RandomBytes E n w = (r, w') \<longleftrightarrow>
    r = Inr (random_bytes E (draws w) n) \<and> w' = w\<lparr>draws := Suc (draws w)\<rparr>"
  by (auto simp: RandomBytes_def)

lemma ticked_sel [simp]:
  "people (ticked w) = people w" "sessions (ticked w) = sessions w"
  "device_tokens (ticked w) = device_tokens w" "email_verifications (ticked w) = email_verifications w"
  "password_reset_tokens (ticked w) = password_reset_tokens w"
  "login_attempts (ticked w) = login_attempts w" "auth_events (ticked w) = auth_events w"
  "admin_alerts (ticked w) = admin_alerts w" "roles (ticked w) = roles w"
  "permissions (ticked w) = permissions w" "role_permissions (ticked w) = role_permissions w"
  "role_assignments (ticked w) = role_assignments w" "config_secrets (ticked w) = config_secrets w"
  "admin_table_permissions (ticked w) = admin_table_permissions w"
  "admin_top_level_tables (ticked w) = admin_top_level_tables w"
  "admin_nested_tables (ticked w) = admin_nested_tables w"
  "allowed_tables (ticked w) = allowed_tables w" "cookie_manager (ticked w) = cookie_manager w"
  "session_personId (ticked w) = session_personId w"
  "session_csrfToken (ticked w) = session_csrfToken w"
  "outbox (ticked w) = outbox w" "jobs (ticked w) = jobs w"
  "seqs (ticked w) = seqs w" "tick (ticked w) = Suc (tick w)" "uuids (ticked w) = uuids w"
  "draws (ticked w) = draws w" "tx_start (ticked w) = tx_start w" "aborted (ticked w) = aborted w"
  by (simp_all add: ticked_def)

named_theorems run_simps \<open>a successful run of a composed step, taken apart into its parts\<close>

lemma bindT_Inr_iff [run_simps]:
  "bindT m f w = (Inr y, w') \<longleftrightarrow> (\<exists>x w1. m w = (Inr x, w1) \<and> f x w1 = (Inr y, w'))"
  by (auto simp: bindT_def split: prod.splits sum.splits)

lemma ret_run [run_simps]: "ret x w = (Inr y, w') \<longleftrightarrow> x = y \<and> w = w'"
  by (simp add: ret_def)

lemma throw_run [run_simps]: "throw e w = (Inr y, w') \<longleftrightarrow> False"
  by (simp add: throw_def)

lemma lift_run [run_simps]: "lift r w = (Inr y, w') \<longleftrightarrow> r = Inr y \<and> w = w'"
  by (simp add: lift_def)

declare query_Inr [run_simps] now_us_Inr [run_simps] stmt_Inr [run_simps]

lemma RandomBytes_run [run_simps]: "RandomBytes E n w = (Inr y, w') \<longleftrightarrow>
    y = random_bytes E (draws w) n \<and> w' = w\<lparr>draws := Suc (draws w)\<rparr>"
  by (auto simp: RandomBytes_def)

lemma QueueJob_run [run_simps]: "QueueJob j w = (Inr y, w') \<longleftrightarrow> w' = w\<lparr>jobs := jobs w @ [j]\<rparr>"
  by (auto simp: QueueJob_def)

lemma if_run [run_simps]:
  "(if c then a else b) w = (Inr y, w') \<longleftrightarrow> (c \<longrightarrow> a w = (Inr y, w')) \<and> (\<not> c \<longrightarrow> b w = (Inr y, w'))"
  by simp

lemma option_run [run_simps]:
  "(case v of None \<Rightarrow> a | Some x \<Rightarrow> b x) w = (Inr y, w') \<longleftrightarrow>
   (v = None \<and> a w = (Inr y, w')) \<or> (\<exists>x. v = Some x \<and> b x w = (Inr y, w'))"
  by (cases v) simp_all

lemmas tx_inr = query_Inr now_us_Inr stmt_Inr RandomBytes_Inr ret_apply throw_apply lift_apply

section \<open>Steps that only read\<close>

text \<open>A successful run changes nothing but the position on the clock, and that only forwards.\<close>

definition reads :: "'a tx \<Rightarrow> bool" where
  "reads m \<longleftrightarrow> (\<forall>w x w'. m w = (Inr x, w') \<longrightarrow> tick w \<le> tick w' \<and> w' = w\<lparr>tick := tick w'\<rparr>)"

named_theorems read_rules \<open>introduction rules for steps that only read\<close>

lemma readsD: "reads m \<Longrightarrow> m w = (Inr x, w') \<Longrightarrow> tick w \<le> tick w' \<and> w' = w\<lparr>tick := tick w'\<rparr>"
  by (auto simp: reads_def)

lemma reads_tick: "m w = (Inr x, w') \<Longrightarrow> reads m \<Longrightarrow> tick w \<le> tick w'"
  by (auto simp: reads_def)

lemma reads_ret [read_rules]: "reads (ret x)"
  by (simp add: reads_def ret_def)

lemma reads_throw [read_rules]: "reads (throw e)"
  by (simp add: reads_def throw_def)

lemma reads_lift [read_rules]: "reads (lift r)"
  by (simp add: reads_def lift_def)

lemma reads_query [read_rules]: "reads (query f)"
  by (simp add: reads_def query_Inr)

lemma reads_now [read_rules]: "reads (now_us E)"
  by (simp add: reads_def now_us_Inr ticked_def)

lemma reads_bind [read_rules]:
  assumes "reads m" "\<And>x. reads (f x)"
  shows "reads (bindT m f)"
  unfolding reads_def
proof (intro allI impI)
  fix w y w'
  assume "bindT m f w = (Inr y, w')"
  then obtain x w1 where 1: "m w = (Inr x, w1)" and 2: "f x w1 = (Inr y, w')"
    by (rule bindT_InrE)
  have a: "tick w \<le> tick w1" "w1 = w\<lparr>tick := tick w1\<rparr>"
    using readsD [OF assms(1) 1] by simp_all
  have b: "tick w1 \<le> tick w'" "w' = w1\<lparr>tick := tick w'\<rparr>"
    using readsD [OF assms(2) 2] by simp_all
  have "w1\<lparr>tick := tick w'\<rparr> = w\<lparr>tick := tick w'\<rparr>"
    by (subst a(2)) simp
  with a b show "tick w \<le> tick w' \<and> w' = w\<lparr>tick := tick w'\<rparr>" by simp
qed

lemma reads_if [read_rules]: "reads a \<Longrightarrow> reads b \<Longrightarrow> reads (if c then a else b)"
  by simp

lemma reads_option [read_rules]:
  "reads a \<Longrightarrow> (\<And>x. reads (b x)) \<Longrightarrow> reads (case v of None \<Rightarrow> a | Some x \<Rightarrow> b x)"
  by (cases v) simp_all

lemma reads_sum [read_rules]:
  "(\<And>x. reads (a x)) \<Longrightarrow> (\<And>x. reads (b x)) \<Longrightarrow> reads (case v of Inl x \<Rightarrow> a x | Inr x \<Rightarrow> b x)"
  by (cases v) simp_all

lemma reads_mapT [read_rules]: "(\<And>x. reads (f x)) \<Longrightarrow> reads (mapT f xs)"
  by (induction xs) (simp_all add: read_rules)

section \<open>Steps along a relation\<close>

text \<open>
  \<open>along R m\<close>: whatever \<open>m\<close> does, also when it fails, moves the state along \<open>R\<close>. The locale holds
  the laws for a reflexive and transitive \<open>R\<close> that does not look at the clock or the abort flag.
\<close>

definition along :: "(world \<Rightarrow> world \<Rightarrow> bool) \<Rightarrow> 'a tx \<Rightarrow> bool" where
  "along R m \<longleftrightarrow> (\<forall>w. R w (snd (m w)))"

locale tx_frame =
  fixes R :: "world \<Rightarrow> world \<Rightarrow> bool"
  assumes refl: "R w w"
    and trans: "R u v \<Longrightarrow> R v w \<Longrightarrow> R u w"
    and ticked: "R w (ticked w)"
    and abort: "R w (w\<lparr>aborted := True\<rparr>)"
begin

lemma alongD: "along R m \<Longrightarrow> m w = (r, w') \<Longrightarrow> R w w'"
  by (metis along_def snd_conv)

lemma ret_rule: "along R (ret x)"
  by (simp add: along_def ret_def refl)

lemma throw_rule: "along R (throw e)"
  by (simp add: along_def throw_def refl)

lemma lift_rule: "along R (lift r)"
  by (simp add: along_def lift_def refl)

lemma pure_rule: "along R (\<lambda>w. (f w, w))"
  by (simp add: along_def refl)

lemma bind_rule:
  assumes "along R m" "\<And>x. along R (f x)"
  shows "along R (bindT m f)"
  unfolding along_def
proof
  fix w
  obtain r w1 where m: "m w = (r, w1)" by fastforce
  have "R w w1" using assms(1) m by (rule alongD)
  moreover have "R w1 (snd (f x w1))" for x using assms(2) by (simp add: along_def)
  ultimately show "R w (snd (bindT m f w))"
    by (cases r) (auto simp: bindT_def m intro: trans)
qed

lemma catch_rule:
  assumes "along R m" "\<And>e. along R (h e)"
  shows "along R (catchT m h)"
  unfolding along_def
proof
  fix w
  obtain r w1 where m: "m w = (r, w1)" by fastforce
  have 1: "R w w1" using assms(1) m by (rule alongD)
  have 2: "R w1 (snd (h e w1))" for e using assms(2) by (simp add: along_def)
  have "R w (snd (h e w1))" for e using trans [OF 1 2] .
  then show "R w (snd (catchT m h w))"
    using 1 by (auto simp: catchT_def m split: sum.split exn.split)
qed

lemma stmt_rule:
  assumes "\<And>w x w'. f w = (Inr x, w') \<Longrightarrow> R w w'"
  shows "along R (stmt f)"
  unfolding along_def
proof
  fix w
  show "R w (snd (stmt f w))"
    using assms [of w] by (auto simp: stmt_def refl abort split: prod.split sum.split)
qed

lemma query_rule: "along R (query f)"
  unfolding query_def by (intro stmt_rule) (simp add: refl)

lemma now_rule: "along R (now_us E)"
  unfolding now_us_def by (intro stmt_rule) (auto simp: ticked)

lemma if_rule: "along R a \<Longrightarrow> along R b \<Longrightarrow> along R (if c then a else b)"
  by simp

lemma option_rule: "along R a \<Longrightarrow> (\<And>x. along R (b x)) \<Longrightarrow> along R (case v of None \<Rightarrow> a | Some x \<Rightarrow> b x)"
  by (cases v) simp_all

lemma sum_rule: "(\<And>x. along R (a x)) \<Longrightarrow> (\<And>x. along R (b x)) \<Longrightarrow> along R (case v of Inl x \<Rightarrow> a x | Inr x \<Rightarrow> b x)"
  by (cases v) simp_all

lemma prod_rule: "(\<And>x y. along R (f x y)) \<Longrightarrow> along R (case v of (x, y) \<Rightarrow> f x y)"
  by (cases v) simp

lemma let_rule: "(\<And>x. along R (f x)) \<Longrightarrow> along R (let x = a in f x)"
  by (simp add: Let_def)

lemma guard_rule: "along R m \<Longrightarrow> (\<And>w. f w = m w \<or> snd (f w) = w) \<Longrightarrow> along R f"
  unfolding along_def by (metis refl)

lemmas rules = ret_rule throw_rule lift_rule bind_rule catch_rule query_rule now_rule if_rule
  option_rule sum_rule prod_rule let_rule pure_rule

end

text \<open>The clock never runs backwards: the frame of the transactions themselves.\<close>

interpretation clock_forward: tx_frame "\<lambda>w w'. tick w \<le> tick w'"
  by unfold_locales simp_all

end
