(* ===== verification/AuthTables.thy ===== *)
theory AuthTables
  imports World
begin

text \<open>
  Table helpers of \<open>components/platform/sql_util/table_helpers/\<close> the authentication code uses:
  people, sessions and device tokens (AuthTokens has the others). Each method is its SQL statement (or the DbCrud call that generates it) as a step of
  the state. Inserts check the foreign key, the unique columns and the 64-bit range the schema
  declares (\<open>components/platform/db_schema/\<close>); deleting a person cascades.
\<close>

section \<open>People\<close>

definition person_key :: "env \<Rightarrow> string \<Rightarrow> PersonRow \<Rightarrow> bool" where
  "person_key E email r \<longleftrightarrow> citext E (p_email r) = citext E email"

definition GetPersonById :: "int \<Rightarrow> PersonRow option tx" where
  "GetPersonById pid = query (\<lambda>w. List.find (\<lambda>r. p_id r = pid) (people w))"

definition GetPeople :: "PersonRow list tx" where
  "GetPeople = query people"

definition LookupPersonByEmail :: "env \<Rightarrow> string \<Rightarrow> PersonRow option tx" where
  "LookupPersonByEmail E email = query (\<lambda>w. List.find (person_key E email) (people w))"

lemma GetPersonById_run [run_simps]:
  "GetPersonById pid w = (Inr x, w') \<longleftrightarrow>
   \<not> aborted w \<and> x = List.find (\<lambda>r. p_id r = pid) (people w) \<and> w' = w"
  by (auto simp: GetPersonById_def query_Inr)

lemma LookupPersonByEmail_run [run_simps]:
  "LookupPersonByEmail E email w = (Inr x, w') \<longleftrightarrow>
   \<not> aborted w \<and> x = List.find (person_key E email) (people w) \<and> w' = w"
  by (auto simp: LookupPersonByEmail_def query_Inr)

definition AddPerson :: "env \<Rightarrow> string \<Rightarrow> string \<Rightarrow> string \<Rightarrow> string \<Rightarrow> int tx" where
  "AddPerson E email firstName lastName passwordHash = stmt (\<lambda>w.
     let (pid, w1) = nextval ''people'' w; now = now_of E w in
     if list_ex (person_key E email) (people w)
     then (Inl (DbFailure ''unique people.email''), w)
     else (Inr pid, ticked (w1\<lparr>people := people w @
       [\<lparr>p_id = pid, p_email = email, p_firstName = firstName, p_lastName = lastName,
         p_passwordHash = passwordHash, p_emailVerifiedAt = None, p_mustChangePassword = False,
         p_createdAt = now, p_updatedAt = now, p_failedLoginAttempts = 0, p_lockedUntil = None\<rparr>]\<rparr>)))"

text \<open>An UPDATE on the people rows matching a condition, with one reading of the clock.\<close>

definition update_people :: "env \<Rightarrow> (PersonRow \<Rightarrow> bool) \<Rightarrow> (int \<Rightarrow> PersonRow \<Rightarrow> PersonRow) \<Rightarrow> unit tx" where
  "update_people E P f = stmt (\<lambda>w.
     (Inr (), ticked (w\<lparr>people := map (\<lambda>r. if P r then f (now_of E w) r else r) (people w)\<rparr>)))"

definition VerifyPersonEmailRow :: "env \<Rightarrow> string \<Rightarrow> unit tx" where
  "VerifyPersonEmailRow E email =
     bindT (LookupPersonByEmail E email) (\<lambda>person.
       case person of
         None \<Rightarrow> throw (RuntimeError ''People::VerifyPersonEmail - Person not found'')
       | Some r \<Rightarrow>
           if p_emailVerifiedAt r \<noteq> None
           then throw (RuntimeError ''People::VerifyPersonEmail - EmailVerifiedAt already set'')
           else update_people E (person_key E email)
                  (\<lambda>now r. r\<lparr>p_updatedAt := now, p_emailVerifiedAt := Some now\<rparr>))"

text \<open>
  \<open>UpdatePerson\<close> passes \<open>now_us()\<close> as an allowed expression, and the generator inlines any value
  equal to it (\<open>insert_params\<close>): such a value is evaluated, and its number is what is stored.
\<close>

definition inlined :: "int \<Rightarrow> string \<Rightarrow> string" where
  "inlined now v = (if v = ''now_us()'' then StringFromInt now else v)"

definition set_name :: "int \<Rightarrow> KeyValueTable \<Rightarrow> PersonRow \<Rightarrow> PersonRow" where
  "set_name now t r =
     r\<lparr>p_email := (case map_of t ''email'' of None \<Rightarrow> p_email r | Some v \<Rightarrow> inlined now v),
       p_firstName := (case map_of t ''first_name'' of None \<Rightarrow> p_firstName r | Some v \<Rightarrow> inlined now v),
       p_lastName := (case map_of t ''last_name'' of None \<Rightarrow> p_lastName r | Some v \<Rightarrow> inlined now v),
       p_updatedAt := now\<rparr>"

definition UpdatePerson :: "env \<Rightarrow> int \<Rightarrow> KeyValueTable \<Rightarrow> unit tx" where
  "UpdatePerson E pid t =
     (if list_all (\<lambda>(k, _). k \<in> set [''email'', ''first_name'', ''last_name'']) t
      then stmt (\<lambda>w.
        let now = now_of E w;
            rows = map (\<lambda>r. if p_id r = pid then set_name now t r else r) (people w)
        in if distinct (map (\<lambda>r. citext E (p_email r)) rows)
           then (Inr (), ticked (w\<lparr>people := rows\<rparr>))
           else (Inl (DbFailure ''unique people.email''), w))
      else throw (RuntimeError ''People::UpdatePerson - key not allowed''))"

definition UpdatePasswordRow :: "env \<Rightarrow> int \<Rightarrow> string \<Rightarrow> unit tx" where
  "UpdatePasswordRow E pid h =
     update_people E (\<lambda>r. p_id r = pid) (\<lambda>now r. r\<lparr>p_passwordHash := h, p_updatedAt := now\<rparr>)"

definition SetMustChangePassword :: "env \<Rightarrow> int \<Rightarrow> bool \<Rightarrow> unit tx" where
  "SetMustChangePassword E pid b =
     update_people E (\<lambda>r. p_id r = pid) (\<lambda>now r. r\<lparr>p_mustChangePassword := b, p_updatedAt := now\<rparr>)"

definition ClearLoginLockout :: "env \<Rightarrow> int \<Rightarrow> unit tx" where
  "ClearLoginLockout E pid =
     update_people E (\<lambda>r. p_id r = pid)
       (\<lambda>now r. r\<lparr>p_failedLoginAttempts := 0, p_lockedUntil := None, p_updatedAt := now\<rparr>)"

text \<open>Every reference to \<open>people\<close> is declared \<open>ON DELETE CASCADE\<close> (\<open>fk_constraint\<close>).\<close>

definition DeletePersonRow :: "int \<Rightarrow> unit tx" where
  "DeletePersonRow pid = stmt (\<lambda>w.
     (Inr (), w\<lparr>people := filter (\<lambda>r. p_id r \<noteq> pid) (people w),
       sessions := filter (\<lambda>r. s_personId r \<noteq> pid) (sessions w),
       device_tokens := filter (\<lambda>r. d_personId r \<noteq> pid) (device_tokens w),
       email_verifications := filter (\<lambda>r. v_personId r \<noteq> pid) (email_verifications w),
       password_reset_tokens := filter (\<lambda>r. r_personId r \<noteq> pid) (password_reset_tokens w),
       role_assignments := filter (\<lambda>a. fst a \<noteq> pid) (role_assignments w)\<rparr>))"

definition has_person :: "int \<Rightarrow> world \<Rightarrow> bool" where
  "has_person pid w \<longleftrightarrow> list_ex (\<lambda>r. p_id r = pid) (people w)"

section \<open>Sessions\<close>

definition AddSession :: "env \<Rightarrow> int \<Rightarrow> int \<Rightarrow> int tx" where
  "AddSession E pid microsUntilExpires = stmt (\<lambda>w.
     let (sid, w1) = nextval ''sessions'' w; now = now_of E w; u = new_uuid E (uuids w) in
     case sql_bigint (tx_start w + microsUntilExpires) of
       Inl e \<Rightarrow> (Inl e, w)
     | Inr expires \<Rightarrow>
         if \<not> has_person pid w then (Inl (DbFailure ''fk_sessions_person_id''), w)
         else if list_ex (\<lambda>r. s_uuid r = u) (sessions w) then (Inl (DbFailure ''unique sessions.uuid''), w)
         else (Inr sid, ticked (w1\<lparr>uuids := Suc (uuids w), sessions := sessions w @
           [\<lparr>s_id = sid, s_uuid = u, s_personId = pid, s_createdAt = now, s_lastSeenAt = now,
             s_expiresAt = expires, s_revoked = False\<rparr>]\<rparr>)))"

definition LookupSessionById :: "int \<Rightarrow> SessionRow tx" where
  "LookupSessionById sid =
     bindT (query (\<lambda>w. List.find (\<lambda>r. s_id r = sid) (sessions w))) (\<lambda>row.
       case row of None \<Rightarrow> throw (RuntimeError ''Sessions::LookupSessionById - not found'')
         | Some r \<Rightarrow> ret r)"

text \<open>The parameter is read as a \<open>uuid\<close>: text that is none fails the statement.\<close>

definition LookupSessionByUuid :: "env \<Rightarrow> string \<Rightarrow> SessionRow tx" where
  "LookupSessionByUuid E u =
     bindT (stmt (\<lambda>w. case uuid_in E u of
         None \<Rightarrow> (Inl (DbFailure ''invalid input syntax for type uuid''), w)
       | Some c \<Rightarrow> (Inr (List.find (\<lambda>r. s_uuid r = c) (sessions w)), w)))
     (\<lambda>row. case row of None \<Rightarrow> throw (RuntimeError ''Sessions::LookupSessionByUuid - not found'')
         | Some r \<Rightarrow> ret r)"

definition LookupSessionByPerson :: "int \<Rightarrow> SessionRow list tx" where
  "LookupSessionByPerson pid =
     bindT (query (\<lambda>w. sort_key s_id (filter (\<lambda>r. s_personId r = pid) (sessions w)))) (\<lambda>rows.
       if rows = [] then throw (RuntimeError ''Sessions::LookupSessionByPerson - not found'')
       else ret rows)"

definition UpdateLastSeen :: "env \<Rightarrow> int \<Rightarrow> unit tx" where
  "UpdateLastSeen E sid =
     bindT (LookupSessionById sid) (\<lambda>_. stmt (\<lambda>w.
       (Inr (), ticked (w\<lparr>sessions :=
          map (\<lambda>r. if s_id r = sid then r\<lparr>s_lastSeenAt := now_of E w\<rparr> else r) (sessions w)\<rparr>))))"

definition RemoveSessionsForUser :: "int \<Rightarrow> unit tx" where
  "RemoveSessionsForUser pid = stmt (\<lambda>w.
     (Inr (), w\<lparr>sessions := filter (\<lambda>r. s_personId r \<noteq> pid) (sessions w)\<rparr>))"

definition RemoveSession :: "int \<Rightarrow> unit tx" where
  "RemoveSession sid = stmt (\<lambda>w. (Inr (), w\<lparr>sessions := filter (\<lambda>r. s_id r \<noteq> sid) (sessions w)\<rparr>))"

section \<open>Device tokens\<close>

definition AddDeviceToken :: "env \<Rightarrow> int \<Rightarrow> string \<Rightarrow> int \<Rightarrow> int tx" where
  "AddDeviceToken E pid secretHash microsUntilExpires = stmt (\<lambda>w.
     let (did, w1) = nextval ''device_tokens'' w; now = now_of E w; u = new_uuid E (uuids w) in
     case sql_bigint (tx_start w + microsUntilExpires) of
       Inl e \<Rightarrow> (Inl e, w)
     | Inr expires \<Rightarrow>
         if \<not> has_person pid w then (Inl (DbFailure ''fk_device_tokens_person_id''), w)
         else if list_ex (\<lambda>r. d_uuid r = u \<or> d_secretHash r = secretHash) (device_tokens w)
         then (Inl (DbFailure ''unique device_tokens''), w)
         else (Inr did, ticked (w1\<lparr>uuids := Suc (uuids w), device_tokens := device_tokens w @
           [\<lparr>d_id = did, d_uuid = u, d_personId = pid, d_secretHash = secretHash, d_createdAt = now,
             d_lastUsedAt = None, d_expiresAt = expires, d_revoked = False\<rparr>]\<rparr>)))"

definition LookupDeviceTokenById :: "int \<Rightarrow> DeviceTokenRow tx" where
  "LookupDeviceTokenById did =
     bindT (query (\<lambda>w. List.find (\<lambda>r. d_id r = did) (device_tokens w))) (\<lambda>row.
       case row of None \<Rightarrow> throw (RuntimeError ''DeviceTokens::LookupDeviceTokenById - not found'')
         | Some r \<Rightarrow> ret r)"

definition LookupDeviceTokenByUuid :: "env \<Rightarrow> string \<Rightarrow> DeviceTokenRow tx" where
  "LookupDeviceTokenByUuid E u =
     bindT (stmt (\<lambda>w. case uuid_in E u of
         None \<Rightarrow> (Inl (DbFailure ''invalid input syntax for type uuid''), w)
       | Some c \<Rightarrow> (Inr (List.find (\<lambda>r. d_uuid r = c) (device_tokens w)), w)))
     (\<lambda>row. case row of None \<Rightarrow> throw (RuntimeError ''DeviceTokens::LookupDeviceTokenByUuid - not found'')
         | Some r \<Rightarrow> ret r)"

definition LookupDeviceTokenBySecretHash :: "string \<Rightarrow> DeviceTokenRow tx" where
  "LookupDeviceTokenBySecretHash h =
     bindT (query (\<lambda>w. List.find (\<lambda>r. d_secretHash r = h) (device_tokens w))) (\<lambda>row.
       case row of None \<Rightarrow> throw (RuntimeError ''DeviceTokens::LookupDeviceTokenBySecretHash - not found'')
         | Some r \<Rightarrow> ret r)"

definition IsValidDeviceToken :: "env \<Rightarrow> int \<Rightarrow> bool tx" where
  "IsValidDeviceToken E did =
     bindT (LookupDeviceTokenById did) (\<lambda>r.
       if d_revoked r then ret False
       else bindT (now_us E) (\<lambda>now. ret (now \<le> d_expiresAt r)))"

definition RevokeDeviceToken :: "int \<Rightarrow> unit tx" where
  "RevokeDeviceToken did =
     bindT (LookupDeviceTokenById did) (\<lambda>_. stmt (\<lambda>w.
       (Inr (), w\<lparr>device_tokens :=
          map (\<lambda>r. if d_id r = did then r\<lparr>d_revoked := True\<rparr> else r) (device_tokens w)\<rparr>)))"

definition LookupDeviceTokensByPerson :: "int \<Rightarrow> DeviceTokenRow list tx" where
  "LookupDeviceTokensByPerson pid =
     bindT (query (\<lambda>w. sort_key d_id (filter (\<lambda>r. d_personId r = pid) (device_tokens w)))) (\<lambda>rs.
       if rs = [] then throw (RuntimeError ''DeviceTokens::LookupDeviceTokensByPerson - not found'') else ret rs)"

text \<open>The new expiry counts from the start of the transaction.\<close>

definition UpdateDeviceToken :: "env \<Rightarrow> int \<Rightarrow> string \<Rightarrow> int \<Rightarrow> bool tx" where
  "UpdateDeviceToken E did secretHash microsUntilExpires =
     bindT (LookupDeviceTokenById did) (\<lambda>_.
     bindT (IsValidDeviceToken E did) (\<lambda>valid.
       if \<not> valid then ret False
       else stmt (\<lambda>w. let u = new_uuid E (uuids w); now = now_of E w in
         case sql_bigint (tx_start w + microsUntilExpires) of
           Inl e \<Rightarrow> (Inl e, w)
         | Inr expires \<Rightarrow>
             if list_ex (\<lambda>r. d_id r \<noteq> did \<and> (d_uuid r = u \<or> d_secretHash r = secretHash)) (device_tokens w)
             then (Inl (DbFailure ''unique device_tokens''), w)
             else (Inr True, ticked (w\<lparr>uuids := Suc (uuids w), device_tokens :=
               map (\<lambda>r. if d_id r = did then r\<lparr>d_secretHash := secretHash, d_uuid := u,
                      d_lastUsedAt := Some now, d_expiresAt := expires\<rparr> else r) (device_tokens w)\<rparr>)))))"

text \<open>
  \<open>ConsumeAndRotate\<close>: one conditional UPDATE. A row is rotated when the presented hash and uuid
  are its own, it is not revoked and not expired; the text comparison \<open>uuid::text = $2\<close> is exact.
\<close>

definition rotatable :: "int \<Rightarrow> string \<Rightarrow> string \<Rightarrow> DeviceTokenRow \<Rightarrow> bool" where
  "rotatable now oldSecretHash oldUuid r \<longleftrightarrow>
     d_secretHash r = oldSecretHash \<and> d_uuid r = oldUuid \<and> \<not> d_revoked r \<and> now < d_expiresAt r"

definition ConsumeAndRotate ::
  "env \<Rightarrow> string \<Rightarrow> string \<Rightarrow> string \<Rightarrow> int \<Rightarrow> (int \<times> string) option tx" where
  "ConsumeAndRotate E oldSecretHash oldUuid newSecretHash microsUntilExpires = stmt (\<lambda>w.
     let now = now_of E w; u = new_uuid E (uuids w); P = rotatable now oldSecretHash oldUuid in
     case List.find P (device_tokens w) of
       None \<Rightarrow> (Inr None, ticked w)
     | Some r0 \<Rightarrow>
        (case sql_bigint (now + microsUntilExpires) of
          Inl e \<Rightarrow> (Inl e, w)
        | Inr expires \<Rightarrow>
           if list_ex (\<lambda>r. r \<noteq> r0 \<and> (d_uuid r = u \<or> d_secretHash r = newSecretHash)) (device_tokens w)
           then (Inl (DbFailure ''unique device_tokens''), w)
           else (Inr (Some (d_personId r0, u)),
             ticked (w\<lparr>uuids := Suc (uuids w), device_tokens :=
               map (\<lambda>r. if P r then r\<lparr>d_secretHash := newSecretHash, d_uuid := u,
                      d_lastUsedAt := Some now, d_expiresAt := expires\<rparr> else r) (device_tokens w)\<rparr>))))"

definition RemoveDeviceTokenById :: "int \<Rightarrow> unit tx" where
  "RemoveDeviceTokenById did = stmt (\<lambda>w.
     (Inr (), w\<lparr>device_tokens := filter (\<lambda>r. d_id r \<noteq> did) (device_tokens w)\<rparr>))"

definition RemoveDeviceTokensForUser :: "int \<Rightarrow> unit tx" where
  "RemoveDeviceTokensForUser pid = stmt (\<lambda>w.
     (Inr (), w\<lparr>device_tokens := filter (\<lambda>r. d_personId r \<noteq> pid) (device_tokens w)\<rparr>))"

definition DeleteExpiredDeviceTokens :: "int \<Rightarrow> int tx" where
  "DeleteExpiredDeviceTokens asOfUs = stmt (\<lambda>w.
     (Inr (int (length (filter (\<lambda>r. d_expiresAt r < asOfUs) (device_tokens w)))),
      w\<lparr>device_tokens := filter (\<lambda>r. \<not> d_expiresAt r < asOfUs) (device_tokens w)\<rparr>))"

end
