(* ===== verification/Secrets.thy ===== *)
theory Secrets
  imports AuthTables
begin

text \<open>
  Configuration secrets (\<open>components/services/util/secrets/\<close> and
  \<open>services/sql_util/table_helpers/config_secrets.cpp\<close>): rows of \<open>config_secrets\<close>, optionally
  encrypted at rest with libsodium's secretbox, and the startup migration that encrypts the rows
  still in plain text. A \<open>SecretsHelper\<close> is the optional key it wraps.
\<close>

section \<open>Encryption at rest\<close>

definition kVersionPrefix :: string where
  "kVersionPrefix = ''v1:''"

definition NONCEBYTES :: nat where "NONCEBYTES = 24"
definition MACBYTES :: nat where "MACBYTES = 16"
definition KEYBYTES :: nat where "KEYBYTES = 32"

definition SecretsAtRest_new :: "string \<Rightarrow> string res" where
  "SecretsAtRest_new key =
     (if length key \<noteq> KEYBYTES
      then Inl (InvalidArgument ''SecretsAtRest: key must be exactly 32 bytes'') else Inr key)"

definition IsEncrypted :: "string \<Rightarrow> bool" where
  "IsEncrypted v = starts_with kVersionPrefix v"

definition Encrypt :: "env \<Rightarrow> string \<Rightarrow> string \<Rightarrow> string tx" where
  "Encrypt E key plaintext =
     bindT (RandomBytes E NONCEBYTES) (\<lambda>nonce.
       ret (kVersionPrefix @ base64_encode E (nonce @ secretbox E key nonce plaintext)))"

definition Decrypt :: "env \<Rightarrow> string \<Rightarrow> string \<Rightarrow> string res" where
  "Decrypt E key value =
     (if \<not> IsEncrypted value then Inr value
      else case base64_decode E (drop (length kVersionPrefix) value) of
          None \<Rightarrow> Inl (RuntimeError ''SecretsAtRest::Decrypt: invalid encoded value'')
        | Some combined \<Rightarrow>
            if length combined < NONCEBYTES + MACBYTES
            then Inl (RuntimeError ''SecretsAtRest::Decrypt: encoded value too short'')
            else case secretbox_open E key (take NONCEBYTES combined) (drop NONCEBYTES combined) of
                None \<Rightarrow> Inl (RuntimeError ''SecretsAtRest::Decrypt: authentication failed'')
              | Some p \<Rightarrow> Inr p)"

text \<open>\<open>std::strlen\<close> of the dev tag exceeds the key size, so the dev key is its first 32 bytes.\<close>

definition DevFallbackKey :: string where
  "DevFallbackKey =
     (let tag = ''honuware-dev-key-not-for-production'' in
      take KEYBYTES tag @ replicate (KEYBYTES - length tag) (CHR 0x00))"

text \<open>The environment variable is \<open>None\<close> when unset; an empty value counts as unset.\<close>

definition MakeSecretsAtRest :: "env \<Rightarrow> bool \<Rightarrow> string option \<Rightarrow> string res" where
  "MakeSecretsAtRest E isProd envVal =
     (case envVal of
        None \<Rightarrow> if isProd then Inl (RuntimeError ''Production mode requires HONUWARE_SECRET_KEY to be set.'')
                else SecretsAtRest_new DevFallbackKey
      | Some v \<Rightarrow>
          if v = [] then
            (if isProd then Inl (RuntimeError ''Production mode requires HONUWARE_SECRET_KEY to be set.'')
             else SecretsAtRest_new DevFallbackKey)
          else case base64_decode E v of
              None \<Rightarrow> Inl (RuntimeError ''HONUWARE_SECRET_KEY is set but not valid base64.'')
            | Some key \<Rightarrow>
                if length key \<noteq> KEYBYTES
                then Inl (RuntimeError ''HONUWARE_SECRET_KEY decodes to the wrong size.'')
                else SecretsAtRest_new key)"

section \<open>The table and the helper\<close>

definition AddSecretRow :: "string \<Rightarrow> string \<Rightarrow> unit tx" where
  "AddSecretRow name value =
     bindT (stmt (\<lambda>w. (Inr (), w\<lparr>config_secrets := filter (\<lambda>p. fst p \<noteq> name) (config_secrets w)\<rparr>)))
       (\<lambda>_. stmt (\<lambda>w. (Inr (), w\<lparr>config_secrets := config_secrets w @ [(name, value)]\<rparr>)))"

definition LookupSecretRow :: "string \<Rightarrow> string tx" where
  "LookupSecretRow name =
     query (\<lambda>w. case map_of (config_secrets w) name of None \<Rightarrow> [] | Some v \<Rightarrow> v)"

type_synonym SecretsHelper = "string option"

definition LookupSecret :: "env \<Rightarrow> SecretsHelper \<Rightarrow> string \<Rightarrow> string tx" where
  "LookupSecret E S name =
     bindT (LookupSecretRow name) (\<lambda>raw.
       case S of None \<Rightarrow> ret raw | Some key \<Rightarrow> lift (Decrypt E key raw))"

definition AddSecret :: "env \<Rightarrow> SecretsHelper \<Rightarrow> string \<Rightarrow> string \<Rightarrow> unit tx" where
  "AddSecret E S name value =
     (case S of None \<Rightarrow> AddSecretRow name value
      | Some key \<Rightarrow> bindT (Encrypt E key value) (\<lambda>c. AddSecretRow name c))"

section \<open>The migration\<close>

fun migrate_rows :: "env \<Rightarrow> string \<Rightarrow> (string \<times> string) list \<Rightarrow> int \<Rightarrow> int tx" where
  "migrate_rows E key [] n = ret n"
| "migrate_rows E key ((name, value) # rows) n =
     (if IsEncrypted value then migrate_rows E key rows n
      else bindT (Encrypt E key value) (\<lambda>c.
           bindT (AddSecretRow name c) (\<lambda>_. migrate_rows E key rows (n + 1))))"

definition MigrateSecretsToEncrypted :: "env \<Rightarrow> SecretsHelper \<Rightarrow> int tx" where
  "MigrateSecretsToEncrypted E S =
     (case S of None \<Rightarrow> ret 0
      | Some key \<Rightarrow> bindT (query config_secrets) (\<lambda>rows. migrate_rows E key rows 0))"

section \<open>What libsodium promises\<close>

text \<open>
  libsodium's documented behaviour: opening a box with the key and nonce it was sealed with gives
  the message back, a box is the message plus the tag, base64 decoding inverts encoding, and the
  random source returns as many bytes as were asked for.
\<close>

definition sodium_ok :: "env \<Rightarrow> bool" where
  "sodium_ok E \<longleftrightarrow>
     (\<forall>k n m. secretbox_open E k n (secretbox E k n m) = Some m) \<and>
     (\<forall>k n m. length (secretbox E k n m) = length m + MACBYTES) \<and>
     (\<forall>b. base64_decode E (base64_encode E b) = Some b) \<and>
     (\<forall>i n. length (random_bytes E i n) = n)"

lemma IsEncrypted_prefix [simp]: "IsEncrypted (kVersionPrefix @ s)"
  by (simp add: IsEncrypted_def starts_with_iff)

lemma Encrypt_Inr: "Encrypt E key p w =
    (Inr (kVersionPrefix @ base64_encode E (random_bytes E (draws w) NONCEBYTES @
       secretbox E key (random_bytes E (draws w) NONCEBYTES) p)), w\<lparr>draws := Suc (draws w)\<rparr>)"
  by (simp add: Encrypt_def bindT_def RandomBytes_def ret_def)

lemma Decrypt_Encrypt:
  "sodium_ok E \<Longrightarrow> Encrypt E key p w = (Inr c, w') \<Longrightarrow> Decrypt E key c = Inr p \<and> IsEncrypted c"
  by (auto simp: Encrypt_Inr Decrypt_def sodium_ok_def)

lemma Decrypt_plain: "\<not> IsEncrypted v \<Longrightarrow> Decrypt E key v = Inr v"
  by (simp add: Decrypt_def)

lemma AddSecretRow_live:
  "\<not> aborted w \<Longrightarrow> AddSecretRow name v w =
     (Inr (), w\<lparr>config_secrets := filter (\<lambda>p. fst p \<noteq> name) (config_secrets w) @ [(name, v)]\<rparr>)"
  by (simp add: AddSecretRow_def bindT_def stmt_def)

lemma LookupSecret_live:
  "\<not> aborted w \<Longrightarrow> LookupSecret E S name w =
     ((let raw = case map_of (config_secrets w) name of None \<Rightarrow> [] | Some v \<Rightarrow> v
       in case S of None \<Rightarrow> Inr raw | Some key \<Rightarrow> Decrypt E key raw), w)"
  by (simp add: LookupSecret_def LookupSecretRow_def bindT_def query_live lift_def ret_def Let_def
      split: option.split)

lemma LookupSecret_state: "LookupSecret E S name w = (r, w') \<Longrightarrow> w' = w"
  by (auto simp: LookupSecret_def LookupSecretRow_def bindT_def query_def stmt_def lift_def ret_def
      split: option.splits if_splits)

lemma LookupSecret_Inr_live: "LookupSecret E S name w = (Inr v, w') \<Longrightarrow> \<not> aborted w"
  by (auto simp: LookupSecret_def LookupSecretRow_def bindT_def query_def stmt_def split: if_splits)

text \<open>
  The contract of a secret store, whichever way it keeps the values: what was added is what is read
  back, and adding one secret leaves the others as they read.
\<close>

locale secret_store =
  fixes live :: "'w \<Rightarrow> bool"
    and storable :: "string \<Rightarrow> bool"
    and lookup :: "string \<Rightarrow> 'w \<Rightarrow> string option"
    and add :: "string \<Rightarrow> string \<Rightarrow> 'w \<Rightarrow> 'w"
  assumes live_add: "live w \<Longrightarrow> live (add n v w)"
    and lookup_add: "live w \<Longrightarrow> storable v \<Longrightarrow> lookup n (add n v w) = Some v"
    and lookup_other: "live w \<Longrightarrow> n \<noteq> m \<Longrightarrow> lookup m (add n v w) = lookup m w"
begin

lemma live_adds: "live w \<Longrightarrow> live (fold (\<lambda>(n, v). add n v) nvs w)"
  by (induction nvs arbitrary: w) (auto simp: live_add)

lemma lookup_adds_other:
  "live w \<Longrightarrow> m \<notin> fst ` set nvs \<Longrightarrow> lookup m (fold (\<lambda>(n, v). add n v) nvs w) = lookup m w"
  by (induction nvs arbitrary: w) (auto simp: live_add lookup_other)

lemma lookup_adds:
  "live w \<Longrightarrow> distinct (map fst nvs) \<Longrightarrow> (n, v) \<in> set nvs \<Longrightarrow> storable v \<Longrightarrow>
   lookup n (fold (\<lambda>(n, v). add n v) nvs w) = Some v"
proof (induction nvs arbitrary: w)
  case (Cons p nvs)
  obtain m u where p: "p = (m, u)" by (cases p)
  show ?case
  proof (cases "(n, v) = p")
    case True
    then have "n \<notin> fst ` set nvs" using Cons.prems p by auto
    then show ?thesis
      using True Cons.prems p by (simp add: lookup_adds_other live_add lookup_add)
  next
    case False
    then show ?thesis
      using Cons p by (auto simp: live_add)
  qed
qed simp

end

definition read_secret :: "env \<Rightarrow> SecretsHelper \<Rightarrow> string \<Rightarrow> world \<Rightarrow> string option" where
  "read_secret E S n w = (case LookupSecret E S n w of (Inr v, _) \<Rightarrow> Some v | _ \<Rightarrow> None)"

definition write_secret :: "env \<Rightarrow> SecretsHelper \<Rightarrow> string \<Rightarrow> string \<Rightarrow> world \<Rightarrow> world" where
  "write_secret E S n v w = snd (AddSecret E S n v w)"

lemma read_write_secret:
  assumes "\<not> aborted w" "S = None \<or> sodium_ok E"
  shows "read_secret E S n (write_secret E S n v w) = Some v"
    and "n \<noteq> m \<Longrightarrow> read_secret E S m (write_secret E S n v w) = read_secret E S m w"
    and "\<not> aborted (write_secret E S n v w)"
proof -
  have f: "map_of (filter (\<lambda>p. fst p \<noteq> n) xs) n = None"
    "n \<noteq> m \<Longrightarrow> map_of (filter (\<lambda>p. fst p \<noteq> n) xs) m = map_of xs m" for xs :: "(string \<times> string) list" and n m
    by (simp_all add: map_of_filter_same map_of_filter_other)
  show "read_secret E S n (write_secret E S n v w) = Some v"
    using assms f Decrypt_Encrypt [OF _ Encrypt_Inr, of E]
    by (cases S) (auto simp: read_secret_def write_secret_def AddSecret_def bindT_def Encrypt_Inr
        AddSecretRow_live LookupSecret_live map_add_def)
  show "n \<noteq> m \<Longrightarrow> read_secret E S m (write_secret E S n v w) = read_secret E S m w"
    using assms f
    by (cases S) (auto simp: read_secret_def write_secret_def AddSecret_def bindT_def Encrypt_Inr
        AddSecretRow_live LookupSecret_live map_add_def split: option.splits)
  show "\<not> aborted (write_secret E S n v w)"
    using assms
    by (cases S) (auto simp: write_secret_def AddSecret_def bindT_def Encrypt_Inr AddSecretRow_live)
qed

interpretation plain_store: secret_store "\<lambda>w. \<not> aborted w" "\<lambda>_. True"
  "read_secret E None" "write_secret E None"
  by unfold_locales (simp_all add: read_write_secret)

interpretation sealed_store: secret_store "\<lambda>w. \<not> aborted w \<and> sodium_ok E" "\<lambda>_. True"
  "read_secret E (Some key)" "write_secret E (Some key)" for E key
  by unfold_locales (simp_all add: read_write_secret)

text \<open>
  Rows written in plain text and read with a key, before the migration: they read back as long as
  the value does not itself look encrypted.
\<close>

interpretation legacy_store: secret_store "\<lambda>w. \<not> aborted w" "\<lambda>v. \<not> IsEncrypted v"
  "read_secret E (Some key)" "write_secret E None" for E key
  by unfold_locales
    (auto simp: read_secret_def write_secret_def AddSecret_def AddSecretRow_live LookupSecret_live
      map_add_def Decrypt_plain map_of_filter_same map_of_filter_other split: option.splits)

section \<open>Correctness of the migration\<close>

lemma migrate_row_step:
  "\<not> aborted w \<Longrightarrow> \<not> IsEncrypted v \<Longrightarrow>
   \<exists>w1. bindT (Encrypt E key v) (\<lambda>c. AddSecretRow name c) w = (Inr (), w1) \<and>
        w1 = write_secret E (Some key) name v w"
  by (auto simp: write_secret_def AddSecret_def bindT_def Encrypt_Inr AddSecretRow_live)

lemma migrate_rows_Cons:
  assumes "\<not> aborted w" "\<not> IsEncrypted v"
  shows "migrate_rows E key ((name, v) # rows) n w =
    migrate_rows E key rows (n + 1) (write_secret E (Some key) name v w)"
  using assms by (simp add: write_secret_def AddSecret_def bindT_def Encrypt_Inr AddSecretRow_live)

definition plain_rows :: "(string \<times> string) list \<Rightarrow> (string \<times> string) list" where
  "plain_rows rows = filter (\<lambda>(_, v). \<not> IsEncrypted v) rows"

lemma migrate_rows_fold:
  assumes "\<not> aborted w" "sodium_ok E"
  shows "migrate_rows E key rows n w =
    (Inr (n + int (length (plain_rows rows))),
     fold (\<lambda>(k, v). write_secret E (Some key) k v) (plain_rows rows) w)"
  using assms
proof (induction rows arbitrary: n w)
  case Nil
  then show ?case by (simp add: plain_rows_def ret_def)
next
  case (Cons p rows)
  obtain k v where p: "p = (k, v)" by (cases p)
  show ?case
  proof (cases "IsEncrypted v")
    case True
    then show ?thesis using Cons p by (simp add: plain_rows_def)
  next
    case False
    have live: "\<not> aborted (write_secret E (Some key) k v w)"
      using Cons.prems read_write_secret(3) by blast
    have "migrate_rows E key (p # rows) n w
        = migrate_rows E key rows (n + 1) (write_secret E (Some key) k v w)"
      unfolding p using Cons.prems False by (intro migrate_rows_Cons)
    then show ?thesis
      using Cons.IH [OF live Cons.prems(2), of "n + 1"] False p by (simp add: plain_rows_def)
  qed
qed

lemma write_secret_rows:
  "\<not> aborted w \<Longrightarrow> sodium_ok E \<Longrightarrow> \<exists>c. IsEncrypted c \<and>
   config_secrets (write_secret E (Some key) k v w)
     = filter (\<lambda>p. fst p \<noteq> k) (config_secrets w) @ [(k, c)]"
  by (simp add: write_secret_def AddSecret_def bindT_def Encrypt_Inr AddSecretRow_live)

lemma write_secrets_encrypted:
  assumes "\<not> aborted w" "sodium_ok E" "(k, v) \<in> set (config_secrets
      (fold (\<lambda>(k, v). write_secret E (Some key) k v) ps w))" "\<not> IsEncrypted v"
  shows "(k, v) \<in> set (config_secrets w) \<and> k \<notin> fst ` set ps"
  using assms
proof (induction ps arbitrary: w)
  case (Cons p ps)
  obtain a b where p: "p = (a, b)" by (cases p)
  let ?w1 = "write_secret E (Some key) a b w"
  have live: "\<not> aborted ?w1" using Cons.prems read_write_secret(3) by blast
  obtain c where c: "IsEncrypted c"
    "config_secrets ?w1 = filter (\<lambda>q. fst q \<noteq> a) (config_secrets w) @ [(a, c)]"
    using write_secret_rows [of w E key a b] Cons.prems by blast
  have "(k, v) \<in> set (config_secrets ?w1) \<and> k \<notin> fst ` set ps"
    using Cons.IH [OF live] Cons.prems p by simp
  then show ?case using c Cons.prems(4) p by auto
qed simp

section \<open>Properties\<close>


lemma sodium_ok_demo: "sodium_ok demoEnv"
  by (simp add: sodium_ok_def demoEnv_def MACBYTES_def)


text \<open>
  The migration encrypts every row: it reports how many it rewrote, afterwards no row is in
  plain text, and every secret reads as the value it had (names are unique).
\<close>

theorem migration_correct:
  assumes "\<not> aborted w" "sodium_ok E" "distinct (map fst (config_secrets w))"
  shows "\<exists>w'. MigrateSecretsToEncrypted E (Some key) w
           = (Inr (int (length (plain_rows (config_secrets w)))), w') \<and>
         (\<forall>(k, v) \<in> set (config_secrets w'). IsEncrypted v) \<and>
         (\<forall>n v. (n, v) \<in> set (config_secrets w) \<longrightarrow> \<not> IsEncrypted v \<longrightarrow> read_secret E (Some key) n w' = Some v)"
proof -
  let ?ps = "plain_rows (config_secrets w)"
  let ?w' = "fold (\<lambda>(k, v). write_secret E (Some key) k v) ?ps w"
  have "MigrateSecretsToEncrypted E (Some key) w = migrate_rows E key (config_secrets w) 0 w"
    using assms(1) by (simp add: MigrateSecretsToEncrypted_def bindT_def query_live)
  then have run: "MigrateSecretsToEncrypted E (Some key) w = (Inr (int (length ?ps)), ?w')"
    using migrate_rows_fold [OF assms(1,2)] by simp
  have enc: "IsEncrypted v" if "(k, v) \<in> set (config_secrets ?w')" for k v
  proof (rule ccontr)
    assume n: "\<not> IsEncrypted v"
    then have "(k, v) \<in> set (config_secrets w)" "k \<notin> fst ` set ?ps"
      using write_secrets_encrypted [OF assms(1,2) that] by blast+
    then show False using n by (force simp: plain_rows_def)
  qed
  have "distinct (map fst ?ps)"
    using assms(3) unfolding plain_rows_def by (rule distinct_map_filter)
  then have "read_secret E (Some key) n ?w' = Some v"
    if "(n, v) \<in> set (config_secrets w)" "\<not> IsEncrypted v" for n v
    using sealed_store.lookup_adds [of w E ?ps n v key] assms(1,2) that by (simp add: plain_rows_def)
  with run enc show ?thesis by blast
qed

theorem migration_correct_witness:
  "\<exists>w'. MigrateSecretsToEncrypted demoEnv (Some ''k'') (emptyWorld\<lparr>config_secrets := [(''a'', ''x''), (''b'', ''v1:y'')]\<rparr>)
     = (Inr 1, w') \<and> read_secret demoEnv (Some ''k'') ''a'' w' = Some ''x''"
proof -
  let ?w = "emptyWorld\<lparr>config_secrets := [(''a'', ''x''), (''b'', ''v1:y'')]\<rparr>"
  have "plain_rows (config_secrets ?w) = [(''a'', ''x'')]"
    by (simp add: plain_rows_def IsEncrypted_def kVersionPrefix_def)
  moreover have "\<not> IsEncrypted ''x''" by (simp add: IsEncrypted_def kVersionPrefix_def)
  ultimately show ?thesis
    using migration_correct [of ?w demoEnv "''k''"] sodium_ok_demo by (auto simp: emptyWorld_def)
qed

text \<open>
  In production the server never falls back to the development key: without a usable
  \<open>HONUWARE_SECRET_KEY\<close> it refuses to start, and a key it accepts has exactly the size the cipher
  needs and is the decoded variable.
\<close>

theorem production_key:
  assumes "MakeSecretsAtRest E True envVal = Inr key"
  shows "length key = KEYBYTES \<and> (\<exists>v. envVal = Some v \<and> v \<noteq> [] \<and> base64_decode E v = Some key)"
  using assms
  by (auto simp: MakeSecretsAtRest_def SecretsAtRest_new_def split: option.splits if_splits)

theorem production_key_witness:
  "length (replicate 32 (CHR ''k'')) = KEYBYTES \<and>
   (\<exists>v. Some (replicate 32 (CHR ''k'')) = Some v \<and> v \<noteq> [] \<and> base64_decode demoEnv v = Some (replicate 32 (CHR ''k'')))"
  by (rule production_key [of demoEnv]) (simp add: MakeSecretsAtRest_def SecretsAtRest_new_def KEYBYTES_def demoEnv_def)

end
