(* ===== verification/AuthTokens.thy ===== *)
theory AuthTokens
  imports AuthTables Secrets
begin

text \<open>
  The table helpers behind the login gate, the e-mail verification links and the password reset
  links: \<open>login_attempts.cpp\<close>, \<open>auth_events.cpp\<close>, \<open>email_verifications.cpp\<close>,
  \<open>password_reset_tokens.cpp\<close> and \<open>AddAdminAlert\<close> of \<open>admin_alerts.cpp\<close>
  (\<open>components/platform/sql_util/table_helpers/\<close>).

  Both link tables hand out attempts: a conditional UPDATE counts the attempt and fails to match when
  the row has used up its limit or has expired. \<open>attempt_ledger\<close> is that contract.
\<close>

section \<open>Admin alerts\<close>

definition AddAdminAlert :: "string \<Rightarrow> unit tx" where
  "AddAdminAlert description =
     stmt (\<lambda>w. (Inr (), ticked (w\<lparr>admin_alerts := admin_alerts w @ [description]\<rparr>)))"

section \<open>Login attempts\<close>

definition RecordAttempt :: "env \<Rightarrow> string \<Rightarrow> string \<Rightarrow> string \<Rightarrow> bool \<Rightarrow> unit tx" where
  "RecordAttempt E emailLower ip kind success = stmt (\<lambda>w.
     let (aid, w1) = nextval ''login_attempts'' w in
     (Inr (), ticked (w1\<lparr>login_attempts := login_attempts w @
        [\<lparr>a_id = aid, a_email = emailLower, a_ip = ip, a_attemptedAt = now_of E w,
          a_success = success, a_kind = kind\<rparr>]\<rparr>)))"

text \<open>A count over the attempts since \<open>now_us() - window\<close>; no statement for an empty window.\<close>

definition count_attempts :: "env \<Rightarrow> (LoginAttemptRow \<Rightarrow> bool) \<Rightarrow> int \<Rightarrow> int tx" where
  "count_attempts E P windowMicros =
     (if windowMicros \<le> 0 then ret 0
      else stmt (\<lambda>w. (Inr (int (length (filter
             (\<lambda>r. P r \<and> now_of E w - windowMicros \<le> a_attemptedAt r) (login_attempts w)))), ticked w)))"

definition RecentFailureCountForEmail :: "env \<Rightarrow> string \<Rightarrow> string \<Rightarrow> int \<Rightarrow> int tx" where
  "RecentFailureCountForEmail E emailLower kind windowMicros =
     count_attempts E (\<lambda>r. citext E (a_email r) = citext E emailLower \<and> a_kind r = kind \<and> \<not> a_success r)
       windowMicros"

definition RecentFailureCountForIp :: "env \<Rightarrow> string \<Rightarrow> string \<Rightarrow> int \<Rightarrow> int tx" where
  "RecentFailureCountForIp E ip kind windowMicros =
     count_attempts E (\<lambda>r. a_ip r = ip \<and> a_kind r = kind \<and> \<not> a_success r) windowMicros"

definition RecentAttemptCountForEmail :: "env \<Rightarrow> string \<Rightarrow> string \<Rightarrow> int \<Rightarrow> int tx" where
  "RecentAttemptCountForEmail E emailLower kind windowMicros =
     count_attempts E (\<lambda>r. citext E (a_email r) = citext E emailLower \<and> a_kind r = kind) windowMicros"

definition RecentAttemptCountForIp :: "env \<Rightarrow> string \<Rightarrow> string \<Rightarrow> int \<Rightarrow> int tx" where
  "RecentAttemptCountForIp E ip kind windowMicros =
     count_attempts E (\<lambda>r. a_ip r = ip \<and> a_kind r = kind) windowMicros"

definition PurgeOlderThan :: "env \<Rightarrow> int \<Rightarrow> int tx" where
  "PurgeOlderThan E ageMicros =
     (if ageMicros \<le> 0 then ret 0
      else stmt (\<lambda>w. let old = (\<lambda>r. a_attemptedAt r < now_of E w - ageMicros) in
        (Inr (int (length (filter old (login_attempts w)))),
         ticked (w\<lparr>login_attempts := filter (\<lambda>r. \<not> old r) (login_attempts w)\<rparr>))))"

section \<open>Auth events\<close>

definition RecordEvent ::
  "env \<Rightarrow> string \<Rightarrow> int \<Rightarrow> string \<Rightarrow> string \<Rightarrow> string \<Rightarrow> unit tx" where
  "RecordEvent E kind personId ip userAgent detailJson = stmt (\<lambda>w.
     let (eid, w1) = nextval ''auth_events'' w in
     (Inr (), ticked (w1\<lparr>auth_events := auth_events w @
        [\<lparr>e_id = eid, e_kind = kind, e_personId = (if 0 < personId then Some personId else None),
          e_ip = ip, e_userAgent = userAgent, e_whenUs = now_of E w, e_detailJson = detailJson\<rparr>]\<rparr>)))"

definition CountRecentByKind :: "env \<Rightarrow> string \<Rightarrow> int \<Rightarrow> int tx" where
  "CountRecentByKind E kind windowMicros =
     (if windowMicros \<le> 0 then ret 0
      else stmt (\<lambda>w. (Inr (int (length (filter
             (\<lambda>r. e_kind r = kind \<and> now_of E w - windowMicros \<le> e_whenUs r) (auth_events w)))), ticked w)))"

definition RecentByPersonAndKind :: "env \<Rightarrow> int \<Rightarrow> string \<Rightarrow> int \<Rightarrow> AuthEventRow list tx" where
  "RecentByPersonAndKind E personId kind windowMicros =
     (if windowMicros \<le> 0 \<or> personId \<le> 0 then ret []
      else stmt (\<lambda>w. (Inr (sort_key (\<lambda>r. - e_whenUs r) (filter
             (\<lambda>r. e_personId r = Some personId \<and> e_kind r = kind \<and> now_of E w - windowMicros \<le> e_whenUs r)
             (auth_events w))), ticked w)))"

section \<open>E-mail verifications\<close>

text \<open>The helper's secrets may be absent (a null pointer).\<close>

definition LookupRequiredSecret :: "env \<Rightarrow> SecretsHelper option \<Rightarrow> string \<Rightarrow> string \<Rightarrow> string tx" where
  "LookupRequiredSecret E S name who =
     (case S of None \<Rightarrow> throw (RuntimeError (who @ '' - secretsHelper is null''))
      | Some h \<Rightarrow> bindT (LookupSecret E h name) (\<lambda>val.
          if val = [] then throw (RuntimeError (who @ '' - secret empty'')) else ret val))"

definition kEmailVerificationExpirationWindowInMicros :: string where
  "kEmailVerificationExpirationWindowInMicros = ''email_verification_expiration_window_in_micros''"

definition kEmailVerificationAttemptLimit :: string where
  "kEmailVerificationAttemptLimit = ''email_verification_attempt_limit''"

definition LookupExpirationWindowMicros :: "env \<Rightarrow> SecretsHelper option \<Rightarrow> int tx" where
  "LookupExpirationWindowMicros E S =
     bindT (LookupRequiredSecret E S kEmailVerificationExpirationWindowInMicros
              ''EmailVerifications::LookupExpirationWindowMicros'') (\<lambda>v. lift (stoll v))"

definition LookupAttemptLimit :: "env \<Rightarrow> SecretsHelper option \<Rightarrow> int tx" where
  "LookupAttemptLimit E S =
     bindT (LookupRequiredSecret E S kEmailVerificationAttemptLimit
              ''EmailVerifications::LookupAttemptLimit'') (\<lambda>v. lift (stoi v))"

definition AddEmailVerificationById :: "env \<Rightarrow> SecretsHelper option \<Rightarrow> int \<Rightarrow> string \<Rightarrow> int tx" where
  "AddEmailVerificationById E S personId tokenHash =
     bindT (stmt (\<lambda>w. (Inr (), w\<lparr>email_verifications :=
              filter (\<lambda>r. v_personId r \<noteq> personId) (email_verifications w)\<rparr>))) (\<lambda>_.
     bindT (now_us E) (\<lambda>nowMicros.
     bindT (LookupExpirationWindowMicros E S) (\<lambda>windowMicros.
     bindT (lift (cpp_int64 (nowMicros + windowMicros))) (\<lambda>expiresAt.
       stmt (\<lambda>w. let (vid, w1) = nextval ''email_verifications'' w in
         if \<not> has_person personId w then (Inl (DbFailure ''fk_email_verifications_person_id''), w)
         else (Inr vid, w1\<lparr>email_verifications := email_verifications w @
           [\<lparr>v_id = vid, v_personId = personId, v_tokenHash = tokenHash, v_expiresAt = expiresAt,
             v_attempts = 0\<rparr>]\<rparr>))))))"

definition AddEmailVerificationByEmail :: "env \<Rightarrow> SecretsHelper option \<Rightarrow> string \<Rightarrow> string \<Rightarrow> int tx" where
  "AddEmailVerificationByEmail E S email tokenHash =
     bindT (LookupPersonByEmail E email) (\<lambda>person.
       case person of
         None \<Rightarrow> throw (RuntimeError ''EmailVerifications::AddEmailVerificationByEmail - person not found'')
       | Some p \<Rightarrow> AddEmailVerificationById E S (p_id p) tokenHash)"

definition ids_where :: "(world \<Rightarrow> EmailVerificationRow \<Rightarrow> bool) \<Rightarrow> StringArray tx" where
  "ids_where P = query (\<lambda>w. map (\<lambda>r. StringFromInt (v_id r))
     (sort_key v_id (filter (P w) (email_verifications w))))"

text \<open>This one compares with \<open>now()\<close>, the start of the transaction.\<close>

definition ListExpiredEmailVerifications :: "StringArray tx" where
  "ListExpiredEmailVerifications = ids_where (\<lambda>w r. v_expiresAt r < tx_start w)"

definition GetEmailVerificationsOverNumberOfAttempts :: "int \<Rightarrow> StringArray tx" where
  "GetEmailVerificationsOverNumberOfAttempts n = ids_where (\<lambda>_ r. n < v_attempts r)"

definition DeleteEmailVerification :: "int \<Rightarrow> unit tx" where
  "DeleteEmailVerification vid = stmt (\<lambda>w.
     (Inr (), w\<lparr>email_verifications := filter (\<lambda>r. v_id r \<noteq> vid) (email_verifications w)\<rparr>))"

definition DeleteExpiredEmailVerifications :: "int \<Rightarrow> int tx" where
  "DeleteExpiredEmailVerifications asOfUs = stmt (\<lambda>w.
     (Inr (int (length (filter (\<lambda>r. v_expiresAt r < asOfUs) (email_verifications w)))),
      w\<lparr>email_verifications := filter (\<lambda>r. \<not> v_expiresAt r < asOfUs) (email_verifications w)\<rparr>))"

definition GetEmailVerificationInfo :: "int \<Rightarrow> EmailVerificationRow tx" where
  "GetEmailVerificationInfo vid =
     bindT (query (\<lambda>w. List.find (\<lambda>r. v_id r = vid) (email_verifications w))) (\<lambda>row.
       case row of None \<Rightarrow> throw (RuntimeError ''EmailVerifications::GetEmailVerificationInfo - record not found'')
         | Some r \<Rightarrow> ret r)"

definition GetEmailVerificationInfoByEmail :: "env \<Rightarrow> string \<Rightarrow> EmailVerificationRow tx" where
  "GetEmailVerificationInfoByEmail E email =
     bindT (LookupPersonByEmail E email) (\<lambda>person.
       case person of
         None \<Rightarrow> throw (RuntimeError ''EmailVerifications::GetEmailVerificationInfoByEmail - person not found'')
       | Some p \<Rightarrow>
           bindT (query (\<lambda>w. List.find (\<lambda>r. v_personId r = p_id p) (email_verifications w))) (\<lambda>row.
             case row of
               None \<Rightarrow> throw (RuntimeError
                 ''EmailVerifications::GetEmailVerificationInfoByEmail - verification not found'')
             | Some r \<Rightarrow> ret r))"

text \<open>\<open>kClaimAttemptSql\<close>: the conditional UPDATE, and the first row it returns as updated.\<close>

definition claimable_v :: "int \<Rightarrow> int \<Rightarrow> int \<Rightarrow> EmailVerificationRow \<Rightarrow> bool" where
  "claimable_v now personId attemptLimit r \<longleftrightarrow>
     v_personId r = personId \<and> v_attempts r < attemptLimit \<and> now < v_expiresAt r"

definition bump_v :: "EmailVerificationRow \<Rightarrow> EmailVerificationRow" where
  "bump_v r = r\<lparr>v_attempts := v_attempts r + 1\<rparr>"

definition ClaimVerificationAttempt :: "env \<Rightarrow> int \<Rightarrow> int \<Rightarrow> EmailVerificationRow option tx" where
  "ClaimVerificationAttempt E personId attemptLimit = stmt (\<lambda>w.
     let P = claimable_v (now_of E w) personId attemptLimit in
     (Inr (map_option bump_v (List.find P (email_verifications w))),
      ticked (w\<lparr>email_verifications :=
        map (\<lambda>r. if P r then bump_v r else r) (email_verifications w)\<rparr>)))"

definition DoEmailVerification ::
  "env \<Rightarrow> SecretsHelper option \<Rightarrow> string \<Rightarrow> string \<Rightarrow> (string \<Rightarrow> string \<Rightarrow> bool) \<Rightarrow> bool tx" where
  "DoEmailVerification E S email tokenHash compareTokens =
     bindT (LookupPersonByEmail E email) (\<lambda>person.
       case person of
         None \<Rightarrow> throw (RuntimeError ''EmailVerifications::DoEmailVerification - person not found'')
       | Some p \<Rightarrow>
           bindT (LookupAttemptLimit E S) (\<lambda>attemptLimit.
           bindT (ClaimVerificationAttempt E (p_id p) attemptLimit) (\<lambda>row.
             case row of
               None \<Rightarrow> ret False
             | Some r \<Rightarrow>
                 if compareTokens (v_tokenHash r) tokenHash
                 then bindT (DeleteEmailVerification (v_id r)) (\<lambda>_. ret True)
                 else if attemptLimit \<le> v_attempts r
                 then bindT (AddAdminAlert
                        (''Email verification attempt limit reached for person_id='' @
                         StringFromInt (p_id p) @ '' email='' @ email)) (\<lambda>_. ret False)
                 else ret False)))"

section \<open>Password reset tokens\<close>

definition DeleteForPerson :: "int \<Rightarrow> unit tx" where
  "DeleteForPerson personId = stmt (\<lambda>w.
     (Inr (), w\<lparr>password_reset_tokens :=
        filter (\<lambda>r. r_personId r \<noteq> personId) (password_reset_tokens w)\<rparr>))"

definition ReplaceForPerson :: "env \<Rightarrow> int \<Rightarrow> string \<Rightarrow> int \<Rightarrow> int tx" where
  "ReplaceForPerson E personId tokenHash expiresAtUs =
     bindT (DeleteForPerson personId) (\<lambda>_.
       stmt (\<lambda>w. let (rid, w1) = nextval ''password_reset_tokens'' w in
         if \<not> has_person personId w then (Inl (DbFailure ''fk_password_reset_tokens_person_id''), w)
         else (Inr rid, ticked (w1\<lparr>password_reset_tokens := password_reset_tokens w @
           [\<lparr>r_id = rid, r_personId = personId, r_tokenHash = tokenHash, r_expiresAt = expiresAtUs,
             r_attempts = 0, r_createdAt = now_of E w\<rparr>]\<rparr>))))"

definition GetForPerson :: "int \<Rightarrow> PasswordResetRow option tx" where
  "GetForPerson personId =
     query (\<lambda>w. List.find (\<lambda>r. r_personId r = personId) (password_reset_tokens w))"

definition claimable_r :: "int \<Rightarrow> int \<Rightarrow> int \<Rightarrow> PasswordResetRow \<Rightarrow> bool" where
  "claimable_r now personId attemptLimit r \<longleftrightarrow>
     r_personId r = personId \<and> r_attempts r < attemptLimit \<and> now < r_expiresAt r"

definition bump_r :: "PasswordResetRow \<Rightarrow> PasswordResetRow" where
  "bump_r r = r\<lparr>r_attempts := r_attempts r + 1\<rparr>"

text \<open>The limit is cast to \<open>int\<close> in SQL: a limit outside it fails the statement.\<close>

definition IncrementAttempts :: "env \<Rightarrow> int \<Rightarrow> int \<Rightarrow> PasswordResetRow option tx" where
  "IncrementAttempts E personId attemptLimit = stmt (\<lambda>w.
     let P = claimable_r (now_of E w) personId attemptLimit in
     if \<not> in_i32 attemptLimit then (Inl (DbFailure ''integer out of range''), w)
     else (Inr (map_option bump_r (List.find P (password_reset_tokens w))),
           ticked (w\<lparr>password_reset_tokens :=
             map (\<lambda>r. if P r then bump_r r else r) (password_reset_tokens w)\<rparr>)))"

section \<open>Attempts are bounded\<close>

text \<open>
  A sequence of claims for any keys, in any order, and how many of those for \<open>j\<close> were granted.
\<close>

fun tally :: "('k \<Rightarrow> 'w \<Rightarrow> bool \<times> 'w) \<Rightarrow> 'k \<Rightarrow> 'k list \<Rightarrow> 'w \<Rightarrow> int \<times> 'w" where
  "tally claim j [] w = (0, w)"
| "tally claim j (k # ks) w =
     (let (b, w1) = claim k w; (n, w2) = tally claim j ks w1
      in (if b \<and> k = j then n + 1 else n, w2))"

locale attempt_ledger =
  fixes ok :: "'w \<Rightarrow> bool"
    and used :: "'w \<Rightarrow> 'k \<Rightarrow> int option"
    and limit :: int
    and claim :: "'k \<Rightarrow> 'w \<Rightarrow> bool \<times> 'w"
  assumes ok_claim: "ok w \<Longrightarrow> claim k w = (b, w') \<Longrightarrow> ok w'"
    and claim_granted: "ok w \<Longrightarrow> claim k w = (True, w') \<Longrightarrow>
      \<exists>a. used w k = Some a \<and> a < limit \<and> used w' k = Some (a + 1)"
    and claim_refused: "ok w \<Longrightarrow> claim k w = (False, w') \<Longrightarrow> used w' k = used w k"
    and claim_other: "ok w \<Longrightarrow> claim k w = (b, w') \<Longrightarrow> j \<noteq> k \<Longrightarrow> used w' j = used w j"
begin

lemma tally_used:
  "ok w \<Longrightarrow> tally claim j ks w = (n, w') \<Longrightarrow> 0 \<le> n \<and> ok w' \<and> used w' j = map_option ((+) n) (used w j)"
proof (induction ks arbitrary: w n w')
  case Nil
  then show ?case by (simp add: option.map_ident)
next
  case (Cons k ks)
  obtain b w1 where c: "claim k w = (b, w1)" by fastforce
  obtain m w2 where t: "tally claim j ks w1 = (m, w2)" by fastforce
  have ok1: "ok w1" using ok_claim Cons.prems(1) c by blast
  note ih = Cons.IH [OF ok1 t]
  have n: "n = (if b \<and> k = j then m + 1 else m)" "w' = w2"
    using Cons.prems(2) c t by auto
  show ?case
  proof (cases "b \<and> k = j")
    case True
    then have "claim j w = (True, w1)" using c by simp
    then obtain a where "used w j = Some a" "used w1 j = Some (a + 1)"
      using claim_granted [OF Cons.prems(1)] by blast
    with True n ih show ?thesis by simp
  next
    case False
    then have "used w1 j = used w j"
      using claim_refused [OF Cons.prems(1)] claim_other [OF Cons.prems(1)] c by (cases "k = j") auto
    with False n ih show ?thesis by auto
  qed
qed

lemma tally_bound:
  "ok w \<Longrightarrow> tally claim j ks w = (n, w') \<Longrightarrow>
   n \<le> (case used w j of None \<Rightarrow> 0 | Some a \<Rightarrow> max 0 (limit - a))"
proof (induction ks arbitrary: w n w')
  case Nil
  then show ?case by (simp split: option.split)
next
  case (Cons k ks)
  obtain b w1 where c: "claim k w = (b, w1)" by fastforce
  obtain m w2 where t: "tally claim j ks w1 = (m, w2)" by fastforce
  have ok1: "ok w1" using ok_claim Cons.prems(1) c by blast
  note ih = Cons.IH [OF ok1 t]
  show ?case
  proof (cases "b \<and> k = j")
    case True
    then have "claim j w = (True, w1)" using c by simp
    then obtain a where "used w j = Some a" "a < limit" "used w1 j = Some (a + 1)"
      using claim_granted [OF Cons.prems(1)] by blast
    with True Cons.prems(2) c t ih show ?thesis by simp
  next
    case False
    then have "used w1 j = used w j"
      using claim_refused [OF Cons.prems(1)] claim_other [OF Cons.prems(1)] c by (cases "k = j") auto
    with False Cons.prems(2) c t ih show ?thesis by auto
  qed
qed

end

text \<open>
  The rows behind a ledger: one row per key, and a conditional update that bumps the counter of the
  rows matching a condition which implies the key.
\<close>

locale attempt_rows =
  fixes key :: "'r \<Rightarrow> int" and att :: "'r \<Rightarrow> int" and bump :: "'r \<Rightarrow> 'r"
    and claimable :: "int \<Rightarrow> int \<Rightarrow> int \<Rightarrow> 'r \<Rightarrow> bool"
  assumes key_bump: "key (bump r) = key r"
    and att_bump: "att (bump r) = att r + 1"
    and claimable_key: "claimable now k limit r \<Longrightarrow> key r = k \<and> att r < limit"
begin

lemma keys_kept: "map key (map (\<lambda>r. if P r then bump r else r) rs) = map key rs"
  by (simp add: key_bump)

lemma used_after:
  "map_option att (List.find (\<lambda>r. key r = j) (map (\<lambda>r. if P r then bump r else r) rs)) =
   map_option (\<lambda>r. if P r then att r + 1 else att r) (List.find (\<lambda>r. key r = j) rs)"
  by (subst find_map_inv) (auto simp: key_bump att_bump option.map_comp intro!: map_option_cong)

lemma claim_found:
  assumes "distinct (map key rs)" "List.find (claimable now k limit) rs = Some r0"
    "rs' = map (\<lambda>r. if claimable now k limit r then bump r else r) rs"
  shows "\<exists>a. map_option att (List.find (\<lambda>r. key r = k) rs) = Some a \<and> a < limit \<and>
    map_option att (List.find (\<lambda>r. key r = k) rs') = Some (a + 1)"
proof -
  have "List.find (\<lambda>r. key r = k) rs = Some r0" "claimable now k limit r0"
    using assms(2) find_unique [OF assms(1), of "claimable now k limit" k] claimable_key
    by (auto split: option.splits if_splits)
  then show ?thesis
    unfolding assms(3) used_after using claimable_key by auto
qed

lemma claim_missed:
  assumes "distinct (map key rs)" "List.find (claimable now k limit) rs = None"
  shows "map (\<lambda>r. if claimable now k limit r then bump r else r) rs = rs"
  using assms(2) by (intro map_idI) (auto simp: find_None_iff)

lemma claim_elsewhere:
  assumes "j \<noteq> k" "rs' = map (\<lambda>r. if claimable now k limit r then bump r else r) rs"
  shows "map_option att (List.find (\<lambda>r. key r = j) rs') = map_option att (List.find (\<lambda>r. key r = j) rs)"
  unfolding assms(2) used_after using assms(1) claimable_key
  by (intro map_option_cong) (auto dest!: find_SomeD)

end

interpretation reset_rows: attempt_rows r_personId r_attempts bump_r claimable_r
  by unfold_locales (auto simp: bump_r_def claimable_r_def)

interpretation verify_rows: attempt_rows v_personId v_attempts bump_v claimable_v
  by unfold_locales (auto simp: bump_v_def claimable_v_def)

definition granted :: "'a option tx \<Rightarrow> world \<Rightarrow> bool \<times> world" where
  "granted m w = (case m w of (Inr (Some _), w') \<Rightarrow> (True, w') | (_, w') \<Rightarrow> (False, w'))"

definition reset_used :: "world \<Rightarrow> int \<Rightarrow> int option" where
  "reset_used w pid = map_option r_attempts (List.find (\<lambda>r. r_personId r = pid) (password_reset_tokens w))"

definition verify_used :: "world \<Rightarrow> int \<Rightarrow> int option" where
  "verify_used w pid = map_option v_attempts (List.find (\<lambda>r. v_personId r = pid) (email_verifications w))"

text \<open>The UNIQUE(person_id) constraint of the two tables.\<close>

definition one_reset_each :: "world \<Rightarrow> bool" where
  "one_reset_each w \<longleftrightarrow> distinct (map r_personId (password_reset_tokens w))"

definition one_verification_each :: "world \<Rightarrow> bool" where
  "one_verification_each w \<longleftrightarrow> distinct (map v_personId (email_verifications w))"

lemma IncrementAttempts_cases:
  assumes "IncrementAttempts E pid limit w = (r, w')"
  obtains (stuck) e where "r = Inl e" "password_reset_tokens w' = password_reset_tokens w"
  | (run) "r = Inr (map_option bump_r (List.find (claimable_r (now_of E w) pid limit) (password_reset_tokens w)))"
      "password_reset_tokens w' = map (\<lambda>r. if claimable_r (now_of E w) pid limit r then bump_r r else r)
        (password_reset_tokens w)"
proof -
  from assms have "(\<exists>e. r = Inl e \<and> password_reset_tokens w' = password_reset_tokens w) \<or>
      r = Inr (map_option bump_r (List.find (claimable_r (now_of E w) pid limit) (password_reset_tokens w))) \<and>
      password_reset_tokens w' = map (\<lambda>r. if claimable_r (now_of E w) pid limit r then bump_r r else r) (password_reset_tokens w)"
    unfolding IncrementAttempts_def stmt_def Let_def by (auto split: if_splits)
  then show thesis using that by blast
qed

lemma ClaimVerificationAttempt_cases:
  assumes "ClaimVerificationAttempt E pid limit w = (r, w')"
  obtains (stuck) e where "r = Inl e" "email_verifications w' = email_verifications w"
  | (run) "r = Inr (map_option bump_v (List.find (claimable_v (now_of E w) pid limit) (email_verifications w)))"
      "email_verifications w' = map (\<lambda>r. if claimable_v (now_of E w) pid limit r then bump_v r else r)
        (email_verifications w)"
proof -
  from assms have "(\<exists>e. r = Inl e \<and> email_verifications w' = email_verifications w) \<or>
      r = Inr (map_option bump_v (List.find (claimable_v (now_of E w) pid limit) (email_verifications w))) \<and>
      email_verifications w' = map (\<lambda>r. if claimable_v (now_of E w) pid limit r then bump_v r else r) (email_verifications w)"
    unfolding ClaimVerificationAttempt_def stmt_def Let_def by (auto split: if_splits)
  then show thesis using that by blast
qed

lemma granted_iff: "granted m w = (b, w') \<longleftrightarrow> (\<exists>r. m w = (r, w') \<and> b = (\<exists>x. r = Inr (Some x)))"
  by (auto simp: granted_def split: prod.splits sum.splits option.splits)

interpretation reset_ledger: attempt_ledger one_reset_each reset_used limit
  "\<lambda>pid. granted (IncrementAttempts E pid limit)" for E limit
proof (unfold_locales, goal_cases)
  case (1 w k b w')
  then show ?case
    by (auto simp: granted_iff one_reset_each_def reset_rows.keys_kept simp del: map_map
        elim!: IncrementAttempts_cases)
next
  case (2 w k w')
  then obtain x where "IncrementAttempts E k limit w = (Inr (Some x), w')"
    by (auto simp: granted_iff)
  then obtain r0 where "List.find (claimable_r (now_of E w) k limit) (password_reset_tokens w) = Some r0"
    "password_reset_tokens w' = map (\<lambda>r. if claimable_r (now_of E w) k limit r then bump_r r else r) (password_reset_tokens w)"
    by (auto elim!: IncrementAttempts_cases simp: eq_commute [of "Some x"])
  with 2(1) show ?case
    unfolding one_reset_each_def reset_used_def by (rule reset_rows.claim_found)
next
  case (3 w k w')
  then obtain r where r: "IncrementAttempts E k limit w = (r, w')" "\<nexists>x. r = Inr (Some x)"
    by (auto simp: granted_iff)
  from r(1) have "password_reset_tokens w' = password_reset_tokens w"
  proof (cases rule: IncrementAttempts_cases)
    case run
    with r(2) have "List.find (claimable_r (now_of E w) k limit) (password_reset_tokens w) = None"
      by (cases "List.find (claimable_r (now_of E w) k limit) (password_reset_tokens w)") auto
    with 3(1) run show ?thesis
      unfolding one_reset_each_def by (simp add: reset_rows.claim_missed)
  qed
  then show ?case by (simp add: reset_used_def)
next
  case (4 w k b w' j)
  then show ?case
    unfolding granted_iff reset_used_def
    by (auto elim!: IncrementAttempts_cases dest: reset_rows.claim_elsewhere)
qed

interpretation verify_ledger: attempt_ledger one_verification_each verify_used limit
  "\<lambda>pid. granted (ClaimVerificationAttempt E pid limit)" for E limit
proof (unfold_locales, goal_cases)
  case (1 w k b w')
  then show ?case
    by (auto simp: granted_iff one_verification_each_def verify_rows.keys_kept simp del: map_map
        elim!: ClaimVerificationAttempt_cases)
next
  case (2 w k w')
  then obtain x where "ClaimVerificationAttempt E k limit w = (Inr (Some x), w')"
    by (auto simp: granted_iff)
  then obtain r0 where "List.find (claimable_v (now_of E w) k limit) (email_verifications w) = Some r0"
    "email_verifications w' = map (\<lambda>r. if claimable_v (now_of E w) k limit r then bump_v r else r) (email_verifications w)"
    by (auto elim!: ClaimVerificationAttempt_cases simp: eq_commute [of "Some x"])
  with 2(1) show ?case
    unfolding one_verification_each_def verify_used_def by (rule verify_rows.claim_found)
next
  case (3 w k w')
  then obtain r where r: "ClaimVerificationAttempt E k limit w = (r, w')" "\<nexists>x. r = Inr (Some x)"
    by (auto simp: granted_iff)
  from r(1) have "email_verifications w' = email_verifications w"
  proof (cases rule: ClaimVerificationAttempt_cases)
    case run
    with r(2) have "List.find (claimable_v (now_of E w) k limit) (email_verifications w) = None"
      by (cases "List.find (claimable_v (now_of E w) k limit) (email_verifications w)") auto
    with 3(1) run show ?thesis
      unfolding one_verification_each_def by (simp add: verify_rows.claim_missed)
  qed
  then show ?case by (simp add: verify_used_def)
next
  case (4 w k b w' j)
  then show ?case
    unfolding granted_iff verify_used_def
    by (auto elim!: ClaimVerificationAttempt_cases dest: verify_rows.claim_elsewhere)
qed

section \<open>Rows a person owns\<close>

text \<open>
  Removing what belongs to a person from a table: the rows of that person go, the others stay, and no
  person changes. Sessions, device tokens and reset links are such tables.
\<close>

locale owned_rows =
  fixes rows :: "world \<Rightarrow> 'r list"
    and owner :: "'r \<Rightarrow> int"
    and remove :: "int \<Rightarrow> unit tx"
  assumes remove_live: "\<not> aborted w \<Longrightarrow> \<exists>w'. remove pid w = (Inr (), w') \<and> \<not> aborted w'"
    and remove_rows: "remove pid w = (Inr (), w') \<Longrightarrow>
      rows w' = filter (\<lambda>r. owner r \<noteq> pid) (rows w) \<and> people w' = people w"
begin

lemma none_left: "remove pid w = (Inr (), w') \<Longrightarrow> r \<in> set (rows w') \<Longrightarrow> owner r \<noteq> pid"
  by (drule remove_rows) auto

lemma others_kept: "remove pid w = (Inr (), w') \<Longrightarrow> owner r \<noteq> pid \<Longrightarrow> r \<in> set (rows w') \<longleftrightarrow> r \<in> set (rows w)"
  by (drule remove_rows) auto

lemma remove_again:
  "remove pid w = (Inr (), w') \<Longrightarrow> remove pid w' = (Inr (), w'') \<Longrightarrow> rows w'' = rows w'"
  by (auto dest!: remove_rows intro: filter_True)

end

interpretation owned_sessions: owned_rows sessions s_personId RemoveSessionsForUser
  by unfold_locales (auto simp: RemoveSessionsForUser_def stmt_def split: if_splits)

interpretation owned_devices: owned_rows device_tokens d_personId RemoveDeviceTokensForUser
  by unfold_locales (auto simp: RemoveDeviceTokensForUser_def stmt_def split: if_splits)

interpretation owned_resets: owned_rows password_reset_tokens r_personId DeleteForPerson
  by unfold_locales (auto simp: DeleteForPerson_def stmt_def split: if_splits)

section \<open>Properties\<close>

text \<open>
  C29. A password reset link is tried at most as often as the limit leaves: in any interleaving
  of claims for any people, the claims granted for one person are at most the limit minus the
  attempts already counted.
\<close>

theorem reset_attempts_bounded:
  assumes "one_reset_each w"
    and "tally (\<lambda>pid. granted (IncrementAttempts E pid limit)) j ks w = (n, w')"
  shows "n \<le> (case reset_used w j of None \<Rightarrow> 0 | Some a \<Rightarrow> max 0 (limit - a))"
  using reset_ledger.tally_bound [OF assms] .

definition demo_reset :: PasswordResetRow where
  "demo_reset = \<lparr>r_id = 1, r_personId = 7, r_tokenHash = ''h'', r_expiresAt = 100, r_attempts = 3, r_createdAt = 0\<rparr>"

theorem reset_attempts_bounded_witness:
  "fst (tally (\<lambda>pid. granted (IncrementAttempts demoEnv pid 5)) 7 [7, 8, 7, 7, 7]
     (emptyWorld\<lparr>password_reset_tokens := [demo_reset]\<rparr>)) \<le> 2"
proof -
  let ?w = "emptyWorld\<lparr>password_reset_tokens := [demo_reset]\<rparr>"
  let ?t = "tally (\<lambda>pid. granted (IncrementAttempts demoEnv pid 5)) 7 [7, 8, 7, 7, 7] ?w"
  have "one_reset_each ?w" by (simp add: one_reset_each_def)
  moreover have "reset_used ?w 7 = Some 3" by (simp add: reset_used_def demo_reset_def)
  ultimately show ?thesis
    using reset_attempts_bounded [of ?w demoEnv 5 7 "[7, 8, 7, 7, 7]" "fst ?t" "snd ?t"] by simp
qed

text \<open>
  Guessing an e-mail verification secret is bounded in the same way by the attempts the row
  has left.
\<close>

theorem verify_attempts_bounded:
  assumes "one_verification_each w"
    and "tally (\<lambda>pid. granted (ClaimVerificationAttempt E pid limit)) j ks w = (n, w')"
  shows "n \<le> (case verify_used w j of None \<Rightarrow> 0 | Some a \<Rightarrow> max 0 (limit - a))"
  using verify_ledger.tally_bound [OF assms] .

definition demo_verification :: EmailVerificationRow where
  "demo_verification = \<lparr>v_id = 1, v_personId = 7, v_tokenHash = ''h'', v_expiresAt = 100, v_attempts = 0\<rparr>"

theorem verify_attempts_bounded_witness:
  "fst (tally (\<lambda>pid. granted (ClaimVerificationAttempt demoEnv pid 2)) 7 [7, 7, 9, 7]
     (emptyWorld\<lparr>email_verifications := [demo_verification]\<rparr>)) \<le> 2"
proof -
  let ?w = "emptyWorld\<lparr>email_verifications := [demo_verification]\<rparr>"
  let ?t = "tally (\<lambda>pid. granted (ClaimVerificationAttempt demoEnv pid 2)) 7 [7, 7, 9, 7] ?w"
  have "one_verification_each ?w" by (simp add: one_verification_each_def)
  moreover have "verify_used ?w 7 = Some 0" by (simp add: verify_used_def demo_verification_def)
  ultimately show ?thesis
    using verify_attempts_bounded [of ?w demoEnv 2 7 "[7, 7, 9, 7]" "fst ?t" "snd ?t"] by simp
qed

lemma ClaimVerificationAttempt_Some:
  assumes "ClaimVerificationAttempt E pid limit w = (Inr (Some x), w')"
  obtains r where "r \<in> set (email_verifications w)" "claimable_v (now_of E w) pid limit r" "x = bump_v r"
    "email_verifications w' = map (\<lambda>r. if claimable_v (now_of E w) pid limit r then bump_v r else r)
       (email_verifications w)"
  using assms(1)
proof (cases rule: ClaimVerificationAttempt_cases)
  case run
  then obtain r where "List.find (claimable_v (now_of E w) pid limit) (email_verifications w) = Some r" "x = bump_v r"
    by (cases "List.find (claimable_v (now_of E w) pid limit) (email_verifications w)") auto
  with run that show thesis using find_SomeD by metis
qed simp

text \<open>
  An e-mail verification that succeeds was asked for by the right secret: the person has a
  pending row that is unexpired and has attempts left, the comparison accepted its hash, and after the
  call no row of that person is left, so the secret works once.
\<close>

theorem verification_sound_and_single_use:
  assumes "DoEmailVerification E S em presented compareTokens w = (Inr True, w')"
    and "one_verification_each w"
  shows "\<exists>p r. List.find (person_key E em) (people w) = Some p \<and> r \<in> set (email_verifications w) \<and>
    v_personId r = p_id p \<and> now_of E w < v_expiresAt r \<and> compareTokens (v_tokenHash r) presented \<and>
    (\<forall>q \<in> set (email_verifications w'). v_personId q \<noteq> p_id p)"
proof -
  obtain p limit w1 x w2 where p: "List.find (person_key E em) (people w) = Some p"
    and lim: "LookupAttemptLimit E S w = (Inr limit, w1)"
    and x1: "ClaimVerificationAttempt E (p_id p) limit w1 = (Inr (Some x), w2)"
    and cmp: "compareTokens (v_tokenHash x) presented" and del: "DeleteEmailVerification (v_id x) w2 = (Inr (), w')"
    using assms(1) unfolding DoEmailVerification_def by (auto simp: run_simps)
  have "w1 = w"
    using lim by (auto simp: LookupAttemptLimit_def LookupRequiredSecret_def run_simps dest: LookupSecret_state)
  then have x: "ClaimVerificationAttempt E (p_id p) limit w = (Inr (Some x), w2)" using x1 by simp
  obtain r where r: "r \<in> set (email_verifications w)" "claimable_v (now_of E w) (p_id p) limit r" "x = bump_v r"
    "email_verifications w2 = map (\<lambda>r. if claimable_v (now_of E w) (p_id p) limit r then bump_v r else r)
       (email_verifications w)"
    using x by (rule ClaimVerificationAttempt_Some)
  have only: "q = r" if "q \<in> set (email_verifications w)" "v_personId q = p_id p" for q
    using assms(2) r(1,2) that by (auto simp: one_verification_each_def distinct_map inj_on_def claimable_v_def)
  have "v_personId q \<noteq> p_id p" if "q \<in> set (email_verifications w')" for q
  proof
    assume own: "v_personId q = p_id p"
    have "q \<in> set (email_verifications w2)" "v_id q \<noteq> v_id x"
      using del that by (auto simp: DeleteEmailVerification_def stmt_Inr)
    then obtain q0 where "q0 \<in> set (email_verifications w)"
      "q = (if claimable_v (now_of E w) (p_id p) limit q0 then bump_v q0 else q0)"
      using r(4) by auto
    moreover from this have "q0 = r" using only own by (auto simp: bump_v_def split: if_splits)
    ultimately show False using r(2,3) \<open>v_id q \<noteq> v_id x\<close> by simp
  qed
  moreover have "compareTokens (v_tokenHash r) presented" using cmp r(3) by (simp add: bump_v_def)
  ultimately show ?thesis using p r(1,2) by (auto simp: claimable_v_def)
qed

definition demo_person :: PersonRow where
  "demo_person = \<lparr>p_id = 7, p_email = ''ann@example.org'', p_firstName = ''Ann'', p_lastName = ''Lee'',
     p_passwordHash = ''correct'', p_emailVerifiedAt = Some 1, p_mustChangePassword = False,
     p_createdAt = 0, p_updatedAt = 0, p_failedLoginAttempts = 0, p_lockedUntil = None\<rparr>"

definition demo_world :: world where
  "demo_world = emptyWorld\<lparr>people := [demo_person],
     config_secrets := [(''email_verification_attempt_limit'', ''5'')],
     email_verifications := [demo_verification]\<rparr>"

theorem verification_sound_and_single_use_witness:
  "\<exists>w'. DoEmailVerification demoEnv (Some None) ''ann@example.org'' ''h'' (=) demo_world = (Inr True, w') \<and>
     (\<forall>q \<in> set (email_verifications w'). v_personId q \<noteq> 7)"
proof -
  have five: "stoi ''5'' = Inr 5" by code_simp
  have run: "DoEmailVerification demoEnv (Some None) ''ann@example.org'' ''h'' (=) demo_world
      = (Inr True, ticked (demo_world\<lparr>email_verifications := []\<rparr>))"
    by (simp add: DoEmailVerification_def LookupPersonByEmail_def LookupAttemptLimit_def
        LookupRequiredSecret_def LookupSecret_def LookupSecretRow_def bindT_def query_def stmt_def
        ret_def lift_def demo_world_def emptyWorld_def demo_person_def person_key_def demoEnv_def five
        kEmailVerificationAttemptLimit_def ClaimVerificationAttempt_def claimable_v_def
        demo_verification_def bump_v_def DeleteEmailVerification_def now_of_def Let_def ticked_def)
  have "one_verification_each demo_world"
    by (simp add: one_verification_each_def demo_world_def emptyWorld_def)
  from verification_sound_and_single_use [OF run this] run show ?thesis
    by (auto simp: demo_world_def emptyWorld_def)
qed

end
