(* ===== verification/LoginGate.thy ===== *)
theory LoginGate
  imports AuthTokens
begin

text \<open>
  The rate-limit gate (\<open>components/platform/business_logic/auth/login_gate.cpp\<close>): which of the
  authentication requests go ahead, decided from the account lock and from the attempts recorded in
  \<open>login_attempts\<close>. The thresholds and windows are configuration secrets with built-in defaults.
\<close>

datatype LoginGateResult = Allow | AccountLocked | RateLimitedEmail | RateLimitedIp

definition LookupInt64Secret :: "env \<Rightarrow> SecretsHelper option \<Rightarrow> string \<Rightarrow> int \<Rightarrow> int tx" where
  "LookupInt64Secret E S key fallback =
     (case S of None \<Rightarrow> ret fallback
      | Some h \<Rightarrow> bindT (LookupSecret E h key) (\<lambda>val.
          if val = [] then ret fallback
          else case stoll val of Inl _ \<Rightarrow> ret fallback | Inr n \<Rightarrow> ret n))"

text \<open>\<open>SELECT COALESCE(MAX(locked_until), 0) FROM people WHERE email = $1\<close>\<close>

definition max_lock :: "env \<Rightarrow> string \<Rightarrow> world \<Rightarrow> int" where
  "max_lock E email w =
     (case List.map_filter p_lockedUntil (filter (person_key E email) (people w)) of
        [] \<Rightarrow> 0 | l # ls \<Rightarrow> foldl max l ls)"

definition IsAccountLocked :: "env \<Rightarrow> string \<Rightarrow> bool tx" where
  "IsAccountLocked E email =
     bindT (query (max_lock E email)) (\<lambda>lockedUntil.
       if 0 < lockedUntil then bindT (now_us E) (\<lambda>nowUs. ret (nowUs < lockedUntil))
       else ret False)"

definition CheckBeforeLogin :: "env \<Rightarrow> SecretsHelper option \<Rightarrow> string \<Rightarrow> string \<Rightarrow> LoginGateResult tx" where
  "CheckBeforeLogin E S email ip =
     bindT (if email = [] then ret False else IsAccountLocked E email) (\<lambda>locked.
     if locked then ret AccountLocked else
     bindT (LookupInt64Secret E S ''auth_login_failure_window_in_micros'' 900000000) (\<lambda>windowMicros.
     bindT (LookupInt64Secret E S ''auth_login_max_failures_per_email'' 10) (\<lambda>emailThreshold.
     bindT (LookupInt64Secret E S ''auth_login_max_failures_per_ip'' 50) (\<lambda>ipThreshold.
     bindT (if email = [] then ret False
            else bindT (RecentFailureCountForEmail E email ''login'' windowMicros)
                   (\<lambda>n. ret (emailThreshold \<le> n))) (\<lambda>emailOver.
     if emailOver then ret RateLimitedEmail else
     bindT (if ip = [] then ret False
            else bindT (RecentFailureCountForIp E ip ''login'' windowMicros)
                   (\<lambda>n. ret (ipThreshold \<le> n))) (\<lambda>ipOver.
     ret (if ipOver then RateLimitedIp else Allow)))))))"

definition CheckBeforeVerify :: "env \<Rightarrow> SecretsHelper option \<Rightarrow> string \<Rightarrow> LoginGateResult tx" where
  "CheckBeforeVerify E S ip =
     (if ip = [] then ret Allow else
     bindT (LookupInt64Secret E S ''auth_verify_failure_window_in_micros'' 900000000) (\<lambda>windowMicros.
     bindT (LookupInt64Secret E S ''auth_verify_max_failures_per_ip'' 30) (\<lambda>ipThreshold.
     bindT (RecentFailureCountForIp E ip ''verify'' windowMicros) (\<lambda>ipFailures.
       ret (if ipThreshold \<le> ipFailures then RateLimitedIp else Allow)))))"

definition CheckBeforeRemember :: "env \<Rightarrow> SecretsHelper option \<Rightarrow> string \<Rightarrow> LoginGateResult tx" where
  "CheckBeforeRemember E S ip =
     (if ip = [] then ret Allow else
     bindT (LookupInt64Secret E S ''auth_remember_failure_window_in_micros'' 900000000) (\<lambda>windowMicros.
     bindT (LookupInt64Secret E S ''auth_remember_max_failures_per_ip'' 50) (\<lambda>ipThreshold.
     bindT (RecentFailureCountForIp E ip ''remember'' windowMicros) (\<lambda>ipFailures.
       ret (if ipThreshold \<le> ipFailures then RateLimitedIp else Allow)))))"

definition CheckBeforeForgotPassword ::
  "env \<Rightarrow> SecretsHelper option \<Rightarrow> string \<Rightarrow> string \<Rightarrow> LoginGateResult tx" where
  "CheckBeforeForgotPassword E S email ip =
     bindT (LookupInt64Secret E S ''auth_password_reset_request_window_in_micros'' 3600000000) (\<lambda>windowMicros.
     bindT (LookupInt64Secret E S ''auth_password_reset_max_requests_per_email'' 5) (\<lambda>emailThreshold.
     bindT (LookupInt64Secret E S ''auth_password_reset_max_requests_per_ip'' 20) (\<lambda>ipThreshold.
     bindT (if email = [] then ret False
            else bindT (RecentAttemptCountForEmail E email ''password_reset_request'' windowMicros)
                   (\<lambda>n. ret (emailThreshold \<le> n))) (\<lambda>emailOver.
     if emailOver then ret RateLimitedEmail else
     bindT (if ip = [] then ret False
            else bindT (RecentAttemptCountForIp E ip ''password_reset_request'' windowMicros)
                   (\<lambda>n. ret (ipThreshold \<le> n))) (\<lambda>ipOver.
     ret (if ipOver then RateLimitedIp else Allow))))))"

definition CheckBeforeResetPassword :: "env \<Rightarrow> SecretsHelper option \<Rightarrow> string \<Rightarrow> LoginGateResult tx" where
  "CheckBeforeResetPassword E S ip =
     (if ip = [] then ret Allow else
     bindT (LookupInt64Secret E S ''auth_password_reset_failure_window_in_micros'' 900000000) (\<lambda>windowMicros.
     bindT (LookupInt64Secret E S ''auth_password_reset_max_failures_per_ip'' 30) (\<lambda>ipThreshold.
     bindT (RecentFailureCountForIp E ip ''password_reset'' windowMicros) (\<lambda>ipFailures.
       ret (if ipThreshold \<le> ipFailures then RateLimitedIp else Allow)))))"

section \<open>The gate only reads\<close>

lemma reads_LookupSecret [read_rules]: "reads (LookupSecret E h name)"
  unfolding LookupSecret_def LookupSecretRow_def by (intro read_rules)

lemma reads_LookupInt64Secret [read_rules]: "reads (LookupInt64Secret E S key d)"
  unfolding LookupInt64Secret_def by (intro read_rules)

lemma reads_count_attempts [read_rules]: "reads (count_attempts E P n)"
  by (auto simp: reads_def count_attempts_def stmt_Inr ret_def ticked_def)

lemmas count_defs = RecentFailureCountForEmail_def RecentFailureCountForIp_def
  RecentAttemptCountForEmail_def RecentAttemptCountForIp_def

lemma reads_RecentFailureCountForEmail [read_rules]: "reads (RecentFailureCountForEmail E email kind n)"
  unfolding count_defs by (intro read_rules)

lemma reads_RecentFailureCountForIp [read_rules]: "reads (RecentFailureCountForIp E ip kind n)"
  unfolding count_defs by (intro read_rules)

lemma reads_CheckBeforeLogin [read_rules]: "reads (CheckBeforeLogin E S email ip)"
  unfolding CheckBeforeLogin_def IsAccountLocked_def count_defs by (intro read_rules)

lemma reads_CheckBeforeForgotPassword [read_rules]: "reads (CheckBeforeForgotPassword E S email ip)"
  unfolding CheckBeforeForgotPassword_def count_defs by (intro read_rules)

text \<open>A configuration secret reads the same wherever the configuration is the same.\<close>

lemma LookupInt64Secret_state: "LookupInt64Secret E S key d w = (r, w') \<Longrightarrow> w' = w"
  by (auto simp: LookupInt64Secret_def bindT_def ret_def dest: LookupSecret_state
      split: option.splits prod.splits sum.splits if_splits)

lemma LookupInt64Secret_cong:
  "config_secrets w = config_secrets v \<Longrightarrow> aborted w = aborted v \<Longrightarrow>
   fst (LookupInt64Secret E S key d w) = fst (LookupInt64Secret E S key d v)"
  by (auto simp: LookupInt64Secret_def LookupSecret_def LookupSecretRow_def bindT_def query_def
      stmt_def ret_def lift_def split: option.splits prod.splits sum.splits)

lemma LookupInt64Secret_at:
  assumes "LookupInt64Secret E S key d w = (Inr n, w)" "config_secrets v = config_secrets w"
    "aborted v = aborted w"
  shows "LookupInt64Secret E S key d v = (Inr n, v)"
proof -
  obtain r v' where r: "LookupInt64Secret E S key d v = (r, v')" by fastforce
  moreover have "v' = v" using LookupInt64Secret_state [OF r] .
  moreover have "r = Inr n"
    using LookupInt64Secret_cong [of v w E S key d] assms r by simp
  ultimately show ?thesis by simp
qed

section \<open>What the gate decides\<close>

definition failures_for :: "env \<Rightarrow> world \<Rightarrow> int \<Rightarrow> string \<Rightarrow> string \<Rightarrow> int \<Rightarrow> int" where
  "failures_for E w now email kind windowMicros =
     (if windowMicros \<le> 0 then 0 else int (length (filter
        (\<lambda>r. citext E (a_email r) = citext E email \<and> a_kind r = kind \<and> \<not> a_success r \<and>
              now - windowMicros \<le> a_attemptedAt r) (login_attempts w))))"

definition failures_from :: "world \<Rightarrow> int \<Rightarrow> string \<Rightarrow> string \<Rightarrow> int \<Rightarrow> int" where
  "failures_from w now ip kind windowMicros =
     (if windowMicros \<le> 0 then 0 else int (length (filter
        (\<lambda>r. a_ip r = ip \<and> a_kind r = kind \<and> \<not> a_success r \<and> now - windowMicros \<le> a_attemptedAt r)
        (login_attempts w))))"

lemma RecentFailureCountForEmail_Inr:
  "RecentFailureCountForEmail E email kind n w = (Inr k, w') \<Longrightarrow>
   k = failures_for E w (now_of E w) email kind n"
  by (auto simp: RecentFailureCountForEmail_def count_attempts_def failures_for_def stmt_Inr ret_def
      conj_ac split: if_splits)

lemma RecentFailureCountForEmail_live:
  "\<not> aborted w \<Longrightarrow> RecentFailureCountForEmail E email kind n w =
     (Inr (failures_for E w (now_of E w) email kind n), if n \<le> 0 then w else ticked w)"
  by (simp add: RecentFailureCountForEmail_def count_attempts_def failures_for_def stmt_def ret_def conj_ac)

lemma RecentFailureCountForIp_live:
  "\<not> aborted w \<Longrightarrow> RecentFailureCountForIp E ip kind n w =
     (Inr (failures_from w (now_of E w) ip kind n), if n \<le> 0 then w else ticked w)"
  by (simp add: RecentFailureCountForIp_def count_attempts_def failures_from_def stmt_def ret_def conj_ac)

lemma IsAccountLocked_live:
  "\<not> aborted w \<Longrightarrow> IsAccountLocked E email w =
     (Inr (0 < max_lock E email w \<and> now_of E w < max_lock E email w),
      if 0 < max_lock E email w then ticked w else w)"
  by (simp add: IsAccountLocked_def bindT_def query_live now_us_live ret_def)

text \<open>A request the gate allows has found fewer failures than the limit at some reading of the clock.\<close>

lemma CheckBeforeLogin_AllowD:
  assumes "CheckBeforeLogin E S email ip w = (Inr Allow, w')" "email \<noteq> []"
    "LookupInt64Secret E S ''auth_login_failure_window_in_micros'' 900000000 w = (Inr W, w)"
    "LookupInt64Secret E S ''auth_login_max_failures_per_email'' 10 w = (Inr T, w)"
  shows "\<exists>t. tick w \<le> t \<and> t \<le> tick w' \<and> failures_for E w (clk E t) email ''login'' W < T"
proof -
  from assms(1,2) obtain w1 where l: "IsAccountLocked E email w = (Inr False, w1)"
    and 1: "bindT (LookupInt64Secret E S ''auth_login_failure_window_in_micros'' 900000000) (\<lambda>windowMicros.
     bindT (LookupInt64Secret E S ''auth_login_max_failures_per_email'' 10) (\<lambda>emailThreshold.
     bindT (LookupInt64Secret E S ''auth_login_max_failures_per_ip'' 50) (\<lambda>ipThreshold.
     bindT (bindT (RecentFailureCountForEmail E email ''login'' windowMicros)
                   (\<lambda>n. ret (emailThreshold \<le> n))) (\<lambda>emailOver.
     if emailOver then ret RateLimitedEmail else
     bindT (if ip = [] then ret False
            else bindT (RecentFailureCountForIp E ip ''login'' windowMicros)
                   (\<lambda>n. ret (ipThreshold \<le> n))) (\<lambda>ipOver.
     ret (if ipOver then RateLimitedIp else Allow)))))) w1 = (Inr Allow, w')"
    unfolding CheckBeforeLogin_def by (auto elim!: bindT_InrE simp: ret_def split: if_splits)
  have w1: "tick w \<le> tick w1" "w1 = w\<lparr>tick := tick w1\<rparr>"
    using l readsD [of "IsAccountLocked E email"] by (auto simp: IsAccountLocked_def intro!: read_rules)
  have same: "config_secrets w1 = config_secrets w" "aborted w1 = aborted w" "login_attempts w1 = login_attempts w"
    by (subst w1(2), simp)+
  have W: "LookupInt64Secret E S ''auth_login_failure_window_in_micros'' 900000000 w1 = (Inr W, w1)"
    and T: "LookupInt64Secret E S ''auth_login_max_failures_per_email'' 10 w1 = (Inr T, w1)"
    using LookupInt64Secret_at assms(3,4) same by blast+
  from 1 obtain p n w2 w3 where p: "LookupInt64Secret E S ''auth_login_max_failures_per_ip'' 50 w1 = (Inr p, w2)"
    and n: "RecentFailureCountForEmail E email ''login'' W w2 = (Inr n, w3)" and "n < T"
    and rest: "bindT (if ip = [] then ret False
            else bindT (RecentFailureCountForIp E ip ''login'' W) (\<lambda>n. ret (p \<le> n)))
       (\<lambda>ipOver. ret (if ipOver then RateLimitedIp else Allow)) w3 = (Inr Allow, w')"
    by (auto simp: W T ret_def elim!: bindT_InrE split: if_splits)
  have "w2 = w1" using LookupInt64Secret_state [OF p] .
  moreover have "tick w2 \<le> tick w3"
    using readsD [OF reads_RecentFailureCountForEmail n] by simp
  moreover have "tick w3 \<le> tick w'"
    using rest by (rule reads_tick) (intro read_rules)
  moreover have "failures_for E w1 (clk E (tick w2)) email ''login'' W = n"
    using RecentFailureCountForEmail_Inr [OF n] \<open>w2 = w1\<close> by (simp add: now_of_def)
  moreover have "failures_for E w1 t email ''login'' W = failures_for E w t email ''login'' W" for t
    by (simp add: failures_for_def same(3))
  ultimately have "tick w \<le> tick w2 \<and> tick w2 \<le> tick w' \<and> failures_for E w (clk E (tick w2)) email ''login'' W < T"
    using w1(1) \<open>n < T\<close> by simp
  then show ?thesis by blast
qed

section \<open>Guessing is bounded\<close>

text \<open>
  A client repeating failing logins for one address: every request passes the gate, and one the gate
  lets through fails and is recorded. The result is how many were let through.
\<close>

fun guesses :: "env \<Rightarrow> SecretsHelper option \<Rightarrow> string \<Rightarrow> string \<Rightarrow> nat \<Rightarrow> int tx" where
  "guesses E S email ip 0 = ret 0"
| "guesses E S email ip (Suc n) =
     bindT (CheckBeforeLogin E S email ip) (\<lambda>g.
       if g = Allow
       then bindT (RecordAttempt E email ip ''login'' False) (\<lambda>_.
            bindT (guesses E S email ip n) (\<lambda>k. ret (k + 1)))
       else guesses E S email ip n)"

definition failures_since :: "env \<Rightarrow> string \<Rightarrow> int \<Rightarrow> world \<Rightarrow> int" where
  "failures_since E email t0 w = int (length (filter
     (\<lambda>r. citext E (a_email r) = citext E email \<and> a_kind r = ''login'' \<and> \<not> a_success r \<and>
          t0 \<le> a_attemptedAt r) (login_attempts w)))"

lemma failures_since_le:
  "0 < W \<Longrightarrow> now - W \<le> t0 \<Longrightarrow> failures_since E email t0 w \<le> failures_for E w now email ''login'' W"
  unfolding failures_since_def failures_for_def by (simp, intro length_filter_mono) auto

lemma RecordAttempt_Inr:
  assumes "RecordAttempt E email ip kind ok w = (Inr x, w')"
  shows "config_secrets w' = config_secrets w" "aborted w' = aborted w" "tick w' = Suc (tick w)"
    "login_attempts w' = login_attempts w @ [\<lparr>a_id = seqs w ''login_attempts'', a_email = email,
       a_ip = ip, a_attemptedAt = now_of E w, a_success = ok, a_kind = kind\<rparr>]"
  using assms by (auto simp: RecordAttempt_def stmt_Inr nextval_def now_of_def)

lemma guesses_SucE:
  assumes "guesses E S email ip (Suc n) w = (Inr k, w')"
  obtains (refused) g w1 where "CheckBeforeLogin E S email ip w = (Inr g, w1)"
      "guesses E S email ip n w1 = (Inr k, w')"
  | (allowed) u j w1 w2 where "CheckBeforeLogin E S email ip w = (Inr Allow, w1)"
      "RecordAttempt E email ip ''login'' False w1 = (Inr u, w2)"
      "guesses E S email ip n w2 = (Inr j, w')" "k = j + 1"
proof -
  from assms obtain g w1 where g: "CheckBeforeLogin E S email ip w = (Inr g, w1)"
    and rest: "(if g = Allow then bindT (RecordAttempt E email ip ''login'' False) (\<lambda>_.
            bindT (guesses E S email ip n) (\<lambda>k. ret (k + 1))) else guesses E S email ip n) w1 = (Inr k, w')"
    by (auto elim!: bindT_InrE)
  show thesis
  proof (cases "g = Allow")
    case False
    with g rest refused show thesis by simp
  next
    case True
    with g rest allowed show thesis by (auto simp: ret_def elim!: bindT_InrE)
  qed
qed

lemma guesses_tick: "guesses E S email ip n w = (Inr k, w') \<Longrightarrow> tick w \<le> tick w'"
proof (induction n arbitrary: w k)
  case (Suc n)
  from Suc.prems show ?case
  proof (cases rule: guesses_SucE)
    case (refused g w1)
    then show ?thesis using Suc.IH reads_tick [OF refused(1) reads_CheckBeforeLogin] by fastforce
  next
    case (allowed u j w1 w2)
    then show ?thesis
      using Suc.IH reads_tick [OF allowed(1) reads_CheckBeforeLogin] RecordAttempt_Inr(3) [OF allowed(2)]
      by fastforce
  qed
qed (simp add: ret_def)

lemma gate_step:
  assumes "CheckBeforeLogin E S email ip w = (Inr g, w1)" "mono (clk E)" "t0 \<le> clk E (tick w)"
  shows "t0 \<le> clk E (tick w1)" "failures_since E email t0 w1 = failures_since E email t0 w"
    "LookupInt64Secret E S key d w = (Inr n, w) \<Longrightarrow> LookupInt64Secret E S key d w1 = (Inr n, w1)"
proof -
  have w1: "tick w \<le> tick w1" "w1 = w\<lparr>tick := tick w1\<rparr>"
    using readsD [OF reads_CheckBeforeLogin assms(1)] by simp_all
  show "t0 \<le> clk E (tick w1)" using assms(2,3) w1(1) by (meson monoD order_trans)
  show "failures_since E email t0 w1 = failures_since E email t0 w"
    by (subst w1(2)) (simp add: failures_since_def)
  show "LookupInt64Secret E S key d w = (Inr n, w) \<Longrightarrow> LookupInt64Secret E S key d w1 = (Inr n, w1)"
    by (rule LookupInt64Secret_at, assumption, (subst w1(2), simp)+)
qed

lemma record_step:
  assumes "RecordAttempt E email ip ''login'' False w = (Inr u, w2)" "mono (clk E)" "t0 \<le> clk E (tick w)"
  shows "t0 \<le> clk E (tick w2)" "failures_since E email t0 w2 = failures_since E email t0 w + 1"
    "LookupInt64Secret E S key d w = (Inr n, w) \<Longrightarrow> LookupInt64Secret E S key d w2 = (Inr n, w2)"
proof -
  note r = RecordAttempt_Inr [OF assms(1)]
  have "clk E (tick w) \<le> clk E (tick w2)" using assms(2) r(3) by (simp add: monoD)
  with assms(3) show "t0 \<le> clk E (tick w2)" by linarith
  show "failures_since E email t0 w2 = failures_since E email t0 w + 1"
    using r(4) assms(3) by (simp add: failures_since_def now_of_def)
  show "LookupInt64Secret E S key d w = (Inr n, w) \<Longrightarrow> LookupInt64Secret E S key d w2 = (Inr n, w2)"
    using LookupInt64Secret_at r(1,2) by blast
qed

section \<open>Properties\<close>



lemma bucket_email:
  "\<not> aborted v \<Longrightarrow> clk E (tick v) = now \<Longrightarrow>
   (if em = [] then ret False
    else bindT (RecentFailureCountForEmail E em kind W) (\<lambda>n. ret (T \<le> n))) v
   = (Inr (em \<noteq> [] \<and> T \<le> failures_for E v now em kind W), if em = [] \<or> W \<le> 0 then v else ticked v)"
  by (auto simp: bindT_def RecentFailureCountForEmail_live ret_def now_of_def)

lemma bucket_ip:
  "\<not> aborted v \<Longrightarrow> clk E (tick v) = now \<Longrightarrow>
   (if ip = [] then ret False
    else bindT (RecentFailureCountForIp E ip kind W) (\<lambda>n. ret (T \<le> n))) v
   = (Inr (ip \<noteq> [] \<and> T \<le> failures_from v now ip kind W), if ip = [] \<or> W \<le> 0 then v else ticked v)"
  by (auto simp: bindT_def RecentFailureCountForIp_live ret_def now_of_def)

lemma bucket_lock:
  "\<not> aborted v \<Longrightarrow> clk E (tick v) = now \<Longrightarrow>
   (if em = [] then ret False else IsAccountLocked E em) v
   = (Inr (em \<noteq> [] \<and> 0 < max_lock E em v \<and> now < max_lock E em v),
      if em = [] \<or> max_lock E em v \<le> 0 then v else ticked v)"
  by (auto simp: IsAccountLocked_live ret_def now_of_def)

text \<open>
  The gate's decision, exactly: the account lock comes first, then the failures recorded for
  the address, then those recorded for the client's IP, each against its limit; a request without
  address or IP skips that bucket. (The clock stands still during the check.)
\<close>

theorem CheckBeforeLogin_decides:
  assumes "\<not> aborted w" "\<And>n. clk E n = now"
    and "LookupInt64Secret E S ''auth_login_failure_window_in_micros'' 900000000 w = (Inr W, w)"
    and "LookupInt64Secret E S ''auth_login_max_failures_per_email'' 10 w = (Inr Te, w)"
    and "LookupInt64Secret E S ''auth_login_max_failures_per_ip'' 50 w = (Inr Ti, w)"
  shows "fst (CheckBeforeLogin E S em ip w) = Inr
    (if em \<noteq> [] \<and> 0 < max_lock E em w \<and> now < max_lock E em w then AccountLocked
     else if em \<noteq> [] \<and> Te \<le> failures_for E w now em ''login'' W then RateLimitedEmail
     else if ip \<noteq> [] \<and> Ti \<le> failures_from w now ip ''login'' W then RateLimitedIp
     else Allow)"
proof -
  define v where "v = (if em = [] \<or> max_lock E em w \<le> 0 then w else ticked w)"
  define u where "u = (if em = [] \<or> W \<le> 0 then v else ticked v)"
  have v: "\<not> aborted v" "config_secrets v = config_secrets w" "aborted v = aborted w" "login_attempts v = login_attempts w"
    and u: "\<not> aborted u" "login_attempts u = login_attempts w"
    using assms(1) by (simp_all add: v_def u_def)
  note look = assms(3-5) [THEN LookupInt64Secret_at, OF v(2,3)]
  have cnt: "failures_for E v now em ''login'' W = failures_for E w now em ''login'' W"
    "failures_from u now ip ''login'' W = failures_from w now ip ''login'' W"
    using v u by (simp_all add: failures_for_def failures_from_def)
  note lock = bucket_lock [OF assms(1) assms(2), of em, folded v_def]
  note byemail = bucket_email [OF v(1) assms(2), of em "''login''" W Te, folded u_def, unfolded cnt]
  note byip = bucket_ip [OF u(1) assms(2), of ip "''login''" W Ti, unfolded cnt]
  show ?thesis
  proof (cases "em \<noteq> [] \<and> 0 < max_lock E em w \<and> now < max_lock E em w")
    case True
    have "CheckBeforeLogin E S em ip w = ret AccountLocked v"
      unfolding CheckBeforeLogin_def
      by (subst bindT_Inr, rule lock, subst if_P, rule True, rule refl)
    then show ?thesis using True by (simp add: ret_apply)
  next
    case unlocked: False
    have gate: "fst (CheckBeforeLogin E S em ip w) = Inr
      (if em \<noteq> [] \<and> Te \<le> failures_for E w now em ''login'' W then RateLimitedEmail
       else if ip \<noteq> [] \<and> Ti \<le> failures_from w now ip ''login'' W then RateLimitedIp else Allow)"
      unfolding CheckBeforeLogin_def
      apply (subst bindT_Inr, rule lock)
      apply (subst if_not_P, rule unlocked)
      apply (subst bindT_Inr, rule look(1))
      apply (subst bindT_Inr, rule look(2))
      apply (subst bindT_Inr, rule look(3))
      apply (subst bindT_Inr, rule byemail)
      apply (cases "em \<noteq> [] \<and> Te \<le> failures_for E w now em ''login'' W")
       apply (simp only: if_True HOL.simp_thms ret_apply fst_conv)
      apply (subst if_not_P, assumption)
      apply (subst if_not_P, assumption)
      apply (subst bindT_Inr, rule byip)
      apply (simp only: ret_apply fst_conv)
      done
    show ?thesis
      unfolding gate using unlocked by simp
  qed
qed

definition still_env :: "int \<Rightarrow> env" where
  "still_env now = demoEnv\<lparr>clk := (\<lambda>_. now)\<rparr>"

definition failed_attempt :: "string \<Rightarrow> string \<Rightarrow> int \<Rightarrow> LoginAttemptRow" where
  "failed_attempt em ip t = \<lparr>a_id = 0, a_email = em, a_ip = ip, a_attemptedAt = t, a_success = False, a_kind = ''login''\<rparr>"

theorem CheckBeforeLogin_decides_witness:
  "fst (CheckBeforeLogin (still_env 50) None ''ann'' ''1.2.3.4''
     (emptyWorld\<lparr>login_attempts := replicate 10 (failed_attempt ''ann'' ''5.6.7.8'' 20)\<rparr>)) = Inr RateLimitedEmail"
  by (subst CheckBeforeLogin_decides [where now = 50 and W = 900000000 and Te = 10 and Ti = 50])
    (simp_all add: emptyWorld_def still_env_def LookupInt64Secret_def ret_def max_lock_def
      map_filter_def failures_for_def failed_attempt_def demoEnv_def eval_nat_numeral)

end
