(* ===== verification/Person.thy ===== *)
theory Person
  imports LoginGate
begin

text \<open>
  Accounts: \<open>components/platform/business_logic/auth/auth_helper.cpp\<close> (password hashing, token
  hashing), the mail of \<open>person_verify_mail.cpp\<close>, and \<open>person.cpp\<close>
  (\<open>PersonHelper\<close>: registration, e-mail verification, login with lockout, session tokens,
  remember-me device tokens, roles and permissions). A \<open>Blob\<close> is a \<open>string\<close> of bytes; a
  \<open>SecretsHelperPtr\<close> is \<open>None\<close> when null.
\<close>

section \<open>AuthHelper\<close>

definition kYearInMicros :: int where
  "kYearInMicros = 365 * 24 * 60 * 60 * 1000000"

text \<open>libsodium's limits for \<open>crypto_pwhash\<close> (Argon2id).\<close>

definition OPSLIMIT_INTERACTIVE :: nat where "OPSLIMIT_INTERACTIVE = 2"
definition MEMLIMIT_INTERACTIVE :: nat where "MEMLIMIT_INTERACTIVE = 67108864"
definition OPSLIMIT_MODERATE :: nat where "OPSLIMIT_MODERATE = 3"
definition MEMLIMIT_MODERATE :: nat where "MEMLIMIT_MODERATE = 268435456"
definition OPSLIMIT_MIN :: nat where "OPSLIMIT_MIN = 1"
definition OPSLIMIT_MAX :: nat where "OPSLIMIT_MAX = 4294967295"
definition MEMLIMIT_MIN :: nat where "MEMLIMIT_MIN = 8192"
definition MEMLIMIT_MAX :: nat where "MEMLIMIT_MAX = 4398046510080"

lemmas pwhash_limits = OPSLIMIT_MODERATE_def MEMLIMIT_MODERATE_def OPSLIMIT_MIN_def OPSLIMIT_MAX_def
  MEMLIMIT_MIN_def MEMLIMIT_MAX_def

text \<open>\<open>std::stoull\<close>: a minus sign is accepted and negates modulo \<open>2^64\<close>.\<close>

definition stoull :: "string \<Rightarrow> nat res" where
  "stoull s = rbind (parse_int ''stoull'' s) (\<lambda>n.
     if \<bar>n\<bar> < 2 ^ 64 then Inr (nat (n mod 2 ^ 64)) else Inl (OutOfRange ''stoull''))"

text \<open>\<open>crypto_pwhash_str\<close> draws a salt; it fails when memory runs out.\<close>

definition HashPassword :: "env \<Rightarrow> string \<Rightarrow> nat \<Rightarrow> nat \<Rightarrow> string tx" where
  "HashPassword E password opsLimit memLimitBytes w =
     (case pwhash_str E (draws w) password opsLimit memLimitBytes of
        None \<Rightarrow> (Inl (RuntimeError ''HashPassword: out of memory''), w\<lparr>draws := Suc (draws w)\<rparr>)
      | Some h \<Rightarrow> (Inr h, w\<lparr>draws := Suc (draws w)\<rparr>))"

definition argon_ops :: "string \<Rightarrow> nat" where
  "argon_ops opsStr = (case stoull opsStr of Inl _ \<Rightarrow> OPSLIMIT_MODERATE
     | Inr n \<Rightarrow> if OPSLIMIT_MIN \<le> n \<and> n \<le> OPSLIMIT_MAX then n else OPSLIMIT_MODERATE)"

text \<open>The product with 1024 is taken in \<open>size_t\<close>.\<close>

definition argon_mem :: "string \<Rightarrow> nat" where
  "argon_mem memStr = (case stoull memStr of Inl _ \<Rightarrow> MEMLIMIT_MODERATE
     | Inr memKb \<Rightarrow> let b = memKb * 1024 mod 2 ^ 64 in
         if MEMLIMIT_MIN \<le> b \<and> b \<le> MEMLIMIT_MAX then b else MEMLIMIT_MODERATE)"

definition HashPasswordWithSecrets :: "env \<Rightarrow> SecretsHelper option \<Rightarrow> string \<Rightarrow> string tx" where
  "HashPasswordWithSecrets E S password =
     bindT (case S of None \<Rightarrow> ret (OPSLIMIT_MODERATE, MEMLIMIT_MODERATE)
            | Some h \<Rightarrow>
                bindT (LookupSecret E h ''auth_argon2_ops_limit'') (\<lambda>opsStr.
                bindT (LookupSecret E h ''auth_argon2_mem_limit_kb'') (\<lambda>memStr.
                  ret (if opsStr = [] then OPSLIMIT_MODERATE else argon_ops opsStr,
                       if memStr = [] then MEMLIMIT_MODERATE else argon_mem memStr))))
       (\<lambda>(opsLimit, memLimitBytes). HashPassword E password opsLimit memLimitBytes)"

definition VerifyPasswordHash :: "env \<Rightarrow> string \<Rightarrow> string \<Rightarrow> bool" where
  "VerifyPasswordHash E password hash = pwhash_verify E hash password"

definition HashBinary :: "env \<Rightarrow> string \<Rightarrow> string" where
  "HashBinary E data = concat (map (\<lambda>c. [hex_digit_lower (of_char c div 16), hex_digit_lower (of_char c mod 16)])
     (generichash E data))"

definition Base64Decode :: "env \<Rightarrow> string \<Rightarrow> string res" where
  "Base64Decode E s = (case base64_decode E s of
     None \<Rightarrow> Inl (InvalidArgument ''Base64Decode: invalid base64 input'') | Some b \<Rightarrow> Inr b)"

section \<open>The activation mail\<close>

record TenantBranding =
  studioName :: string
  senderName :: string
  senderAddress :: string
  websiteUrl :: string

definition lines_html :: "string list \<Rightarrow> string" where
  "lines_html ls = join [CHR 0x0A] ls"

definition kMailTemplatePrefix :: string where
  "kMailTemplatePrefix = lines_html [
     ''<!DOCTYPE html>'',
     ''<html lang=\"en\">'',
     ''<head>'',
     ''    <meta charset=\"UTF-8\">'',
     ''    <meta name=\"viewport\" content=\"width=device-width, initial-scale=1.0\">'',
     ''    <title>Email Verification</title>'',
     ''</head>'',
     ''<body>'',
     ''    <h1>{studio_name} Account Activation</h1>'',
     ''    <p>Greetings {first_name},</p>'',
     ''    <p/>'',
     ''    <p><a href=\"{website_address}{activation_link}?email={email_from}&secret='']"

definition kMailTemplateSuffix :: string where
  "kMailTemplateSuffix = lines_html [
     ''\">Click here to activate your account.</a></p>'', ''</body>'', ''</html>'', '''']"

definition BuildKeyValueTable ::
  "string \<Rightarrow> string \<Rightarrow> string \<Rightarrow> TenantBranding \<Rightarrow> string \<Rightarrow> string \<Rightarrow> KeyValueTable" where
  "BuildKeyValueTable emailFrom firstNameTo lastNameTo branding apiLinkPrefix activationLink =
     MakeKeyValueTable
       [(''email_from'', URLEncodeQueryValue emailFrom),
        (''first_name'', firstNameTo),
        (''last_name'', lastNameTo),
        (''studio_name'', studioName branding),
        (''website_address'', websiteUrl branding),
        (''api_link_prefix'', apiLinkPrefix),
        (''activation_link'', activationLink)]"

definition GenerateVerifyMailBodyPrefix ::
  "string \<Rightarrow> string \<Rightarrow> string \<Rightarrow> TenantBranding \<Rightarrow> string \<Rightarrow> string \<Rightarrow> string" where
  "GenerateVerifyMailBodyPrefix emailFrom firstNameTo lastNameTo branding apiLinkPrefix activationLink =
     NormalizeCrLf (FormatString kMailTemplatePrefix
       (BuildKeyValueTable emailFrom firstNameTo lastNameTo branding apiLinkPrefix activationLink))"

definition GenerateVerifyMailBodySuffix ::
  "string \<Rightarrow> string \<Rightarrow> string \<Rightarrow> TenantBranding \<Rightarrow> string \<Rightarrow> string \<Rightarrow> string" where
  "GenerateVerifyMailBodySuffix emailFrom firstNameTo lastNameTo branding apiLinkPrefix activationLink =
     NormalizeCrLf (FormatString kMailTemplateSuffix
       (BuildKeyValueTable emailFrom firstNameTo lastNameTo branding apiLinkPrefix activationLink))"

definition GenerateVerifyMailBody ::
  "string \<Rightarrow> string \<Rightarrow> string \<Rightarrow> string \<Rightarrow> TenantBranding \<Rightarrow> string \<Rightarrow> string \<Rightarrow> string" where
  "GenerateVerifyMailBody emailFrom encodedSecret firstNameTo lastNameTo branding apiLinkPrefix activationLink =
     (let t = AddToKeyValueTable
                (BuildKeyValueTable emailFrom firstNameTo lastNameTo branding apiLinkPrefix activationLink)
                ''encoded_secret'' encodedSecret
      in NormalizeCrLf (FormatString kMailTemplatePrefix t) @ encodedSecret @
         NormalizeCrLf (FormatString kMailTemplateSuffix t))"

section \<open>Registration and e-mail verification\<close>

record PersonInfo =
  email :: string
  firstName :: string
  lastName :: string

definition IsVerified :: "PersonRow option \<Rightarrow> bool" where
  "IsVerified p = (case p of None \<Rightarrow> False | Some r \<Rightarrow> p_emailVerifiedAt r \<noteq> None)"

definition VerifyMail :: "env \<Rightarrow> SecretsHelper \<Rightarrow> PersonInfo \<Rightarrow> string \<Rightarrow> MailMessage tx" where
  "VerifyMail E h personInfo tokenUrlSafeEncoded =
     bindT (LookupSecret E h ''website_address_login'') (\<lambda>spaBaseUrl.
     bindT (LookupSecret E h ''api_link_prefix'') (\<lambda>apiLinkPrefix.
     bindT (LookupSecret E h ''activation_link'') (\<lambda>activationLink.
     bindT (LookupSecret E h ''mail_sender_name'') (\<lambda>sname.
     bindT (LookupSecret E h ''mail_sender_address'') (\<lambda>saddr.
     let branding = \<lparr>studioName = sname, senderName = sname, senderAddress = saddr,
                     websiteUrl = spaBaseUrl\<rparr>;
         mailBody = GenerateVerifyMailBody (email personInfo) tokenUrlSafeEncoded
           (firstName personInfo) (lastName personInfo) branding apiLinkPrefix activationLink
     in bindT (LookupSecret E h ''activation_email_subject'') (\<lambda>subject.
        ret \<lparr>m_fromName = sname, m_fromAddress = saddr,
             m_toName = firstName personInfo @ '' '' @ lastName personInfo,
             m_toAddress = email personInfo, m_subject = subject, m_bodyHtml = mailBody\<rparr>))))))"

definition PreliminaryRegisterPerson ::
  "env \<Rightarrow> SecretsHelper option \<Rightarrow> PersonInfo \<Rightarrow> string \<Rightarrow> bool \<Rightarrow> unit tx" where
  "PreliminaryRegisterPerson E S personInfo password sendEmail =
     bindT (HashPasswordWithSecrets E S password) (\<lambda>hash.
     bindT (AddPerson E (email personInfo) (firstName personInfo) (lastName personInfo) hash) (\<lambda>pid.
     bindT (RandomBytes E 64) (\<lambda>tokenBytes.
     let tokenUrlSafeEncoded = url_encode E (base64_encode E tokenBytes) in
     bindT (AddEmailVerificationById E S pid (HashBinary E tokenBytes)) (\<lambda>_.
       if sendEmail
       then (case S of None \<Rightarrow> throw (Undefined ''null SecretsHelper'')
             | Some h \<Rightarrow> bindT (VerifyMail E h personInfo tokenUrlSafeEncoded) (SendMail E))
       else ret ()))))"

definition VerifyPersonEmail :: "env \<Rightarrow> SecretsHelper option \<Rightarrow> string \<Rightarrow> string \<Rightarrow> unit tx" where
  "VerifyPersonEmail E S emailEncoded encodedSecret =
     bindT (lift (Base64Decode E (url_decode E encodedSecret))) (\<lambda>secretBytes.
     let em = url_decode E emailEncoded in
     bindT (DoEmailVerification E S em (HashBinary E secretBytes) ConstantTimeEqual) (\<lambda>ok.
       if \<not> ok then throw (RuntimeError ''PersonHelper::VerifyPersonEmail - Email verification failed.'')
       else VerifyPersonEmailRow E em))"

definition HashForPerson :: "env \<Rightarrow> SecretsHelper option \<Rightarrow> string \<Rightarrow> string tx" where
  "HashForPerson E S password =
     (case S of None \<Rightarrow> HashPassword E password OPSLIMIT_INTERACTIVE MEMLIMIT_INTERACTIVE
      | Some _ \<Rightarrow> HashPasswordWithSecrets E S password)"

definition CreateFullyValidatedUser ::
  "env \<Rightarrow> PersonInfo \<Rightarrow> string \<Rightarrow> SecretsHelper option \<Rightarrow> unit tx" where
  "CreateFullyValidatedUser E personInfo password S =
     bindT (HashForPerson E S password) (\<lambda>hash.
     bindT (AddPerson E (email personInfo) (firstName personInfo) (lastName personInfo) hash) (\<lambda>_.
       VerifyPersonEmailRow E (email personInfo)))"

definition IsPerson :: "env \<Rightarrow> string \<Rightarrow> bool tx" where
  "IsPerson E em = bindT (LookupPersonByEmail E em) (\<lambda>p. ret (IsVerified p))"

definition info_of :: "PersonRow \<Rightarrow> PersonInfo" where
  "info_of r = \<lparr>email = p_email r, firstName = p_firstName r, lastName = p_lastName r\<rparr>"

definition LookupPersonInfoById :: "int \<Rightarrow> PersonInfo option tx" where
  "LookupPersonInfoById pid = bindT (GetPersonById pid) (\<lambda>p.
     ret (if IsVerified p then map_option info_of p else None))"

definition LookupPersonInfoByEmail :: "env \<Rightarrow> string \<Rightarrow> (PersonInfo \<times> int) option tx" where
  "LookupPersonInfoByEmail E em = bindT (LookupPersonByEmail E em) (\<lambda>p.
     ret (if IsVerified p then map_option (\<lambda>r. (info_of r, p_id r)) p else None))"

section \<open>Login and lockout\<close>

definition VerifyPersonPassword :: "env \<Rightarrow> string \<Rightarrow> string \<Rightarrow> bool tx" where
  "VerifyPersonPassword E em password = bindT (LookupPersonByEmail E em) (\<lambda>p.
     ret (case p of None \<Rightarrow> False
          | Some r \<Rightarrow> if \<not> IsVerified p then False else VerifyPasswordHash E password (p_passwordHash r)))"

record LoginAttemptResult =
  success :: bool
  justLocked :: bool
  personId :: int
  failedLoginAttempts :: int
  lockedUntil :: int

definition no_login :: LoginAttemptResult where
  "no_login = \<lparr>success = False, justLocked = False, personId = -1, failedLoginAttempts = 0, lockedUntil = 0\<rparr>"

text \<open>The two UPDATE statements of \<open>LoginPerson\<close>, with the row they return.\<close>

definition ResetFailures :: "int \<Rightarrow> (int \<times> int) tx" where
  "ResetFailures pid = stmt (\<lambda>w. (Inr (0, 0), w\<lparr>people :=
     map (\<lambda>r. if p_id r = pid then r\<lparr>p_failedLoginAttempts := 0, p_lockedUntil := None\<rparr> else r) (people w)\<rparr>))"

definition fail_row :: "int \<Rightarrow> int \<Rightarrow> int \<Rightarrow> PersonRow \<Rightarrow> PersonRow" where
  "fail_row now threshold duration r =
     r\<lparr>p_failedLoginAttempts := p_failedLoginAttempts r + 1,
       p_lockedUntil := if threshold \<le> p_failedLoginAttempts r + 1 then Some (now + duration)
                        else p_lockedUntil r\<rparr>"

definition CountFailure :: "env \<Rightarrow> int \<Rightarrow> int \<Rightarrow> int \<Rightarrow> (int \<times> int) tx" where
  "CountFailure E pid threshold duration = stmt (\<lambda>w.
     let now = now_of E w in
     case List.find (\<lambda>r. p_id r = pid) (people w) of
       None \<Rightarrow> (Inl (RuntimeError ''no row''), w)
     | Some r \<Rightarrow>
         if \<not> in_i64 (p_failedLoginAttempts r + 1) \<or>
            (threshold \<le> p_failedLoginAttempts r + 1 \<and> \<not> in_i64 (now + duration))
         then (Inl (DbFailure ''bigint out of range''), w)
         else let r' = fail_row now threshold duration r in
           (Inr (p_failedLoginAttempts r', case p_lockedUntil r' of None \<Rightarrow> 0 | Some l \<Rightarrow> l),
            ticked (w\<lparr>people := map (\<lambda>r. if p_id r = pid then fail_row now threshold duration r else r)
              (people w)\<rparr>)))"

definition LoginPerson :: "env \<Rightarrow> SecretsHelper option \<Rightarrow> string \<Rightarrow> string \<Rightarrow> LoginAttemptResult tx" where
  "LoginPerson E S em password = bindT (LookupPersonByEmail E em) (\<lambda>person.
     case person of None \<Rightarrow> ret no_login
     | Some r \<Rightarrow>
       if \<not> IsVerified person then ret no_login
       else let credentialsValid = VerifyPasswordHash E password (p_passwordHash r) in
         bindT (LookupInt64Secret E S ''auth_account_lockout_after_failures'' 10) (\<lambda>threshold.
         bindT (LookupInt64Secret E S ''auth_account_lockout_duration_in_micros'' 1800000000) (\<lambda>duration.
           if credentialsValid
           then bindT (ResetFailures (p_id r)) (\<lambda>(n, l).
             ret \<lparr>success = True, justLocked = False, personId = p_id r,
                  failedLoginAttempts = n, lockedUntil = l\<rparr>)
           else bindT (CountFailure E (p_id r) threshold duration) (\<lambda>(newAttempts, newLockedUntil).
             ret \<lparr>success = False, justLocked = (newAttempts = threshold \<and> 0 < newLockedUntil),
                  personId = -1, failedLoginAttempts = newAttempts, lockedUntil = newLockedUntil\<rparr>))))"

section \<open>Session tokens\<close>

definition CreateSessionToken :: "env \<Rightarrow> SecretsHelper option \<Rightarrow> string \<Rightarrow> string option tx" where
  "CreateSessionToken E S em =
     (case S of None \<Rightarrow> ret None
      | Some h \<Rightarrow> bindT (LookupSecret E h ''auth_session_max_duration_in_micros'') (\<lambda>val.
          if val = [] then ret None
          else bindT (lift (stoll val)) (\<lambda>maxDuration.
               bindT (LookupPersonByEmail E em) (\<lambda>person.
                 case person of None \<Rightarrow> ret None
                 | Some r \<Rightarrow>
                     if \<not> IsVerified person then ret None
                     else bindT (AddSession E (p_id r) maxDuration) (\<lambda>sid.
                          bindT (LookupSessionById sid) (\<lambda>row. ret (Some (s_uuid row))))))))"

definition SessionUsed :: "env \<Rightarrow> SecretsHelper option \<Rightarrow> string \<Rightarrow> unit tx" where
  "SessionUsed E S sessionToken =
     bindT (LookupSessionByUuid E sessionToken) (\<lambda>row.
       case S of None \<Rightarrow> ret ()
       | Some h \<Rightarrow> bindT (LookupSecret E h ''auth_session_last_seen_update_duration_in_micros'') (\<lambda>windowStr.
           if windowStr = [] then ret ()
           else bindT (lift (stoll windowStr)) (\<lambda>windowUs.
                bindT (now_us E) (\<lambda>nowUs.
                bindT (lift (cpp_int64 (s_lastSeenAt row + windowUs))) (\<lambda>limit.
                  if nowUs \<le> limit then ret () else QueueJob (UpdateLastSeenJob (s_id row)))))))"

definition LookupPersonIdBySessionToken :: "env \<Rightarrow> string \<Rightarrow> int option tx" where
  "LookupPersonIdBySessionToken E sessionToken =
     bindT (LookupSessionByUuid E sessionToken) (\<lambda>row.
     bindT (now_us E) (\<lambda>nowUs.
       if s_revoked row then ret None
       else if s_expiresAt row < nowUs then ret None
       else ret (Some (s_personId row))))"

section \<open>Device tokens\<close>

text \<open>
  The new secret's hash and its base64 form, and the expiry when the secrets say how long a device
  token lasts (the out-parameters are set even when the function returns false).
\<close>

definition DeviceTokenHelper ::
  "env \<Rightarrow> SecretsHelper option \<Rightarrow> (string \<times> string \<times> int option) tx" where
  "DeviceTokenHelper E S =
     bindT (RandomBytes E 64) (\<lambda>secretBytes.
     let h = HashBinary E secretBytes; b64 = base64_encode E secretBytes in
     case S of None \<Rightarrow> ret (h, b64, None)
     | Some sh \<Rightarrow> bindT (LookupSecret E sh ''auth_device_token_max_duration_in_micros'') (\<lambda>val.
         if val = [] then ret (h, b64, None)
         else bindT (lift (stoll val)) (\<lambda>maxDurationMicros.
              bindT (now_us E) (\<lambda>nowUs.
              bindT (lift (cpp_int64 (nowUs + maxDurationMicros))) (\<lambda>expiresAt.
                ret (h, b64, Some expiresAt))))))"

text \<open>The token's id and secret; the out-parameters are read only when the call succeeds.\<close>

definition CreateDeviceToken :: "env \<Rightarrow> SecretsHelper option \<Rightarrow> string \<Rightarrow> (string \<times> string) option tx" where
  "CreateDeviceToken E S em = bindT (LookupPersonByEmail E em) (\<lambda>person.
     case person of None \<Rightarrow> ret None
     | Some r \<Rightarrow>
       if \<not> IsVerified person then ret None
       else catchT
         (bindT (DeviceTokenHelper E S) (\<lambda>(hashHex, b64, expires).
            case expires of None \<Rightarrow> ret None
            | Some expiresUs \<Rightarrow>
                bindT (AddDeviceToken E (p_id r) hashHex expiresUs) (\<lambda>did.
                bindT (LookupDeviceTokenById did) (\<lambda>row. ret (Some (d_uuid row, b64))))))
         (\<lambda>_. ret None))"

definition TryLoginWithDeviceToken ::
  "env \<Rightarrow> SecretsHelper option \<Rightarrow> string \<Rightarrow> string \<Rightarrow> (string \<times> string) option tx" where
  "TryLoginWithDeviceToken E S tokenId base64EncodedSecret = catchT
     (bindT (lift (Base64Decode E base64EncodedSecret)) (\<lambda>secretBytes.
      let oldSecretHash = HashBinary E secretBytes in
      bindT (DeviceTokenHelper E S) (\<lambda>(newSecretHash, b64, expires).
        case expires of None \<Rightarrow> ret None
        | Some newExpiresUs \<Rightarrow>
            bindT (ConsumeAndRotate E oldSecretHash tokenId newSecretHash newExpiresUs) (\<lambda>res.
              ret (map_option (\<lambda>(_, outTokenId). (outTokenId, b64)) res)))))
     (\<lambda>_. ret None)"

section \<open>Account maintenance\<close>

definition changes_of :: "PersonInfo \<Rightarrow> KeyValueTable" where
  "changes_of pi =
     (let c1 = (if email pi = [] then [] else kv_assign ''email'' (email pi) []);
          c2 = (if firstName pi = [] then c1 else kv_assign ''first_name'' (firstName pi) c1)
      in if lastName pi = [] then c2 else kv_assign ''last_name'' (lastName pi) c2)"

definition UpdateInfo :: "env \<Rightarrow> string \<Rightarrow> PersonInfo \<Rightarrow> bool tx" where
  "UpdateInfo E em personInfo = bindT (LookupPersonByEmail E em) (\<lambda>person.
     case person of None \<Rightarrow> ret False
     | Some r \<Rightarrow>
         if \<not> IsVerified person then ret False
         else if changes_of personInfo = [] then ret False
         else bindT (UpdatePerson E (p_id r) (changes_of personInfo)) (\<lambda>_. ret True))"

definition UpdatePassword :: "env \<Rightarrow> string \<Rightarrow> string \<Rightarrow> SecretsHelper option \<Rightarrow> bool tx" where
  "UpdatePassword E em password S = bindT (LookupPersonByEmail E em) (\<lambda>person.
     case person of None \<Rightarrow> ret False
     | Some r \<Rightarrow>
         if \<not> IsVerified person then ret False
         else bindT (HashForPerson E S password) (\<lambda>hash.
              bindT (UpdatePasswordRow E (p_id r) hash) (\<lambda>_. ret True)))"

definition DeletePerson :: "env \<Rightarrow> string \<Rightarrow> unit tx" where
  "DeletePerson E em = bindT (LookupPersonByEmail E em) (\<lambda>person.
     case person of None \<Rightarrow> ret ()
     | Some r \<Rightarrow>
         if \<not> IsVerified person then ret ()
         else catchT (DeletePersonRow (p_id r)) (\<lambda>_. ret ()))"

definition LogoutPerson :: "int \<Rightarrow> unit tx" where
  "LogoutPerson pid = bindT (RemoveDeviceTokensForUser pid) (\<lambda>_. RemoveSessionsForUser pid)"

section \<open>Roles and permissions\<close>

text \<open>\<open>roles.cpp\<close>, \<open>permissions.cpp\<close>, \<open>role_assignments.cpp\<close>, \<open>role_permissions.cpp\<close>: the reads.\<close>

definition GetRoleName :: "int \<Rightarrow> string tx" where
  "GetRoleName rid = bindT (query (\<lambda>w. map_of (roles w) rid)) (\<lambda>r.
     case r of None \<Rightarrow> throw (RuntimeError ''Roles::GetRole(id) - not found'') | Some n \<Rightarrow> ret n)"

definition GetRoleId :: "string \<Rightarrow> int tx" where
  "GetRoleId name = bindT (query (\<lambda>w. List.find (\<lambda>r. snd r = name) (roles w))) (\<lambda>r.
     case r of None \<Rightarrow> throw (RuntimeError ''Roles::GetRole(name) - not found'') | Some p \<Rightarrow> ret (fst p))"

definition GetPermissionName :: "int \<Rightarrow> string tx" where
  "GetPermissionName i = bindT (query (\<lambda>w. map_of (permissions w) i)) (\<lambda>r.
     case r of None \<Rightarrow> throw (RuntimeError ''Permissions::GetPermission(id) - not found'') | Some n \<Rightarrow> ret n)"

definition GetPermissionId :: "string \<Rightarrow> int tx" where
  "GetPermissionId name = bindT (query (\<lambda>w. List.find (\<lambda>r. snd r = name) (permissions w))) (\<lambda>r.
     case r of None \<Rightarrow> throw (RuntimeError ''Permissions::GetPermission(name) - not found'')
     | Some p \<Rightarrow> ret (fst p))"

definition GetRoleAssignmentsForPerson :: "int \<Rightarrow> int list tx" where
  "GetRoleAssignmentsForPerson pid =
     query (\<lambda>w. map snd (filter (\<lambda>a. fst a = pid) (role_assignments w)))"

definition GetRolePermissionsForRole :: "int \<Rightarrow> int list tx" where
  "GetRolePermissionsForRole rid =
     query (\<lambda>w. map snd (filter (\<lambda>a. fst a = rid) (role_permissions w)))"

definition GetRolesForUser :: "int \<Rightarrow> StringArray tx" where
  "GetRolesForUser pid = bindT (GetPersonById pid) (\<lambda>person.
     if \<not> IsVerified person then throw (RuntimeError ''PersonHelper::GetRolesForUser - person not found'')
     else bindT (GetRoleAssignmentsForPerson pid) (mapT GetRoleName))"

text \<open>The set is unordered in the code; here the names come in the order of first insertion.\<close>

definition GetPermissionsForUser :: "int \<Rightarrow> StringArray tx" where
  "GetPermissionsForUser pid = bindT (GetPersonById pid) (\<lambda>person.
     if \<not> IsVerified person then throw (RuntimeError ''PersonHelper::GetPermissionsForUser - person not found'')
     else bindT (GetRoleAssignmentsForPerson pid) (\<lambda>rids.
          bindT (mapT (\<lambda>rid. bindT (GetRolePermissionsForRole rid) (mapT GetPermissionName)) rids) (\<lambda>names.
            ret (remdups (concat names)))))"

section \<open>Failed logins\<close>

definition good_login :: "env \<Rightarrow> string \<Rightarrow> string \<Rightarrow> world \<Rightarrow> PersonRow option" where
  "good_login E em password w =
     (case List.find (person_key E em) (people w) of
        Some r \<Rightarrow> if p_emailVerifiedAt r \<noteq> None \<and> pwhash_verify E (p_passwordHash r) password
                  then Some r else None
      | None \<Rightarrow> None)"

text \<open>The two thresholds the lockout is configured with, as they read now.\<close>

definition lock_policy :: "env \<Rightarrow> SecretsHelper option \<Rightarrow> int \<Rightarrow> int \<Rightarrow> world \<Rightarrow> bool" where
  "lock_policy E S T D w \<longleftrightarrow>
     LookupInt64Secret E S ''auth_account_lockout_after_failures'' 10 w = (Inr T, w) \<and>
     LookupInt64Secret E S ''auth_account_lockout_duration_in_micros'' 1800000000 w = (Inr D, w)"

lemma lock_policy_cong:
  "lock_policy E S T D w \<Longrightarrow> config_secrets v = config_secrets w \<Longrightarrow> aborted v = aborted w \<Longrightarrow>
   lock_policy E S T D v"
  unfolding lock_policy_def using LookupInt64Secret_at by blast

lemma CountFailure_Inr:
  assumes "CountFailure E pid T D w = (Inr (n, l), w')"
  obtains r where "List.find (\<lambda>r. p_id r = pid) (people w) = Some r" "n = p_failedLoginAttempts r + 1"
    "w' = ticked (w\<lparr>people := map (\<lambda>r. if p_id r = pid then fail_row (now_of E w) T D r else r) (people w)\<rparr>)"
  using assms
  by (auto simp: CountFailure_def stmt_Inr Let_def fail_row_def split: option.splits if_splits)

lemma person_key_fail_row: "person_key E em (fail_row now T D r) = person_key E em r"
  by (simp add: person_key_def fail_row_def)

text \<open>One failed login on a verified account: its row counts the failure, and nothing else moves.\<close>

lemma LoginPerson_failed:
  assumes "LoginPerson E S em password w = (Inr res, w')" "lock_policy E S T D w"
    and "List.find (person_key E em) (people w) = Some r" "p_emailVerifiedAt r \<noteq> None"
    and "\<not> pwhash_verify E (p_passwordHash r) password" "distinct (map p_id (people w))"
  shows "List.find (person_key E em) (people w') = Some (fail_row (now_of E w) T D r)"
    and "w' = ticked (w\<lparr>people := people w'\<rparr>)" "map p_id (people w') = map p_id (people w)"
    and "failedLoginAttempts res = p_failedLoginAttempts r + 1" "\<not> success res"
    and "justLocked res \<Longrightarrow> p_failedLoginAttempts r + 1 = T"
proof -
  have pol: "LookupInt64Secret E S ''auth_account_lockout_after_failures'' 10 w = (Inr T, w)"
    "LookupInt64Secret E S ''auth_account_lockout_duration_in_micros'' 1800000000 w = (Inr D, w)"
    using assms(2) by (simp_all add: lock_policy_def)
  obtain n l where c: "CountFailure E (p_id r) T D w = (Inr (n, l), w')"
    and res: "failedLoginAttempts res = n" "\<not> success res" "justLocked res \<longleftrightarrow> n = T \<and> 0 < l"
    using assms(1,3-5) unfolding LoginPerson_def
    by (auto simp: run_simps pol IsVerified_def VerifyPasswordHash_def Let_def)
  obtain r1 where r1: "List.find (\<lambda>q. p_id q = p_id r) (people w) = Some r1" "n = p_failedLoginAttempts r1 + 1"
    and w': "w' = ticked (w\<lparr>people := map (\<lambda>q. if p_id q = p_id r then fail_row (now_of E w) T D q else q) (people w)\<rparr>)"
    using c by (rule CountFailure_Inr)
  have "r1 = r"
    using find_SomeD [OF assms(3)] find_SomeD [OF r1(1)] assms(6) by (auto simp: distinct_map inj_on_def)
  then show "failedLoginAttempts res = p_failedLoginAttempts r + 1" "\<not> success res"
    "justLocked res \<Longrightarrow> p_failedLoginAttempts r + 1 = T"
    using res r1 by auto
  show "w' = ticked (w\<lparr>people := people w'\<rparr>)" by (simp add: w')
  show "map p_id (people w') = map p_id (people w)"
    by (simp add: w' fail_row_def)
  show "List.find (person_key E em) (people w') = Some (fail_row (now_of E w) T D r)"
    by (simp add: w' find_map_inv person_key_fail_row assms(3))
qed

lemma LoginPerson_run:
  assumes "mapT (LoginPerson E S em) pws w = (Inr rs, w')" "lock_policy E S T D w"
    and "List.find (person_key E em) (people w) = Some r" "p_emailVerifiedAt r \<noteq> None"
    and "\<forall>pw \<in> set pws. \<not> pwhash_verify E (p_passwordHash r) pw" "distinct (map p_id (people w))"
  shows "\<exists>r'. List.find (person_key E em) (people w') = Some r' \<and>
      p_failedLoginAttempts r' = p_failedLoginAttempts r + int (length pws) \<and>
      (pws \<noteq> [] \<longrightarrow> T \<le> p_failedLoginAttempts r' \<longrightarrow> p_lockedUntil r' = Some (clk E (tick w' - 1) + D)) \<and>
      tick w' = tick w + length pws \<and> aborted w' = aborted w \<and> list_all (\<lambda>res. \<not> success res) rs \<and>
      length (filter justLocked rs) \<le> (if p_failedLoginAttempts r < T then 1 else 0)"
  using assms
proof (induction pws arbitrary: w r rs)
  case Nil
  then show ?case by (simp add: run_simps)
next
  case (Cons pw pws)
  obtain res rs' w1 where 1: "LoginPerson E S em pw w = (Inr res, w1)"
    and 2: "mapT (LoginPerson E S em) pws w1 = (Inr rs', w')" and rs: "rs = res # rs'"
    using Cons.prems(1) by (auto simp: run_simps)
  have wrong: "\<not> pwhash_verify E (p_passwordHash r) pw" using Cons.prems(5) by simp
  note st = LoginPerson_failed [OF 1 Cons.prems(2-4) wrong Cons.prems(6)]
  have same: "config_secrets w1 = config_secrets w" "aborted w1 = aborted w" "tick w1 = Suc (tick w)"
    by (subst st(2), simp)+
  let ?r1 = "fail_row (now_of E w) T D r"
  have r1: "p_emailVerifiedAt ?r1 \<noteq> None" "p_passwordHash ?r1 = p_passwordHash r"
    "p_failedLoginAttempts ?r1 = p_failedLoginAttempts r + 1"
    using Cons.prems(4) by (simp_all add: fail_row_def)
  obtain r' where r': "List.find (person_key E em) (people w') = Some r'"
    "p_failedLoginAttempts r' = p_failedLoginAttempts ?r1 + int (length pws)"
    "pws \<noteq> [] \<Longrightarrow> T \<le> p_failedLoginAttempts r' \<Longrightarrow> p_lockedUntil r' = Some (clk E (tick w' - 1) + D)"
    "tick w' = tick w1 + length pws" "aborted w' = aborted w1" "list_all (\<lambda>res. \<not> success res) rs'"
    "length (filter justLocked rs') \<le> (if p_failedLoginAttempts ?r1 < T then 1 else 0)"
    using Cons.IH [OF 2 lock_policy_cong [OF Cons.prems(2) same(1,2)] st(1) r1(1)] r1(2) Cons.prems(5,6) st(3)
    by auto
  have lock: "p_lockedUntil r' = Some (clk E (tick w' - 1) + D)" if "T \<le> p_failedLoginAttempts r'"
  proof (cases "pws = []")
    case True
    then have "w' = w1" using 2 by (simp add: run_simps)
    then have "r' = ?r1" using r'(1) st(1) by simp
    with that True r'(2) same(3) \<open>w' = w1\<close> show ?thesis by (simp add: fail_row_def now_of_def)
  qed (use r'(3) that in blast)
  have flags: "length (filter justLocked rs) \<le> (if p_failedLoginAttempts r < T then 1 else 0)"
    using r'(7) r1(3) st(6) rs by (cases "justLocked res") (auto split: if_splits)
  show ?case
    using r'(1,2,4-6) r1(3) same lock flags rs st(5) by (intro exI [of _ r']) simp
qed

section \<open>Properties\<close>

text \<open>
  A login succeeds exactly when the address belongs to a verified account whose stored hash
  accepts the password; the result then names that account, and its failure count and lock are
  cleared in the table.
\<close>

theorem LoginPerson_success_iff:
  assumes "LoginPerson E S em password w = (Inr res, w')"
  shows "success res = (good_login E em password w \<noteq> None) \<and>
    (\<forall>r. good_login E em password w = Some r \<longrightarrow> personId res = p_id r \<and>
       (\<forall>q \<in> set (people w'). p_id q = p_id r \<longrightarrow> p_failedLoginAttempts q = 0 \<and> p_lockedUntil q = None))"
proof -
  have "w1 = w" if "LookupInt64Secret E S k d w = (Inr n, w1)" for k d n w1
    using LookupInt64Secret_state that by blast
  then show ?thesis
    using assms unfolding LoginPerson_def good_login_def
    by (cases "List.find (person_key E em) (people w)")
      (auto simp: run_simps IsVerified_def VerifyPasswordHash_def Let_def no_login_def ResetFailures_def
        split: if_splits dest!: LookupInt64Secret_state)
qed

theorem LoginPerson_success_iff_witness:
  "\<exists>res w'. LoginPerson demoEnv None ''ann@example.org'' ''correct'' demo_world = (Inr res, w') \<and> success res"
proof -
  obtain res w' where r: "LoginPerson demoEnv None ''ann@example.org'' ''correct'' demo_world = (Inr res, w')"
    by (simp add: LoginPerson_def LookupPersonByEmail_def bindT_def query_def stmt_def demo_world_def
        emptyWorld_def demo_person_def demoEnv_def person_key_def IsVerified_def LookupInt64Secret_def
        ret_def VerifyPasswordHash_def ResetFailures_def)
  have "good_login demoEnv ''ann@example.org'' ''correct'' demo_world \<noteq> None"
    by (simp add: good_login_def demo_world_def demo_person_def demoEnv_def person_key_def)
  with LoginPerson_success_iff [OF r] r show ?thesis by blast
qed



text \<open>
  A session token identifies its person exactly while its row is neither revoked nor past its
  expiry: in every other case the lookup yields no one (and a token with no row is an error).
\<close>

theorem session_token_valid_iff:
  assumes "\<not> aborted w" "uuid_in E token = Some u"
  shows "(\<exists>w'. LookupPersonIdBySessionToken E token w = (Inr (Some pid), w')) \<longleftrightarrow>
    (\<exists>r. List.find (\<lambda>r. s_uuid r = u) (sessions w) = Some r \<and> \<not> s_revoked r \<and>
         now_of E w \<le> s_expiresAt r \<and> pid = s_personId r)"
  using assms
  by (auto simp: LookupPersonIdBySessionToken_def LookupSessionByUuid_def run_simps not_less)

definition demo_session :: SessionRow where
  "demo_session = \<lparr>s_id = 1, s_uuid = ''u1'', s_personId = 7, s_createdAt = 0, s_lastSeenAt = 0,
     s_expiresAt = 0, s_revoked = False\<rparr>"

theorem session_token_valid_iff_witness:
  "(\<exists>w'. LookupPersonIdBySessionToken demoEnv ''u1'' (emptyWorld\<lparr>sessions := [demo_session]\<rparr>) = (Inr (Some 7), w')) \<and>
   \<not> (\<exists>w'. LookupPersonIdBySessionToken demoEnv ''u1'' (emptyWorld\<lparr>sessions := [demo_session], tick := 1\<rparr>) = (Inr (Some 7), w'))"
  using session_token_valid_iff [of "emptyWorld\<lparr>sessions := [demo_session]\<rparr>" demoEnv "''u1''" "''u1''" 7]
    session_token_valid_iff [of "emptyWorld\<lparr>sessions := [demo_session], tick := 1\<rparr>" demoEnv "''u1''" "''u1''" 7]
  by (auto simp: emptyWorld_def demoEnv_def now_of_def demo_session_def)

lemma AddSession_Inr:
  assumes "AddSession E pid d w = (Inr sid, w')"
  shows "sid = seqs w ''sessions''" "\<forall>q \<in> set (sessions w). s_uuid q \<noteq> new_uuid E (uuids w)"
    "sessions w' = sessions w @
       [\<lparr>s_id = sid, s_uuid = new_uuid E (uuids w), s_personId = pid, s_createdAt = now_of E w,
         s_lastSeenAt = now_of E w, s_expiresAt = tx_start w + d, s_revoked = False\<rparr>]"
  using assms
  by (auto simp: AddSession_def run_simps nextval_def Let_def list_ex_iff range_res split: sum.splits if_splits)

lemma AddDeviceToken_Inr:
  assumes "AddDeviceToken E pid h d w = (Inr did, w')"
  shows "did = seqs w ''device_tokens''"
    "device_tokens w' = device_tokens w @
       [\<lparr>d_id = did, d_uuid = new_uuid E (uuids w), d_personId = pid, d_secretHash = h, d_createdAt = now_of E w,
         d_lastUsedAt = None, d_expiresAt = tx_start w + d, d_revoked = False\<rparr>]"
  using assms
  by (auto simp: AddDeviceToken_def run_simps nextval_def Let_def list_ex_iff range_res split: sum.splits if_splits)

lemma find_append: "List.find P (xs @ ys) = (case List.find P xs of None \<Rightarrow> List.find P ys | Some y \<Rightarrow> Some y)"
  by (induction xs) auto

text \<open>The identifiers handed out so far lie below the sequence.\<close>

definition fresh_sessions :: "world \<Rightarrow> bool" where
  "fresh_sessions w \<longleftrightarrow> (\<forall>r \<in> set (sessions w). s_id r < seqs w ''sessions'')"

text \<open>
  The token a login is given is the token of the person who logged in: until the configured
  duration after the login it is resolved to that verified person, whatever else changed meanwhile in
  tables other than the sessions.
\<close>

theorem session_token_resolves:
  assumes "CreateSessionToken E S em w = (Inr (Some token), w')" "fresh_sessions w"
    and "uuid_in E token = Some token"
    and "sessions v = sessions w'" "\<not> aborted v"
    and "S = Some h" "LookupSecret E h ''auth_session_max_duration_in_micros'' w = (Inr val, w)" "stoll val = Inr d"
    and "now_of E v \<le> tx_start w + d"
  shows "\<exists>p. List.find (person_key E em) (people w) = Some p \<and> p_emailVerifiedAt p \<noteq> None \<and>
    LookupPersonIdBySessionToken E token v = (Inr (Some (p_id p)), ticked v)"
proof -
  obtain p sid row w1 where p: "List.find (person_key E em) (people w) = Some p" "p_emailVerifiedAt p \<noteq> None"
    and add: "AddSession E (p_id p) d w = (Inr sid, w1)" and look: "LookupSessionById sid w1 = (Inr row, w')"
    and tok: "token = s_uuid row"
    using assms(1,6-8) unfolding CreateSessionToken_def
    by (auto simp: run_simps IsVerified_def split: if_splits)
  note r = AddSession_Inr [OF add]
  have old: "List.find (\<lambda>q. s_id q = sid) (sessions w) = None"
    using assms(2) r(1) by (fastforce simp: find_None_iff fresh_sessions_def)
  have "w' = w1 \<and> s_uuid row = new_uuid E (uuids w)"
    using look old by (auto simp: LookupSessionById_def run_simps find_append r(3))
  moreover have "List.find (\<lambda>q. s_uuid q = new_uuid E (uuids w)) (sessions w) = None"
    using r(2) by (auto simp: find_None_iff)
  ultimately have "\<exists>q. List.find (\<lambda>q. s_uuid q = token) (sessions v) = Some q \<and> s_personId q = p_id p \<and>
      s_expiresAt q = tx_start w + d \<and> \<not> s_revoked q"
    using assms(4) r(3) tok by (simp add: find_append)
  then have "LookupPersonIdBySessionToken E token v = (Inr (Some (p_id p)), ticked v)"
    using assms(3,5,9)
    by (auto simp: LookupPersonIdBySessionToken_def LookupSessionByUuid_def bindT_def stmt_def now_us_live ret_def)
  with p show ?thesis by blast
qed

definition session_world :: world where
  "session_world = demo_world\<lparr>config_secrets := [(''auth_session_max_duration_in_micros'', ''1000'')]\<rparr>"

theorem session_token_resolves_witness:
  "\<exists>token w'. CreateSessionToken demoEnv (Some None) ''ann@example.org'' session_world = (Inr (Some token), w') \<and>
     LookupPersonIdBySessionToken demoEnv token w' = (Inr (Some 7), ticked w')"
proof -
  let ?r = "CreateSessionToken demoEnv (Some None) ''ann@example.org'' session_world"
  have n: "stoll ''1000'' = Inr 1000" by code_simp
  have run: "fst ?r = Inr (Some '''')" "aborted (snd ?r) = False" "tick (snd ?r) = 1" by code_simp+
  then have eq: "?r = (Inr (Some ''''), snd ?r)" by (metis prod.collapse)
  have "LookupSecret demoEnv None ''auth_session_max_duration_in_micros'' session_world = (Inr ''1000'', session_world)"
    by (simp add: LookupSecret_live session_world_def demo_world_def emptyWorld_def)
  from session_token_resolves [OF eq _ _ refl _ refl this n] run(2,3) eq show ?thesis
    by (auto simp: fresh_sessions_def session_world_def demo_world_def emptyWorld_def demoEnv_def now_of_def
        demo_person_def person_key_def)
qed

section \<open>Device tokens\<close>

lemma ConsumeAndRotate_Some:
  assumes "ConsumeAndRotate E old oldUuid new dur w = (Inr (Some (pid, u)), w')"
  obtains r where "r \<in> set (device_tokens w)" "rotatable (now_of E w) old oldUuid r" "pid = d_personId r"
    "u = new_uuid E (uuids w)" "device_tokens w' = map (\<lambda>r. if rotatable (now_of E w) old oldUuid r
        then r\<lparr>d_secretHash := new, d_uuid := u, d_lastUsedAt := Some (now_of E w), d_expiresAt := now_of E w + dur\<rparr>
        else r) (device_tokens w)"
  using assms
  by (auto simp: ConsumeAndRotate_def run_simps Let_def range_res dest!: find_SomeD
      split: option.splits sum.splits if_splits)

lemma DeviceTokenHelper_Inr:
  assumes "DeviceTokenHelper E S w = (Inr (h, b, x), w')"
  shows "device_tokens w' = device_tokens w" "uuids w' = uuids w" "tick w \<le> tick w'" "tx_start w' = tx_start w"
    "h = HashBinary E (random_bytes E (draws w) 64)" "b = base64_encode E (random_bytes E (draws w) 64)"
    "aborted w' = aborted w"
  using assms
  by (auto simp: DeviceTokenHelper_def run_simps Let_def ticked_def range_res dest!: LookupSecret_state
      split: if_splits)

text \<open>
  C5. A remember-me secret works once: after a successful device login no row accepts the
  presented secret and id again, at that time or later, provided the identifier generator does not
  hand out the presented id as the new one. The successful login itself presented the hash and id of
  a row that was neither revoked nor expired.
\<close>

theorem device_token_single_use:
  assumes "TryLoginWithDeviceToken E S tokenId secret w = (Inr (Some (newId, newSecret)), w')"
    and "base64_decode E secret = Some bytes" "newId \<noteq> tokenId"
  shows "(\<exists>r \<in> set (device_tokens w). \<exists>t. tick w \<le> t \<and> rotatable (clk E t) (HashBinary E bytes) tokenId r) \<and>
    (\<exists>t. tick w \<le> t \<and> (\<forall>now \<ge> clk E t. \<forall>r \<in> set (device_tokens w').
       \<not> rotatable now (HashBinary E bytes) tokenId r))"
proof -
  let ?old = "HashBinary E bytes"
  from assms(1,2) obtain h b x w1 pid where dth: "DeviceTokenHelper E S w = (Inr (h, b, Some x), w1)"
    and rot: "ConsumeAndRotate E ?old tokenId h x w1 = (Inr (Some (pid, newId)), w')"
    unfolding TryLoginWithDeviceToken_def
    by (auto elim!: catchT_InrE simp: run_simps Base64Decode_def Let_def)
  note same = DeviceTokenHelper_Inr [OF dth]
  obtain r where r: "r \<in> set (device_tokens w1)" "rotatable (now_of E w1) ?old tokenId r" "newId = new_uuid E (uuids w1)"
    "device_tokens w' = map (\<lambda>r. if rotatable (now_of E w1) ?old tokenId r
        then r\<lparr>d_secretHash := h, d_uuid := newId, d_lastUsedAt := Some (now_of E w1), d_expiresAt := now_of E w1 + x\<rparr>
        else r) (device_tokens w1)"
    using rot by (rule ConsumeAndRotate_Some)
  have "\<not> rotatable now ?old tokenId q" if "clk E (tick w1) \<le> now" "q \<in> set (device_tokens w')" for now q
    using that r(4) assms(3) by (auto simp: rotatable_def now_of_def split: if_splits)
  then show ?thesis
    using r(1,2) same(1,3) by (auto simp: now_of_def intro!: exI [of _ "tick w1"])
qed

definition demo_device :: DeviceTokenRow where
  "demo_device = \<lparr>d_id = 1, d_uuid = ''dev'', d_personId = 7, d_secretHash = ''6162'', d_createdAt = 0,
     d_lastUsedAt = None, d_expiresAt = 100, d_revoked = False\<rparr>"

definition device_world :: world where
  "device_world = demo_world\<lparr>device_tokens := [demo_device],
     config_secrets := [(''auth_device_token_max_duration_in_micros'', ''1000'')]\<rparr>"

theorem device_token_single_use_witness:
  "\<exists>newId newSecret w'. TryLoginWithDeviceToken demoEnv (Some None) ''dev'' ''ab'' device_world
     = (Inr (Some (newId, newSecret)), w') \<and>
     (\<exists>t. \<forall>now \<ge> clk demoEnv t. \<forall>r \<in> set (device_tokens w'). \<not> rotatable now ''6162'' ''dev'' r)"
proof -
  let ?r = "TryLoginWithDeviceToken demoEnv (Some None) ''dev'' ''ab'' device_world"
  have "fst ?r = Inr (Some ('''', replicate 64 (CHR 0x00)))" by code_simp
  then have eq: "?r = (Inr (Some ('''', replicate 64 (CHR 0x00))), snd ?r)" by (metis prod.collapse)
  have "base64_decode demoEnv ''ab'' = Some ''ab''" "HashBinary demoEnv ''ab'' = ''6162''" by code_simp+
  with device_token_single_use [OF eq, of "''ab''"] eq show ?thesis by auto
qed

text \<open>
  A device token outlives its configured lifetime by the whole age of the epoch:
  \<open>DeviceTokenHelper\<close> computes the moment of expiry, and \<open>AddDeviceToken\<close> takes it for a
  duration and adds the current time to it again.
\<close>

theorem device_token_expiry_doubled:
  assumes "CreateDeviceToken E S em w = (Inr (Some (tokenId, secret)), w')"
    and "S = Some sh" "LookupSecret E sh ''auth_device_token_max_duration_in_micros'' w = (Inr val, w)"
    and "stoll val = Inr maxDuration" "\<forall>r \<in> set (device_tokens w). d_id r < seqs w ''device_tokens''"
  shows "\<exists>r \<in> set (device_tokens w'). d_uuid r = tokenId \<and>
    d_expiresAt r = tx_start w + (now_of E w + maxDuration)"
proof -
  from assms(1) obtain pid h b x did row w1 w2 where
    dth: "DeviceTokenHelper E S w = (Inr (h, b, Some x), w1)"
    and add: "AddDeviceToken E pid h x w1 = (Inr did, w2)"
    and look: "LookupDeviceTokenById did w2 = (Inr row, w')" and tok: "tokenId = d_uuid row"
    unfolding CreateDeviceToken_def by (auto elim!: catchT_InrE simp: run_simps split: if_splits)
  let ?w0 = "w\<lparr>draws := Suc (draws w)\<rparr>"
  have live: "\<not> aborted w" using LookupSecret_Inr_live assms(3) .
  then have "LookupSecret E sh ''auth_device_token_max_duration_in_micros'' ?w0 = (Inr val, ?w0)"
    using assms(3) by (simp add: LookupSecret_live)
  then have x: "x = now_of E w + maxDuration" and w1: "w1 = ticked ?w0"
    using dth assms(2,4) by (auto simp: DeviceTokenHelper_def run_simps Let_def range_res now_of_def split: if_splits)
  have seq: "seqs w1 = seqs w" "device_tokens w1 = device_tokens w" "tx_start w1 = tx_start w" by (simp_all add: w1)
  note r = AddDeviceToken_Inr [OF add]
  have "row \<in> set (device_tokens w2)" "d_id row = did" "w' = w2"
    using look by (auto simp: LookupDeviceTokenById_def run_simps dest!: find_SomeD)
  moreover from this have "row \<notin> set (device_tokens w)" using assms(5) r(1) seq by auto
  ultimately have "row \<in> set (device_tokens w')" "d_expiresAt row = tx_start w + x"
    using r(2) seq by auto
  then show ?thesis using x tok by auto
qed

theorem device_token_expiry_doubled_witness:
  "\<exists>tokenId secret w'. CreateDeviceToken demoEnv (Some None) ''ann@example.org''
       (device_world\<lparr>tick := 5, tx_start := 500, device_tokens := []\<rparr>) = (Inr (Some (tokenId, secret)), w') \<and>
     (\<exists>r \<in> set (device_tokens w'). d_expiresAt r = 1505)"
proof -
  let ?w = "device_world\<lparr>tick := 5, tx_start := 500, device_tokens := []\<rparr>"
  let ?r = "CreateDeviceToken demoEnv (Some None) ''ann@example.org'' ?w"
  have "fst ?r = Inr (Some ('''', replicate 64 (CHR 0x00)))" by code_simp
  then have eq: "?r = (Inr (Some ('''', replicate 64 (CHR 0x00))), snd ?r)" by (metis prod.collapse)
  have n: "stoll ''1000'' = Inr 1000" by code_simp
  have look: "LookupSecret demoEnv None ''auth_device_token_max_duration_in_micros'' ?w = (Inr ''1000'', ?w)"
    by (simp add: LookupSecret_live device_world_def demo_world_def emptyWorld_def)
  from device_token_expiry_doubled [OF eq refl look n] eq show ?thesis
    by (auto simp: device_world_def demoEnv_def now_of_def)
qed

text \<open>
  Signing a person out everywhere removes all of that person's sessions and remember-me
  tokens, keeps everyone else's, and changes no account.
\<close>

theorem LogoutPerson_everywhere:
  assumes "LogoutPerson pid w = (Inr (), w')"
  shows "(\<forall>r \<in> set (sessions w'). s_personId r \<noteq> pid) \<and> (\<forall>r \<in> set (device_tokens w'). d_personId r \<noteq> pid) \<and>
    (\<forall>r. s_personId r \<noteq> pid \<longrightarrow> (r \<in> set (sessions w') \<longleftrightarrow> r \<in> set (sessions w))) \<and>
    (\<forall>r. d_personId r \<noteq> pid \<longrightarrow> (r \<in> set (device_tokens w') \<longleftrightarrow> r \<in> set (device_tokens w))) \<and>
    people w' = people w"
proof -
  obtain w1 where 1: "RemoveDeviceTokensForUser pid w = (Inr (), w1)" and 2: "RemoveSessionsForUser pid w1 = (Inr (), w')"
    using assms by (auto simp: LogoutPerson_def run_simps)
  have f: "sessions w1 = sessions w" "device_tokens w' = device_tokens w1"
    using 1 2 by (auto simp: RemoveDeviceTokensForUser_def RemoveSessionsForUser_def run_simps)
  show ?thesis
    using owned_devices.none_left [OF 1] owned_devices.others_kept [OF 1] owned_devices.remove_rows [OF 1]
      owned_sessions.none_left [OF 2] owned_sessions.others_kept [OF 2] owned_sessions.remove_rows [OF 2] f
    by simp
qed

theorem LogoutPerson_everywhere_witness:
  "\<exists>w'. LogoutPerson 7 (device_world\<lparr>sessions := [demo_session]\<rparr>) = (Inr (), w') \<and>
     (\<forall>r \<in> set (sessions w'). s_personId r \<noteq> 7) \<and> (\<forall>r \<in> set (device_tokens w'). d_personId r \<noteq> 7)"
proof -
  let ?w = "device_world\<lparr>sessions := [demo_session]\<rparr>"
  have eq: "LogoutPerson 7 ?w = (Inr (), snd (LogoutPerson 7 ?w))"
    by (simp add: LogoutPerson_def RemoveDeviceTokensForUser_def RemoveSessionsForUser_def bindT_def stmt_def
        device_world_def demo_world_def emptyWorld_def)
  from LogoutPerson_everywhere [OF eq] eq show ?thesis by blast
qed

end
