(* ===== verification/Session.thy ===== *)
theory Session
  imports Person
begin

text \<open>
  The signed-in request: \<open>session.cpp\<close>, \<open>auth_cookies.cpp\<close> and the access decisions of
  \<open>endpoints/endpoint_auth_helper.cpp\<close>. The fields of the \<open>Session\<close> object live in the state, so
  what a step set before it threw is kept, as in the code.
\<close>

section \<open>Cookies\<close>

definition SetCookie :: "string \<Rightarrow> string \<Rightarrow> CookieProperties \<Rightarrow> unit tx" where
  "SetCookie key value props w =
     (case cookie_manager w of
        None \<Rightarrow> (Inl (Undefined ''null CookieManager''), w)
      | Some cm \<Rightarrow> (Inr (), w\<lparr>cookie_manager := Some (cm\<lparr>cookies_out := cookies_out cm @ [(key, value, props)]\<rparr>)\<rparr>))"

definition CheckCookieAttributes :: "string \<Rightarrow> CookieProperties \<Rightarrow> string" where
  "CheckCookieAttributes key props =
     (if c_sameSite props = SameSiteNone \<and> \<not> c_secure props
      then ''cookie '' @ [CHR 0x27] @ key @ [CHR 0x27] @ '' has SameSite=None but Secure=false; '' @
           ''modern browsers will reject this cookie outright. Either '' @
           ''add Secure (HTTPS-only) or change SameSite to Lax/Strict.''
      else [])"

definition BuildAuthCookieProperties ::
  "env \<Rightarrow> SecretsHelper option \<Rightarrow> bool \<Rightarrow> bool \<Rightarrow> int \<Rightarrow> CookieProperties tx" where
  "BuildAuthCookieProperties E S isProd httpOnly maxAgeMicros =
     (let props = \<lparr>c_domain = [], c_path = ''/'', c_sameSite = SameSiteLax, c_secure = False,
                   c_httpOnly = httpOnly, c_maxAgeInMicros = maxAgeMicros\<rparr>
      in case S of
           None \<Rightarrow> ret props
         | Some h \<Rightarrow>
             if isProd then bindT (LookupSecret E h ''website_address'') (\<lambda>d.
                              ret (props\<lparr>c_secure := True, c_domain := d\<rparr>))
             else ret props)"

definition ClearAuthCookies :: "env \<Rightarrow> SecretsHelper option \<Rightarrow> unit tx" where
  "ClearAuthCookies E S w =
     (if cookie_manager w = None then (Inr (), w)
      else bindT (BuildAuthCookieProperties E S (isProdMode E) True 0) (\<lambda>httpOnlyProps.
           bindT (SetCookie ''session_token'' [] httpOnlyProps) (\<lambda>_.
           bindT (SetCookie ''device_token'' [] httpOnlyProps) (\<lambda>_.
           bindT (BuildAuthCookieProperties E S (isProdMode E) False 0) (\<lambda>csrfProps.
             SetCookie ''csrft'' [] csrfProps)))) w)"

definition SetCookieHelper :: "env \<Rightarrow> SecretsHelper option \<Rightarrow> string \<Rightarrow> string \<Rightarrow> int \<Rightarrow> unit tx" where
  "SetCookieHelper E S key value maxAgeMicros =
     bindT (BuildAuthCookieProperties E S (isProdMode E) True maxAgeMicros) (SetCookie key value)"

definition SetCsrfTokenCookie :: "env \<Rightarrow> SecretsHelper option \<Rightarrow> int \<Rightarrow> unit tx" where
  "SetCsrfTokenCookie E S maxAgeMicros =
     bindT (RandomBytes E 32) (\<lambda>raw.
     bindT (\<lambda>w. (Inr (), w\<lparr>session_csrfToken := base64_encode E raw\<rparr>)) (\<lambda>_.
     bindT (BuildAuthCookieProperties E S (isProdMode E) False maxAgeMicros) (\<lambda>props.
       SetCookie ''csrft'' (base64_encode E raw) props)))"

text \<open>A missing or unreadable duration leaves the cookie without a Max-Age.\<close>

definition MaxAgeSecret :: "env \<Rightarrow> SecretsHelper option \<Rightarrow> string \<Rightarrow> int tx" where
  "MaxAgeSecret E S key =
     (case S of None \<Rightarrow> throw (Undefined ''null SecretsHelper'')
      | Some h \<Rightarrow> bindT (LookupSecret E h key) (\<lambda>v.
          ret (if v = [] then -1 else case stoll v of Inl _ \<Rightarrow> -1 | Inr n \<Rightarrow> n)))"

definition SetDeviceTokenCookie :: "env \<Rightarrow> SecretsHelper option \<Rightarrow> string \<Rightarrow> string \<Rightarrow> unit tx" where
  "SetDeviceTokenCookie E S tokenId base64EncodedSecret =
     bindT (MaxAgeSecret E S ''auth_device_token_max_duration_in_micros'') (\<lambda>maxAge.
       SetCookieHelper E S ''device_token'' (tokenId @ ''.'' @ base64EncodedSecret) maxAge)"

section \<open>The session\<close>

definition IsLoggedIn :: "world \<Rightarrow> bool" where
  "IsLoggedIn w \<longleftrightarrow> session_personId w \<noteq> -1"

definition SetPersonId :: "int \<Rightarrow> unit tx" where
  "SetPersonId pid w = (Inr (), w\<lparr>session_personId := pid\<rparr>)"

definition InitializeFromLogin ::
  "env \<Rightarrow> SecretsHelper option \<Rightarrow> string \<Rightarrow> string \<Rightarrow> bool \<Rightarrow> unit tx" where
  "InitializeFromLogin E S sessionToken em remember w =
     (if S = None then (Inl (RuntimeError ''Session::InitializeFromLogin - secrets null''), w)
      else if cookie_manager w = None
      then (Inl (RuntimeError ''Session::InitializeFromLogin - cookieManager null''), w)
      else bindT (LookupPersonIdBySessionToken E sessionToken) (\<lambda>pid.
        case pid of
          None \<Rightarrow> throw (RuntimeError ''Session::InitializeFromLogin - invalid session token'')
        | Some outPersonId \<Rightarrow>
            bindT (SetPersonId outPersonId) (\<lambda>_.
            bindT (MaxAgeSecret E S ''auth_session_max_duration_in_micros'') (\<lambda>maxAge.
            bindT (SetCookieHelper E S ''session_token'' sessionToken maxAge) (\<lambda>_.
            bindT (SetCsrfTokenCookie E S maxAge) (\<lambda>_.
              if remember
              then bindT (CreateDeviceToken E S em) (\<lambda>tok.
                     case tok of None \<Rightarrow> ret ()
                     | Some (tokenId, secret) \<Rightarrow> SetDeviceTokenCookie E S tokenId secret)
              else ret ()))))) w)"

definition request_cookie :: "string \<Rightarrow> world \<Rightarrow> string option" where
  "request_cookie key w = (case cookie_manager w of None \<Rightarrow> None | Some cm \<Rightarrow> map_of (cookies_in cm) key)"

definition InitializeFromFromCookie :: "env \<Rightarrow> bool tx" where
  "InitializeFromFromCookie E w =
     (case request_cookie ''session_token'' w of
        None \<Rightarrow> (Inr False, w)
      | Some token \<Rightarrow>
          bindT (catchT (LookupPersonIdBySessionToken E token) (\<lambda>_. ret None)) (\<lambda>pid.
            case pid of None \<Rightarrow> ret False
            | Some outPersonId \<Rightarrow>
                bindT (catchT (bindT (LookupSessionByUuid E token) (\<lambda>_. ret True)) (\<lambda>_. ret False)) (\<lambda>found.
                  if found then bindT (SetPersonId outPersonId) (\<lambda>_. ret True) else ret False)) w)"

definition InitializeFromDeviceToken :: "env \<Rightarrow> SecretsHelper option \<Rightarrow> bool tx" where
  "InitializeFromDeviceToken E S w =
     (case request_cookie ''device_token'' w of
        None \<Rightarrow> (Inr False, w)
      | Some cookie \<Rightarrow>
          let (tokenId, secret) = SplitString cookie ''.'' in
          if tokenId = [] \<or> secret = [] then (Inr False, w)
          else bindT (TryLoginWithDeviceToken E S tokenId secret) (\<lambda>res.
            case res of None \<Rightarrow> ret False
            | Some (outTokenId, outSecret) \<Rightarrow>
                bindT (LookupDeviceTokenByUuid E outTokenId) (\<lambda>row.
                bindT (LookupPersonInfoById (d_personId row)) (\<lambda>info.
                  case info of None \<Rightarrow> ret False
                  | Some pi \<Rightarrow>
                      bindT (CreateSessionToken E S (email pi)) (\<lambda>token.
                        case token of None \<Rightarrow> ret False
                        | Some t \<Rightarrow>
                            bindT (InitializeFromLogin E S t (email pi) False) (\<lambda>_.
                            bindT (SetDeviceTokenCookie E S outTokenId outSecret) (\<lambda>_. ret True)))))) w)"

section \<open>Roles and permissions of the signed-in person\<close>

definition ActiveUserHasRole :: "string \<Rightarrow> bool tx" where
  "ActiveUserHasRole roleName w =
     (if \<not> IsLoggedIn w then (Inl (RuntimeError ''Session::ActiveUserHasRole - not logged in''), w)
      else bindT (GetRoleId roleName) (\<lambda>roleId.
           bindT (GetRoleAssignmentsForPerson (session_personId w)) (\<lambda>rids.
             ret (list_ex (\<lambda>rid. rid = roleId) rids))) w)"

definition IsAdmin :: "bool tx" where
  "IsAdmin = ActiveUserHasRole ''admin''"

text \<open>The nested loops stop at the first match; a role's permissions are one statement.\<close>

fun role_with_permission :: "int \<Rightarrow> int list \<Rightarrow> bool tx" where
  "role_with_permission permId [] = ret False"
| "role_with_permission permId (rid # rids) =
     bindT (GetRolePermissionsForRole rid) (\<lambda>perms.
       if permId \<in> set perms then ret True else role_with_permission permId rids)"

definition ActiveUserHasPermission :: "string \<Rightarrow> bool tx" where
  "ActiveUserHasPermission permissionName w =
     (if \<not> IsLoggedIn w then (Inl (RuntimeError ''Session::ActiveUserHasPermission - not logged in''), w)
      else bindT (GetPermissionId permissionName) (\<lambda>permId.
           bindT (GetRoleAssignmentsForPerson (session_personId w)) (\<lambda>rids.
             role_with_permission permId rids)) w)"

section \<open>Access decisions of the endpoints\<close>

text \<open>The permission set is a \<open>std::set<int64_t>\<close>, walked in ascending order.\<close>

definition GetTablesForPermissionId :: "int \<Rightarrow> StringArray tx" where
  "GetTablesForPermissionId permId =
     query (\<lambda>w. sort (map snd (filter (\<lambda>a. fst a = permId) (admin_table_permissions w))))"

definition GetPermissionGrantedTables :: "StringArray tx" where
  "GetPermissionGrantedTables w =
     (if \<not> IsLoggedIn w then (Inr [], w)
      else bindT (GetRoleAssignmentsForPerson (session_personId w)) (\<lambda>rids.
           bindT (mapT GetRolePermissionsForRole rids) (\<lambda>permss.
             if concat permss = [] then ret []
             else bindT (mapT GetTablesForPermissionId (sort (remdups (concat permss)))) (\<lambda>tabss.
                  ret (rev (remdups (rev (concat tabss))))))) w)"

definition GetAllowedTables :: "StringArray tx" where
  "GetAllowedTables = bindT (query allowed_tables) (\<lambda>tables. catchT
     (\<lambda>w. if IsLoggedIn w
       then bindT IsAdmin (\<lambda>adm.
         if adm
         then bindT (query admin_top_level_tables) (\<lambda>top.
              bindT (query admin_nested_tables) (\<lambda>nested.
                ret (tables @ filter (\<lambda>t. t \<notin> set tables) (rev (remdups (rev (top @ nested)))))))
         else bindT GetPermissionGrantedTables (\<lambda>granted.
                ret (tables @ filter (\<lambda>t. t \<notin> set tables) granted))) w
       else (Inr tables, w))
     (\<lambda>_. ret tables))"

definition IsTableAllowed :: "string \<Rightarrow> bool tx" where
  "IsTableAllowed tab = bindT GetAllowedTables (\<lambda>tables. ret (tab \<in> set tables))"

datatype access = Granted | NotAuthenticated | NotAuthorized

text \<open>\<open>catch (const std::exception&)\<close>: an exception denies.\<close>

definition RequirePermission :: "string \<Rightarrow> access tx" where
  "RequirePermission permissionName w =
     (if \<not> IsLoggedIn w then (Inr NotAuthenticated, w)
      else catchT (bindT (ActiveUserHasPermission permissionName) (\<lambda>ok.
                     ret (if ok then Granted else NotAuthorized)))
                  (\<lambda>_. ret NotAuthorized) w)"

definition RequireTableWriteAccess :: "string \<Rightarrow> access tx" where
  "RequireTableWriteAccess tab w =
     (if \<not> IsLoggedIn w then (Inr NotAuthenticated, w)
      else catchT (bindT IsAdmin (\<lambda>adm.
                     if adm then ret Granted
                     else bindT GetPermissionGrantedTables (\<lambda>tables.
                          ret (if list_ex (\<lambda>t. t = tab) tables then Granted else NotAuthorized))))
                  (\<lambda>_. ret NotAuthorized) w)"

section \<open>Access rights\<close>

text \<open>The permissions a person holds through roles, and the tables they unlock.\<close>

definition held_permissions :: "int \<Rightarrow> world \<Rightarrow> int set" where
  "held_permissions pid w =
     {perm. \<exists>role. (pid, role) \<in> set (role_assignments w) \<and> (role, perm) \<in> set (role_permissions w)}"

definition granted_tables :: "int \<Rightarrow> world \<Rightarrow> string set" where
  "granted_tables pid w = {t. \<exists>perm \<in> held_permissions pid w. (perm, t) \<in> set (admin_table_permissions w)}"

lemma role_with_permission_live:
  "\<not> aborted w \<Longrightarrow> role_with_permission p rids w =
     (Inr (\<exists>rid \<in> set rids. (rid, p) \<in> set (role_permissions w)), w)"
proof (induction rids)
  case (Cons rid rids)
  have "p \<in> snd ` {a \<in> set (role_permissions w). fst a = rid} \<longleftrightarrow> (rid, p) \<in> set (role_permissions w)"
    by force
  with Cons show ?case
    by (simp add: bindT_def GetRolePermissionsForRole_def query_live ret_def)
qed (simp add: ret_def)

lemma mapT_live:
  "(\<And>x. x \<in> set xs \<Longrightarrow> f x w = (Inr (g x), w)) \<Longrightarrow> mapT f xs w = (Inr (map g xs), w)"
  by (induction xs) (simp_all add: bindT_def ret_def)

lemma assignments_live:
  "\<not> aborted w \<Longrightarrow> GetRoleAssignmentsForPerson pid w =
     (Inr (map snd (filter (\<lambda>a. fst a = pid) (role_assignments w))), w)"
  by (simp add: GetRoleAssignmentsForPerson_def query_live)

lemma ActiveUserHasPermission_live:
  assumes "\<not> aborted w" "IsLoggedIn w"
  shows "ActiveUserHasPermission name w =
    (case List.find (\<lambda>r. snd r = name) (permissions w) of
       None \<Rightarrow> (Inl (RuntimeError ''Permissions::GetPermission(name) - not found''), w)
     | Some p \<Rightarrow> (Inr (fst p \<in> held_permissions (session_personId w) w), w))"
proof -
  have "(\<exists>rid \<in> set (map snd (filter (\<lambda>a. fst a = pid) (role_assignments w))). (rid, p) \<in> set (role_permissions w))
      \<longleftrightarrow> p \<in> held_permissions pid w" for pid p
    by (force simp: held_permissions_def)
  then show ?thesis
    using assms by (simp add: ActiveUserHasPermission_def GetPermissionId_def bindT_def query_live ret_def
        throw_def assignments_live role_with_permission_live split: option.split)
qed

lemma ActiveUserHasRole_live:
  assumes "\<not> aborted w" "IsLoggedIn w"
  shows "ActiveUserHasRole name w =
    (case List.find (\<lambda>r. snd r = name) (roles w) of
       None \<Rightarrow> (Inl (RuntimeError ''Roles::GetRole(name) - not found''), w)
     | Some p \<Rightarrow> (Inr ((session_personId w, fst p) \<in> set (role_assignments w)), w))"
proof -
  have "list_ex (\<lambda>rid. rid = r) (map snd (filter (\<lambda>a. fst a = pid) (role_assignments w))) \<longleftrightarrow>
      (pid, r) \<in> set (role_assignments w)" for pid r
    by (force simp: list_ex_iff)
  then show ?thesis
    using assms by (simp add: ActiveUserHasRole_def GetRoleId_def bindT_def query_live ret_def throw_def
        assignments_live split: option.split)
qed

lemma GetPermissionGrantedTables_live:
  assumes "\<not> aborted w" "IsLoggedIn w"
  shows "\<exists>ts. GetPermissionGrantedTables w = (Inr ts, w) \<and> set ts = granted_tables (session_personId w) w \<and> distinct ts"
proof -
  let ?rids = "map snd (filter (\<lambda>a. fst a = session_personId w) (role_assignments w))"
  let ?perms = "map (\<lambda>rid. map snd (filter (\<lambda>a. fst a = rid) (role_permissions w))) ?rids"
  let ?tabs = "\<lambda>p. sort (map snd (filter (\<lambda>a. fst a = p) (admin_table_permissions w)))"
  have 1: "mapT GetRolePermissionsForRole ?rids w = (Inr ?perms, w)"
    using assms(1) by (intro mapT_live) (simp add: GetRolePermissionsForRole_def query_live)
  have 2: "mapT GetTablesForPermissionId ps w = (Inr (map ?tabs ps), w)" for ps
    using assms(1) by (intro mapT_live) (simp add: GetTablesForPermissionId_def query_live)
  have held: "set (concat ?perms) = held_permissions (session_personId w) w"
    by (force simp: held_permissions_def)
  show ?thesis
  proof (cases "concat ?perms = []")
    case True
    then have "held_permissions (session_personId w) w = {}" using held by (metis list.set(1))
    then have "granted_tables (session_personId w) w = {}" by (simp add: granted_tables_def)
    moreover have "GetPermissionGrantedTables w = (Inr [], w)"
      using assms 1 True by (simp add: GetPermissionGrantedTables_def bindT_def assignments_live ret_def del: concat_map_singleton concat_eq_Nil_conv)
    ultimately show ?thesis by simp
  next
    case False
    let ?out = "rev (remdups (rev (concat (map ?tabs (sort (remdups (concat ?perms)))))))"
    have "GetPermissionGrantedTables w = (Inr ?out, w)"
      using assms 1 2 False by (simp add: GetPermissionGrantedTables_def bindT_def assignments_live ret_def del: concat_eq_Nil_conv)
    moreover have "set ?out = (\<Union>p \<in> set (concat ?perms). snd ` {a \<in> set (admin_table_permissions w). fst a = p})"
      by auto
    moreover have "\<dots> = granted_tables (session_personId w) w"
      unfolding held by (force simp: granted_tables_def)
    ultimately show ?thesis by simp
  qed
qed

section \<open>Properties\<close>

text \<open>
  A permission check lets a request through exactly when it is signed in and the person
  holds a permission of that name through one of the assigned roles; a name nobody has seeded denies,
  it does not fail.
\<close>

theorem RequirePermission_iff:
  assumes "\<not> aborted w"
  shows "RequirePermission name w =
    (Inr (if \<not> IsLoggedIn w then NotAuthenticated
          else case List.find (\<lambda>r. snd r = name) (permissions w) of
              None \<Rightarrow> NotAuthorized
            | Some p \<Rightarrow> if fst p \<in> held_permissions (session_personId w) w then Granted else NotAuthorized), w)"
  using assms ActiveUserHasPermission_live [OF assms]
  by (auto simp: RequirePermission_def catchT_def bindT_def ret_def split: option.split)

definition access_world :: world where
  "access_world = emptyWorld\<lparr>session_personId := 7, roles := [(1, ''admin''), (2, ''teacher'')],
     permissions := [(5, ''edit_schedule'')], role_permissions := [(2, 5)], role_assignments := [(7, 2)],
     admin_table_permissions := [(5, ''classes'')], allowed_tables := [''news'']\<rparr>"

theorem RequirePermission_iff_witness:
  "RequirePermission ''edit_schedule'' access_world = (Inr Granted, access_world) \<and>
   RequirePermission ''no_such'' access_world = (Inr NotAuthorized, access_world)"
proof -
  have "5 \<in> held_permissions 7 access_world" by (force simp: held_permissions_def access_world_def)
  then show ?thesis
    using RequirePermission_iff [of access_world "''edit_schedule''"] RequirePermission_iff [of access_world "''no_such''"]
    by (simp add: access_world_def emptyWorld_def IsLoggedIn_def)
qed

text \<open>
  C21. Write access to a table is decided by the role and the grants alone: a signed-in
  administrator may write any table, anyone else exactly the tables granted through a held permission.
  The list of publicly readable tables plays no part, and without an \<open>admin\<close> role in the database
  every write is refused.
\<close>

theorem RequireTableWriteAccess_iff:
  assumes "\<not> aborted w"
  shows "RequireTableWriteAccess tab w =
    (Inr (if \<not> IsLoggedIn w then NotAuthenticated
          else case List.find (\<lambda>r. snd r = ''admin'') (roles w) of
              None \<Rightarrow> NotAuthorized
            | Some p \<Rightarrow>
                if (session_personId w, fst p) \<in> set (role_assignments w) \<or> tab \<in> granted_tables (session_personId w) w
                then Granted else NotAuthorized), w)"
proof (cases "IsLoggedIn w")
  case False
  then show ?thesis by (simp add: RequireTableWriteAccess_def)
next
  case True
  obtain ts where ts: "GetPermissionGrantedTables w = (Inr ts, w)" "set ts = granted_tables (session_personId w) w"
    using GetPermissionGrantedTables_live [OF assms True] by blast
  show ?thesis
    using True assms ts ActiveUserHasRole_live [OF assms True, of "''admin''"]
    by (auto simp: RequireTableWriteAccess_def IsAdmin_def catchT_def bindT_def ret_def list_ex_iff split: option.split)
qed

theorem RequireTableWriteAccess_iff_witness:
  "RequireTableWriteAccess ''classes'' access_world = (Inr Granted, access_world) \<and>
   RequireTableWriteAccess ''news'' access_world = (Inr NotAuthorized, access_world)"
proof -
  have "''classes'' \<in> granted_tables 7 access_world" "''news'' \<notin> granted_tables 7 access_world"
    by (force simp: granted_tables_def held_permissions_def access_world_def)+
  then show ?thesis
    using RequireTableWriteAccess_iff [of access_world "''classes''"] RequireTableWriteAccess_iff [of access_world "''news''"]
    by (simp add: access_world_def emptyWorld_def IsLoggedIn_def)
qed

text \<open>
  Reading is wider than writing: a signed-in person who is no administrator may read the
  publicly allowed tables and the granted ones, and no other.
\<close>

theorem GetAllowedTables_member:
  assumes "\<not> aborted w" "IsLoggedIn w" "List.find (\<lambda>r. snd r = ''admin'') (roles w) = Some p"
    and "(session_personId w, fst p) \<notin> set (role_assignments w)"
  shows "IsTableAllowed tab w =
    (Inr (tab \<in> set (allowed_tables w) \<or> tab \<in> granted_tables (session_personId w) w), w)"
proof -
  obtain ts where ts: "GetPermissionGrantedTables w = (Inr ts, w)" "set ts = granted_tables (session_personId w) w"
    using GetPermissionGrantedTables_live [OF assms(1,2)] by blast
  have "IsAdmin w = (Inr False, w)"
    using ActiveUserHasRole_live [OF assms(1,2), of "''admin''"] assms(3,4) by (simp add: IsAdmin_def)
  then have "GetAllowedTables w = (Inr (allowed_tables w @ filter (\<lambda>t. t \<notin> set (allowed_tables w)) ts), w)"
    using assms(1,2) ts(1) by (simp add: GetAllowedTables_def bindT_def query_live catchT_def ret_def)
  then show ?thesis
    using ts(2) by (auto simp: IsTableAllowed_def bindT_def ret_def)
qed

theorem GetAllowedTables_member_witness:
  "IsTableAllowed ''news'' access_world = (Inr True, access_world) \<and>
   IsTableAllowed ''people'' access_world = (Inr False, access_world)"
proof -
  have "''people'' \<notin> granted_tables 7 access_world"
    by (simp add: granted_tables_def access_world_def)
  then show ?thesis
    using GetAllowedTables_member [of access_world "(1, ''admin'')" "''news''"]
      GetAllowedTables_member [of access_world "(1, ''admin'')" "''people''"]
    by (simp add: access_world_def emptyWorld_def IsLoggedIn_def)
qed

text \<open>
  The attributes of the authentication cookies are safe in every configuration: whatever the
  mode, the secrets and the lifetime, the built attributes are SameSite=Lax on path "/", pass
  \<open>CheckCookieAttributes\<close>, and differ between setting and clearing a cookie in the lifetime only, so a
  browser applies the deletion.
\<close>

theorem auth_cookie_attributes:
  assumes "BuildAuthCookieProperties E S isProd httpOnly maxAge w = (Inr props, w')"
  shows "c_sameSite props = SameSiteLax \<and> c_path props = ''/'' \<and> c_httpOnly props = httpOnly \<and>
    CheckCookieAttributes key props = [] \<and> w' = w \<and>
    BuildAuthCookieProperties E S isProd httpOnly 0 w = (Inr (props\<lparr>c_maxAgeInMicros := 0\<rparr>), w)"
proof (cases "S = None \<or> \<not> isProd")
  case True
  with assms show ?thesis
    by (cases S) (auto simp: BuildAuthCookieProperties_def CheckCookieAttributes_def ret_def Let_def)
next
  case False
  then obtain h where S: "S = Some h" "isProd" by auto
  with assms obtain d where d: "LookupSecret E h ''website_address'' w = (Inr d, w)" "w' = w"
    and props: "props = \<lparr>c_domain = d, c_path = ''/'', c_sameSite = SameSiteLax, c_secure = True,
      c_httpOnly = httpOnly, c_maxAgeInMicros = maxAge\<rparr>"
    by (auto simp: BuildAuthCookieProperties_def run_simps Let_def dest: LookupSecret_state)
  show ?thesis
    using S d(2) by (simp add: props BuildAuthCookieProperties_def CheckCookieAttributes_def bindT_def d(1) ret_def Let_def)
qed

theorem auth_cookie_attributes_witness:
  "\<exists>props. BuildAuthCookieProperties demoEnv (Some None) True True 5
       (emptyWorld\<lparr>config_secrets := [(''website_address'', ''example.org'')]\<rparr>)
     = (Inr props, emptyWorld\<lparr>config_secrets := [(''website_address'', ''example.org'')]\<rparr>) \<and>
     CheckCookieAttributes ''session_token'' props = []"
proof -
  let ?w = "emptyWorld\<lparr>config_secrets := [(''website_address'', ''example.org'')]\<rparr>"
  obtain props where p: "BuildAuthCookieProperties demoEnv (Some None) True True 5 ?w = (Inr props, ?w)"
    by (simp add: BuildAuthCookieProperties_def bindT_def LookupSecret_live emptyWorld_def ret_def)
  with auth_cookie_attributes [OF p, of "''session_token''"] show ?thesis by blast
qed

end
