(* ===== verification/PasswordReset.thy ===== *)
theory PasswordReset
  imports Session
begin

text \<open>
  Forgotten passwords: \<open>password_reset_helper.cpp\<close> (\<open>RequestReset\<close>, \<open>CompleteReset\<close>), the mail of
  \<open>password_reset_mail.cpp\<close> and the branding lookups of \<open>tenant_branding.cpp\<close>.
\<close>

section \<open>The mail\<close>

definition kLinkTemplate :: string where
  "kLinkTemplate = ''{website_url}{reset_path}?email={email}&secret={secret}''"

definition kBodyTemplate :: string where
  "kBodyTemplate = lines_html [
     ''<!DOCTYPE html>'',
     ''<html lang=\"en\">'',
     ''<head>'',
     ''    <meta charset=\"UTF-8\">'',
     ''    <meta name=\"viewport\" content=\"width=device-width, initial-scale=1.0\">'',
     ''    <title>Reset your {studio_name} password</title>'',
     ''</head>'',
     ''<body>'',
     ''    <h1>{studio_name}</h1>'',
     ''    <p>Hello {first_name},</p>'',
     ''    <p>Someone asked to reset the password for the {studio_name} account {email}.</p>'',
     ''    <p><a href=\"{reset_link}\">Reset your password</a></p>'',
     ''    <p>This link expires in {ttl_minutes} minutes and works once.</p>'',
     ''    <p>If you didn'' @ [CHR 0x27] @ ''t ask for this, ignore this email. Your password has not changed.</p>'',
     ''</body>'',
     ''</html>'',
     '''']"

definition BuildPasswordResetLink :: "string \<Rightarrow> string \<Rightarrow> string \<Rightarrow> string \<Rightarrow> string" where
  "BuildPasswordResetLink site path em secret = FormatString kLinkTemplate
     (kv_assign ''secret'' (URLEncodeQueryValue secret)
     (kv_assign ''email'' (URLEncodeQueryValue em)
     (kv_assign ''reset_path'' path
     (kv_assign ''website_url'' site []))))"

definition GeneratePasswordResetMailSubject :: "TenantBranding \<Rightarrow> string" where
  "GeneratePasswordResetMailSubject branding =
     FormatString ''Reset your {studio_name} password'' (kv_assign ''studio_name'' (studioName branding) [])"

record PasswordResetMailData =
  rd_firstName :: string
  rd_email :: string
  rd_secret :: string
  rd_resetPath :: string
  rd_ttlMinutes :: int

definition GeneratePasswordResetMailBody :: "PasswordResetMailData \<Rightarrow> TenantBranding \<Rightarrow> string" where
  "GeneratePasswordResetMailBody d branding = NormalizeCrLf (FormatString kBodyTemplate
     (kv_assign ''ttl_minutes'' (StringFromInt (rd_ttlMinutes d))
     (kv_assign ''reset_link''
        (BuildPasswordResetLink (websiteUrl branding) (rd_resetPath d) (rd_email d) (rd_secret d))
     (kv_assign ''email'' (rd_email d)
     (kv_assign ''first_name'' (rd_firstName d)
     (kv_assign ''studio_name'' (studioName branding) []))))))"

definition LoadSenderAddress :: "env \<Rightarrow> SecretsHelper \<Rightarrow> (string \<times> string) tx" where
  "LoadSenderAddress E h =
     bindT (LookupSecret E h ''mail_sender_name'') (\<lambda>n.
     bindT (LookupSecret E h ''mail_sender_address'') (\<lambda>a. ret (n, a)))"

definition LoadTenantBranding :: "env \<Rightarrow> SecretsHelper \<Rightarrow> TenantBranding tx" where
  "LoadTenantBranding E h =
     bindT (LookupSecret E h ''mail_sender_name'') (\<lambda>n.
     bindT (LookupSecret E h ''mail_sender_address'') (\<lambda>a.
     bindT (LookupSecret E h ''website_address_login'') (\<lambda>u.
       ret \<lparr>studioName = n, senderName = n, senderAddress = a, websiteUrl = u\<rparr>)))"

section \<open>Requesting a link\<close>

definition kSecretBytes :: nat where "kSecretBytes = 32"
definition kMinuteUs :: int where "kMinuteUs = 60 * 1000000"
definition kDefaultTtlMinutes :: int where "kDefaultTtlMinutes = 60"
definition kAttemptLimit :: int where "kAttemptLimit = 5"

definition LookupTtlMinutes :: "env \<Rightarrow> SecretsHelper \<Rightarrow> int tx" where
  "LookupTtlMinutes E h = catchT
     (bindT (LookupSecret E h ''auth_password_reset_ttl_minutes'') (\<lambda>v.
      bindT (lift (stoll v)) (\<lambda>minutes.
        ret (if 0 < minutes then minutes else kDefaultTtlMinutes))))
     (\<lambda>_. ret kDefaultTtlMinutes)"

definition HashPresentedSecret :: "env \<Rightarrow> string \<Rightarrow> string" where
  "HashPresentedSecret E secret =
     (case Base64Decode E secret of Inl _ \<Rightarrow> [] | Inr b \<Rightarrow> HashBinary E b)"

definition ResetMail ::
  "env \<Rightarrow> SecretsHelper \<Rightarrow> PersonRow \<Rightarrow> string \<Rightarrow> int \<Rightarrow> MailMessage tx" where
  "ResetMail E h r secretBytes ttlMinutes =
     bindT (LookupSecret E h ''password_reset_link'') (\<lambda>path.
     bindT (LoadTenantBranding E h) (\<lambda>branding.
     bindT (LoadSenderAddress E h) (\<lambda>(n, a).
       let d = \<lparr>rd_firstName = p_firstName r, rd_email = p_email r,
                rd_secret = base64_encode E secretBytes,
                rd_resetPath = (if path = [] then ''reset-password'' else path),
                rd_ttlMinutes = ttlMinutes\<rparr>
       in ret \<lparr>m_fromName = n, m_fromAddress = a,
               m_toName = p_firstName r @ '' '' @ p_lastName r, m_toAddress = p_email r,
               m_subject = GeneratePasswordResetMailSubject branding,
               m_bodyHtml = GeneratePasswordResetMailBody d branding\<rparr>)))"

definition RequestReset :: "env \<Rightarrow> SecretsHelper option \<Rightarrow> bool \<Rightarrow> string \<Rightarrow> int tx" where
  "RequestReset E S mail em =
     (case S of None \<Rightarrow> throw (InvalidArgument ''PasswordResetHelper::RequestReset - secrets is null'')
      | Some h \<Rightarrow> bindT (LookupPersonByEmail E em) (\<lambda>person.
          case person of None \<Rightarrow> ret 0
          | Some r \<Rightarrow>
              bindT (RandomBytes E kSecretBytes) (\<lambda>secretBytes.
              bindT (LookupTtlMinutes E h) (\<lambda>ttlMinutes.
              bindT (now_us E) (\<lambda>nowUs.
              bindT (lift (cpp_int64 (ttlMinutes * kMinuteUs))) (\<lambda>ttlUs.
              bindT (lift (cpp_int64 (nowUs + ttlUs))) (\<lambda>expiresAt.
              bindT (ReplaceForPerson E (p_id r) (HashBinary E secretBytes) expiresAt) (\<lambda>_.
              bindT (ResetMail E h r secretBytes ttlMinutes) (\<lambda>message.
              bindT (if mail then QueueJob (SendMailJob message) else ret ()) (\<lambda>_.
                ret (p_id r)))))))))))"

section \<open>Using a link\<close>

datatype PasswordResetOutcome = Success | InvalidLink | PasswordRejected

text \<open>What a presented secret that matches sets off.\<close>

definition ApplyReset ::
  "env \<Rightarrow> SecretsHelper option \<Rightarrow> PersonRow \<Rightarrow> string \<Rightarrow> (PasswordResetOutcome \<times> int) tx" where
  "ApplyReset E S r newPassword =
     bindT (if p_emailVerifiedAt r = None then VerifyPersonEmailRow E (p_email r) else ret ()) (\<lambda>_.
     bindT (UpdatePassword E (p_email r) newPassword S) (\<lambda>ok.
       if \<not> ok
       then throw (RuntimeError ''PasswordResetHelper::CompleteReset - password update failed'')
       else
         bindT (SetMustChangePassword E (p_id r) False) (\<lambda>_.
         bindT (ClearLoginLockout E (p_id r)) (\<lambda>_.
         bindT (DeleteForPerson (p_id r)) (\<lambda>_.
         bindT (LogoutPerson (p_id r)) (\<lambda>_.
           ret (Success, p_id r)))))))"

definition CompleteReset ::
  "env \<Rightarrow> SecretsHelper option \<Rightarrow> string \<Rightarrow> string \<Rightarrow> string \<Rightarrow> (PasswordResetOutcome \<times> int) tx" where
  "CompleteReset E S em secret newPassword =
     (if newPassword = [] then ret (PasswordRejected, 0)
      else bindT (LookupPersonByEmail E em) (\<lambda>person.
        case person of None \<Rightarrow> ret (InvalidLink, 0)
        | Some r \<Rightarrow>
            bindT (IncrementAttempts E (p_id r) kAttemptLimit) (\<lambda>link.
              case link of None \<Rightarrow> ret (InvalidLink, 0)
              | Some l \<Rightarrow>
                  if \<not> ConstantTimeEqual (r_tokenHash l) (HashPresentedSecret E secret)
                  then bindT (if kAttemptLimit \<le> r_attempts l then DeleteForPerson (p_id r) else ret ())
                         (\<lambda>_. ret (InvalidLink, 0))
                  else ApplyReset E S r newPassword)))"

section \<open>What a reset changes\<close>

lemma update_people_Inr:
  "update_people E P f w = (Inr (), w') \<longleftrightarrow>
   \<not> aborted w \<and> w' = ticked (w\<lparr>people := map (\<lambda>r. if P r then f (now_of E w) r else r) (people w)\<rparr>)"
  by (auto simp: update_people_def stmt_Inr)

lemma IncrementAttempts_Some:
  assumes "IncrementAttempts E pid limit w = (Inr (Some x), w')"
  obtains r where "r \<in> set (password_reset_tokens w)" "claimable_r (now_of E w) pid limit r" "x = bump_r r"
    "people w' = people w" "sessions w' = sessions w" "device_tokens w' = device_tokens w"
proof -
  have P: "people w' = people w" "sessions w' = sessions w" "device_tokens w' = device_tokens w"
    using assms by (auto simp: IncrementAttempts_def stmt_Inr Let_def split: if_splits)
  from assms show thesis
  proof (cases rule: IncrementAttempts_cases)
    case run
    then obtain r where "List.find (claimable_r (now_of E w) pid limit) (password_reset_tokens w) = Some r" "x = bump_r r"
      by (cases "List.find (claimable_r (now_of E w) pid limit) (password_reset_tokens w)") auto
    with P that show thesis using find_SomeD by metis
  qed simp
qed

lemma HashForPerson_Inr:
  assumes "HashForPerson E S password w = (Inr h, w')"
  obtains salt ops mem where "pwhash_str E salt password ops mem = Some h" "people w' = people w"
proof -
  have hp: "\<exists>salt. pwhash_str E salt password ops mem = Some h \<and> people w' = people v"
    if "HashPassword E password ops mem v = (Inr h, w')" for v ops mem
    using that by (auto simp: HashPassword_def split: option.splits)
  show thesis
  proof (cases S)
    case None
    then show ?thesis using assms hp that by (fastforce simp: HashForPerson_def)
  next
    case (Some s)
    then obtain ops mem v where "HashPassword E password ops mem v = (Inr h, w')" "v = w"
      using assms by (auto simp: HashForPerson_def HashPasswordWithSecrets_def run_simps split: prod.splits
          dest!: LookupSecret_state)
    then show ?thesis using hp that by blast
  qed
qed

lemma UpdatePassword_True:
  assumes "UpdatePassword E em password S w = (Inr True, w')"
  obtains r salt ops mem h now where "List.find (person_key E em) (people w) = Some r" "p_emailVerifiedAt r \<noteq> None"
    "pwhash_str E salt password ops mem = Some h"
    "people w' = map (\<lambda>q. if p_id q = p_id r then q\<lparr>p_passwordHash := h, p_updatedAt := now\<rparr> else q) (people w)"
proof -
  from assms obtain r h w1 where r: "List.find (person_key E em) (people w) = Some r" "p_emailVerifiedAt r \<noteq> None"
    and h: "HashForPerson E S password w = (Inr h, w1)" and u: "UpdatePasswordRow E (p_id r) h w1 = (Inr (), w')"
    unfolding UpdatePassword_def by (auto simp: run_simps IsVerified_def)
  obtain salt ops mem where s: "pwhash_str E salt password ops mem = Some h" "people w1 = people w"
    using h by (rule HashForPerson_Inr)
  from u s(2) have "people w' = map (\<lambda>q. if p_id q = p_id r then q\<lparr>p_passwordHash := h, p_updatedAt := now_of E w1\<rparr> else q) (people w)"
    by (simp add: UpdatePasswordRow_def update_people_Inr)
  with r s(1) that show thesis by blast
qed

lemma person_key_trans: "person_key E em r \<Longrightarrow> person_key E (p_email r) = person_key E em"
  by (auto simp: person_key_def fun_eq_iff)

lemma VerifyPersonEmailRow_ids:
  "VerifyPersonEmailRow E em w = (Inr (), w') \<Longrightarrow>
   map p_id (people w') = map p_id (people w) \<and> map p_email (people w') = map p_email (people w)"
  by (auto simp: VerifyPersonEmailRow_def run_simps update_people_Inr)

lemma find_same_key:
  "map p_email ys = map p_email xs \<Longrightarrow> map p_id ys = map p_id xs \<Longrightarrow>
   map_option p_id (List.find (person_key E em) ys) = map_option p_id (List.find (person_key E em) xs)"
proof (induction xs arbitrary: ys)
  case (Cons x xs)
  then obtain y ys' where ys: "ys = y # ys'" by (cases ys) auto
  with Cons.prems have same: "p_email y = p_email x" "p_id y = p_id x"
    and "map p_email ys' = map p_email xs" "map p_id ys' = map p_id xs" by simp_all
  then have "map_option p_id (List.find (person_key E em) ys') = map_option p_id (List.find (person_key E em) xs)"
    by (intro Cons.IH)
  with same ys show ?case by (simp add: person_key_def [abs_def])
qed simp

lemma CompleteReset_run:
  "CompleteReset E S em secret newPassword w = (Inr (outcome, pid), w') \<longleftrightarrow>
   (newPassword = [] \<and> outcome = PasswordRejected \<and> pid = 0 \<and> w' = w) \<or>
   (newPassword \<noteq> [] \<and> \<not> aborted w \<and>
     (case List.find (person_key E em) (people w) of
        None \<Rightarrow> outcome = InvalidLink \<and> pid = 0 \<and> w' = w
      | Some r \<Rightarrow> \<exists>link w1. IncrementAttempts E (p_id r) kAttemptLimit w = (Inr link, w1) \<and>
          (case link of
             None \<Rightarrow> outcome = InvalidLink \<and> pid = 0 \<and> w' = w1
           | Some l \<Rightarrow>
               if r_tokenHash l = HashPresentedSecret E secret
               then ApplyReset E S r newPassword w1 = (Inr (outcome, pid), w')
               else outcome = InvalidLink \<and> pid = 0 \<and>
                 (if kAttemptLimit \<le> r_attempts l then DeleteForPerson (p_id r) w1 = (Inr (), w') else w' = w1))))"
proof (cases "newPassword = []")
  case True
  then show ?thesis by (auto simp: CompleteReset_def ret_run)
next
  case False
  show ?thesis
  proof (cases "List.find (person_key E em) (people w)")
    case None
    with False show ?thesis
      unfolding CompleteReset_def by (auto simp: bindT_Inr_iff LookupPersonByEmail_run ret_run)
  next
    case (Some r)
    have step: "(case link of None \<Rightarrow> ret (InvalidLink, 0)
        | Some l \<Rightarrow>
            if \<not> ConstantTimeEqual (r_tokenHash l) (HashPresentedSecret E secret)
            then bindT (if kAttemptLimit \<le> r_attempts l then DeleteForPerson (p_id r) else ret ())
                   (\<lambda>_. ret (InvalidLink, 0))
            else ApplyReset E S r newPassword) w1 = (Inr (outcome, pid), w') \<longleftrightarrow>
      (case link of
             None \<Rightarrow> outcome = InvalidLink \<and> pid = 0 \<and> w' = w1
           | Some l \<Rightarrow>
               if r_tokenHash l = HashPresentedSecret E secret
               then ApplyReset E S r newPassword w1 = (Inr (outcome, pid), w')
               else outcome = InvalidLink \<and> pid = 0 \<and>
                 (if kAttemptLimit \<le> r_attempts l then DeleteForPerson (p_id r) w1 = (Inr (), w') else w' = w1))"
      for link w1
      by (cases link) (auto simp: ConstantTimeEqual_iff bindT_Inr_iff ret_run)
    show ?thesis
      unfolding CompleteReset_def
      using False Some by (simp add: bindT_Inr_iff LookupPersonByEmail_run step)
  qed
qed

lemma CompleteReset_SuccessD:
  assumes "CompleteReset E S em secret newPassword w = (Inr (Success, pid), w')"
  obtains r l w1 where "newPassword \<noteq> []" "List.find (person_key E em) (people w) = Some r"
    "IncrementAttempts E (p_id r) kAttemptLimit w = (Inr (Some l), w1)"
    "r_tokenHash l = HashPresentedSecret E secret" "ApplyReset E S r newPassword w1 = (Inr (Success, pid), w')"
  using assms unfolding CompleteReset_run by (auto split: option.splits if_splits)

lemma ApplyReset_SuccessD:
  assumes "ApplyReset E S r newPassword w = (Inr (Success, pid), w')"
  obtains w1 w2 w3 w4 w5 where "pid = p_id r"
    "(p_emailVerifiedAt r = None \<and> VerifyPersonEmailRow E (p_email r) w = (Inr (), w1)) \<or>
     (p_emailVerifiedAt r \<noteq> None \<and> w1 = w)"
    "UpdatePassword E (p_email r) newPassword S w1 = (Inr True, w2)"
    "SetMustChangePassword E pid False w2 = (Inr (), w3)" "ClearLoginLockout E pid w3 = (Inr (), w4)"
    "DeleteForPerson pid w4 = (Inr (), w5)" "LogoutPerson pid w5 = (Inr (), w')"
  using assms unfolding ApplyReset_def
  by (auto simp: bindT_Inr_iff ret_run throw_run split: if_splits)

text \<open>What a reset leaves: the new password, a clean account, no link and no one signed in.\<close>

lemma ApplyReset_effect:
  assumes "ApplyReset E S r newPassword w = (Inr (Success, pid), w')"
    and "List.find (person_key E em) (people w) = Some r"
  shows "pid = p_id r" "\<forall>s \<in> set (sessions w'). s_personId s \<noteq> pid" "\<forall>d \<in> set (device_tokens w'). d_personId d \<noteq> pid"
    "\<forall>t \<in> set (password_reset_tokens w'). r_personId t \<noteq> pid"
    "\<exists>salt ops mem h. pwhash_str E salt newPassword ops mem = Some h \<and>
       (\<forall>q \<in> set (people w'). p_id q = pid \<longrightarrow> p_passwordHash q = h \<and> \<not> p_mustChangePassword q \<and>
          p_failedLoginAttempts q = 0 \<and> p_lockedUntil q = None)"
proof -
  obtain w1 w2 w3 w4 w5 where pid: "pid = p_id r"
    and v: "(p_emailVerifiedAt r = None \<and> VerifyPersonEmailRow E (p_email r) w = (Inr (), w1)) \<or>
     (p_emailVerifiedAt r \<noteq> None \<and> w1 = w)"
    and u: "UpdatePassword E (p_email r) newPassword S w1 = (Inr True, w2)"
    and m: "SetMustChangePassword E pid False w2 = (Inr (), w3)" and c: "ClearLoginLockout E pid w3 = (Inr (), w4)"
    and d: "DeleteForPerson pid w4 = (Inr (), w5)" and l: "LogoutPerson pid w5 = (Inr (), w')"
    using assms(1) by (rule ApplyReset_SuccessD)
  show "pid = p_id r" by (rule pid)
  obtain w6 where l1: "RemoveDeviceTokensForUser pid w5 = (Inr (), w6)" and l2: "RemoveSessionsForUser pid w6 = (Inr (), w')"
    using l by (auto simp: LogoutPerson_def run_simps)
  have f: "device_tokens w' = device_tokens w6" "password_reset_tokens w' = password_reset_tokens w5"
    using l1 l2 by (auto simp: RemoveDeviceTokensForUser_def RemoveSessionsForUser_def run_simps)
  show "\<forall>s \<in> set (sessions w'). s_personId s \<noteq> pid" using owned_sessions.none_left [OF l2] by blast
  show "\<forall>d \<in> set (device_tokens w'). d_personId d \<noteq> pid" using owned_devices.none_left [OF l1] f(1) by simp
  show "\<forall>t \<in> set (password_reset_tokens w'). r_personId t \<noteq> pid" using owned_resets.none_left [OF d] f(2) by simp
  have people: "people w' = people w4"
    using owned_sessions.remove_rows [OF l2] owned_devices.remove_rows [OF l1] owned_resets.remove_rows [OF d] by simp
  obtain r1 salt ops mem h now where r1: "List.find (person_key E (p_email r)) (people w1) = Some r1"
    and h: "pwhash_str E salt newPassword ops mem = Some h"
    and w2: "people w2 = map (\<lambda>q. if p_id q = p_id r1 then q\<lparr>p_passwordHash := h, p_updatedAt := now\<rparr> else q) (people w1)"
    using u by (rule UpdatePassword_True)
  have "map p_id (people w1) = map p_id (people w) \<and> map p_email (people w1) = map p_email (people w)"
    using v VerifyPersonEmailRow_ids by blast
  then have "map_option p_id (List.find (person_key E (p_email r)) (people w1))
      = map_option p_id (List.find (person_key E (p_email r)) (people w))"
    by (intro find_same_key) simp_all
  moreover have "person_key E (p_email r) = person_key E em"
    using find_SomeD [OF assms(2)] by (intro person_key_trans) blast
  ultimately have "p_id r1 = pid"
    using r1 assms(2) pid by simp
  then show "\<exists>salt ops mem h. pwhash_str E salt newPassword ops mem = Some h \<and>
       (\<forall>q \<in> set (people w'). p_id q = pid \<longrightarrow> p_passwordHash q = h \<and> \<not> p_mustChangePassword q \<and>
          p_failedLoginAttempts q = 0 \<and> p_lockedUntil q = None)"
    using h m c w2 people
    by (intro exI [of _ salt] exI [of _ ops] exI [of _ mem] exI [of _ h])
       (auto simp: SetMustChangePassword_def ClearLoginLockout_def update_people_Inr split: if_splits)
qed

section \<open>Properties\<close>

text \<open>
  C4. A completed password reset was asked for by the right secret: the account has a link whose
  stored hash is the hash of the presented secret, unexpired and with attempts left. Afterwards the
  account carries a hash of the new password, no must-change flag, no failures and no lock; and no
  session, remember-me token or reset link of the person is left.
\<close>

theorem CompleteReset_sound:
  assumes "CompleteReset E S em secret newPassword w = (Inr (Success, pid), w')"
  shows "(\<exists>l \<in> set (password_reset_tokens w). r_personId l = pid \<and> r_attempts l < kAttemptLimit \<and>
        now_of E w < r_expiresAt l \<and> r_tokenHash l = HashPresentedSecret E secret) \<and>
    (\<forall>s \<in> set (sessions w'). s_personId s \<noteq> pid) \<and> (\<forall>d \<in> set (device_tokens w'). d_personId d \<noteq> pid) \<and>
    (\<forall>t \<in> set (password_reset_tokens w'). r_personId t \<noteq> pid) \<and>
    (\<exists>salt ops mem h. pwhash_str E salt newPassword ops mem = Some h \<and>
       (\<forall>q \<in> set (people w'). p_id q = pid \<longrightarrow> p_passwordHash q = h \<and> \<not> p_mustChangePassword q \<and>
          p_failedLoginAttempts q = 0 \<and> p_lockedUntil q = None))"
proof -
  obtain r x w1 where r: "List.find (person_key E em) (people w) = Some r"
    and inc: "IncrementAttempts E (p_id r) kAttemptLimit w = (Inr (Some x), w1)"
    and hash: "r_tokenHash x = HashPresentedSecret E secret"
    and app: "ApplyReset E S r newPassword w1 = (Inr (Success, pid), w')"
    using assms by (rule CompleteReset_SuccessD)
  obtain l where l: "l \<in> set (password_reset_tokens w)" "claimable_r (now_of E w) (p_id r) kAttemptLimit l"
    "x = bump_r l" "people w1 = people w"
    using inc by (rule IncrementAttempts_Some)
  note eff = ApplyReset_effect [OF app, of em, unfolded l(4), OF r]
  show ?thesis
    using l(1,2) hash eff unfolding l(3) by (auto simp: claimable_r_def bump_r_def)
qed

definition reset_world :: world where
  "reset_world = demo_world\<lparr>password_reset_tokens :=
     [\<lparr>r_id = 1, r_personId = 7, r_tokenHash = ''6162'', r_expiresAt = 100, r_attempts = 3, r_createdAt = 0\<rparr>],
     sessions := [demo_session], device_tokens := [demo_device]\<rparr>"

lemmas reset_eval = CompleteReset_def ApplyReset_def UpdatePassword_def HashForPerson_def HashPassword_def
  UpdatePasswordRow_def SetMustChangePassword_def ClearLoginLockout_def update_people_def DeleteForPerson_def
  LogoutPerson_def RemoveDeviceTokensForUser_def RemoveSessionsForUser_def LookupPersonByEmail_def
  IncrementAttempts_def ConstantTimeEqual_iff bindT_def ret_def query_def stmt_def reset_world_def demo_world_def
  emptyWorld_def demo_person_def person_key_def IsVerified_def claimable_r_def bump_r_def now_of_def ticked_def
  Let_def RandomBytes_def kAttemptLimit_def in_i32_def

theorem CompleteReset_sound_witness:
  "\<exists>w'. CompleteReset demoEnv None ''ann@example.org'' ''ab'' ''new'' reset_world = (Inr (Success, 7), w') \<and>
     (\<forall>s \<in> set (sessions w'). s_personId s \<noteq> 7) \<and> (\<forall>d \<in> set (device_tokens w'). d_personId d \<noteq> 7)"
proof -
  let ?r = "CompleteReset demoEnv None ''ann@example.org'' ''ab'' ''new'' reset_world"
  have hash: "HashPresentedSecret demoEnv ''ab'' = ''6162''" by code_simp
  have "fst ?r = Inr (Success, 7)"
    by (simp add: reset_eval hash) (simp add: reset_eval demoEnv_def)
  then have eq: "?r = (Inr (Success, 7), snd ?r)" by (metis prod.collapse)
  from CompleteReset_sound [OF eq] eq show ?thesis by blast
qed

text \<open>
  A refused reset changes no account and signs nobody out: with a wrong or expired link, an
  unknown address or an empty password, people, sessions and device tokens stay as they were.
\<close>

theorem CompleteReset_refused:
  assumes "CompleteReset E S em secret newPassword w = (Inr (outcome, pid), w')" "outcome \<noteq> Success"
  shows "pid = 0 \<and> people w' = people w \<and> sessions w' = sessions w \<and> device_tokens w' = device_tokens w"
proof -
  have inc: "people v = people u \<and> sessions v = sessions u \<and> device_tokens v = device_tokens u"
    if "IncrementAttempts E p n u = (Inr x, v)" for p n u x v
    using that by (auto simp: IncrementAttempts_def stmt_Inr Let_def split: if_splits)
  have del: "people v = people u \<and> sessions v = sessions u \<and> device_tokens v = device_tokens u"
    if "DeleteForPerson p u = (Inr x, v)" for p u x v
    using that by (auto simp: DeleteForPerson_def stmt_Inr)
  have app: "outcome = Success" if "ApplyReset E S r newPassword u = (Inr (outcome, pid), v)" for r u v
    using that by (auto simp: ApplyReset_def bindT_Inr_iff ret_run throw_run split: if_splits)
  show ?thesis
  proof (cases "List.find (person_key E em) (people w)")
    case None
    with assms show ?thesis unfolding CompleteReset_run by auto
  next
    case (Some r)
    show ?thesis
    proof (cases "newPassword = []")
      case True
      with assms(1) show ?thesis unfolding CompleteReset_run by simp
    next
      case False
      with assms(1) Some obtain link w1 where 1: "IncrementAttempts E (p_id r) kAttemptLimit w = (Inr link, w1)"
        and 2: "case link of None \<Rightarrow> outcome = InvalidLink \<and> pid = 0 \<and> w' = w1
          | Some l \<Rightarrow> if r_tokenHash l = HashPresentedSecret E secret
               then ApplyReset E S r newPassword w1 = (Inr (outcome, pid), w')
               else outcome = InvalidLink \<and> pid = 0 \<and>
                 (if kAttemptLimit \<le> r_attempts l then DeleteForPerson (p_id r) w1 = (Inr (), w') else w' = w1)"
        unfolding CompleteReset_run by simp blast
      have "pid = 0 \<and> (w' = w1 \<or> DeleteForPerson (p_id r) w1 = (Inr (), w'))"
      proof (cases link)
        case None
        with 2 show ?thesis by simp
      next
        case (Some l)
        with 2 app [of r w1 w'] assms(2) show ?thesis by (simp split: if_splits)
      qed
      with inc [OF 1] del show ?thesis by metis
    qed
  qed
qed

theorem CompleteReset_refused_witness:
  "\<exists>w'. CompleteReset demoEnv None ''ann@example.org'' ''wrong'' ''new'' reset_world = (Inr (InvalidLink, 0), w') \<and>
     people w' = people reset_world \<and> sessions w' = sessions reset_world"
proof -
  let ?r = "CompleteReset demoEnv None ''ann@example.org'' ''wrong'' ''new'' reset_world"
  have hash: "HashPresentedSecret demoEnv ''wrong'' = ''7772''" by code_simp
  have "fst ?r = Inr (InvalidLink, 0)"
    by (simp add: reset_eval hash)
  then have eq: "?r = (Inr (InvalidLink, 0), snd ?r)" by (metis prod.collapse)
  from CompleteReset_refused [OF eq] eq show ?thesis by blast
qed

end
