(* ===== verification/Endpoints.thy ===== *)
theory Endpoints
  imports PasswordReset
begin

text \<open>
  The authentication endpoints: \<open>login.cpp\<close>, \<open>verify.cpp\<close>, \<open>forgot_password.cpp\<close> and
  \<open>reset_password.cpp\<close> (\<open>components/platform/endpoints/\<close>), from the parsed request body to the
  response, each in its one transaction. The client address and user agent are arguments
  (\<open>Auth::ResolveClientIp\<close> and a request header).
\<close>

section \<open>Requests, responses and transactions\<close>

text \<open>A parsed body: the fields of a JSON object, or \<open>None\<close> when it is no object.\<close>

datatype jfield = JString string | JBool bool | JOther

type_synonym message = "(string \<times> jfield) list option"

datatype response =
    RespOk
  | RespInvalidCredentials
  | RespTooManyAttempts
  | RespValidationError string
  | RespNotAuthenticated
  | RespBadRequest string
  | RespFound string

definition string_child :: "message \<Rightarrow> string \<Rightarrow> string option" where
  "string_child m k =
     (case m of None \<Rightarrow> None | Some kvs \<Rightarrow>
       (case map_of kvs k of Some (JString s) \<Rightarrow> Some s | _ \<Rightarrow> None))"

definition bool_child :: "message \<Rightarrow> string \<Rightarrow> bool option" where
  "bool_child m k =
     (case m of None \<Rightarrow> None | Some kvs \<Rightarrow>
       (case map_of kvs k of Some (JBool b) \<Rightarrow> Some b | _ \<Rightarrow> None))"

text \<open>A required, non-empty string field.\<close>

definition required_child :: "message \<Rightarrow> string \<Rightarrow> string option" where
  "required_child m k = (case string_child m k of Some s \<Rightarrow> if s = [] then None else Some s | None \<Rightarrow> None)"

text \<open>
  \<open>RunInTransaction\<close>: a normal return commits, an exception rolls the tables back and is passed on.
  Sequences, the clock and what lies outside the database are not rolled back; committing an aborted
  transaction rolls it back.
\<close>

definition rolled_back :: "world \<Rightarrow> world \<Rightarrow> world" where
  "rolled_back w w' = w'\<lparr>people := people w, sessions := sessions w, device_tokens := device_tokens w,
     email_verifications := email_verifications w, password_reset_tokens := password_reset_tokens w,
     login_attempts := login_attempts w, auth_events := auth_events w, admin_alerts := admin_alerts w,
     roles := roles w, permissions := permissions w, role_permissions := role_permissions w,
     role_assignments := role_assignments w, config_secrets := config_secrets w,
     admin_table_permissions := admin_table_permissions w,
     admin_top_level_tables := admin_top_level_tables w, admin_nested_tables := admin_nested_tables w,
     allowed_tables := allowed_tables w, aborted := False\<rparr>"

definition RunInTransaction :: "env \<Rightarrow> 'a tx \<Rightarrow> 'a tx" where
  "RunInTransaction E m w =
     (let w0 = w\<lparr>tx_start := now_of E w, aborted := False\<rparr> in
      case m w0 of
        (Inl e, w') \<Rightarrow> (Inl e, rolled_back w w')
      | (Inr x, w') \<Rightarrow> (Inr x, if aborted w' then rolled_back w w' else w'))"

section \<open>Login\<close>

definition EnqueueAttemptRecord :: "string \<Rightarrow> string \<Rightarrow> string \<Rightarrow> bool \<Rightarrow> unit tx" where
  "EnqueueAttemptRecord em ip kind ok = QueueJob (RecordAttemptJob GlobalProvider em ip kind ok)"

definition email_detail :: "string \<Rightarrow> string" where
  "email_detail em = ''{\"email\":\"'' @ em @ ''\"}''"

text \<open>The branch of a refused password, and the branch of an accepted one.\<close>

definition LoginRefused ::
  "env \<Rightarrow> LoginAttemptResult \<Rightarrow> string \<Rightarrow> string \<Rightarrow> string \<Rightarrow> response tx" where
  "LoginRefused E res em ip ua =
     bindT (RecordEvent E ''login_failure'' (personId res) ip ua (email_detail em)) (\<lambda>_.
     bindT (if justLocked res
            then RecordEvent E ''account_locked'' (personId res) ip ua (email_detail em)
            else ret ()) (\<lambda>_.
     bindT (EnqueueAttemptRecord em ip ''login'' False) (\<lambda>_. ret RespInvalidCredentials)))"

definition LoginAccepted ::
  "env \<Rightarrow> SecretsHelper \<Rightarrow> LoginAttemptResult \<Rightarrow> string \<Rightarrow> bool \<Rightarrow> string \<Rightarrow> string \<Rightarrow> response tx" where
  "LoginAccepted E h res em remember ip ua =
     bindT (CreateSessionToken E (Some h) em) (\<lambda>token.
       case token of None \<Rightarrow> ret RespInvalidCredentials
       | Some t \<Rightarrow>
           bindT (\<lambda>w. (Inr (cookie_manager w), w)) (\<lambda>cm.
           if cm = None then ret RespInvalidCredentials
           else bindT (catchT (bindT (InitializeFromLogin E (Some h) t em remember) (\<lambda>_. ret True))
                         (\<lambda>e. case e of DbFailure _ \<Rightarrow> throw e | _ \<Rightarrow> ret False)) (\<lambda>signedIn.
           if \<not> signedIn then ret RespInvalidCredentials
           else bindT (LookupSecret E h ''website_address'') (\<lambda>websiteAddress.
           if websiteAddress = [] then ret RespInvalidCredentials
           else bindT (RecordEvent E ''login_success'' (personId res) ip ua []) (\<lambda>_.
                bindT (EnqueueAttemptRecord em ip ''login'' True) (\<lambda>_. ret RespOk))))))"

definition LoginTx ::
  "env \<Rightarrow> SecretsHelper option \<Rightarrow> string \<Rightarrow> string \<Rightarrow> bool \<Rightarrow> string \<Rightarrow> string \<Rightarrow> response tx" where
  "LoginTx E S em password remember ip ua =
     (case S of None \<Rightarrow> ret RespInvalidCredentials
      | Some h \<Rightarrow>
          bindT (CheckBeforeLogin E S em ip) (\<lambda>gateResult.
            if gateResult \<noteq> Allow then ret RespTooManyAttempts
            else bindT (LoginPerson E S em password) (\<lambda>res.
              if \<not> success res then LoginRefused E res em ip ua
              else LoginAccepted E h res em remember ip ua)))"

definition Login :: "env \<Rightarrow> SecretsHelper option \<Rightarrow> message \<Rightarrow> string \<Rightarrow> string \<Rightarrow> response tx" where
  "Login E S m ip ua =
     (case (string_child m ''email'', string_child m ''password'', bool_child m ''remember'') of
        (Some em, Some password, Some remember) \<Rightarrow>
          RunInTransaction E (LoginTx E S em password remember ip ua)
      | _ \<Rightarrow> ret RespInvalidCredentials)"

section \<open>E-mail verification\<close>

definition VerifyTx :: "env \<Rightarrow> SecretsHelper option \<Rightarrow> string \<Rightarrow> string \<Rightarrow> string \<Rightarrow> string \<Rightarrow> response tx" where
  "VerifyTx E S em encodedSecret ip ua =
     bindT (CheckBeforeVerify E S ip) (\<lambda>gateResult.
       if gateResult \<noteq> Allow then ret RespTooManyAttempts
       else bindT (catchT (bindT (VerifyPersonEmail E S em encodedSecret) (\<lambda>_. ret True)) (\<lambda>_. ret False)) (\<lambda>ok.
            bindT (if ok
                   then bindT (catchT (bindT (LookupPersonByEmail E em) (\<lambda>p.
                                 ret (case p of None \<Rightarrow> 0 | Some r \<Rightarrow> p_id r))) (\<lambda>_. ret 0)) (\<lambda>pid.
                        RecordEvent E ''email_verified'' pid ip ua (email_detail em))
                   else ret ()) (\<lambda>_.
            bindT (QueueJob (RecordAttemptJob GlobalProvider em ip ''verify'' ok)) (\<lambda>_.
              ret (if ok then RespOk else RespValidationError ''verification failed or expired'')))))"

definition Verify :: "env \<Rightarrow> SecretsHelper option \<Rightarrow> message \<Rightarrow> string \<Rightarrow> string \<Rightarrow> response tx" where
  "Verify E S m ip ua =
     (if m = None then ret (RespValidationError ''Request body required'')
      else case required_child m ''email'' of
        None \<Rightarrow> ret (RespValidationError ''email is required'')
      | Some em \<Rightarrow> (case required_child m ''secret'' of
          None \<Rightarrow> ret (RespValidationError ''secret is required'')
        | Some secret \<Rightarrow> RunInTransaction E (VerifyTx E S em secret ip ua)))"

section \<open>Forgotten passwords\<close>

definition ForgotPasswordTx ::
  "env \<Rightarrow> SecretsHelper option \<Rightarrow> bool \<Rightarrow> string \<Rightarrow> string \<Rightarrow> string \<Rightarrow> response tx" where
  "ForgotPasswordTx E S mail em ip ua =
     bindT (CheckBeforeForgotPassword E S em ip) (\<lambda>gateResult.
       if gateResult \<noteq> Allow then ret RespTooManyAttempts
       else bindT (RequestReset E S mail em) (\<lambda>pid.
            bindT (if 0 < pid then RecordEvent E ''password_reset_requested'' pid ip ua [] else ret ()) (\<lambda>_.
            bindT (QueueJob (RecordAttemptJob RequestProvider em ip ''password_reset_request'' True)) (\<lambda>_.
              ret RespOk))))"

definition ForgotPassword ::
  "env \<Rightarrow> SecretsHelper option \<Rightarrow> bool \<Rightarrow> message \<Rightarrow> string \<Rightarrow> string \<Rightarrow> response tx" where
  "ForgotPassword E S mail m ip ua =
     (case required_child m ''email'' of
        None \<Rightarrow> ret (RespValidationError ''email is required'')
      | Some em \<Rightarrow> RunInTransaction E (ForgotPasswordTx E S mail em ip ua))"

definition kInvalidLink :: string where
  "kInvalidLink = ''reset link is invalid or expired''"

definition ResetPasswordTx ::
  "env \<Rightarrow> SecretsHelper option \<Rightarrow> string \<Rightarrow> string \<Rightarrow> string \<Rightarrow> string \<Rightarrow> string \<Rightarrow> response tx" where
  "ResetPasswordTx E S em secret newPassword ip ua =
     bindT (CheckBeforeResetPassword E S ip) (\<lambda>gateResult.
       if gateResult \<noteq> Allow then ret RespTooManyAttempts
       else bindT (CompleteReset E S em secret newPassword) (\<lambda>(outcome, pid).
            bindT (if outcome = Success then RecordEvent E ''password_reset_completed'' pid ip ua [] else ret ()) (\<lambda>_.
            bindT (QueueJob (RecordAttemptJob RequestProvider em ip ''password_reset'' (outcome = Success))) (\<lambda>_.
              ret (case outcome of Success \<Rightarrow> RespOk
                   | PasswordRejected \<Rightarrow> RespValidationError ''new_password is required''
                   | InvalidLink \<Rightarrow> RespValidationError kInvalidLink)))))"

definition ResetPassword :: "env \<Rightarrow> SecretsHelper option \<Rightarrow> message \<Rightarrow> string \<Rightarrow> string \<Rightarrow> response tx" where
  "ResetPassword E S m ip ua =
     (case required_child m ''email'' of
        None \<Rightarrow> ret (RespValidationError ''email is required'')
      | Some em \<Rightarrow> (case required_child m ''secret'' of
          None \<Rightarrow> ret (RespValidationError ''secret is required'')
        | Some secret \<Rightarrow> (case required_child m ''new_password'' of
            None \<Rightarrow> ret (RespValidationError ''new_password is required'')
          | Some newPassword \<Rightarrow> RunInTransaction E (ResetPasswordTx E S em secret newPassword ip ua))))"

section \<open>Requests along a relation\<close>

named_theorems frame_rules \<open>the steps of a request move along the relation of a frame\<close>

text \<open>
  A relation that does not look at what the request keeps outside the tables: cookies, session
  fields and random draws. The steps of signing in move along it when the writes to the tables do.
\<close>

locale request_frame = tx_frame R for R :: "world \<Rightarrow> world \<Rightarrow> bool" +
  assumes cookies: "R w (w\<lparr>cookie_manager := c\<rparr>)"
    and signed_in: "R w (w\<lparr>session_personId := pid\<rparr>)"
    and csrf: "R w (w\<lparr>session_csrfToken := t\<rparr>)"
    and draw: "R w (w\<lparr>draws := n\<rparr>)"
begin

declare rules [frame_rules]

lemma LookupSecret_rule [frame_rules]: "along R (LookupSecret E h k)"
  unfolding LookupSecret_def LookupSecretRow_def by (intro frame_rules)

lemma LookupInt64Secret_rule [frame_rules]: "along R (LookupInt64Secret E S k d)"
  unfolding LookupInt64Secret_def by (intro frame_rules)

lemma count_rule [frame_rules]: "along R (count_attempts E P n)"
  unfolding count_attempts_def by (intro frame_rules stmt_rule) (auto simp: ticked)

lemma gate_rule [frame_rules]: "along R (CheckBeforeLogin E S em ip)"
  unfolding CheckBeforeLogin_def IsAccountLocked_def count_defs by (intro frame_rules)

lemma LookupPersonByEmail_rule [frame_rules]: "along R (LookupPersonByEmail E em)"
  unfolding LookupPersonByEmail_def by (intro frame_rules)

lemma LookupSessionById_rule [frame_rules]: "along R (LookupSessionById i)"
  unfolding LookupSessionById_def by (intro frame_rules)

lemma LookupSessionByUuid_rule [frame_rules]: "along R (LookupSessionByUuid E t)"
  unfolding LookupSessionByUuid_def
  by (intro frame_rules stmt_rule) (auto simp: refl split: option.splits)

lemma LookupPersonIdBySessionToken_rule [frame_rules]: "along R (LookupPersonIdBySessionToken E t)"
  unfolding LookupPersonIdBySessionToken_def by (intro frame_rules)

lemma LookupDeviceTokenById_rule [frame_rules]: "along R (LookupDeviceTokenById i)"
  unfolding LookupDeviceTokenById_def by (intro frame_rules)

lemma RandomBytes_rule [frame_rules]: "along R (RandomBytes E n)"
  by (simp add: along_def RandomBytes_def draw)

lemma SetPersonId_rule [frame_rules]: "along R (SetPersonId pid)"
  by (simp add: along_def SetPersonId_def signed_in)

lemma csrf_rule [frame_rules]: "along R (\<lambda>w. (Inr (), w\<lparr>session_csrfToken := t\<rparr>))"
  by (simp add: along_def csrf)

lemma SetCookie_rule [frame_rules]: "along R (SetCookie k v p)"
  by (auto simp: along_def SetCookie_def refl cookies split: option.split)

lemma MaxAgeSecret_rule [frame_rules]: "along R (MaxAgeSecret E S k)"
  unfolding MaxAgeSecret_def by (intro frame_rules)

lemma BuildAuthCookieProperties_rule [frame_rules]: "along R (BuildAuthCookieProperties E S p h m)"
  unfolding BuildAuthCookieProperties_def by (intro frame_rules)

lemma SetCookieHelper_rule [frame_rules]: "along R (SetCookieHelper E S k v m)"
  unfolding SetCookieHelper_def by (intro frame_rules)

lemma SetCsrfTokenCookie_rule [frame_rules]: "along R (SetCsrfTokenCookie E S m)"
  unfolding SetCsrfTokenCookie_def by (intro frame_rules)

lemma SetDeviceTokenCookie_rule [frame_rules]: "along R (SetDeviceTokenCookie E S i s)"
  unfolding SetDeviceTokenCookie_def by (intro frame_rules)

lemma LoginPerson_rule:
  assumes "\<And>pid. along R (ResetFailures pid)" "\<And>pid T D. along R (CountFailure E pid T D)"
  shows "along R (LoginPerson E S em password)"
  unfolding LoginPerson_def by (intro frame_rules assms)

lemma CreateSessionToken_rule:
  assumes "\<And>pid d. along R (AddSession E pid d)"
  shows "along R (CreateSessionToken E S em)"
  unfolding CreateSessionToken_def by (intro frame_rules assms)

lemma InitializeFromLogin_rule:
  assumes "\<And>pid h d. along R (AddDeviceToken E pid h d)"
  shows "along R (InitializeFromLogin E S t em remember)"
proof -
  have device: "along R (CreateDeviceToken E S em)"
    unfolding CreateDeviceToken_def DeviceTokenHelper_def by (intro frame_rules assms)
  have "along R (bindT (LookupPersonIdBySessionToken E t) (\<lambda>pid.
        case pid of
          None \<Rightarrow> throw (RuntimeError ''Session::InitializeFromLogin - invalid session token'')
        | Some outPersonId \<Rightarrow>
            bindT (SetPersonId outPersonId) (\<lambda>_.
            bindT (MaxAgeSecret E S ''auth_session_max_duration_in_micros'') (\<lambda>maxAge.
            bindT (SetCookieHelper E S ''session_token'' t maxAge) (\<lambda>_.
            bindT (SetCsrfTokenCookie E S maxAge) (\<lambda>_.
              if remember
              then bindT (CreateDeviceToken E S em) (\<lambda>tok.
                     case tok of None \<Rightarrow> ret ()
                     | Some (tokenId, secret) \<Rightarrow> SetDeviceTokenCookie E S tokenId secret)
              else ret ()))))))"
    by (intro frame_rules device)
  then show ?thesis
    by (rule guard_rule) (simp only: InitializeFromLogin_def split: if_split, simp)
qed

lemma LoginAccepted_rule:
  assumes "\<And>pid d. along R (AddSession E pid d)" "\<And>pid h d. along R (AddDeviceToken E pid h d)"
    and "\<And>k pid i u d. along R (RecordEvent E k pid i u d)" "\<And>em ip ok. along R (EnqueueAttemptRecord em ip ''login'' ok)"
  shows "along R (LoginAccepted E h res em remember ip ua)"
proof -
  have exn: "along R (case e of DbFailure s \<Rightarrow> throw e | _ \<Rightarrow> ret False)" for e
    by (cases e) (simp_all add: rules)
  show ?thesis
    unfolding LoginAccepted_def
    by (intro frame_rules exn assms CreateSessionToken_rule InitializeFromLogin_rule)
qed

lemma LoginTx_rule:
  assumes "\<And>pid. along R (ResetFailures pid)" "\<And>pid T D. along R (CountFailure E pid T D)"
    and "\<And>pid d. along R (AddSession E pid d)" "\<And>pid h d. along R (AddDeviceToken E pid h d)"
    and "\<And>k pid i u d. along R (RecordEvent E k pid i u d)" "\<And>em ip ok. along R (EnqueueAttemptRecord em ip ''login'' ok)"
  shows "along R (LoginTx E S em password remember ip ua)"
  unfolding LoginTx_def LoginRefused_def
  by (intro frame_rules assms LoginPerson_rule LoginAccepted_rule)

end

section \<open>What a login does to the attempt ledger and to the job queue\<close>

definition global_login_jobs :: "world \<Rightarrow> world \<Rightarrow> bool" where
  "global_login_jobs w w' \<longleftrightarrow> login_attempts w' = login_attempts w \<and>
     (\<exists>js. jobs w' = jobs w @ js \<and>
        set js \<subseteq> {RecordAttemptJob GlobalProvider em ip ''login'' ok | em ip ok. True})"

interpretation ledger: request_frame global_login_jobs
proof
  fix u v w :: world
  assume "global_login_jobs u v" "global_login_jobs v w"
  then obtain js ks where "login_attempts v = login_attempts u" "login_attempts w = login_attempts v"
    "jobs v = jobs u @ js" "jobs w = jobs v @ ks"
    "set js \<subseteq> {RecordAttemptJob GlobalProvider em ip ''login'' ok | em ip ok. True}"
    "set ks \<subseteq> {RecordAttemptJob GlobalProvider em ip ''login'' ok | em ip ok. True}"
    by (auto simp: global_login_jobs_def)
  then show "global_login_jobs u w"
    unfolding global_login_jobs_def by (intro conjI exI [of _ "js @ ks"]) simp_all
qed (simp_all add: global_login_jobs_def)

lemma same_ledger: "login_attempts w' = login_attempts w \<Longrightarrow> jobs w' = jobs w \<Longrightarrow> global_login_jobs w w'"
  by (simp add: global_login_jobs_def)

lemma ledger_writes:
  "along global_login_jobs (ResetFailures pid)" "along global_login_jobs (CountFailure E pid T D)"
  "along global_login_jobs (AddSession E pid d)" "along global_login_jobs (AddDeviceToken E pid h d)"
  "along global_login_jobs (RecordEvent E k pid ip ua detail)"
  "along global_login_jobs (EnqueueAttemptRecord em ip ''login'' ok)"
  unfolding ResetFailures_def CountFailure_def AddSession_def AddDeviceToken_def RecordEvent_def
      apply (rule ledger.stmt_rule, auto simp: nextval_def Let_def same_ledger split: option.splits sum.splits if_splits)+
  apply (auto simp: along_def EnqueueAttemptRecord_def QueueJob_def global_login_jobs_def)
  done

lemma ledger_Login: "along global_login_jobs (Login E S m ip ua)"
proof -
  have "along global_login_jobs (RunInTransaction E (LoginTx E S em password remember ip ua))" for em password remember
    unfolding along_def
  proof
    fix w
    let ?w0 = "w\<lparr>tx_start := now_of E w, aborted := False\<rparr>"
    obtain r w' where m: "LoginTx E S em password remember ip ua ?w0 = (r, w')" by fastforce
    have "global_login_jobs ?w0 w'"
      using m by (rule ledger.alongD [rotated]) (intro ledger.LoginTx_rule ledger_writes)
    then show "global_login_jobs w (snd (RunInTransaction E (LoginTx E S em password remember ip ua) w))"
      by (auto simp: RunInTransaction_def m Let_def global_login_jobs_def rolled_back_def split: sum.split)
  qed
  then show ?thesis
    unfolding Login_def by (intro frame_rules)
qed

section \<open>What signing in adds to the sessions\<close>

interpretation session_rows: request_frame "\<lambda>w w'. sessions w' = sessions w"
  by unfold_locales simp_all

lemma session_writes:
  "along (\<lambda>w w'. sessions w' = sessions w) (ResetFailures pid)"
  "along (\<lambda>w w'. sessions w' = sessions w) (CountFailure E pid T D)"
  "along (\<lambda>w w'. sessions w' = sessions w) (AddDeviceToken E pid h d)"
  "along (\<lambda>w w'. sessions w' = sessions w) (RecordEvent E k pid ip ua detail)"
  "along (\<lambda>w w'. sessions w' = sessions w) (EnqueueAttemptRecord em ip ''login'' ok)"
  unfolding ResetFailures_def CountFailure_def AddDeviceToken_def RecordEvent_def
      apply (rule session_rows.stmt_rule, auto simp: nextval_def Let_def split: option.splits sum.splits if_splits)+
  apply (auto simp: along_def EnqueueAttemptRecord_def QueueJob_def)
  done

lemmas session_steps = session_rows.InitializeFromLogin_rule [OF session_writes(3)]
  session_rows.LoginPerson_rule [OF session_writes(1,2)] session_writes session_rows.LookupSecret_rule

lemma session_stepD:
  "along (\<lambda>w w'. sessions w' = sessions w) m \<Longrightarrow> m w = (r, w') \<Longrightarrow> sessions w' = sessions w"
  by (rule session_rows.alongD)

lemma CreateSessionToken_Some:
  assumes "CreateSessionToken E S em w = (Inr (Some t), w')"
  obtains r s where "List.find (person_key E em) (people w) = Some r" "p_emailVerifiedAt r \<noteq> None"
    "sessions w' = sessions w @ [s]" "s_personId s = p_id r" "\<not> s_revoked s"
proof -
  obtain r sid d row w1 h where r: "List.find (person_key E em) (people w) = Some r" "p_emailVerifiedAt r \<noteq> None"
    and add: "AddSession E (p_id r) d w = (Inr sid, w1)" and look: "LookupSessionById sid w1 = (Inr row, w')"
    using assms unfolding CreateSessionToken_def
    by (auto simp: run_simps IsVerified_def split: if_splits option.splits dest!: LookupSecret_state)
  have "w' = w1" using look by (auto simp: LookupSessionById_def run_simps)
  with AddSession_Inr(3) [OF add] r that show thesis by simp
qed

lemma LoginAccepted_RespOk:
  assumes "LoginAccepted E h res em remember ip ua w = (Inr RespOk, w')"
  obtains r s where "List.find (person_key E em) (people w) = Some r" "sessions w' = sessions w @ [s]"
    "s_personId s = p_id r" "\<not> s_revoked s"
proof -
  obtain t w1 w2 w3 site w4 w5 where
    c: "CreateSessionToken E (Some h) em w = (Inr (Some t), w1)"
    and i: "InitializeFromLogin E (Some h) t em remember w1 = (Inr (), w2)"
    and l: "LookupSecret E h ''website_address'' w2 = (Inr site, w3)"
    and e: "RecordEvent E ''login_success'' (personId res) ip ua [] w3 = (Inr (), w4)"
    and q: "EnqueueAttemptRecord em ip ''login'' True w4 = (Inr (), w')"
  proof -
    have signed: "\<exists>u. m v = (Inr u, v')"
      if "catchT (bindT m (\<lambda>_. ret True)) (\<lambda>e. case e of DbFailure _ \<Rightarrow> throw e | _ \<Rightarrow> ret False) v = (Inr True, v')"
      for m :: "unit tx" and v v'
      using that by (auto simp: catchT_def bindT_def ret_def throw_def split: prod.splits sum.splits exn.splits)
    from assms that show thesis
      unfolding LoginAccepted_def
      by (auto simp: bindT_Inr_iff ret_run split: option.splits if_splits dest!: signed)
  qed
  obtain r s where "List.find (person_key E em) (people w) = Some r" "sessions w1 = sessions w @ [s]"
    "s_personId s = p_id r" "\<not> s_revoked s"
    using c by (rule CreateSessionToken_Some)
  moreover have "sessions w2 = sessions w1" using i by (rule session_stepD [OF session_steps(1)])
  moreover have "sessions w3 = sessions w2" using l by (rule session_stepD [OF session_rows.LookupSecret_rule])
  moreover have "sessions w4 = sessions w3" using e by (rule session_stepD [OF session_writes(4)])
  moreover have "sessions w' = sessions w4" using q by (rule session_stepD [OF session_writes(5)])
  ultimately show thesis using that by simp
qed

lemma LoginPerson_successD:
  assumes "LoginPerson E S em password w = (Inr res, w')" "success res"
  obtains r where "good_login E em password w = Some r"
    "map p_id (people w') = map p_id (people w)" "map p_email (people w') = map p_email (people w)"
proof (cases "List.find (person_key E em) (people w)")
  case None
  then show thesis using assms unfolding LoginPerson_def by (auto simp: run_simps no_login_def)
next
  case (Some r)
  show thesis
  proof (cases "p_emailVerifiedAt r = None")
    case True
    then show thesis using assms Some unfolding LoginPerson_def by (auto simp: run_simps no_login_def IsVerified_def)
  next
    case False
    from assms Some False obtain T D n l w1 w2 where
      1: "LookupInt64Secret E S ''auth_account_lockout_after_failures'' 10 w = (Inr T, w1)"
        "LookupInt64Secret E S ''auth_account_lockout_duration_in_micros'' 1800000000 w1 = (Inr D, w2)"
      and 2: "pwhash_verify E (p_passwordHash r) password" "ResetFailures (p_id r) w2 = (Inr (n, l), w')"
      unfolding LoginPerson_def
      by (fastforce simp: run_simps IsVerified_def VerifyPasswordHash_def Let_def split: if_splits)
    have "w2 = w" using 1 LookupInt64Secret_state by blast
    with 2 have "people w' = map (\<lambda>q. if p_id q = p_id r
        then q\<lparr>p_failedLoginAttempts := 0, p_lockedUntil := None\<rparr> else q) (people w)"
      by (auto simp: ResetFailures_def stmt_Inr)
    then have "map p_id (people w') = map p_id (people w)" "map p_email (people w') = map p_email (people w)"
      by simp_all
    with that [of r] Some False 2(1) show thesis by (simp add: good_login_def)
  qed
qed

lemma LoginPerson_failsD:
  assumes "LoginPerson E S em password w = (Inr res, w')" "\<not> success res"
  shows "good_login E em password w = None"
proof (rule ccontr)
  assume "good_login E em password w \<noteq> None"
  then obtain r where r: "List.find (person_key E em) (people w) = Some r" "p_emailVerifiedAt r \<noteq> None"
    "pwhash_verify E (p_passwordHash r) password"
    by (auto simp: good_login_def split: option.splits if_splits)
  with assms show False
    unfolding LoginPerson_def
    by (auto simp: run_simps IsVerified_def VerifyPasswordHash_def Let_def)
qed

lemma reads_people:
  assumes "reads m" "m w = (Inr x, w')"
  shows "people w' = people w"
proof -
  have "w' = w\<lparr>tick := tick w'\<rparr>" using readsD [OF assms] by simp
  then show ?thesis by (rule ssubst) simp
qed

lemma good_login_people: "people v = people w \<Longrightarrow> good_login E em password v = good_login E em password w"
  by (simp add: good_login_def)

lemma LoginTx_cases:
  assumes "LoginTx E (Some h) em password remember ip ua w = (Inr resp, w')"
  obtains (gated) g where "CheckBeforeLogin E (Some h) em ip w = (Inr g, w')" "g \<noteq> Allow" "resp = RespTooManyAttempts"
  | (refused) w1 res w2 where "CheckBeforeLogin E (Some h) em ip w = (Inr Allow, w1)"
      "LoginPerson E (Some h) em password w1 = (Inr res, w2)" "\<not> success res"
      "LoginRefused E res em ip ua w2 = (Inr resp, w')"
  | (accepted) w1 res w2 where "CheckBeforeLogin E (Some h) em ip w = (Inr Allow, w1)"
      "LoginPerson E (Some h) em password w1 = (Inr res, w2)" "success res"
      "LoginAccepted E h res em remember ip ua w2 = (Inr resp, w')"
proof -
  obtain g w1 where g: "CheckBeforeLogin E (Some h) em ip w = (Inr g, w1)"
    and rest: "(if g \<noteq> Allow then ret RespTooManyAttempts
            else bindT (LoginPerson E (Some h) em password) (\<lambda>res.
              if \<not> success res then LoginRefused E res em ip ua
              else LoginAccepted E h res em remember ip ua)) w1 = (Inr resp, w')"
    using assms unfolding LoginTx_def option.case by (rule bindT_InrE)
  show thesis
  proof (cases "g = Allow")
    case False
    with g rest gated show thesis by (simp add: ret_run)
  next
    case True
    with rest have "bindT (LoginPerson E (Some h) em password) (\<lambda>res.
        if \<not> success res then LoginRefused E res em ip ua
        else LoginAccepted E h res em remember ip ua) w1 = (Inr resp, w')" by simp
    then obtain res w2 where "LoginPerson E (Some h) em password w1 = (Inr res, w2)"
      "(if \<not> success res then LoginRefused E res em ip ua else LoginAccepted E h res em remember ip ua) w2 = (Inr resp, w')"
      by (rule bindT_InrE)
    with g True refused accepted show thesis by (cases "success res") simp_all
  qed
qed

lemma LoginRefused_Inr:
  "LoginRefused E res em ip ua w = (Inr resp, w') \<Longrightarrow> resp = RespInvalidCredentials \<and> sessions w' = sessions w"
proof -
  assume "LoginRefused E res em ip ua w = (Inr resp, w')"
  moreover from this have "resp = RespInvalidCredentials"
    unfolding LoginRefused_def by (auto simp: bindT_Inr_iff ret_run)
  moreover have "along (\<lambda>w w'. sessions w' = sessions w) (LoginRefused E res em ip ua)"
    unfolding LoginRefused_def by (intro frame_rules session_writes)
  ultimately show ?thesis using session_stepD by blast
qed

section \<open>A locked account at the gate\<close>

lemma foldl_max_start: "l \<le> foldl max (l :: int) ls"
proof (induction ls arbitrary: l)
  case (Cons k ls)
  show ?case using Cons.IH [of "max l k"] by simp
qed simp

lemma foldl_max_ge: "x \<in> set (l # ls) \<Longrightarrow> x \<le> foldl max (l :: int) ls"
proof (induction ls arbitrary: l)
  case (Cons k ls)
  show ?case
  proof (cases "x \<in> set ls")
    case True
    then show ?thesis using Cons.IH [of "max l k"] by simp
  next
    case False
    then show ?thesis using Cons.prems foldl_max_start [of "max l k" ls] by auto
  qed
qed simp

lemma max_lock_ge:
  assumes "r \<in> set (people w)" "person_key E em r" "p_lockedUntil r = Some l"
  shows "l \<le> max_lock E em w"
proof -
  have l: "l \<in> set (List.map_filter p_lockedUntil (filter (person_key E em) (people w)))"
    using assms by (force simp: map_filter_def)
  then obtain k ks where "List.map_filter p_lockedUntil (filter (person_key E em) (people w)) = k # ks"
    by (cases "List.map_filter p_lockedUntil (filter (person_key E em) (people w))") auto
  with l show ?thesis using foldl_max_ge [of l k ks] by (simp add: max_lock_def)
qed

lemma locked_gate:
  assumes "\<not> aborted w" "em \<noteq> []" "0 < max_lock E em w" "now_of E w < max_lock E em w"
  shows "CheckBeforeLogin E S em ip w = (Inr AccountLocked, ticked w)"
  using assms
  by (simp add: CheckBeforeLogin_def bindT_def IsAccountLocked_def query_live now_us_live ret_def)

section \<open>What the forgotten-password request depends on\<close>

text \<open>
  Two states that agree on everything the gate reads. \<open>blind m\<close>: from such states \<open>m\<close> answers the same and
  leads to such states again, whoever has an account.
\<close>

definition gate_view :: "world \<Rightarrow> world \<Rightarrow> bool" where
  "gate_view v w \<longleftrightarrow> login_attempts v = login_attempts w \<and> config_secrets v = config_secrets w \<and>
     tick v = tick w \<and> aborted v = aborted w"

definition blind :: "'a tx \<Rightarrow> bool" where
  "blind m \<longleftrightarrow> (\<forall>v w. gate_view v w \<longrightarrow> fst (m v) = fst (m w) \<and> gate_view (snd (m v)) (snd (m w)))"

named_theorems blind_rules \<open>introduction rules for \<open>blind\<close>\<close>

lemma blind_ret [blind_rules]: "blind (ret x)"
  by (simp add: blind_def ret_def)

lemma blind_lift [blind_rules]: "blind (lift r)"
  by (simp add: blind_def lift_def)

lemma blind_bind [blind_rules]:
  assumes "blind m" "\<And>x. blind (f x)"
  shows "blind (bindT m f)"
  unfolding blind_def
proof (intro allI impI)
  fix v w
  assume "gate_view v w"
  then have "fst (m v) = fst (m w) \<and> gate_view (snd (m v)) (snd (m w))"
    using assms(1) unfolding blind_def by blast
  moreover obtain a v1 where v: "m v = (a, v1)" by fastforce
  moreover obtain b w1 where w: "m w = (b, w1)" by fastforce
  ultimately have "a = b" "gate_view v1 w1" by simp_all
  then show "fst (bindT m f v) = fst (bindT m f w) \<and> gate_view (snd (bindT m f v)) (snd (bindT m f w))"
    using assms(2) by (cases b) (auto simp: blind_def bindT_def v w)
qed

lemma blind_if [blind_rules]: "blind a \<Longrightarrow> blind b \<Longrightarrow> blind (if c then a else b)"
  by simp

lemma blind_option [blind_rules]: "blind a \<Longrightarrow> (\<And>x. blind (b x)) \<Longrightarrow> blind (case v of None \<Rightarrow> a | Some x \<Rightarrow> b x)"
  by (cases v) simp_all

lemma blind_sum [blind_rules]:
  "(\<And>x. blind (a x)) \<Longrightarrow> (\<And>x. blind (b x)) \<Longrightarrow> blind (case v of Inl x \<Rightarrow> a x | Inr x \<Rightarrow> b x)"
  by (cases v) simp_all

lemma blind_LookupSecret [blind_rules]: "blind (LookupSecret E h k)"
  unfolding LookupSecret_def LookupSecretRow_def
  by (intro blind_rules) (auto simp: blind_def gate_view_def query_def stmt_def)

lemma blind_LookupInt64Secret [blind_rules]: "blind (LookupInt64Secret E S k d)"
  unfolding LookupInt64Secret_def by (intro blind_rules)

lemma blind_count [blind_rules]: "blind (count_attempts E P n)"
  by (auto simp: blind_def gate_view_def count_attempts_def stmt_def ret_def now_of_def)

lemma blind_forgot_gate: "blind (CheckBeforeForgotPassword E S em ip)"
  unfolding CheckBeforeForgotPassword_def count_defs by (intro blind_rules)

lemma ForgotPasswordTx_answer:
  assumes "ForgotPasswordTx E S mail em ip ua w = (Inr resp, w')"
  shows "resp = (if fst (CheckBeforeForgotPassword E S em ip w) = Inr Allow then RespOk else RespTooManyAttempts)"
  using assms unfolding ForgotPasswordTx_def
  by (auto simp: bindT_Inr_iff ret_run split: if_splits)

section \<open>Properties\<close>

text \<open>
  C1. A login is answered with success only when the gate let it through and the password fits a
  verified account; it then adds one session row, not revoked and of that account. A login without
  such an account adds no session.
\<close>

theorem LoginTx_sound:
  assumes "LoginTx E (Some h) em password remember ip ua w = (Inr resp, w')"
  shows "(resp = RespOk \<longrightarrow> (\<exists>r s. fst (CheckBeforeLogin E (Some h) em ip w) = Inr Allow \<and>
       good_login E em password w = Some r \<and> sessions w' = sessions w @ [s] \<and>
       s_personId s = p_id r \<and> \<not> s_revoked s)) \<and>
    (good_login E em password w = None \<longrightarrow> resp \<noteq> RespOk \<and> sessions w' = sessions w)"
  using assms
proof (cases rule: LoginTx_cases)
  case (gated g)
  then show ?thesis using session_stepD [OF session_rows.gate_rule gated(1)] by simp
next
  case (refused w1 res w2)
  then show ?thesis
    using LoginRefused_Inr [OF refused(4)] session_stepD [OF session_rows.gate_rule refused(1)]
      session_stepD [OF session_steps(2) refused(2)] by simp
next
  case (accepted w1 res w2)
  have w1: "people w1 = people w" "sessions w1 = sessions w"
    using reads_people [OF reads_CheckBeforeLogin accepted(1)]
      session_stepD [OF session_rows.gate_rule accepted(1)] by simp_all
  obtain r where r: "good_login E em password w1 = Some r"
    "map p_id (people w2) = map p_id (people w1)" "map p_email (people w2) = map p_email (people w1)"
    using accepted(2,3) by (rule LoginPerson_successD)
  then have "List.find (person_key E em) (people w1) = Some r" by (auto simp: good_login_def split: option.splits if_splits)
  then have same: "map_option p_id (List.find (person_key E em) (people w2)) = Some (p_id r)"
    using find_same_key [OF r(3,2)] by simp
  have "sessions w2 = sessions w" using session_stepD [OF session_steps(2) accepted(2)] w1(2) by simp
  moreover have "good_login E em password w = Some r" using r(1) good_login_people [OF w1(1)] by simp
  moreover have "\<exists>s. sessions w' = sessions w2 @ [s] \<and> s_personId s = p_id r \<and> \<not> s_revoked s" if "resp = RespOk"
    using accepted(4) unfolding that by (rule LoginAccepted_RespOk) (use same in auto)
  ultimately show ?thesis using accepted(1) by auto
qed

definition login_world :: world where
  "login_world = demo_world\<lparr>config_secrets :=
     [(''auth_session_max_duration_in_micros'', ''1000''), (''website_address'', ''example.org'')],
     cookie_manager := Some \<lparr>cookies_in = [], cookies_out = []\<rparr>\<rparr>"

theorem LoginTx_sound_witness:
  "\<exists>w'. LoginTx demoEnv (Some None) ''ann@example.org'' ''correct'' False ''1.2.3.4'' [] login_world = (Inr RespOk, w') \<and>
     (\<exists>s. sessions w' = [s] \<and> s_personId s = 7)"
proof -
  let ?r = "LoginTx demoEnv (Some None) ''ann@example.org'' ''correct'' False ''1.2.3.4'' [] login_world"
  have "fst ?r = Inr RespOk" by code_simp
  then have eq: "?r = (Inr RespOk, snd ?r)" by (metis prod.collapse)
  have "good_login demoEnv ''ann@example.org'' ''correct'' login_world = Some demo_person" "sessions login_world = []"
    by (simp_all add: good_login_def login_world_def demo_world_def demo_person_def demoEnv_def person_key_def emptyWorld_def)
  with LoginTx_sound [OF eq] have "\<exists>s. sessions (snd ?r) = [s] \<and> s_personId s = p_id demo_person" by auto
  with eq show ?thesis by (auto simp: demo_person_def)
qed

text \<open>
  C28. A locked account cannot be signed in to. After a run of failed logins that reached the
  configured number, and until the configured duration is over, every login for the address is
  turned away by the gate: also one with the right password.
\<close>

theorem locked_account_turned_away:
  assumes "mapT (LoginPerson E (Some h) em) pws w = (Inr rs, w')" "lock_policy E (Some h) T D w"
    and "List.find (person_key E em) (people w) = Some r" "p_emailVerifiedAt r \<noteq> None"
    and "\<forall>pw \<in> set pws. \<not> pwhash_verify E (p_passwordHash r) pw" "distinct (map p_id (people w))"
    and "pws \<noteq> []" "T \<le> p_failedLoginAttempts r + int (length pws)"
    and "em \<noteq> []" "\<not> aborted w" "0 \<le> now_of E w'" "now_of E w' < clk E (tick w' - 1) + D"
  shows "LoginTx E (Some h) em password remember ip ua w' = (Inr RespTooManyAttempts, ticked w')"
proof -
  obtain r' where r': "List.find (person_key E em) (people w') = Some r'"
    "p_lockedUntil r' = Some (clk E (tick w' - 1) + D)" "aborted w' = aborted w"
    using LoginPerson_run [OF assms(1-6)] assms(7,8) by auto
  have "clk E (tick w' - 1) + D \<le> max_lock E em w'"
    using find_SomeD [OF r'(1)] r'(2) by (intro max_lock_ge [of r']) auto
  then have "CheckBeforeLogin E (Some h) em ip w' = (Inr AccountLocked, ticked w')"
    using assms(9-12) r'(3) by (intro locked_gate) auto
  then show ?thesis by (simp add: LoginTx_def bindT_def ret_def)
qed

theorem locked_account_turned_away_witness:
  "\<exists>rs w'. mapT (LoginPerson demoEnv (Some None) ''ann@example.org'') (replicate 11 ''guess'') demo_world = (Inr rs, w') \<and>
     LoginTx demoEnv (Some None) ''ann@example.org'' ''correct'' False [] [] w' = (Inr RespTooManyAttempts, ticked w')"
proof -
  let ?r = "mapT (LoginPerson demoEnv (Some None) ''ann@example.org'') (replicate 11 ''guess'') demo_world"
  have "isl (fst ?r) = False" by code_simp
  then obtain rs where eq: "?r = (Inr rs, snd ?r)" by (cases "fst ?r") (auto simp: prod_eq_iff)
  have t: "tick (snd ?r) = 11" by code_simp
  have pol: "lock_policy demoEnv (Some None) 10 1800000000 demo_world"
    by (simp add: lock_policy_def LookupInt64Secret_def LookupSecret_def LookupSecretRow_def bindT_def query_def
        stmt_def lift_def ret_def demo_world_def emptyWorld_def)
  have "LoginTx demoEnv (Some None) ''ann@example.org'' ''correct'' False [] [] (snd ?r)
      = (Inr RespTooManyAttempts, ticked (snd ?r))"
    using t by (intro locked_account_turned_away [OF eq pol, of demo_person])
      (simp_all add: demo_world_def demo_person_def person_key_def demoEnv_def now_of_def emptyWorld_def)
  with eq show ?thesis by blast
qed

text \<open>
  C39. The forgotten-password answer does not say whether an address has an account: whatever the
  accounts are, two requests that find the same attempt ledger, configuration and clock and that
  return get the same answer.
\<close>

theorem ForgotPassword_tells_nothing:
  assumes "ForgotPassword E S mail m ip ua v = (Inr a, v')" "ForgotPassword E S mail m ip ua w = (Inr b, w')"
    and "gate_view v w"
  shows "a = b"
proof (cases "required_child m ''email''")
  case None
  then show ?thesis using assms(1,2) by (simp add: ForgotPassword_def ret_def)
next
  case (Some em)
  let ?t = "\<lambda>u. u\<lparr>tx_start := now_of E u, aborted := False\<rparr>"
  obtain v1 w1 where "ForgotPasswordTx E S mail em ip ua (?t v) = (Inr a, v1)"
    "ForgotPasswordTx E S mail em ip ua (?t w) = (Inr b, w1)"
    using assms(1,2) Some by (auto simp: ForgotPassword_def RunInTransaction_def Let_def split: prod.splits sum.splits)
  moreover have "gate_view (?t v) (?t w)" using assms(3) by (simp add: gate_view_def)
  then have "fst (CheckBeforeForgotPassword E S em ip (?t v)) = fst (CheckBeforeForgotPassword E S em ip (?t w))"
    using blind_forgot_gate by (auto simp: blind_def)
  ultimately show ?thesis using ForgotPasswordTx_answer by metis
qed

lemma ResetMail_live: "\<not> aborted w \<Longrightarrow> \<exists>m. ResetMail E None r s t w = (Inr m, w)"
  by (simp add: ResetMail_def LoadTenantBranding_def LoadSenderAddress_def bindT_def LookupSecret_live ret_def Let_def
      split: option.split)

text \<open>A known address: the request runs to its end when the link row can be written.\<close>

lemma RequestReset_returns:
  assumes "\<not> aborted w" "List.find (person_key E em) (people w) = Some r"
    and "LookupTtlMinutes E None (w\<lparr>draws := Suc (draws w)\<rparr>) = (Inr n, w\<lparr>draws := Suc (draws w)\<rparr>)"
    and "in_i64 (n * kMinuteUs)" "in_i64 (now_of E w + n * kMinuteUs)"
    and "has_person (p_id r) w"
  shows "\<exists>w'. RequestReset E (Some None) False em w = (Inr (p_id r), w') \<and> \<not> aborted w'"
proof -
  let ?w1 = "w\<lparr>draws := Suc (draws w)\<rparr>"
  obtain i w2 where w2: "ReplaceForPerson E (p_id r) (HashBinary E (random_bytes E (draws w) kSecretBytes))
      (now_of E w + n * kMinuteUs) (ticked ?w1) = (Inr i, w2)" "\<not> aborted w2"
    using assms(1,6) by (simp add: ReplaceForPerson_def DeleteForPerson_def bindT_def stmt_def nextval_def Let_def has_person_def)
  obtain m where "ResetMail E None r (random_bytes E (draws w) kSecretBytes) n w2 = (Inr m, w2)"
    using ResetMail_live [OF w2(2)] by blast
  with assms w2 show ?thesis
    by (simp add: RequestReset_def bindT_def LookupPersonByEmail_def query_live RandomBytes_def now_us_live
        lift_def cpp_int64_def now_of_def ret_def)
qed

lemma ForgotPasswordTx_returns:
  assumes "CheckBeforeForgotPassword E S em ip w = (Inr Allow, w1)" "RequestReset E S mail em w1 = (Inr pid, w2)" "\<not> aborted w2"
  shows "fst (ForgotPasswordTx E S mail em ip ua w) = Inr RespOk"
  using assms
  by (simp add: ForgotPasswordTx_def bindT_def RecordEvent_def stmt_def nextval_def QueueJob_def ret_def)

lemma LookupTtlMinutes_default:
  assumes "\<not> aborted w" "map_of (config_secrets w) ''auth_password_reset_ttl_minutes'' = None"
  shows "LookupTtlMinutes E None w = (Inr 60, w)"
proof -
  have "stoll [] = Inl (InvalidArgument ''stoll'')" by code_simp
  with assms show ?thesis
    by (simp add: LookupTtlMinutes_def catchT_def bindT_def LookupSecret_live lift_def ret_def kDefaultTtlMinutes_def Let_def)
qed

theorem ForgotPassword_tells_nothing_witness:
  "\<exists>v' w'. ForgotPassword demoEnv (Some None) False (Some [(''email'', JString ''ann@example.org'')]) [] [] demo_world = (Inr RespOk, v') \<and>
     ForgotPassword demoEnv (Some None) False (Some [(''email'', JString ''ann@example.org'')]) [] [] (demo_world\<lparr>people := []\<rparr>) = (Inr RespOk, w')"
proof -
  let ?m = "Some [(''email'', JString ''ann@example.org'')]"
  let ?r = "ForgotPassword demoEnv (Some None) False ?m [] [] demo_world"
  let ?q = "ForgotPassword demoEnv (Some None) False ?m [] [] (demo_world\<lparr>people := []\<rparr>)"
  let ?w = "demo_world\<lparr>tx_start := now_of demoEnv demo_world, aborted := False\<rparr>"
  let ?g = "CheckBeforeForgotPassword demoEnv (Some None) ''ann@example.org'' [] ?w"
  have fg: "fst ?g = Inr Allow" "people (snd ?g) = [demo_person]" "aborted (snd ?g) = False" "tick (snd ?g) = 1"
    "config_secrets (snd ?g) = [(''email_verification_attempt_limit'', ''5'')]" by code_simp+
  then obtain v where g: "?g = (Inr Allow, v)" by (metis prod.collapse)
  with fg have v: "people v = [demo_person]" "\<not> aborted v" "tick v = 1"
    "config_secrets v = [(''email_verification_attempt_limit'', ''5'')]" by simp_all
  have ttl: "LookupTtlMinutes demoEnv None (v\<lparr>draws := Suc (draws v)\<rparr>) = (Inr 60, v\<lparr>draws := Suc (draws v)\<rparr>)"
    using v by (intro LookupTtlMinutes_default) simp_all
  obtain w2 where "RequestReset demoEnv (Some None) False ''ann@example.org'' v = (Inr (p_id demo_person), w2)" "\<not> aborted w2"
    using RequestReset_returns [OF _ _ ttl, of "''ann@example.org''" demo_person] v
    by (auto simp: demo_person_def person_key_def demoEnv_def kMinuteUs_def in_i64_def now_of_def has_person_def)
  then have "fst (ForgotPasswordTx demoEnv (Some None) False ''ann@example.org'' [] [] ?w) = Inr RespOk"
    by (rule ForgotPasswordTx_returns [OF g])
  then have "fst ?r = Inr RespOk"
    by (cases "ForgotPasswordTx demoEnv (Some None) False ''ann@example.org'' [] [] ?w")
      (simp add: ForgotPassword_def required_child_def string_child_def RunInTransaction_def Let_def)
  then obtain a where r: "?r = (Inr a, snd ?r)" by (metis prod.collapse)
  let ?u = "demo_world\<lparr>people := [], tx_start := now_of demoEnv demo_world, aborted := False\<rparr>"
  let ?h = "CheckBeforeForgotPassword demoEnv (Some None) ''ann@example.org'' [] ?u"
  have fh: "fst ?h = Inr Allow" "people (snd ?h) = []" "aborted (snd ?h) = False" by code_simp+
  then obtain v2 where h: "?h = (Inr Allow, v2)" by (metis prod.collapse)
  have "RequestReset demoEnv (Some None) False ''ann@example.org'' v2 = (Inr 0, v2)" "\<not> aborted v2"
    using fh h by (simp_all add: RequestReset_def bindT_def LookupPersonByEmail_def query_live ret_def)
  then have "fst (ForgotPasswordTx demoEnv (Some None) False ''ann@example.org'' [] [] ?u) = Inr RespOk"
    by (rule ForgotPasswordTx_returns [OF h])
  then have "fst ?q = Inr RespOk"
    by (cases "ForgotPasswordTx demoEnv (Some None) False ''ann@example.org'' [] [] ?u")
      (simp add: ForgotPassword_def required_child_def string_child_def RunInTransaction_def Let_def now_of_def)
  then have q: "?q = (Inr RespOk, snd ?q)" by (metis prod.collapse)
  have "a = RespOk"
    using ForgotPassword_tells_nothing [OF r q] by (simp add: gate_view_def)
  with r q show ?thesis by blast
qed

text \<open>
  The tenant's attempt ledger, which the rate limit is computed from, is never written by a login:
  whatever the request and its outcome, the rows of \<open>login_attempts\<close> stay as they were, and every
  job the login queues records its attempt on the deployment's global provider.
\<close>

theorem Login_never_reaches_tenant_ledger:
  "login_attempts (snd (Login E S m ip ua w)) = login_attempts w \<and>
   (\<exists>js. jobs (snd (Login E S m ip ua w)) = jobs w @ js \<and>
      set js \<subseteq> {RecordAttemptJob GlobalProvider em i ''login'' ok | em i ok. True})"
  using ledger_Login [of E S m ip ua] by (simp add: along_def global_login_jobs_def)

text \<open>
  Deleting a verified account takes everything of the person with it: the account, sessions,
  device tokens, pending verifications, reset links and roles; the rows of others and the forensic
  event log stay.
\<close>

theorem DeletePerson_cascades:
  assumes "DeletePerson E em w = (Inr (), w')" "List.find (person_key E em) (people w) = Some r"
    and "p_emailVerifiedAt r \<noteq> None"
  shows "people w' = filter (\<lambda>q. p_id q \<noteq> p_id r) (people w) \<and>
    sessions w' = filter (\<lambda>q. s_personId q \<noteq> p_id r) (sessions w) \<and>
    device_tokens w' = filter (\<lambda>q. d_personId q \<noteq> p_id r) (device_tokens w) \<and>
    email_verifications w' = filter (\<lambda>q. v_personId q \<noteq> p_id r) (email_verifications w) \<and>
    password_reset_tokens w' = filter (\<lambda>q. r_personId q \<noteq> p_id r) (password_reset_tokens w) \<and>
    role_assignments w' = filter (\<lambda>a. fst a \<noteq> p_id r) (role_assignments w) \<and>
    auth_events w' = auth_events w"
  using assms unfolding DeletePerson_def
  by (auto simp: bindT_Inr_iff LookupPersonByEmail_run IsVerified_def DeletePersonRow_def catchT_def stmt_def)

theorem DeletePerson_cascades_witness:
  "\<exists>w'. DeletePerson demoEnv ''ann@example.org'' reset_world = (Inr (), w') \<and> people w' = [] \<and> sessions w' = [] \<and>
     password_reset_tokens w' = []"
proof -
  let ?r = "DeletePerson demoEnv ''ann@example.org'' reset_world"
  have "fst ?r = Inr ()" by code_simp
  then have eq: "?r = (Inr (), snd ?r)" by (metis prod.collapse)
  from DeletePerson_cascades [OF eq, of demo_person] have
    "people (snd ?r) = [] \<and> sessions (snd ?r) = [] \<and> password_reset_tokens (snd ?r) = []"
    by (simp add: reset_world_def demo_world_def demo_person_def demoEnv_def person_key_def demo_session_def)
  with eq show ?thesis by blast
qed

end
