(* ===== verification/Effects.thy ===== *)
theory Effects
  imports Prelude
begin

text \<open>
  Computations over any state that may throw, as the components outside a request's transaction
  use them: \<open>('s, 'a) eff\<close> runs on a state and yields a result or an exception together with the
  state it left behind (a C++ exception does not undo what was done before it). The interface of
  \<open>data/sql_util/database_access/transaction_provider.h\<close> is the locale
  \<open>transaction_provider\<close>: what a client of \<open>RunInTransaction\<close> may rely on.
\<close>

section \<open>Computations with state and exceptions\<close>

type_synonym ('s, 'a) eff = "'s \<Rightarrow> 'a res \<times> 's"

named_theorems eff_simps \<open>evaluation of the combinators on a state\<close>

definition retE :: "'a \<Rightarrow> ('s, 'a) eff" where
  "retE x s = (Inr x, s)"

definition liftE :: "'a res \<Rightarrow> ('s, 'a) eff" where
  "liftE r s = (r, s)"

definition throwE :: "exn \<Rightarrow> ('s, 'a) eff" where
  "throwE e s = (Inl e, s)"

definition bindE :: "('s, 'a) eff \<Rightarrow> ('a \<Rightarrow> ('s, 'b) eff) \<Rightarrow> ('s, 'b) eff" where
  "bindE m f s = (case m s of (Inl e, s') \<Rightarrow> (Inl e, s') | (Inr x, s') \<Rightarrow> f x s')"

definition catchE :: "('s, 'a) eff \<Rightarrow> (exn \<Rightarrow> ('s, 'a) eff) \<Rightarrow> ('s, 'a) eff" where
  "catchE m h s = (case m s of (Inl e, s') \<Rightarrow> h e s' | (Inr x, s') \<Rightarrow> (Inr x, s'))"

definition getsE :: "('s \<Rightarrow> 'a) \<Rightarrow> ('s, 'a) eff" where
  "getsE f s = (Inr (f s), s)"

definition modifyE :: "('s \<Rightarrow> 's) \<Rightarrow> ('s, unit) eff" where
  "modifyE f s = (Inr (), f s)"

lemma retE_apply [eff_simps]: "retE x s = (Inr x, s)"
  by (simp add: retE_def)

lemma liftE_apply [eff_simps]: "liftE r s = (r, s)"
  by (simp add: liftE_def)

lemma throwE_apply [eff_simps]: "throwE e s = (Inl e, s)"
  by (simp add: throwE_def)

lemma getsE_apply [eff_simps]: "getsE f s = (Inr (f s), s)"
  by (simp add: getsE_def)

lemma modifyE_apply [eff_simps]: "modifyE f s = (Inr (), f s)"
  by (simp add: modifyE_def)

lemma bindE_apply [eff_simps]:
  "bindE m f s = (case fst (m s) of Inl e \<Rightarrow> (Inl e, snd (m s)) | Inr x \<Rightarrow> f x (snd (m s)))"
  by (simp add: bindE_def split: prod.splits sum.splits)

lemma bindE_Inr: "m s = (Inr x, s') \<Longrightarrow> bindE m f s = f x s'"
  by (simp add: bindE_def)

lemma bindE_Inl: "m s = (Inl e, s') \<Longrightarrow> bindE m f s = (Inl e, s')"
  by (simp add: bindE_def)

lemma bindE_InrE [consumes 1, case_names step]:
  assumes "bindE m f s = (Inr y, s'')"
  obtains x s' where "m s = (Inr x, s')" and "f x s' = (Inr y, s'')"
  using assms by (auto simp: bindE_def split: prod.splits sum.splits)

lemma bindE_InlE [consumes 1, case_names first rest]:
  assumes "bindE m f s = (Inl e, s'')"
  obtains "m s = (Inl e, s'')" | x s' where "m s = (Inr x, s')" and "f x s' = (Inl e, s'')"
  using assms by (auto simp: bindE_def split: prod.splits sum.splits)

fun forE :: "('a \<Rightarrow> ('s, unit) eff) \<Rightarrow> 'a list \<Rightarrow> ('s, unit) eff" where
  "forE f [] = retE ()"
| "forE f (x # xs) = bindE (f x) (\<lambda>_. forE f xs)"

text \<open>\<open>what()\<close> of an exception.\<close>

fun exn_what :: "exn \<Rightarrow> string" where
  "exn_what (RuntimeError s) = s"
| "exn_what (InvalidArgument s) = s"
| "exn_what (OutOfRange s) = s"
| "exn_what (DbFailure s) = s"
| "exn_what (Undefined s) = s"

section \<open>What a transaction provider promises\<close>

text \<open>
  \<open>run f s\<close> runs the work \<open>f\<close> on the database \<open>db s\<close> inside a transaction. When it returns,
  the work returned and its database is the new one. When it throws, either nothing of the work is
  in the database, or the work had returned and the reply to its COMMIT was lost: no partial effect
  is ever seen. \<open>ok\<close> is what the provider keeps true of its own state.
\<close>

locale transaction_provider =
  fixes run :: "('d, 'a) eff \<Rightarrow> ('s, 'a) eff"
    and db :: "'s \<Rightarrow> 'd"
    and ok :: "'s \<Rightarrow> bool"
  assumes committed: "ok s \<Longrightarrow> run f s = (Inr x, s') \<Longrightarrow> f (db s) = (Inr x, db s')"
    and rolled_back: "ok s \<Longrightarrow> run f s = (Inl e, s') \<Longrightarrow> db s' = db s \<or> (\<exists>x. f (db s) = (Inr x, db s'))"
    and stays_ok: "ok s \<Longrightarrow> ok (snd (run f s))"
begin

text \<open>Whatever happens, the database moves by the whole work or not at all.\<close>

lemma all_or_nothing:
  "ok s \<Longrightarrow> db (snd (run f s)) = db s \<or> (\<exists>x. f (db s) = (Inr x, db (snd (run f s))))"
proof (cases "run f s")
  case (Pair r s')
  assume "ok s"
  with Pair show ?thesis
    by (cases r) (auto dest: committed rolled_back)
qed

lemma reads_only:
  assumes "ok s" "\<And>d. snd (f d) = d"
  shows "db (snd (run f s)) = db s"
  using all_or_nothing [OF assms(1), of f] assms(2) by (metis snd_conv)

lemma preserves:
  assumes "ok s" "P (db s)" "\<And>d x d'. P d \<Longrightarrow> f d = (Inr x, d') \<Longrightarrow> P d'"
  shows "P (db (snd (run f s)))"
  using all_or_nothing [OF assms(1), of f] assms(2,3) by metis

end

section \<open>Steps along a relation\<close>

text \<open>
  A relation every successful step of a computation respects. The rules follow the combinators, so a
  handler is taken apart down to its statements.
\<close>

locale eff_frame =
  fixes R :: "'s \<Rightarrow> 's \<Rightarrow> bool"
  assumes R_refl: "R s s"
    and R_trans: "R s t \<Longrightarrow> R t u \<Longrightarrow> R s u"
begin

definition framed :: "('s, 'a) eff \<Rightarrow> bool" where
  "framed m \<longleftrightarrow> (\<forall>s x s'. m s = (Inr x, s') \<longrightarrow> R s s')"

lemma framedD: "framed m \<Longrightarrow> m s = (Inr x, s') \<Longrightarrow> R s s'"
  by (simp add: framed_def)

lemma framed_ret: "framed (retE x)"
  by (simp add: framed_def retE_def R_refl)

lemma framed_throw: "framed (throwE e)"
  by (simp add: framed_def throwE_def)

lemma framed_bind: "framed m \<Longrightarrow> (\<And>x. framed (f x)) \<Longrightarrow> framed (bindE m f)"
  by (auto simp: framed_def elim!: bindE_InrE) (blast intro: R_trans)

lemma framed_forE: "(\<And>x. framed (f x)) \<Longrightarrow> framed (forE f xs)"
  by (induction xs) (auto intro: framed_ret framed_bind)

lemma framed_if: "framed m \<Longrightarrow> framed m' \<Longrightarrow> framed (if c then m else m')"
  by simp

lemma framed_option: "framed m \<Longrightarrow> (\<And>x. framed (f x)) \<Longrightarrow> framed (case v of None \<Rightarrow> m | Some x \<Rightarrow> f x)"
  by (cases v) simp_all

lemma framed_list: "framed m \<Longrightarrow> (\<And>x xs. framed (f x xs)) \<Longrightarrow> framed (case v of [] \<Rightarrow> m | x # xs \<Rightarrow> f x xs)"
  by (cases v) simp_all

lemma framed_pair: "(\<And>x y. framed (f x y)) \<Longrightarrow> framed (case v of (x, y) \<Rightarrow> f x y)"
  by (cases v) simp

lemma framed_pure: "framed (\<lambda>s. (r, s))"
  by (simp add: framed_def R_refl)

lemmas framed_rules = framed_ret framed_throw framed_bind framed_forE framed_if framed_option framed_list
  framed_pair framed_pure

end

section \<open>What a computation gives\<close>

text \<open>When \<open>m\<close> returns from \<open>s\<close>, its value and the state it leaves satisfy \<open>P\<close>.\<close>

definition givesE :: "('s, 'a) eff \<Rightarrow> 's \<Rightarrow> ('a \<Rightarrow> 's \<Rightarrow> bool) \<Rightarrow> bool" where
  "givesE m s P \<longleftrightarrow> (\<forall>x t. m s = (Inr x, t) \<longrightarrow> P x t)"

lemma givesD: "givesE m s P \<Longrightarrow> m s = (Inr x, t) \<Longrightarrow> P x t"
  by (simp add: givesE_def)

lemma gives_ret: "P x s \<Longrightarrow> givesE (retE x) s P"
  by (simp add: givesE_def retE_def)

lemma gives_throw: "givesE (throwE e) s P"
  by (simp add: givesE_def throwE_def)

lemma gives_bind: "givesE m s Q \<Longrightarrow> (\<And>x t. Q x t \<Longrightarrow> givesE (f x) t P) \<Longrightarrow> givesE (bindE m f) s P"
  by (auto simp: givesE_def elim!: bindE_InrE)

lemma gives_if: "(c \<Longrightarrow> givesE m s P) \<Longrightarrow> (\<not> c \<Longrightarrow> givesE m' s P) \<Longrightarrow> givesE (if c then m else m') s P"
  by simp

lemma gives_pair: "(\<And>x y. p = (x, y) \<Longrightarrow> givesE (f x y) s P) \<Longrightarrow> givesE (case p of (x, y) \<Rightarrow> f x y) s P"
  by (cases p) simp

lemma gives_option:
  "(v = None \<Longrightarrow> givesE m s P) \<Longrightarrow> (\<And>x. v = Some x \<Longrightarrow> givesE (f x) s P) \<Longrightarrow> givesE (case v of None \<Rightarrow> m | Some x \<Rightarrow> f x) s P"
  by (cases v) simp_all

lemma gives_list:
  "(v = [] \<Longrightarrow> givesE m s P) \<Longrightarrow> (\<And>x xs. v = x # xs \<Longrightarrow> givesE (f x xs) s P) \<Longrightarrow> givesE (case v of [] \<Rightarrow> m | x # xs \<Rightarrow> f x xs) s P"
  by (cases v) simp_all

lemmas gives_rules = gives_ret gives_throw gives_if gives_pair gives_option gives_list

section \<open>What a computation can see\<close>

text \<open>
  \<open>Q s s'\<close>: the two states look alike to an observer. A computation is blind to the rest when on
  states that look alike it answers alike and leaves states that look alike.
\<close>

locale eff_observer =
  fixes Q :: "'s \<Rightarrow> 's \<Rightarrow> bool"
  assumes Q_refl: "Q s s"
    and Q_sym: "Q s t \<Longrightarrow> Q t s"
begin

definition blind :: "('s, 'a) eff \<Rightarrow> bool" where
  "blind m \<longleftrightarrow> (\<forall>s t. Q s t \<longrightarrow> fst (m s) = fst (m t) \<and> Q (snd (m s)) (snd (m t)))"

lemma blindD: "blind m \<Longrightarrow> Q s t \<Longrightarrow> fst (m s) = fst (m t) \<and> Q (snd (m s)) (snd (m t))"
  by (simp add: blind_def)

lemma sees_ret: "blind (retE x)"
  by (simp add: blind_def retE_def)

lemma sees_throw: "blind (throwE e)"
  by (simp add: blind_def throwE_def)

lemma sees_bind:
  assumes "blind m" "\<And>x. blind (f x)"
  shows "blind (bindE m f)"
  unfolding blind_def
proof (intro allI impI)
  fix s t assume "Q s t"
  then have m: "fst (m s) = fst (m t)" "Q (snd (m s)) (snd (m t))" using blindD [OF assms(1)] by blast+
  show "fst (bindE m f s) = fst (bindE m f t) \<and> Q (snd (bindE m f s)) (snd (bindE m f t))"
  proof (cases "fst (m t)")
    case (Inr x)
    then show ?thesis using m blindD [OF assms(2) m(2)] by (simp add: bindE_apply)
  qed (use m in \<open>simp add: bindE_apply\<close>)
qed

lemma sees_if: "blind m \<Longrightarrow> blind m' \<Longrightarrow> blind (if c then m else m')"
  by simp

lemma sees_option: "blind m \<Longrightarrow> (\<And>x. blind (f x)) \<Longrightarrow> blind (case v of None \<Rightarrow> m | Some x \<Rightarrow> f x)"
  by (cases v) simp_all

lemma sees_pair: "(\<And>x y. blind (f x y)) \<Longrightarrow> blind (case v of (x, y) \<Rightarrow> f x y)"
  by (cases v) simp

lemma sees_list: "blind m \<Longrightarrow> (\<And>x xs. blind (f x xs)) \<Longrightarrow> blind (case v of [] \<Rightarrow> m | x # xs \<Rightarrow> f x xs)"
  by (cases v) simp_all

lemmas sees_rules = sees_ret sees_throw sees_bind sees_if sees_option sees_pair sees_list

end

end
