(* ===== verification/Account.thy ===== *)
theory Account
  imports Endpoints Effects
begin

text \<open>
  The remaining account endpoints (\<open>components/platform/endpoints\<close>): \<open>register.cpp\<close>, \<open>remember.cpp\<close>,
  \<open>me.cpp\<close>, \<open>logout.cpp\<close>, \<open>update_user_password.cpp\<close>, \<open>set_user_info.cpp\<close>, \<open>get_user_info.cpp\<close> and
  \<open>account_activation.cpp\<close>, with the handlers that turn an escaping exception into a response, and
  \<open>EndpointAuthHelper::Initialize\<close>, which every one of them runs first. What an application hooks into
  the registration, and PostgreSQL's formatting of a date, are arguments.
\<close>

section \<open>The start of a request\<close>

text \<open>
  \<open>Initialize\<close>: the session is taken from the cookie in a transaction of its own; an exception is
  logged and the request goes on signed out. The same transaction builds the mail and payment services
  of a tenant when there is one; they are no part of the model.
\<close>

definition InitializeRequest :: "env \<Rightarrow> unit tx" where
  "InitializeRequest E =
     catchT (bindT (RunInTransaction E (InitializeFromFromCookie E)) (\<lambda>_. ret ())) (\<lambda>_. ret ())"

text \<open>\<open>const int personId = session.GetPersonId()\<close> keeps the low 32 bits.\<close>

definition narrow_int :: "int \<Rightarrow> int" where
  "narrow_int n = (n + 2147483648) mod 4294967296 - 2147483648"

text \<open>The signed-in person as the account endpoints see it, if any.\<close>

definition signed_in_person :: "world \<Rightarrow> int option" where
  "signed_in_person w =
     (if \<not> IsLoggedIn w then None
      else let pid = narrow_int (session_personId w) in if pid \<le> 0 then None else Some pid)"

definition with_person :: "(int \<Rightarrow> response tx) \<Rightarrow> response tx" where
  "with_person f w =
     (case signed_in_person w of None \<Rightarrow> (Inr RespNotAuthenticated, w) | Some pid \<Rightarrow> f pid w)"

section \<open>Me and Remember\<close>

definition MeTx :: "env \<Rightarrow> response tx" where
  "MeTx E w =
     (if cookie_manager w = None then (Inr RespNotAuthenticated, w)
      else bindT (InitializeFromFromCookie E) (\<lambda>ok. ret (if ok then RespOk else RespNotAuthenticated)) w)"

definition Me :: "env \<Rightarrow> response tx" where
  "Me E = catchT (RunInTransaction E (MeTx E)) (\<lambda>_. ret RespNotAuthenticated)"

definition EnqueueRememberAttempt :: "string \<Rightarrow> bool \<Rightarrow> unit tx" where
  "EnqueueRememberAttempt ip ok = QueueJob (RecordAttemptJob GlobalProvider [] ip ''remember'' ok)"

definition RememberTx :: "env \<Rightarrow> SecretsHelper option \<Rightarrow> string \<Rightarrow> response tx" where
  "RememberTx E S ip w =
     (if S = None \<or> cookie_manager w = None then (Inr RespNotAuthenticated, w)
      else bindT (CheckBeforeRemember E S ip) (\<lambda>g.
        if g \<noteq> Allow then ret RespTooManyAttempts
        else bindT (InitializeFromDeviceToken E S) (\<lambda>ok.
             bindT (EnqueueRememberAttempt ip ok) (\<lambda>_.
               ret (if ok then RespOk else RespNotAuthenticated)))) w)"

definition Remember :: "env \<Rightarrow> SecretsHelper option \<Rightarrow> string \<Rightarrow> response tx" where
  "Remember E S ip = catchT (RunInTransaction E (RememberTx E S ip)) (\<lambda>_. ret RespNotAuthenticated)"

section \<open>Logout\<close>

text \<open>The person of the session cookie; the lookup throws when the session is not in the table.\<close>

definition session_cookie_person :: "env \<Rightarrow> int tx" where
  "session_cookie_person E w =
     (case request_cookie ''session_token'' w of
        None \<Rightarrow> (Inr (-1), w)
      | Some t \<Rightarrow> bindT (LookupPersonIdBySessionToken E t) (\<lambda>p.
          ret (case p of None \<Rightarrow> -1 | Some pid \<Rightarrow> pid)) w)"

text \<open>The person of the device cookie, by the identifier before its first dot alone.\<close>

definition device_cookie_person :: "env \<Rightarrow> int \<Rightarrow> int tx" where
  "device_cookie_person E pid w =
     (case request_cookie ''device_token'' w of
        None \<Rightarrow> (Inr pid, w)
      | Some combined \<Rightarrow>
          if CHR ''.'' \<notin> set combined then (Inr pid, w)
          else stmt (\<lambda>w. case uuid_in E (takeWhile (\<lambda>c. c \<noteq> CHR ''.'') combined) of
              None \<Rightarrow> (Inl (DbFailure ''invalid input syntax for type uuid''), w)
            | Some u \<Rightarrow> (Inr (case List.find (\<lambda>r. d_uuid r = u) (device_tokens w) of
                               None \<Rightarrow> pid | Some r \<Rightarrow> d_personId r), w)) w)"

definition LogoutTx :: "env \<Rightarrow> SecretsHelper option \<Rightarrow> string \<Rightarrow> string \<Rightarrow> response tx" where
  "LogoutTx E S ip ua w =
     (if cookie_manager w = None then (Inr RespOk, w)
      else bindT (session_cookie_person E) (\<lambda>sid.
           bindT (if sid \<le> 0 then device_cookie_person E sid else ret sid) (\<lambda>pid.
           bindT (if 0 < pid
                  then bindT (LogoutPerson pid) (\<lambda>_. RecordEvent E ''logout'' pid ip ua [])
                  else ret ()) (\<lambda>_.
           bindT (ClearAuthCookies E S) (\<lambda>_. ret RespOk)))) w)"

definition Logout :: "env \<Rightarrow> SecretsHelper option \<Rightarrow> string \<Rightarrow> string \<Rightarrow> response tx" where
  "Logout E S ip ua = catchT (RunInTransaction E (LogoutTx E S ip ua)) (\<lambda>_. ret RespOk)"

section \<open>Changing the password\<close>

definition UpdateUserPasswordTx ::
  "env \<Rightarrow> SecretsHelper option \<Rightarrow> string \<Rightarrow> string \<Rightarrow> string \<Rightarrow> string \<Rightarrow> response tx" where
  "UpdateUserPasswordTx E S oldPassword newPassword ip ua = with_person (\<lambda>pid.
     bindT (LookupPersonInfoById pid) (\<lambda>found. case found of
       None \<Rightarrow> ret RespNotAuthenticated
     | Some info \<Rightarrow>
         bindT (VerifyPersonPassword E (email info) oldPassword) (\<lambda>ok.
           if \<not> ok then ret RespInvalidCredentials
           else bindT (UpdatePassword E (email info) newPassword S) (\<lambda>_.
                bindT (SetMustChangePassword E pid False) (\<lambda>_.
                bindT (RecordEvent E ''password_changed'' pid ip ua []) (\<lambda>_. ret RespOk))))))"

definition UpdateUserPassword ::
  "env \<Rightarrow> SecretsHelper option \<Rightarrow> message \<Rightarrow> string \<Rightarrow> string \<Rightarrow> response tx" where
  "UpdateUserPassword E S m ip ua =
     (if m = None then ret (RespBadRequest ''Invalid JSON object.'')
      else case (string_child m ''old_password'', string_child m ''new_password'') of
        (Some oldPassword, Some newPassword) \<Rightarrow>
          catchT (RunInTransaction E (UpdateUserPasswordTx E S oldPassword newPassword ip ua))
            (\<lambda>_. ret RespNotAuthenticated)
      | _ \<Rightarrow> ret (RespValidationError ''old_password and new_password are required.''))"

section \<open>Reading and changing the own data\<close>

definition or_else :: "string option \<Rightarrow> string \<Rightarrow> string" where
  "or_else v d = (case v of Some s \<Rightarrow> s | None \<Rightarrow> d)"

definition SetUserInfoTx :: "env \<Rightarrow> message \<Rightarrow> response tx" where
  "SetUserInfoTx E m = with_person (\<lambda>pid.
     bindT (LookupPersonInfoById pid) (\<lambda>found. case found of
       None \<Rightarrow> ret RespNotAuthenticated
     | Some info \<Rightarrow>
         bindT (UpdateInfo E (email info)
             \<lparr>email = or_else (string_child m ''email'') (email info),
              firstName = or_else (string_child m ''first_name'') (firstName info),
              lastName = or_else (string_child m ''last_name'') (lastName info)\<rparr>) (\<lambda>_. ret RespOk)))"

definition SetUserInfo :: "env \<Rightarrow> message \<Rightarrow> response tx" where
  "SetUserInfo E m =
     (if m = None then ret (RespBadRequest ''Invalid JSON object.'')
      else catchT (RunInTransaction E (SetUserInfoTx E m)) (\<lambda>_. ret RespNotAuthenticated))"

record UserInfo =
  ui_person :: PersonInfo
  ui_personId :: int
  ui_roles :: StringArray
  ui_permissions :: StringArray
  ui_createdAt :: string
  ui_mustChangePassword :: bool

definition GetUserInfoTx :: "env \<Rightarrow> (int \<Rightarrow> string) \<Rightarrow> (response \<times> UserInfo option) tx" where
  "GetUserInfoTx E fmt w =
     (case signed_in_person w of None \<Rightarrow> (Inr (RespNotAuthenticated, None), w)
      | Some pid \<Rightarrow> bindT (LookupPersonInfoById pid) (\<lambda>found. case found of
          None \<Rightarrow> ret (RespNotAuthenticated, None)
        | Some info \<Rightarrow>
            bindT (GetRolesForUser pid) (\<lambda>rs.
            bindT (GetPermissionsForUser pid) (\<lambda>ps.
            bindT (GetPersonById pid) (\<lambda>row.
            bindT (query (\<lambda>w. List.find (\<lambda>r. p_id r = pid) (people w))) (\<lambda>created.
              ret (RespOk, Some \<lparr>ui_person = info, ui_personId = pid, ui_roles = rs, ui_permissions = ps,
                ui_createdAt = (case created of None \<Rightarrow> [] | Some r \<Rightarrow> fmt (p_createdAt r)),
                ui_mustChangePassword = (case row of None \<Rightarrow> False | Some r \<Rightarrow> p_mustChangePassword r)\<rparr>)))))) w)"

definition GetUserInfo :: "env \<Rightarrow> (int \<Rightarrow> string) \<Rightarrow> (response \<times> UserInfo option) tx" where
  "GetUserInfo E fmt =
     catchT (RunInTransaction E (GetUserInfoTx E fmt)) (\<lambda>_. ret (RespNotAuthenticated, None))"

section \<open>Registration and activation\<close>

definition RegisterTx ::
  "env \<Rightarrow> SecretsHelper option \<Rightarrow> (int \<Rightarrow> string \<Rightarrow> unit tx) option \<Rightarrow> PersonInfo \<Rightarrow> string \<Rightarrow> response tx" where
  "RegisterTx E S hook info password =
     bindT (PreliminaryRegisterPerson E S info password True) (\<lambda>_.
     bindT (case hook of None \<Rightarrow> ret ()
            | Some onRegistered \<Rightarrow>
                catchT (bindT (LookupPersonByEmail E (email info)) (\<lambda>p. case p of
                    None \<Rightarrow> ret () | Some r \<Rightarrow> onRegistered (p_id r) (email info)))
                  (\<lambda>_. ret ())) (\<lambda>_. ret RespOk))"

definition Register ::
  "env \<Rightarrow> SecretsHelper option \<Rightarrow> (int \<Rightarrow> string \<Rightarrow> unit tx) option \<Rightarrow> message \<Rightarrow> response tx" where
  "Register E S hook m =
     (if m = None then ret (RespValidationError ''Request body required'')
      else case required_child m ''first_name'' of None \<Rightarrow> ret (RespValidationError ''first_name is required'')
      | Some firstN \<Rightarrow> (case required_child m ''last_name'' of None \<Rightarrow> ret (RespValidationError ''last_name is required'')
      | Some lastN \<Rightarrow> (case required_child m ''email'' of None \<Rightarrow> ret (RespValidationError ''email is required'')
      | Some em \<Rightarrow> (case required_child m ''password'' of None \<Rightarrow> ret (RespValidationError ''password is required'')
      | Some password \<Rightarrow>
          RunInTransaction E (RegisterTx E S hook \<lparr>email = em, firstName = firstN, lastName = lastN\<rparr> password)))))"

text \<open>The handlers of the two endpoints whose exceptions reach them show the message to the client.\<close>

text \<open>A request body is empty (\<open>None\<close>) or what the JSON parser makes of it.\<close>

definition HandleRegister ::
  "env \<Rightarrow> SecretsHelper option \<Rightarrow> (int \<Rightarrow> string \<Rightarrow> unit tx) option \<Rightarrow> message res option \<Rightarrow> response tx" where
  "HandleRegister E S hook body = catchT
     (bindT (InitializeRequest E) (\<lambda>_. case body of
        None \<Rightarrow> ret (RespBadRequest ''Request body required'')
      | Some parsed \<Rightarrow> bindT (lift parsed) (Register E S hook)))
     (\<lambda>e. ret (RespValidationError (exn_what e)))"

definition AccountActivation :: "env \<Rightarrow> SecretsHelper option \<Rightarrow> string \<Rightarrow> string \<Rightarrow> response tx" where
  "AccountActivation E S em token = RunInTransaction E
     (bindT (VerifyPersonEmail E S em token) (\<lambda>_.
      case S of None \<Rightarrow> throw (Undefined ''null SecretsHelper'')
      | Some h \<Rightarrow> bindT (LookupSecret E h ''website_address_login'') (\<lambda>url.
          bindT (LookupSecret E h ''login_link'') (\<lambda>link. ret (RespFound (url @ link))))))"

definition HandleAccountActivation :: "env \<Rightarrow> SecretsHelper option \<Rightarrow> string \<Rightarrow> string \<Rightarrow> response tx" where
  "HandleAccountActivation E S em token = catchT
     (bindT (InitializeRequest E) (\<lambda>_. AccountActivation E S em token))
     (\<lambda>e. ret (RespValidationError (exn_what e)))"

section \<open>Transactions of the endpoints\<close>

text \<open>The state a transaction starts from.\<close>

definition begun :: "env \<Rightarrow> world \<Rightarrow> world" where
  "begun E w = w\<lparr>tx_start := now_of E w, aborted := False\<rparr>"

lemma begun_sel [simp]:
  "people (begun E w) = people w" "sessions (begun E w) = sessions w" "device_tokens (begun E w) = device_tokens w"
  "cookie_manager (begun E w) = cookie_manager w" "session_personId (begun E w) = session_personId w"
  "tick (begun E w) = tick w" "now_of E (begun E w) = now_of E w" "aborted (begun E w) = False"
  "uuids (begun E w) = uuids w" "seqs (begun E w) = seqs w" "auth_events (begun E w) = auth_events w"
  "email_verifications (begun E w) = email_verifications w" "config_secrets (begun E w) = config_secrets w"
  by (simp_all add: begun_def now_of_def)

lemma begun_reads [simp]: "request_cookie k (begun E w) = request_cookie k w" "signed_in_person (begun E w) = signed_in_person w"
  by (simp_all add: request_cookie_def signed_in_person_def IsLoggedIn_def Let_def)

lemma rolled_back_sel [simp]:
  "people (rolled_back w v) = people w" "sessions (rolled_back w v) = sessions w"
  "device_tokens (rolled_back w v) = device_tokens w" "email_verifications (rolled_back w v) = email_verifications w"
  "session_personId (rolled_back w v) = session_personId v" "cookie_manager (rolled_back w v) = cookie_manager v"
  "aborted (rolled_back w v) = False"
  by (simp_all add: rolled_back_def)

lemma RunInTransaction_Inr:
  assumes "RunInTransaction E m w = (Inr x, w')"
  obtains v where "m (begun E w) = (Inr x, v)" "w' = (if aborted v then rolled_back w v else v)"
  using assms by (auto simp: RunInTransaction_def begun_def Let_def split: prod.splits sum.splits)

text \<open>A handler that answers a fixed response when the transaction throws: it went through, or the tables are as before.\<close>

lemma guarded_tx:
  assumes "catchT (RunInTransaction E m) (\<lambda>_. ret d) w = (Inr x, w')"
  obtains (through) v where "m (begun E w) = (Inr x, v)" "w' = (if aborted v then rolled_back w v else v)"
  | (thrown) e v where "m (begun E w) = (Inl e, v)" "x = d" "w' = rolled_back w v"
proof (cases "m (begun E w)")
  case (Pair r v)
  show thesis
  proof (cases r)
    case (Inl e)
    with Pair assms thrown show thesis
      by (cases e) (auto simp: catchT_def RunInTransaction_def begun_def Let_def ret_def)
  next
    case (Inr y)
    with Pair assms through show thesis
      by (auto simp: catchT_def RunInTransaction_def begun_def Let_def split: if_splits)
  qed
qed

lemma with_person_Inr [run_simps]:
  "with_person f w = (Inr x, w') \<longleftrightarrow>
   (signed_in_person w = None \<and> x = RespNotAuthenticated \<and> w' = w) \<or>
   (\<exists>pid. signed_in_person w = Some pid \<and> f pid w = (Inr x, w'))"
  by (auto simp: with_person_def split: option.splits)

lemma LookupPersonInfoById_Inr [run_simps]:
  "LookupPersonInfoById pid w = (Inr found, w') \<longleftrightarrow> \<not> aborted w \<and> w' = w \<and>
   found = (case List.find (\<lambda>r. p_id r = pid) (people w) of None \<Rightarrow> None
            | Some r \<Rightarrow> if p_emailVerifiedAt r \<noteq> None then Some (info_of r) else None)"
  by (auto simp: LookupPersonInfoById_def run_simps IsVerified_def split: option.splits)

text \<open>E-mail addresses and ids are unique keys of \<open>people\<close>.\<close>

definition people_keys :: "env \<Rightarrow> world \<Rightarrow> bool" where
  "people_keys E w \<longleftrightarrow> distinct (map p_id (people w)) \<and> distinct (map (\<lambda>r. citext E (p_email r)) (people w))"

lemma find_by_email:
  assumes "people_keys E w" "List.find (\<lambda>r. p_id r = pid) (people w) = Some p"
  shows "List.find (person_key E (p_email p)) (people w) = Some p"
proof -
  have p: "p \<in> set (people w)" using assms(2) by (auto dest: find_SomeD)
  have "q = p" if "q \<in> set (people w)" "person_key E (p_email p) q" for q
    using assms(1) p that by (auto simp: people_keys_def person_key_def distinct_map inj_on_def)
  moreover have "person_key E (p_email p) p" by (simp add: person_key_def)
  ultimately show ?thesis
    using p by (cases "List.find (person_key E (p_email p)) (people w)") (auto simp: find_None_iff dest: find_SomeD)
qed

section \<open>Changing the password, step by step\<close>

declare update_people_Inr [run_simps]

lemma RecordEvent_tables:
  assumes "RecordEvent E k pid ip ua d w = (Inr x, w')"
  shows "people w' = people w" "sessions w' = sessions w" "device_tokens w' = device_tokens w"
    "aborted w' = aborted w" "email_verifications w' = email_verifications w" "cookie_manager w' = cookie_manager w"
    "session_personId w' = session_personId w"
  using assms by (auto simp: RecordEvent_def stmt_Inr nextval_def Let_def split: if_splits)

lemma VerifyPersonPassword_True:
  "VerifyPersonPassword E em password w = (Inr True, w') \<longleftrightarrow>
   \<not> aborted w \<and> w' = w \<and> good_login E em password w \<noteq> None"
  by (auto simp: VerifyPersonPassword_def run_simps good_login_def IsVerified_def VerifyPasswordHash_def
      split: option.splits if_splits)

text \<open>The rows a person signs in with.\<close>

definition same_accounts :: "world \<Rightarrow> world \<Rightarrow> bool" where
  "same_accounts w w' \<longleftrightarrow> people w' = people w \<and> sessions w' = sessions w \<and> device_tokens w' = device_tokens w"

interpretation account_rows: request_frame same_accounts
  by unfold_locales (simp_all add: same_accounts_def)

lemma HashPasswordWithSecrets_accounts [frame_rules]: "along same_accounts (HashPasswordWithSecrets E S password)"
proof -
  have "along same_accounts (HashPassword E password ops mem)" for ops mem
    by (auto simp: along_def HashPassword_def same_accounts_def split: option.splits)
  then show ?thesis unfolding HashPasswordWithSecrets_def by (intro frame_rules)
qed

lemma HashForPerson_accounts:
  assumes "HashForPerson E S password w = (r, w')"
  shows "same_accounts w w'"
proof -
  have "along same_accounts (HashPassword E password ops mem)" for ops mem
    by (auto simp: along_def HashPassword_def same_accounts_def split: option.splits)
  then have "along same_accounts (HashForPerson E S password)"
    unfolding HashForPerson_def by (intro frame_rules)
  then show ?thesis using assms by (rule account_rows.alongD)
qed

text \<open>A person's row after its password has been changed.\<close>

definition with_password :: "string \<Rightarrow> int \<Rightarrow> PersonRow \<Rightarrow> PersonRow" where
  "with_password h now r = r\<lparr>p_passwordHash := h, p_mustChangePassword := False, p_updatedAt := now\<rparr>"

lemma UpdateUserPasswordTx_RespOk:
  assumes "UpdateUserPasswordTx E S old new ip ua w = (Inr RespOk, w')" "people_keys E w"
  obtains pid p h salt ops mem now where "signed_in_person w = Some pid"
    "List.find (\<lambda>r. p_id r = pid) (people w) = Some p" "p_emailVerifiedAt p \<noteq> None"
    "pwhash_verify E (p_passwordHash p) old" "pwhash_str E salt new ops mem = Some h"
    "people w' = map (\<lambda>r. if p_id r = pid then with_password h now r else r) (people w)"
    "sessions w' = sessions w" "device_tokens w' = device_tokens w" "aborted w' = aborted w"
proof -
  from assms(1) obtain pid p ok changed w1 w2 where
    pid: "signed_in_person w = Some pid" and p: "List.find (\<lambda>r. p_id r = pid) (people w) = Some p"
    and v: "p_emailVerifiedAt p \<noteq> None" and ok: "good_login E (p_email p) old w \<noteq> None"
    and u: "UpdatePassword E (p_email p) new S w = (Inr changed, w1)"
    and m: "SetMustChangePassword E pid False w1 = (Inr (), w2)"
    and e: "RecordEvent E ''password_changed'' pid ip ua [] w2 = (Inr (), w')"
    unfolding UpdateUserPasswordTx_def
    by (auto simp: run_simps VerifyPersonPassword_True info_of_def split: option.splits if_splits)
  have em: "List.find (person_key E (p_email p)) (people w) = Some p" using assms(2) p by (rule find_by_email)
  with ok have old: "pwhash_verify E (p_passwordHash p) old" by (auto simp: good_login_def split: if_splits)
  have pidp: "p_id p = pid" using p by (auto dest: find_SomeD)
  from u em v obtain h v1 where h: "HashForPerson E S new w = (Inr h, v1)" and w1: "UpdatePasswordRow E (p_id p) h v1 = (Inr (), w1)"
    unfolding UpdatePassword_def by (auto simp: run_simps IsVerified_def)
  obtain salt ops mem where s: "pwhash_str E salt new ops mem = Some h" using h by (rule HashForPerson_Inr)
  have same: "same_accounts w v1" using h by (rule HashForPerson_accounts)
  have "people w' = map (\<lambda>r. if p_id r = pid then with_password h (now_of E w1) r else r) (people w)"
    using RecordEvent_tables(1) [OF e] m w1 same pidp
    by (simp add: SetMustChangePassword_def UpdatePasswordRow_def run_simps with_password_def same_accounts_def comp_def
        cong: map_cong)
  moreover have "sessions w' = sessions w" "device_tokens w' = device_tokens w"
    using RecordEvent_tables(2,3) [OF e] m w1 same
    by (simp_all add: SetMustChangePassword_def UpdatePasswordRow_def run_simps same_accounts_def)
  moreover have "aborted w' = aborted w"
    using RecordEvent_tables(4) [OF e] m w1 u by (auto simp: SetMustChangePassword_def UpdatePasswordRow_def UpdatePassword_def run_simps)
  ultimately show thesis using that pid p v old s by blast
qed

lemma UpdateUserPasswordTx_other:
  assumes "UpdateUserPasswordTx E S old new ip ua w = (Inr resp, w')" "resp \<noteq> RespOk"
  shows "w' = w"
  using assms unfolding UpdateUserPasswordTx_def
  by (auto simp: run_simps VerifyPersonPassword_def split: option.splits if_splits)

lemma UpdateUserPassword_cases:
  assumes "UpdateUserPassword E S m ip ua w = (Inr resp, w')"
  obtains (refused) "resp \<noteq> RespOk" "same_accounts w w'"
  | (through) old new v where "string_child m ''old_password'' = Some old" "string_child m ''new_password'' = Some new"
      "UpdateUserPasswordTx E S old new ip ua (begun E w) = (Inr resp, v)" "w' = (if aborted v then rolled_back w v else v)"
proof (cases "string_child m ''old_password''")
  case None
  with assms refused show thesis by (auto simp: UpdateUserPassword_def ret_run same_accounts_def split: if_splits)
next
  case (Some old)
  show thesis
  proof (cases "string_child m ''new_password''")
    case None
    with Some assms refused show thesis by (auto simp: UpdateUserPassword_def ret_run same_accounts_def split: if_splits)
  next
    case new: (Some new)
    show thesis
    proof (cases "m = None")
      case True
      with Some show thesis by (simp add: string_child_def)
    next
      case False
      with Some new assms have "catchT (RunInTransaction E (UpdateUserPasswordTx E S old new ip ua))
          (\<lambda>_. ret RespNotAuthenticated) w = (Inr resp, w')" by (simp add: UpdateUserPassword_def)
      then show thesis
      proof (cases rule: guarded_tx)
        case (through v)
        with that(2) Some new show thesis by blast
      next
        case (thrown e v)
        with refused show thesis by (simp add: same_accounts_def)
      qed
    qed
  qed
qed

text \<open>
  C7. Changing the password. A success means that the request was signed in as a person with a
  verified e-mail address and that the old password is that person's; then exactly that person's row
  gets a hash of the new password and no longer has to change it. Any other answer leaves every row.
  In no case does a session or a remember-me token of the person, or of anyone, go away.
\<close>

theorem UpdateUserPassword_sound:
  assumes "UpdateUserPassword E S m ip ua w = (Inr resp, w')" "people_keys E w"
  shows "(if resp = RespOk
      then \<exists>old new pid p h salt ops mem now. string_child m ''old_password'' = Some old \<and>
        string_child m ''new_password'' = Some new \<and> signed_in_person w = Some pid \<and>
        List.find (\<lambda>r. p_id r = pid) (people w) = Some p \<and> p_emailVerifiedAt p \<noteq> None \<and>
        pwhash_verify E (p_passwordHash p) old \<and> pwhash_str E salt new ops mem = Some h \<and>
        people w' = map (\<lambda>r. if p_id r = pid then with_password h now r else r) (people w)
      else people w' = people w) \<and>
    sessions w' = sessions w \<and> device_tokens w' = device_tokens w"
  using assms(1)
proof (cases rule: UpdateUserPassword_cases)
  case refused
  then show ?thesis by (simp add: same_accounts_def)
next
  case (through old new v)
  show ?thesis
  proof (cases "resp = RespOk")
    case False
    with through UpdateUserPasswordTx_other [OF through(3)] show ?thesis by simp
  next
    case True
    have "people_keys E (begun E w)" using assms(2) by (simp add: people_keys_def)
    with through(3) [unfolded True] obtain pid p h salt ops mem now where
      "signed_in_person (begun E w) = Some pid" "List.find (\<lambda>r. p_id r = pid) (people (begun E w)) = Some p"
      "p_emailVerifiedAt p \<noteq> None" "pwhash_verify E (p_passwordHash p) old" "pwhash_str E salt new ops mem = Some h"
      "people v = map (\<lambda>r. if p_id r = pid then with_password h now r else r) (people (begun E w))"
      "sessions v = sessions (begun E w)" "device_tokens v = device_tokens (begun E w)" "aborted v = aborted (begun E w)"
      by (rule UpdateUserPasswordTx_RespOk)
    note 1 = this [unfolded begun_sel begun_reads]
    with through(4) have "w' = v" by simp
    then have 3: "people w' = map (\<lambda>r. if p_id r = pid then with_password h now r else r) (people w)"
      "sessions w' = sessions w" "device_tokens w' = device_tokens w" using 1(6-8) by simp_all
    have "\<exists>old new pid p h salt ops mem now. string_child m ''old_password'' = Some old \<and>
        string_child m ''new_password'' = Some new \<and> signed_in_person w = Some pid \<and>
        List.find (\<lambda>r. p_id r = pid) (people w) = Some p \<and> p_emailVerifiedAt p \<noteq> None \<and>
        pwhash_verify E (p_passwordHash p) old \<and> pwhash_str E salt new ops mem = Some h \<and>
        people w' = map (\<lambda>r. if p_id r = pid then with_password h now r else r) (people w)"
      by (intro exI conjI) (fact through(1,2) 1(1-5) 3(1))+
    with True 3(2,3) show ?thesis by simp
  qed
qed

definition account_world :: world where
  "account_world = reset_world\<lparr>session_personId := 7\<rparr>"

theorem UpdateUserPassword_sound_witness:
  "\<exists>w'. UpdateUserPassword demoEnv None (Some [(''old_password'', JString ''correct''), (''new_password'', JString ''new'')])
       [] [] account_world = (Inr RespOk, w') \<and>
     map p_passwordHash (people w') = [''new''] \<and> sessions w' = [demo_session] \<and> device_tokens w' = [demo_device]"
proof -
  let ?r = "UpdateUserPassword demoEnv None (Some [(''old_password'', JString ''correct''), (''new_password'', JString ''new'')])
       [] [] account_world"
  have msg: "string_child (Some [(''old_password'', JString ''correct''), (''new_password'', JString ''new'')]) ''old_password'' = Some ''correct''"
    "string_child (Some [(''old_password'', JString ''correct''), (''new_password'', JString ''new'')]) ''new_password'' = Some ''new''"
    by (simp_all add: string_child_def)
  have "fst ?r = Inr RespOk"
    unfolding UpdateUserPassword_def msg
    by (simp add: UpdateUserPasswordTx_def with_person_def signed_in_person_def IsLoggedIn_def narrow_int_def catchT_def
        RunInTransaction_def LookupPersonInfoById_def GetPersonById_def VerifyPersonPassword_def VerifyPasswordHash_def
        RecordEvent_def nextval_def info_of_def account_world_def reset_eval)
      (simp add: demoEnv_def RecordEvent_def nextval_def reset_eval)
  then have eq: "?r = (Inr RespOk, snd ?r)" by (metis prod.collapse)
  have w: "people account_world = [demo_person]" "sessions account_world = [demo_session]"
    "device_tokens account_world = [demo_device]" "signed_in_person account_world = Some 7"
    by (simp_all add: account_world_def reset_world_def demo_world_def signed_in_person_def IsLoggedIn_def narrow_int_def)
  have "people_keys demoEnv account_world" by (simp add: people_keys_def w)
  from UpdateUserPassword_sound [OF eq this] w eq show ?thesis
    by (auto simp: string_child_def with_password_def demoEnv_def demo_person_def)
qed

section \<open>Logging out\<close>

lemma LogoutPerson_rows:
  "LogoutPerson pid w = (Inr (), w') \<longleftrightarrow> \<not> aborted w \<and>
   w' = w\<lparr>sessions := filter (\<lambda>s. s_personId s \<noteq> pid) (sessions w),
          device_tokens := filter (\<lambda>d. d_personId d \<noteq> pid) (device_tokens w)\<rparr>"
  by (auto simp: LogoutPerson_def RemoveDeviceTokensForUser_def RemoveSessionsForUser_def run_simps stmt_Inr)

lemma cookie_props:
  "BuildAuthCookieProperties E S isProd http age w = (Inr p, w') \<Longrightarrow>
   w' = w \<and> c_maxAgeInMicros p = age \<and> c_httpOnly p = http"
  by (auto simp: BuildAuthCookieProperties_def run_simps Let_def split: option.splits if_splits dest!: LookupSecret_state)

lemma SetCookie_run:
  "SetCookie k v p w = (Inr (), w') \<longleftrightarrow> (\<exists>cm. cookie_manager w = Some cm \<and>
     w' = w\<lparr>cookie_manager := Some (cm\<lparr>cookies_out := cookies_out cm @ [(k, v, p)]\<rparr>)\<rparr>)"
  by (auto simp: SetCookie_def split: option.splits)

definition deletes_cookie :: "string \<Rightarrow> world \<Rightarrow> bool" where
  "deletes_cookie k w = (case cookie_manager w of None \<Rightarrow> False
     | Some cm \<Rightarrow> list_ex (\<lambda>(key, v, p). key = k \<and> v = [] \<and> c_maxAgeInMicros p = 0) (cookies_out cm))"

lemma ClearAuthCookies_Inr:
  assumes "ClearAuthCookies E S w = (Inr (), w')" "cookie_manager w \<noteq> None"
  shows "same_accounts w w' \<and> deletes_cookie ''session_token'' w' \<and> deletes_cookie ''device_token'' w' \<and>
    deletes_cookie ''csrft'' w'"
  using assms
  by (auto simp: ClearAuthCookies_def SetCookie_run run_simps same_accounts_def deletes_cookie_def dest!: cookie_props)

lemma logout_lookups:
  assumes "session_cookie_person E w = (Inr sid, w1)"
    and "(if sid \<le> 0 then device_cookie_person E sid else ret sid) w1 = (Inr pid, w2)"
  shows "same_accounts w w2" "cookie_manager w2 = cookie_manager w"
proof -
  have 1: "w1 = w\<lparr>tick := tick w1\<rparr>"
    using assms(1)
    by (auto simp: session_cookie_person_def LookupPersonIdBySessionToken_def LookupSessionByUuid_def run_simps
        ticked_def tx_inr split: option.splits if_splits)
  have 2: "w2 = w1"
    using assms(2) by (auto simp: device_cookie_person_def run_simps tx_inr split: option.splits if_splits)
  have "people w2 = people w" "sessions w2 = sessions w" "device_tokens w2 = device_tokens w"
    "cookie_manager w2 = cookie_manager w"
    by (subst 2, subst 1, simp)+
  then show "same_accounts w w2" "cookie_manager w2 = cookie_manager w" by (simp_all add: same_accounts_def)
qed

text \<open>
  Logging out. When the transaction goes through and one of the cookies leads to a person,
  every session and every remember-me token of that person is gone, on all devices, nobody else's is
  touched, no account changes, and the response deletes the three cookies.
\<close>

theorem LogoutTx_everywhere:
  assumes "LogoutTx E S ip ua w = (Inr resp, w')" "cookie_manager w \<noteq> None"
    and "session_cookie_person E w = (Inr sid, w1)"
    and "(if sid \<le> 0 then device_cookie_person E sid else ret sid) w1 = (Inr pid, w2)" "0 < pid"
  shows "resp = RespOk \<and> sessions w' = filter (\<lambda>s. s_personId s \<noteq> pid) (sessions w) \<and>
    device_tokens w' = filter (\<lambda>d. d_personId d \<noteq> pid) (device_tokens w) \<and> people w' = people w \<and>
    deletes_cookie ''session_token'' w' \<and> deletes_cookie ''device_token'' w' \<and> deletes_cookie ''csrft'' w'"
proof -
  from assms obtain w3 w4 where out: "LogoutPerson pid w2 = (Inr (), w3)"
    and ev: "RecordEvent E ''logout'' pid ip ua [] w3 = (Inr (), w4)"
    and clear: "ClearAuthCookies E S w4 = (Inr (), w')" and resp: "resp = RespOk"
    by (auto simp: LogoutTx_def bindT_def ret_def split: prod.splits sum.splits)
  note look = logout_lookups [OF assms(3,4)]
  have "cookie_manager w4 \<noteq> None"
    using RecordEvent_tables(6) [OF ev] out look(2) assms(2) by (simp add: LogoutPerson_rows)
  note gone = ClearAuthCookies_Inr [OF clear this]
  show ?thesis
    using gone look(1) out RecordEvent_tables(1-3) [OF ev] resp by (simp add: LogoutPerson_rows same_accounts_def)
qed

definition signed_in_world :: "string \<Rightarrow> world" where
  "signed_in_world token = reset_world\<lparr>cookie_manager := Some \<lparr>cookies_in = [(''session_token'', token)], cookies_out = []\<rparr>\<rparr>"

theorem LogoutTx_everywhere_witness:
  "\<exists>w'. LogoutTx demoEnv None [] [] (signed_in_world ''u1'') = (Inr RespOk, w') \<and> sessions w' = [] \<and> device_tokens w' = [] \<and>
     deletes_cookie ''device_token'' w'"
proof -
  let ?w = "signed_in_world ''u1''"
  let ?r = "LogoutTx demoEnv None [] [] ?w" and ?s = "session_cookie_person demoEnv ?w"
  have "fst ?s = Inr 7" by code_simp
  then have s: "?s = (Inr 7, snd ?s)" by (metis prod.collapse)
  have "fst ?r = Inr RespOk" by code_simp
  then have eq: "?r = (Inr RespOk, snd ?r)" by (metis prod.collapse)
  have w: "cookie_manager ?w \<noteq> None" "sessions ?w = [demo_session]" "device_tokens ?w = [demo_device]"
    by (simp_all add: signed_in_world_def reset_world_def)
  have two: "(if (7 :: int) \<le> 0 then device_cookie_person demoEnv 7 else ret 7) (snd ?s) = (Inr 7, snd ?s)"
    by (simp add: ret_def)
  from LogoutTx_everywhere [OF eq w(1) s two] w(2,3) have "sessions (snd ?r) = []" "device_tokens (snd ?r) = []"
    "deletes_cookie ''device_token'' (snd ?r)"
    by (simp_all add: demo_session_def demo_device_def)
  with eq show ?thesis by blast
qed

lemma session_cookie_unknown:
  assumes "request_cookie ''session_token'' w = Some t" "\<not> aborted w"
    and "\<forall>s \<in> set (sessions w). uuid_in E t \<noteq> Some (s_uuid s)"
  obtains e v where "session_cookie_person E w = (Inl e, v)" "\<And>s. e \<noteq> Undefined s" "cookie_manager v = cookie_manager w"
proof (cases "uuid_in E t")
  case None
  with assms that show thesis
    by (auto simp: session_cookie_person_def LookupPersonIdBySessionToken_def LookupSessionByUuid_def bindT_def stmt_def)
next
  case (Some u)
  then have "List.find (\<lambda>s. s_uuid s = u) (sessions w) = None" using assms(3) by (auto simp: find_None_iff)
  with Some assms(1,2) that show thesis
    by (auto simp: session_cookie_person_def LookupPersonIdBySessionToken_def LookupSessionByUuid_def bindT_def stmt_def throw_def)
qed

text \<open>
  A logout from a session that is no longer in the table signs nobody out. The lookup throws,
  the transaction is rolled back and the answer is still a success: the remember-me token of the same
  browser stays in its table and no cookie is deleted, so the next request for a new session succeeds.
\<close>

theorem Logout_stale_session:
  assumes "request_cookie ''session_token'' w = Some t"
    and "\<forall>s \<in> set (sessions w). uuid_in E t \<noteq> Some (s_uuid s)"
  shows "\<exists>w'. Logout E S ip ua w = (Inr RespOk, w') \<and> people w' = people w \<and> sessions w' = sessions w \<and>
    device_tokens w' = device_tokens w \<and> cookie_manager w' = cookie_manager w"
proof -
  obtain e v where s: "session_cookie_person E (begun E w) = (Inl e, v)" and e: "\<And>s. e \<noteq> Undefined s"
    and c: "cookie_manager v = cookie_manager (begun E w)"
    by (rule session_cookie_unknown [of "begun E w" t E]) (use assms in simp_all)
  have "cookie_manager w \<noteq> None" using assms(1) by (auto simp: request_cookie_def split: option.splits)
  with s have "LogoutTx E S ip ua (begun E w) = (Inl e, v)" by (simp add: LogoutTx_def bindT_Inl)
  then have "RunInTransaction E (LogoutTx E S ip ua) w = (Inl e, rolled_back w v)"
    by (simp add: RunInTransaction_def begun_def)
  then have "Logout E S ip ua w = (Inr RespOk, rolled_back w v)"
    unfolding Logout_def using e by (simp add: catchT_Inl ret_def)
  with c show ?thesis by simp
qed

theorem Logout_stale_session_witness:
  "\<exists>w'. Logout demoEnv None [] [] (signed_in_world ''gone'') = (Inr RespOk, w') \<and> device_tokens w' = [demo_device]"
  using Logout_stale_session [of "signed_in_world ''gone''" "''gone''" demoEnv None "[]" "[]"]
  by (auto simp: signed_in_world_def reset_world_def request_cookie_def demoEnv_def demo_session_def)

section \<open>Changing the own data\<close>

lemma UpdatePerson_Inr:
  assumes "UpdatePerson E pid t w = (Inr x, w')"
  shows "people w' = map (\<lambda>r. if p_id r = pid then set_name (now_of E w) t r else r) (people w)"
    "distinct (map (\<lambda>r. citext E (p_email r)) (people w'))" "\<not> aborted w'"
  using assms by (auto simp: UpdatePerson_def stmt_Inr throw_run Let_def split: if_splits)

text \<open>What a request asks the row to become: an absent field keeps its value.\<close>

definition requested_info :: "message \<Rightarrow> PersonRow \<Rightarrow> PersonInfo" where
  "requested_info m p = \<lparr>email = or_else (string_child m ''email'') (p_email p),
     firstName = or_else (string_child m ''first_name'') (p_firstName p),
     lastName = or_else (string_child m ''last_name'') (p_lastName p)\<rparr>"

lemma SetUserInfo_RespOk:
  assumes "SetUserInfo E m w = (Inr RespOk, w')" "people_keys E w" "changes_of (requested_info m p) \<noteq> []"
    and "signed_in_person w = Some pid" "List.find (\<lambda>r. p_id r = pid) (people w) = Some p"
  obtains now where "p_emailVerifiedAt p \<noteq> None"
    "people w' = map (\<lambda>r. if p_id r = pid then set_name now (changes_of (requested_info m p)) r else r) (people w)"
    "distinct (map (\<lambda>r. citext E (p_email r)) (people w'))"
proof -
  have "catchT (RunInTransaction E (SetUserInfoTx E m)) (\<lambda>_. ret RespNotAuthenticated) w = (Inr RespOk, w')"
    using assms(1) by (auto simp: SetUserInfo_def ret_run split: if_splits)
  then obtain v where v: "SetUserInfoTx E m (begun E w) = (Inr RespOk, v)" and w': "w' = (if aborted v then rolled_back w v else v)"
    by (cases rule: guarded_tx) auto
  have pid: "p_id p = pid" using assms(5) by (auto dest: find_SomeD)
  have em: "List.find (person_key E (p_email p)) (people w) = Some p" using assms(2,5) by (rule find_by_email)
  from v assms(3-5) em have ver: "p_emailVerifiedAt p \<noteq> None"
    and "UpdatePerson E pid (changes_of (requested_info m p)) (begun E w) = (Inr (), v)"
    unfolding SetUserInfoTx_def
    by (auto simp: run_simps UpdateInfo_def info_of_def IsVerified_def requested_info_def pid split: option.splits if_splits)
  note u = UpdatePerson_Inr [OF this(2)]
  from u(3) w' have "w' = v" by simp
  from ver u(1,2) [folded this, unfolded begun_sel] show thesis by (rule that)
qed

text \<open>
  Changing the e-mail address. After a request that asks for a new, non-empty address, the person
  is found under that address, still verified and with the same password, although nobody showed that
  the new address can be read; every other row is as it was.
\<close>

theorem SetUserInfo_keeps_verified:
  assumes "SetUserInfo E m w = (Inr RespOk, w')" "people_keys E w"
    and "string_child m ''email'' = Some em" "em \<noteq> []" "em \<noteq> ''now_us()''"
    and "signed_in_person w = Some pid" "List.find (\<lambda>r. p_id r = pid) (people w) = Some p"
  shows "\<exists>q. List.find (person_key E em) (people w') = Some q \<and> p_id q = pid \<and> p_email q = em \<and>
    p_emailVerifiedAt q = p_emailVerifiedAt p \<and> p_emailVerifiedAt q \<noteq> None \<and>
    p_passwordHash q = p_passwordHash p \<and> (\<forall>r \<in> set (people w'). p_id r \<noteq> pid \<longrightarrow> r \<in> set (people w))"
proof -
  let ?t = "changes_of (requested_info m p)"
  have t: "map_of ?t ''email'' = Some em" "?t \<noteq> []"
    using assms(3,4) by (auto simp: changes_of_def requested_info_def or_else_def Let_def)
  from assms(1,2) t(2) assms(6,7) obtain now where v: "p_emailVerifiedAt p \<noteq> None"
    and w': "people w' = map (\<lambda>r. if p_id r = pid then set_name now ?t r else r) (people w)"
    and d: "distinct (map (\<lambda>r. citext E (p_email r)) (people w'))" by (rule SetUserInfo_RespOk)
  let ?q = "set_name now ?t p"
  have pid: "p_id p = pid" "p_id ?q = pid" using assms(7) by (auto dest: find_SomeD simp: set_name_def)
  have ids: "map p_id (people w') = map p_id (people w)" by (simp add: w' set_name_def)
  have "List.find (\<lambda>r. p_id r = pid) (map (\<lambda>r. if p_id r = pid then set_name now ?t r else r) xs) =
      map_option (set_name now ?t) (List.find (\<lambda>r. p_id r = pid) xs)" for xs
    by (induction xs) (auto simp: set_name_def)
  then have "List.find (\<lambda>r. p_id r = pid) (people w') = Some ?q" by (simp add: w' assms(7))
  moreover have "people_keys E w'" using d ids assms(2) by (simp add: people_keys_def)
  ultimately have "List.find (person_key E (p_email ?q)) (people w') = Some ?q" by (metis find_by_email)
  moreover have "p_email ?q = em" using t(1) assms(5) by (simp add: set_name_def inlined_def)
  moreover have "\<forall>r \<in> set (people w'). p_id r \<noteq> pid \<longrightarrow> r \<in> set (people w)" by (auto simp: w' set_name_def)
  ultimately show ?thesis using v pid(2) by (auto simp: set_name_def)
qed

theorem SetUserInfo_keeps_verified_witness:
  "\<exists>w' q. SetUserInfo demoEnv (Some [(''email'', JString ''bob@example.org'')]) account_world = (Inr RespOk, w') \<and>
     List.find (person_key demoEnv ''bob@example.org'') (people w') = Some q \<and> p_emailVerifiedAt q = Some 1"
proof -
  let ?m = "Some [(''email'', JString ''bob@example.org'')]"
  let ?r = "SetUserInfo demoEnv ?m account_world"
  have "fst ?r = Inr RespOk" by code_simp
  then have eq: "?r = (Inr RespOk, snd ?r)" by (metis prod.collapse)
  have w: "people account_world = [demo_person]" "signed_in_person account_world = Some 7"
    by (simp_all add: account_world_def reset_world_def demo_world_def signed_in_person_def IsLoggedIn_def narrow_int_def)
  have "people_keys demoEnv account_world" by (simp add: people_keys_def w)
  moreover have "string_child ?m ''email'' = Some ''bob@example.org''" by (simp add: string_child_def)
  ultimately show ?thesis
    using SetUserInfo_keeps_verified [OF eq, of "''bob@example.org''" 7 demo_person] eq
    by (auto simp: w demo_person_def)
qed

section \<open>Who a request comes from\<close>

text \<open>The session row a request's cookie names, when it is neither revoked nor expired.\<close>

definition cookie_session :: "env \<Rightarrow> world \<Rightarrow> SessionRow option" where
  "cookie_session E w =
     (case request_cookie ''session_token'' w of None \<Rightarrow> None
      | Some t \<Rightarrow> (case uuid_in E t of None \<Rightarrow> None
      | Some u \<Rightarrow> (case List.find (\<lambda>s. s_uuid s = u) (sessions w) of None \<Rightarrow> None
      | Some s \<Rightarrow> if s_revoked s \<or> s_expiresAt s < now_of E w then None else Some s)))"

lemma LookupSessionByUuid_eval:
  "LookupSessionByUuid E t w =
     (if aborted w then (Inl (DbFailure ''current transaction is aborted''), w)
      else case uuid_in E t of
        None \<Rightarrow> (Inl (DbFailure ''invalid input syntax for type uuid''), w\<lparr>aborted := True\<rparr>)
      | Some u \<Rightarrow> (case List.find (\<lambda>s. s_uuid s = u) (sessions w) of
          None \<Rightarrow> (Inl (RuntimeError ''Sessions::LookupSessionByUuid - not found''), w)
        | Some s \<Rightarrow> (Inr s, w)))"
  by (auto simp: LookupSessionByUuid_def bindT_def stmt_def throw_def ret_def split: option.splits)

lemma InitializeFromFromCookie_eval:
  assumes "\<not> aborted w"
  shows "\<exists>v. InitializeFromFromCookie E w = (Inr (cookie_session E w \<noteq> None), v) \<and> same_accounts w v \<and>
    session_personId v = (case cookie_session E w of None \<Rightarrow> session_personId w | Some s \<Rightarrow> s_personId s)"
proof (cases "request_cookie ''session_token'' w")
  case None
  then show ?thesis by (simp add: InitializeFromFromCookie_def cookie_session_def same_accounts_def)
next
  case (Some t)
  show ?thesis
  proof (cases "uuid_in E t")
    case None
    with Some assms show ?thesis
      by (simp add: InitializeFromFromCookie_def cookie_session_def same_accounts_def LookupPersonIdBySessionToken_def
          LookupSessionByUuid_eval bindT_def catchT_def ret_def)
  next
    case u: (Some u)
    show ?thesis
    proof (cases "List.find (\<lambda>s. s_uuid s = u) (sessions w)")
      case None
      with Some u assms show ?thesis
        by (simp add: InitializeFromFromCookie_def cookie_session_def same_accounts_def LookupPersonIdBySessionToken_def
            LookupSessionByUuid_eval bindT_def catchT_def ret_def)
    next
      case s: (Some s)
      show ?thesis
        by (simp add: InitializeFromFromCookie_def cookie_session_def same_accounts_def LookupPersonIdBySessionToken_def
            LookupSessionByUuid_eval bindT_def catchT_def ret_def SetPersonId_def now_us_live Some u s assms)
    qed
  qed
qed

text \<open>
  C31. The start of a request. It never fails, changes no account, session or token, and makes the
  request signed in as exactly the person of the session its cookie names, provided that session is
  neither revoked nor past its expiry; in every other case the request stays as it was, signed out.
\<close>

theorem session_restored:
  "\<exists>w'. InitializeRequest E w = (Inr (), w') \<and> people w' = people w \<and> sessions w' = sessions w \<and>
     device_tokens w' = device_tokens w \<and>
     session_personId w' = (case cookie_session E w of None \<Rightarrow> session_personId w | Some s \<Rightarrow> s_personId s)"
proof -
  obtain v where v: "InitializeFromFromCookie E (begun E w) = (Inr (cookie_session E (begun E w) \<noteq> None), v)"
    "same_accounts (begun E w) v"
    "session_personId v = (case cookie_session E (begun E w) of None \<Rightarrow> session_personId (begun E w) | Some s \<Rightarrow> s_personId s)"
    using InitializeFromFromCookie_eval [of "begun E w" E] by auto
  moreover have "cookie_session E (begun E w) = cookie_session E w"
    by (simp add: cookie_session_def split: option.split)
  ultimately show ?thesis
    by (simp add: InitializeRequest_def RunInTransaction_def begun_def [symmetric] catchT_def bindT_def ret_def
        same_accounts_def Let_def split: option.split)
qed

section \<open>Signing in with a remember-me token\<close>

lemma reads_CheckBeforeRemember [read_rules]: "reads (CheckBeforeRemember E S ip)"
  unfolding CheckBeforeRemember_def count_defs by (intro read_rules)

text \<open>The row a rotation gives its new identifier is found under that identifier.\<close>

lemma ConsumeAndRotate_found:
  assumes "ConsumeAndRotate E old oldUuid new dur w = (Inr (Some (pid, u)), w')"
  obtains r where "r \<in> set (device_tokens w)" "rotatable (now_of E w) old oldUuid r"
    "map_option d_personId (List.find (\<lambda>d. d_uuid d = u) (device_tokens w')) = Some (d_personId r)"
proof -
  let ?P = "rotatable (now_of E w) old oldUuid"
  from assms obtain r0 where r0: "List.find ?P (device_tokens w) = Some r0"
    and u: "u = new_uuid E (uuids w)" and clash: "\<forall>r \<in> set (device_tokens w). r \<noteq> r0 \<longrightarrow> d_uuid r \<noteq> u"
    and w': "device_tokens w' = map (\<lambda>r. if ?P r then r\<lparr>d_secretHash := new, d_uuid := u,
          d_lastUsedAt := Some (now_of E w), d_expiresAt := now_of E w + dur\<rparr> else r) (device_tokens w)"
    by (fastforce simp: ConsumeAndRotate_def run_simps Let_def list_ex_iff range_res split: option.splits sum.splits if_splits)
  have P: "r0 \<in> set (device_tokens w)" "?P r0" using r0 by (auto dest: find_SomeD)
  have "map_option d_personId (List.find (\<lambda>d. d_uuid d = u) (map (\<lambda>r. if ?P r then r\<lparr>d_secretHash := new, d_uuid := u,
          d_lastUsedAt := Some (now_of E w), d_expiresAt := now_of E w + dur\<rparr> else r) ds)) = Some (d_personId r0)"
    if "List.find ?P ds = Some r0" "\<forall>r \<in> set ds. r \<noteq> r0 \<longrightarrow> d_uuid r \<noteq> u" for ds
    using that
  proof (induction ds)
    case (Cons d ds)
    show ?case
    proof (cases "?P d")
      case True
      with Cons.prems(1) show ?thesis by simp
    next
      case False
      with P(2) Cons.prems(2) have "d_uuid d \<noteq> u" by auto
      with False Cons show ?thesis by simp
    qed
  qed simp
  from this [OF r0 clash] have "map_option d_personId (List.find (\<lambda>d. d_uuid d = u) (device_tokens w')) = Some (d_personId r0)"
    by (simp only: w')
  with P show thesis by (rule that)
qed

interpretation people_rows: request_frame "\<lambda>w w'. people w' = people w"
  by unfold_locales simp_all

lemma rotation_keeps:
  assumes "ConsumeAndRotate E old oldUuid new dur w = (Inr x, w')"
  shows "people w' = people w" "sessions w' = sessions w"
  using assms by (auto simp: ConsumeAndRotate_def run_simps Let_def split: option.splits sum.splits if_splits)

lemma DeviceTokenHelper_accounts: "along same_accounts (DeviceTokenHelper E S)"
  unfolding DeviceTokenHelper_def Let_def by (intro frame_rules)

lemma SetDeviceTokenCookie_live: "SetDeviceTokenCookie E S i b w = (Inr (), w') \<Longrightarrow> \<not> aborted w'"
  by (auto simp: SetDeviceTokenCookie_def MaxAgeSecret_def SetCookieHelper_def LookupSecret_def LookupSecretRow_def
      SetCookie_run run_simps query_Inr split: option.splits if_splits dest!: cookie_props)

text \<open>A device login: the row it presented, the person of the row, and the one session it adds.\<close>

lemma InitializeFromDeviceToken_True:
  assumes "InitializeFromDeviceToken E S w = (Inr True, w')" "people_keys E w"
    and "\<And>n. uuid_in E (new_uuid E n) = Some (new_uuid E n)"
  obtains cookie tokenId secret bytes r t p s where "request_cookie ''device_token'' w = Some cookie"
    "SplitString cookie ''.'' = (tokenId, secret)" "base64_decode E secret = Some bytes"
    "r \<in> set (device_tokens w)" "tick w \<le> t" "rotatable (clk E t) (HashBinary E bytes) tokenId r"
    "List.find (\<lambda>q. p_id q = d_personId r) (people w) = Some p" "p_emailVerifiedAt p \<noteq> None"
    "sessions w' = sessions w @ [s]" "s_personId s = p_id p" "\<not> s_revoked s" "\<not> aborted w'"
proof -
  from assms(1) obtain cookie tokenId secret u b w1 row w2 p tok w3 w4 where
    cookie: "request_cookie ''device_token'' w = Some cookie" "SplitString cookie ''.'' = (tokenId, secret)"
    and tried: "TryLoginWithDeviceToken E S tokenId secret w = (Inr (Some (u, b)), w1)"
    and row: "LookupDeviceTokenByUuid E u w1 = (Inr row, w2)"
    and p: "List.find (\<lambda>q. p_id q = d_personId row) (people w2) = Some p" "p_emailVerifiedAt p \<noteq> None"
    and tok: "CreateSessionToken E S (p_email p) w2 = (Inr (Some tok), w3)"
    and login: "InitializeFromLogin E S tok (p_email p) False w3 = (Inr (), w4)"
    and dev: "SetDeviceTokenCookie E S u b w4 = (Inr (), w')"
    unfolding InitializeFromDeviceToken_def
    by (auto simp: run_simps info_of_def split: option.splits if_splits prod.splits)
  from tried obtain bytes h x v pid where bytes: "base64_decode E secret = Some bytes"
    and dth: "DeviceTokenHelper E S w = (Inr (h, b, Some x), v)"
    and rot: "ConsumeAndRotate E (HashBinary E bytes) tokenId h x v = (Inr (Some (pid, u)), w1)"
    unfolding TryLoginWithDeviceToken_def
    by (auto elim!: catchT_InrE simp: run_simps Base64Decode_def Let_def split: option.splits)
  have same: "same_accounts w v" using DeviceTokenHelper_accounts dth by (rule account_rows.alongD)
  obtain r where r: "r \<in> set (device_tokens v)" "rotatable (now_of E v) (HashBinary E bytes) tokenId r"
    and found: "map_option d_personId (List.find (\<lambda>d. d_uuid d = u) (device_tokens w1)) = Some (d_personId r)"
    using rot by (rule ConsumeAndRotate_found)
  have u: "uuid_in E u = Some u"
    using rot assms(3) by (auto elim: ConsumeAndRotate_Some)
  have "d_personId row = d_personId r" "w2 = w1"
    using row found u by (auto simp: LookupDeviceTokenByUuid_def run_simps stmt_Inr)
  note keep = rotation_keeps [OF rot]
  have people: "people w2 = people w" and sessions: "sessions w2 = sessions w"
    using same keep \<open>w2 = w1\<close> by (simp_all add: same_accounts_def)
  have "List.find (person_key E (p_email p)) (people w2) = Some p"
    using find_by_email [OF assms(2), of _ p] p(1) people by metis
  with CreateSessionToken_Some [OF tok] obtain s where s: "sessions w3 = sessions w2 @ [s]" "s_personId s = p_id p" "\<not> s_revoked s"
    by (metis option.inject)
  have "sessions w' = sessions w3"
    using session_stepD [OF session_steps(1) login] session_stepD [OF session_rows.SetDeviceTokenCookie_rule dev] by simp
  then show thesis
    using that [OF cookie bytes _ _ _ _ p(2) _ s(2,3)] r same p(1) people sessions s(1) DeviceTokenHelper_Inr(3) [OF dth]
      \<open>d_personId row = d_personId r\<close> SetDeviceTokenCookie_live [OF dev]
    by (auto simp: now_of_def same_accounts_def)
qed

lemma Remember_RespOk:
  assumes "Remember E S ip w = (Inr RespOk, w')"
  obtains w1 v where "w1 = begun E w\<lparr>tick := tick w1\<rparr>" "tick w \<le> tick w1"
    "InitializeFromDeviceToken E S w1 = (Inr True, v)"
    "\<not> aborted v \<longrightarrow> sessions w' = sessions v"
  using assms unfolding Remember_def
proof (cases rule: guarded_tx)
  case (through v)
  then obtain w1 v1 where g: "CheckBeforeRemember E S ip (begun E w) = (Inr Allow, w1)"
    and i: "InitializeFromDeviceToken E S w1 = (Inr True, v1)" and q: "v = v1\<lparr>jobs := jobs v\<rparr>"
    unfolding RememberTx_def EnqueueRememberAttempt_def by (auto simp: run_simps split: if_splits)
  have w1: "w1 = begun E w\<lparr>tick := tick w1\<rparr>" "tick w \<le> tick w1"
    using readsD [OF reads_CheckBeforeRemember g] by simp_all
  have "sessions v = sessions v1" "aborted v = aborted v1" by (subst q, simp)+
  with that [OF w1 i] through(2) show thesis by auto
qed simp_all

text \<open>
  C6. Signing in with a remember-me token. A success means that the device cookie held the id and
  the secret of a token that was neither revoked nor expired, and adds exactly one session: one of the
  verified person the token belongs to.
\<close>

theorem Remember_sound:
  assumes "Remember E S ip w = (Inr RespOk, w')" "people_keys E w"
    and "\<And>n. uuid_in E (new_uuid E n) = Some (new_uuid E n)"
  shows "\<exists>cookie tokenId secret bytes r t p s. request_cookie ''device_token'' w = Some cookie \<and>
    SplitString cookie ''.'' = (tokenId, secret) \<and> base64_decode E secret = Some bytes \<and>
    r \<in> set (device_tokens w) \<and> tick w \<le> t \<and> rotatable (clk E t) (HashBinary E bytes) tokenId r \<and>
    List.find (\<lambda>q. p_id q = d_personId r) (people w) = Some p \<and> p_emailVerifiedAt p \<noteq> None \<and>
    sessions w' = sessions w @ [s] \<and> s_personId s = p_id p \<and> \<not> s_revoked s"
proof -
  obtain w1 v where w1: "w1 = begun E w\<lparr>tick := tick w1\<rparr>" "tick w \<le> tick w1"
    and i: "InitializeFromDeviceToken E S w1 = (Inr True, v)" and s: "\<not> aborted v \<longrightarrow> sessions w' = sessions v"
    using assms(1) by (rule Remember_RespOk)
  have same: "people w1 = people w" "sessions w1 = sessions w" "device_tokens w1 = device_tokens w"
    "request_cookie k w1 = request_cookie k w" for k
    by (subst w1(1), simp add: request_cookie_def begun_def)+
  have "people_keys E w1" using assms(2) same(1) by (simp add: people_keys_def)
  from i this assms(3) obtain cookie tokenId secret bytes r t p s where
    "request_cookie ''device_token'' w1 = Some cookie"
    "SplitString cookie ''.'' = (tokenId, secret)" "base64_decode E secret = Some bytes"
    "r \<in> set (device_tokens w1)" "tick w1 \<le> t" "rotatable (clk E t) (HashBinary E bytes) tokenId r"
    "List.find (\<lambda>q. p_id q = d_personId r) (people w1) = Some p" "p_emailVerifiedAt p \<noteq> None"
    "sessions v = sessions w1 @ [s]" "s_personId s = p_id p" "\<not> s_revoked s" "\<not> aborted v"
    by (rule InitializeFromDeviceToken_True)
  note f = this [unfolded same]
  have w': "sessions w' = sessions w @ [s]" using s f(9,12) by simp
  have t: "tick w \<le> t" using f(5) w1(2) by simp
  show ?thesis
    by (intro exI conjI) (fact f(1-4,6-8,10,11) t w')+
qed

definition remember_world :: world where
  "remember_world = device_world\<lparr>config_secrets :=
     [(''auth_device_token_max_duration_in_micros'', ''1000''), (''auth_session_max_duration_in_micros'', ''1000'')],
     cookie_manager := Some \<lparr>cookies_in = [(''device_token'', ''dev.ab'')], cookies_out = []\<rparr>\<rparr>"

lemma demoEnv_sel:
  "clk demoEnv = int" "uuid_in demoEnv = Some" "new_uuid demoEnv = (\<lambda>n. replicate n (CHR ''u''))"
  "citext demoEnv = (\<lambda>s. s)" "base64_decode demoEnv = Some" "base64_encode demoEnv = (\<lambda>s. s)" "isProdMode demoEnv = False"
  "random_bytes demoEnv = (\<lambda>i n. replicate n (char_of i))"
  by (simp_all add: demoEnv_def)

lemmas remember_eval = Remember_def RunInTransaction_def RememberTx_def CheckBeforeRemember_def
  EnqueueRememberAttempt_def QueueJob_def InitializeFromDeviceToken_def request_cookie_def TryLoginWithDeviceToken_def
  Base64Decode_def DeviceTokenHelper_def RandomBytes_def LookupSecret_live catchT_def bindT_def lift_def ret_def
  now_us_live ConsumeAndRotate_def stmt_def rotatable_def LookupDeviceTokenByUuid_def LookupPersonInfoById_def
  GetPersonById_def query_def IsVerified_def info_of_def CreateSessionToken_def LookupPersonByEmail_def person_key_def
  AddSession_def nextval_def LookupSessionById_def has_person_def InitializeFromLogin_def
  LookupPersonIdBySessionToken_def LookupSessionByUuid_def SetPersonId_def MaxAgeSecret_def SetCookieHelper_def
  BuildAuthCookieProperties_def SetCookie_def SetCsrfTokenCookie_def SetDeviceTokenCookie_def Let_def ticked_def
  now_of_def sql_bigint_def cpp_int64_def in_i64_def remember_world_def device_world_def demo_world_def
  emptyWorld_def demo_device_def demo_person_def demoEnv_sel

theorem Remember_sound_witness:
  "\<exists>w' s. Remember demoEnv (Some None) [] remember_world = (Inr RespOk, w') \<and> sessions w' = [s] \<and> s_personId s = 7"
proof -
  let ?r = "Remember demoEnv (Some None) [] remember_world"
  have n: "stoll ''1000'' = Inr 1000" by code_simp
  have h: "HashBinary demoEnv ''ab'' = ''6162''" by code_simp
  have split: "SplitString ''dev.ab'' ''.'' = (''dev'', ''ab'')" by code_simp
  have "fst ?r = Inr RespOk" by (simp add: remember_eval n h split)
  then have eq: "?r = (Inr RespOk, snd ?r)" by (metis prod.collapse)
  have w: "people remember_world = [demo_person]" "sessions remember_world = []"
    by (simp_all add: remember_world_def device_world_def demo_world_def emptyWorld_def)
  have "people_keys demoEnv remember_world" by (simp add: people_keys_def w)
  from Remember_sound [OF eq this] eq w show ?thesis
    by (auto simp: demoEnv_def demo_person_def split: if_splits)
qed

section \<open>Registration\<close>

lemma Register_RunInTransaction:
  assumes "Register E S hook m w = (Inr RespOk, w')"
  obtains em firstN lastN password v where "required_child m ''email'' = Some em" "required_child m ''password'' = Some password"
    "RegisterTx E S hook \<lparr>email = em, firstName = firstN, lastName = lastN\<rparr> password (begun E w) = (Inr RespOk, v)"
    "w' = (if aborted v then rolled_back w v else v)"
  using assms
  by (auto simp: Register_def ret_run split: option.splits if_splits elim!: RunInTransaction_Inr)

lemma AddPerson_Inr:
  assumes "AddPerson E em fn ln h w = (Inr pid, w')"
  obtains p where "\<forall>r \<in> set (people w). \<not> person_key E em r" "people w' = people w @ [p]" "p_id p = pid" "p_email p = em"
    "p_passwordHash p = h" "p_emailVerifiedAt p = None" "sessions w' = sessions w" "device_tokens w' = device_tokens w"
  using assms by (auto simp: AddPerson_def stmt_Inr nextval_def Let_def list_ex_iff split: if_splits)

lemma verification_accounts: "along same_accounts (AddEmailVerificationById E S pid h)"
proof -
  have del: "along same_accounts (stmt (\<lambda>w. (Inr (), w\<lparr>email_verifications :=
      filter (\<lambda>r. v_personId r \<noteq> pid) (email_verifications w)\<rparr>)))"
    by (rule account_rows.stmt_rule) (auto simp: same_accounts_def)
  have ins: "along same_accounts (stmt (\<lambda>w. let (vid, w1) = nextval ''email_verifications'' w in
         if \<not> has_person pid w then (Inl (DbFailure ''fk_email_verifications_person_id''), w)
         else (Inr vid, w1\<lparr>email_verifications := email_verifications w @
           [\<lparr>v_id = vid, v_personId = pid, v_tokenHash = h, v_expiresAt = x, v_attempts = 0\<rparr>]\<rparr>)))" for x
    by (rule account_rows.stmt_rule) (auto simp: same_accounts_def nextval_def Let_def split: if_splits)
  show ?thesis
    unfolding AddEmailVerificationById_def LookupExpirationWindowMicros_def LookupRequiredSecret_def
    by (intro frame_rules del ins)
qed

lemma mail_accounts: "along same_accounts (SendMail E mail)"
  by (auto simp: along_def SendMail_def same_accounts_def split: sum.splits)

lemma LookupSecret_Inr: "LookupSecret E h k w = (Inr x, w') \<Longrightarrow> w' = w \<and> \<not> aborted w"
  by (auto simp: LookupSecret_def LookupSecretRow_def run_simps query_Inr split: option.splits)

lemma VerifyMail_live: "VerifyMail E h pinfo t w = (Inr x, w') \<Longrightarrow> w' = w \<and> \<not> aborted w"
  by (auto simp: VerifyMail_def bindT_Inr_iff ret_run Let_def dest!: LookupSecret_Inr)

lemma PreliminaryRegisterPerson_Inr:
  assumes "PreliminaryRegisterPerson E S pinfo password True w = (Inr (), w')"
  obtains p where "\<forall>r \<in> set (people w). \<not> person_key E (email pinfo) r" "people w' = people w @ [p]"
    "p_email p = email pinfo" "p_emailVerifiedAt p = None" "sessions w' = sessions w" "device_tokens w' = device_tokens w"
    "\<not> aborted w'"
proof -
  from assms obtain h w1 pid w2 t w3 vid w4 sh mail w5 where
    h: "HashPasswordWithSecrets E S password w = (Inr h, w1)"
    and add: "AddPerson E (email pinfo) (firstName pinfo) (lastName pinfo) h w1 = (Inr pid, w2)"
    and r: "RandomBytes E 64 w2 = (Inr t, w3)"
    and ver: "AddEmailVerificationById E S pid (HashBinary E t) w3 = (Inr vid, w4)"
    and vm: "VerifyMail E sh pinfo (url_encode E (base64_encode E t)) w4 = (Inr mail, w5)"
    and send5: "SendMail E mail w5 = (Inr (), w')"
    unfolding PreliminaryRegisterPerson_def
    by (auto simp: bindT_Inr_iff Let_def throw_run if_run split: option.splits)
  have send: "SendMail E mail w4 = (Inr (), w')" and live: "\<not> aborted w4" using VerifyMail_live [OF vm] send5 by simp_all
  have same: "same_accounts w w1" "same_accounts w2 w3" "same_accounts w3 w4" "same_accounts w4 w'"
    using account_rows.alongD [OF HashPasswordWithSecrets_accounts h]
      account_rows.alongD [OF account_rows.RandomBytes_rule r] account_rows.alongD [OF verification_accounts ver]
      account_rows.alongD [OF mail_accounts send] by blast+
  have "\<not> aborted w'" using live send by (auto simp: SendMail_def split: sum.splits)
  with add same that show thesis
    by (auto simp: same_accounts_def elim!: AddPerson_Inr)
qed


definition register_world :: world where
  "register_world = emptyWorld\<lparr>config_secrets := [(kEmailVerificationExpirationWindowInMicros, ''1000'')]\<rparr>"

definition register_message :: message where
  "register_message = Some [(''first_name'', JString ''Bo''), (''last_name'', JString ''Ek''),
     (''email'', JString ''b@e''), (''password'', JString ''p'')]"

lemmas register_eval = Register_def register_message_def required_child_def string_child_def RunInTransaction_def RegisterTx_def
  PreliminaryRegisterPerson_def HashPasswordWithSecrets_def HashPassword_def AddPerson_def RandomBytes_def
  AddEmailVerificationById_def LookupExpirationWindowMicros_def LookupRequiredSecret_def VerifyMail_def SendMail_def
  bindT_def ret_def lift_def stmt_def LookupSecret_live now_us_live nextval_def has_person_def Let_def ticked_def now_of_def
  register_world_def emptyWorld_def cpp_int64_def in_i64_def demoEnv_sel


end
