(* ===== verification/Guards.thy ===== *)
theory Guards
  imports StringUtil
begin

text \<open>
  The checks a request passes before its handler (\<open>components/platform/endpoints\<close>):
  \<open>csrf_guard.cpp\<close>, \<open>cloudfront_origin_guard.cpp\<close>, the headers of \<open>security_headers.cpp\<close>, the
  addresses of \<open>business_logic/auth/proxy_trust.cpp\<close>, and the log throttles they share with
  \<open>foundation/util/log_throttle.cpp\<close>. A guard either lets the request pass untouched or answers
  it. Header names are matched by the HTTP library; \<open>header\<close> yields the empty string for a header
  that is not there.
\<close>

section \<open>Requests and verdicts\<close>

datatype HTTPMethod = Get | Head | Post | Put | Patch | Delete | Options | OtherMethod

record request =
  req_method :: HTTPMethod
  req_url :: string
  req_header :: "string \<Rightarrow> string"
  remote_ip_address :: string

datatype verdict = Pass | Reject nat string

text \<open>\<open>std::getenv\<close>: a variable that is not set is \<open>None\<close>.\<close>

type_synonym environ = "string \<Rightarrow> string option"

definition GetEnvWithFallback :: "environ \<Rightarrow> string \<Rightarrow> string \<Rightarrow> string option" where
  "GetEnvWithFallback V primary fallback = (case V primary of Some v \<Rightarrow> Some v | None \<Rightarrow> V fallback)"

section \<open>Log throttles\<close>

text \<open>
  The throttle inside each guard: a rejection is logged when none was logged within the interval.
  Times count from the clock's epoch; a zero stands for never.
\<close>

definition kRejectLogThrottle :: int where "kRejectLogThrottle = 60 * 1000000000"

definition log_reject :: "int \<Rightarrow> int \<Rightarrow> bool \<times> int" where
  "log_reject now lastRejectLog =
     (if lastRejectLog = 0 \<or> kRejectLogThrottle \<le> now - lastRejectLog then (True, now) else (False, lastRejectLog))"

record LogThrottle =
  lt_interval :: int
  lt_lastLogged :: "int option"
  lt_suppressed :: int

definition newLogThrottle :: "int \<Rightarrow> LogThrottle" where
  "newLogThrottle i = \<lparr>lt_interval = i, lt_lastLogged = None, lt_suppressed = 0\<rparr>"

text \<open>Whether to log, and how many were suppressed since the last time (when it logs).\<close>

definition ShouldLog :: "int \<Rightarrow> LogThrottle \<Rightarrow> int option \<times> LogThrottle" where
  "ShouldLog now t =
     (if (case lt_lastLogged t of Some l \<Rightarrow> now - l < lt_interval t | None \<Rightarrow> False)
      then (None, t\<lparr>lt_suppressed := lt_suppressed t + 1\<rparr>)
      else (Some (lt_suppressed t), t\<lparr>lt_lastLogged := Some now, lt_suppressed := 0\<rparr>))"

section \<open>Cross-site request forgery\<close>

definition kCsrfCookieName :: string where "kCsrfCookieName = ''csrft''"
definition kCsrfHeaderName :: string where "kCsrfHeaderName = ''X-CSRF-Token''"

definition kBootstrapPaths :: "string list" where
  "kBootstrapPaths = [''/api/login'', ''/api/register'', ''/api/remember'', ''/api/verify'',
     ''/api/forgot_password'', ''/api/reset_password'']"

definition kCsrfForbiddenBody :: string where
  "kCsrfForbiddenBody = ''{\"error\":\"csrf_token_missing_or_invalid\"}''"

definition PathOnly :: "string \<Rightarrow> string" where
  "PathOnly url = takeWhile (\<lambda>c. c \<noteq> CHR ''?'') url"

definition IsBootstrap :: "string \<Rightarrow> bool" where
  "IsBootstrap url = list_ex (\<lambda>p. PathOnly url = p) kBootstrapPaths"

definition IsStateChanging :: "HTTPMethod \<Rightarrow> bool" where
  "IsStateChanging m \<longleftrightarrow> m = Post \<or> m = Put \<or> m = Patch \<or> m = Delete"

definition is_blank :: "char \<Rightarrow> bool" where
  "is_blank c \<longleftrightarrow> c = CHR '' '' \<or> c = CHR 0x09"

definition TrimBlank :: "string \<Rightarrow> string" where
  "TrimBlank s = rev (dropWhile is_blank (rev (dropWhile is_blank s)))"

text \<open>The loop over the pieces of a \<open>Cookie\<close> header: the first piece with the name wins.\<close>

function GetCookieValue :: "string \<Rightarrow> string \<Rightarrow> string" where
  "GetCookieValue header name =
     (let pair = TrimBlank (takeWhile (\<lambda>c. c \<noteq> CHR '';'') header);
          rest = dropWhile (\<lambda>c. c \<noteq> CHR '';'') header in
      if CHR ''='' \<in> set pair \<and> TrimBlank (takeWhile (\<lambda>c. c \<noteq> CHR ''='') pair) = name
      then TrimBlank (tl (dropWhile (\<lambda>c. c \<noteq> CHR ''='') pair))
      else if rest = [] then [] else GetCookieValue (tl rest) name)"
  by pat_completeness auto
termination
proof (relation "measure (\<lambda>(h, n). length h)", goal_cases)
  case (2 header name pair rest)
  then have "length (tl rest) < length rest" by (cases rest) auto
  moreover have "length rest \<le> length header" using 2(2) by (simp add: length_dropWhile_le)
  ultimately show ?case by (auto simp: measure_def inv_image_def)
qed simp

declare GetCookieValue.simps [simp del]

record CsrfGuard =
  csrf_enabled :: bool
  csrf_lastRejectLog :: int

definition CsrfGuard_before_handle :: "int \<Rightarrow> request \<Rightarrow> CsrfGuard \<Rightarrow> verdict \<times> bool \<times> CsrfGuard" where
  "CsrfGuard_before_handle now req g =
     (if \<not> csrf_enabled g then (Pass, False, g)
      else if \<not> IsStateChanging (req_method req) then (Pass, False, g)
      else if IsBootstrap (req_url req) then (Pass, False, g)
      else let csrft = GetCookieValue (req_header req ''Cookie'') kCsrfCookieName;
               presented = req_header req kCsrfHeaderName in
        if csrft \<noteq> [] \<and> presented \<noteq> [] \<and> ConstantTimeEqual csrft presented then (Pass, False, g)
        else let (logged, l) = log_reject now (csrf_lastRejectLog g) in
          (Reject 403 kCsrfForbiddenBody, logged, g\<lparr>csrf_lastRejectLog := l\<rparr>))"

section \<open>The origin secret\<close>

definition kHealthPathPrefix :: string where "kHealthPathPrefix = ''/api/health''"
definition kOriginSecretHeader :: string where "kOriginSecretHeader = ''X-Origin-Secret''"
definition kOriginForbiddenBody :: string where
  "kOriginForbiddenBody = ''{\"error\":\"direct_origin_access_forbidden\"}''"

definition IsHealthPath :: "string \<Rightarrow> bool" where
  "IsHealthPath url = starts_with kHealthPathPrefix url"

record CloudFrontOriginGuard =
  cf_active :: bool
  cf_expectedSecret :: string
  cf_lastRejectLog :: int

definition newCloudFrontOriginGuard :: "environ \<Rightarrow> CloudFrontOriginGuard" where
  "newCloudFrontOriginGuard V =
     (case GetEnvWithFallback V ''HONUWARE_ORIGIN_SECRET'' ''KNOTTYYOGA_ORIGIN_SECRET'' of
        Some v \<Rightarrow> if v \<noteq> [] then \<lparr>cf_active = True, cf_expectedSecret = v, cf_lastRejectLog = 0\<rparr>
                  else \<lparr>cf_active = False, cf_expectedSecret = [], cf_lastRejectLog = 0\<rparr>
      | None \<Rightarrow> \<lparr>cf_active = False, cf_expectedSecret = [], cf_lastRejectLog = 0\<rparr>)"

definition CloudFrontOriginGuard_before_handle ::
  "int \<Rightarrow> request \<Rightarrow> CloudFrontOriginGuard \<Rightarrow> verdict \<times> bool \<times> CloudFrontOriginGuard" where
  "CloudFrontOriginGuard_before_handle now req g =
     (if \<not> cf_active g then (Pass, False, g)
      else if IsHealthPath (req_url req) then (Pass, False, g)
      else let presented = req_header req kOriginSecretHeader in
        if presented \<noteq> [] \<and> presented = cf_expectedSecret g then (Pass, False, g)
        else let (logged, l) = log_reject now (cf_lastRejectLog g) in
          (Reject 403 kOriginForbiddenBody, logged, g\<lparr>cf_lastRejectLog := l\<rparr>))"

section \<open>The address of the client\<close>

definition ProxyTrustEnabled :: "environ \<Rightarrow> bool" where
  "ProxyTrustEnabled V =
     (case GetEnvWithFallback V ''HONUWARE_TRUST_PROXY'' ''KNOTTYYOGA_TRUST_PROXY'' of
        None \<Rightarrow> False
      | Some v \<Rightarrow> if v = [] then False
                  else let l = StringToLower v in l = ''1'' \<or> l = ''true'')"

definition ResolveViewerScheme :: "environ \<Rightarrow> request \<Rightarrow> string" where
  "ResolveViewerScheme V req =
     (if \<not> ProxyTrustEnabled V then [] else StringTrim (req_header req ''X-Forwarded-Proto''))"

definition ResolveViewerIp :: "environ \<Rightarrow> request \<Rightarrow> string" where
  "ResolveViewerIp V req =
     (if \<not> ProxyTrustEnabled V then []
      else let forwarded = req_header req ''X-Forwarded-For'' in
        if forwarded = [] then []
        else StringTrim (takeWhile (\<lambda>c. c \<noteq> CHR '','') forwarded))"

definition ResolveClientIp :: "environ \<Rightarrow> request \<Rightarrow> string" where
  "ResolveClientIp V req =
     (let viewer = ResolveViewerIp V req in if viewer \<noteq> [] then viewer else remote_ip_address req)"

section \<open>Response headers\<close>

definition kHsts :: string where "kHsts = ''max-age=31536000; includeSubDomains; preload''"

definition squote :: "string \<Rightarrow> string" where
  "squote s = CHR 0x27 # s @ [CHR 0x27]"

definition kCsp :: string where
  "kCsp = ''default-src '' @ squote ''self'' @ ''; '' @
     ''script-src '' @ squote ''self'' @ ''; '' @
     ''style-src '' @ squote ''self'' @ '' '' @ squote ''unsafe-inline'' @ ''; '' @
     ''img-src '' @ squote ''self'' @ '' data:; '' @
     ''connect-src '' @ squote ''self'' @ ''; '' @
     ''frame-src https://www.google.com; '' @
     ''frame-ancestors '' @ squote ''none'' @ ''; '' @
     ''base-uri '' @ squote ''none''"

record SecurityHeaders =
  sh_enabled :: bool
  sh_serverBanner :: string

text \<open>
  \<open>set_header\<close> replaces a header of the same name. \<open>isProd\<close> is \<open>None\<close> when the server
  configuration is not initialised (\<open>GetInstance\<close> throws).
\<close>

definition set_header :: "string \<Rightarrow> string \<Rightarrow> (string \<Rightarrow> string option) \<Rightarrow> string \<Rightarrow> string option" where
  "set_header k v h = h(k \<mapsto> v)"

definition SecurityHeaders_after_handle ::
  "bool option \<Rightarrow> SecurityHeaders \<Rightarrow> (string \<Rightarrow> string option) \<Rightarrow> string \<Rightarrow> string option" where
  "SecurityHeaders_after_handle prodMode sh res =
     (if \<not> sh_enabled sh then res
      else let res1 = set_header ''Permissions-Policy'' ''camera=(), microphone=(), geolocation=()''
                 (set_header ''Referrer-Policy'' ''strict-origin-when-cross-origin''
                 (set_header ''X-Content-Type-Options'' ''nosniff'' res));
               res2 = (if sh_serverBanner sh \<noteq> [] then set_header ''Server'' (sh_serverBanner sh) res1 else res1);
               res3 = set_header ''Vary'' ''Origin'' res2;
               prod = (case prodMode of None \<Rightarrow> False | Some b \<Rightarrow> b) in
        if prod then set_header ''Content-Security-Policy'' kCsp (set_header ''Strict-Transport-Security'' kHsts res3)
        else res3)"

section \<open>Cookie headers as a browser writes them\<close>

fun cookie_header :: "(string \<times> string) list \<Rightarrow> string" where
  "cookie_header [] = []"
| "cookie_header [(k, v)] = k @ ''='' @ v"
| "cookie_header ((k, v) # c # cs) = k @ ''='' @ v @ ''; '' @ cookie_header (c # cs)"

definition cookie_text :: "string \<Rightarrow> bool" where
  "cookie_text s \<longleftrightarrow> CHR '';'' \<notin> set s \<and> CHR ''='' \<notin> set s \<and> CHR '' '' \<notin> set s \<and> CHR 0x09 \<notin> set s"

lemma TrimBlank_id: "\<forall>c \<in> set s. \<not> is_blank c \<Longrightarrow> TrimBlank s = s"
  by (simp add: TrimBlank_def dropWhile_none)

lemma TrimBlank_space: "TrimBlank (CHR '' '' # s) = TrimBlank s"
  by (simp add: TrimBlank_def is_blank_def)

lemma cookie_pair_text: "cookie_text k \<Longrightarrow> cookie_text v \<Longrightarrow> TrimBlank (k @ CHR ''='' # v) = k @ CHR ''='' # v"
  by (intro TrimBlank_id) (auto simp: cookie_text_def is_blank_def)

lemma cookie_step:
  assumes "cookie_text k" "cookie_text v" "pre = [] \<or> pre = '' ''"
  shows "GetCookieValue (pre @ k @ CHR ''='' # v) name = (if k = name then v else [])"
    and "GetCookieValue (pre @ k @ CHR ''='' # v @ CHR '';'' # rest) name
      = (if k = name then v else GetCookieValue rest name)"
proof -
  have nosemi: "takeWhile (\<lambda>c. c \<noteq> CHR '';'') (pre @ k @ CHR ''='' # v) = pre @ k @ CHR ''='' # v"
    "dropWhile (\<lambda>c. c \<noteq> CHR '';'') (pre @ k @ CHR ''='' # v) = []"
    using assms by (auto simp: cookie_text_def takeWhile_eq_all_conv)
  have trim: "TrimBlank (pre @ k @ CHR ''='' # v) = k @ CHR ''='' # v"
    using assms cookie_pair_text by (auto simp: TrimBlank_space)
  have eq: "takeWhile (\<lambda>c. c \<noteq> CHR ''='') (k @ CHR ''='' # v) = k" "dropWhile (\<lambda>c. c \<noteq> CHR ''='') (k @ CHR ''='' # v) = CHR ''='' # v"
    using assms(1) by (simp_all add: cookie_text_def takeWhile_to)
  have kv: "TrimBlank k = k" "TrimBlank v = v"
    using assms by (auto intro!: TrimBlank_id simp: cookie_text_def is_blank_def)
  show "GetCookieValue (pre @ k @ CHR ''='' # v) name = (if k = name then v else [])"
    using eq by (subst GetCookieValue.simps) (auto simp: nosemi trim kv Let_def)
  have semi: "takeWhile (\<lambda>c. c \<noteq> CHR '';'') ((pre @ k @ CHR ''='' # v) @ CHR '';'' # rest) = pre @ k @ CHR ''='' # v"
    "dropWhile (\<lambda>c. c \<noteq> CHR '';'') ((pre @ k @ CHR ''='' # v) @ CHR '';'' # rest) = CHR '';'' # rest"
    using assms by (subst takeWhile_append2 dropWhile_append2; auto simp: cookie_text_def)+
  show "GetCookieValue (pre @ k @ CHR ''='' # v @ CHR '';'' # rest) name
      = (if k = name then v else GetCookieValue rest name)"
    using eq by (subst GetCookieValue.simps) (auto simp: semi [simplified] trim kv Let_def)
qed

text \<open>The value the guard reads is the value of the first cookie with the name.\<close>

lemma GetCookieValue_rendered:
  assumes "list_all (\<lambda>(k, v). cookie_text k \<and> cookie_text v) jar" "pre = [] \<or> pre = '' ''" "jar \<noteq> []"
  shows "GetCookieValue (pre @ cookie_header jar) name = (case map_of jar name of None \<Rightarrow> [] | Some v \<Rightarrow> v)"
  using assms
proof (induction jar arbitrary: pre rule: cookie_header.induct)
  case (2 k v)
  then show ?case using cookie_step(1) [of k v pre name] by simp
next
  case (3 k v c cs)
  have "GetCookieValue ('' '' @ cookie_header (c # cs)) name
      = (case map_of (c # cs) name of None \<Rightarrow> [] | Some v \<Rightarrow> v)"
    using 3 by (intro "3.IH") simp_all
  moreover have "GetCookieValue (pre @ k @ CHR ''='' # v @ CHR '';'' # '' '' @ cookie_header (c # cs)) name
      = (if k = name then v else GetCookieValue ('' '' @ cookie_header (c # cs)) name)"
    using 3 by (intro cookie_step(2)) simp_all
  ultimately show ?case by simp
qed simp

section \<open>Properties\<close>


definition demo_request :: request where
  "demo_request = \<lparr>req_method = Post, req_url = ''/api/add_item?x=1'',
     req_header = (\<lambda>k. if k = ''Cookie'' then ''session_token=u1; csrft=abc'' else if k = ''X-CSRF-Token'' then ''abc'' else []),
     remote_ip_address = ''10.0.0.1''\<rparr>"


text \<open>
  Behind a trusted proxy the client chooses the address it is rate-limited by: whatever address it
  puts first into \<open>X-Forwarded-For\<close>, and whatever the proxies append, that is the address the server uses.
\<close>

theorem client_chooses_ip:
  assumes "ProxyTrustEnabled V" "req_header req ''X-Forwarded-For'' = ip @ rest" "rest = [] \<or> hd rest = CHR '',''"
    and "ip \<noteq> []" "\<forall>c \<in> set ip. c \<noteq> CHR '','' \<and> \<not> is_space c"
  shows "ResolveClientIp V req = ip"
proof -
  have "takeWhile (\<lambda>c. c \<noteq> CHR '','') (ip @ rest) = ip"
    using assms(3,5) by (cases rest) (auto simp: takeWhile_eq_all_conv takeWhile_append2)
  moreover have "StringTrim ip = ip"
    using assms(5) by (simp add: StringTrim_def dropWhile_none)
  ultimately show ?thesis
    using assms(1,2,4) by (simp add: ResolveClientIp_def ResolveViewerIp_def)
qed

theorem client_chooses_ip_witness:
  "ResolveClientIp (\<lambda>v. if v = ''HONUWARE_TRUST_PROXY'' then Some ''1'' else None)
     (demo_request\<lparr>req_header := (\<lambda>k. if k = ''X-Forwarded-For'' then ''6.6.6.6, 203.0.113.9'' else [])\<rparr>) = ''6.6.6.6''"
  by (rule client_chooses_ip [where rest = "'', 203.0.113.9''"])
    (simp_all add: ProxyTrustEnabled_def GetEnvWithFallback_def StringToLower_def to_lower_def demo_request_def is_space_def)

end
