(* ===== verification/Connections.thy ===== *)
theory Connections
  imports Effects
begin

text \<open>
  The two providers of \<open>data/sql_util/database_access\<close>: \<open>production_transaction_provider.cpp\<close>,
  one connection that is replaced when it has died, and \<open>pooled_transaction_provider.cpp\<close>, a
  bounded pool of them. The server and the network are the parameter \<open>net\<close>: what becomes of the
  n-th exchange with the server.
\<close>

section \<open>One connection\<close>

text \<open>
  An exchange is answered (\<open>Works\<close>), answered with an error (\<open>Refused\<close>), or the connection breaks,
  before the server acted on it (\<open>Dropped\<close>) or after (\<open>LostReply\<close>).
\<close>

datatype netstep = Works | Refused | Dropped | LostReply

type_synonym net = "nat \<Rightarrow> netstep"

text \<open>
  The provider's connection: the database behind it, whether libpq holds it for open
  (\<open>is_open()\<close>), how many exchanges it has made, and, for the statements below, how often a
  caller's work was started on it.
\<close>

record 'd link =
  lk_db :: 'd
  lk_open :: bool
  lk_step :: nat
  lk_runs :: nat

definition broken :: "netstep \<Rightarrow> bool" where
  "broken n \<longleftrightarrow> n = Dropped \<or> n = LostReply"

text \<open>\<open>ResetConnection\<close> opens the new connection before it lets go of the old one.\<close>

definition ResetConnection :: "net \<Rightarrow> ('d link, unit) eff" where
  "ResetConnection net s =
     (if net (lk_step s) = Works then (Inr (), s\<lparr>lk_open := True, lk_step := lk_step s + 1\<rparr>)
      else (Inl (DbFailure ''connect''), s\<lparr>lk_step := lk_step s + 1\<rparr>))"

definition Reconnect :: "net \<Rightarrow> ('d link, unit) eff" where
  "Reconnect net = catchE (ResetConnection net) throwE"

text \<open>The constructor of \<open>pqxx::work\<close> sends BEGIN.\<close>

definition BeginWork :: "net \<Rightarrow> ('d link, unit) eff" where
  "BeginWork net s =
     (if \<not> lk_open s then (Inl (DbFailure ''connection is closed''), s)
      else let n = net (lk_step s); s' = s\<lparr>lk_open := \<not> broken n, lk_step := lk_step s + 1\<rparr> in
        if n = Works then (Inr (), s') else (Inl (DbFailure ''begin''), s'))"

text \<open>
  The caller's work on the state inside the transaction. When the connection breaks under it, its
  statements throw; nothing of it can be committed any more.
\<close>

definition UserWork :: "net \<Rightarrow> ('d, 'a) eff \<Rightarrow> ('d link, 'a \<times> 'd) eff" where
  "UserWork net f s =
     (let n = net (lk_step s);
          s' = s\<lparr>lk_open := \<not> broken n, lk_step := lk_step s + 1, lk_runs := lk_runs s + 1\<rparr> in
      if broken n then (Inl (DbFailure ''connection lost''), s')
      else case f (lk_db s) of (Inl e, d) \<Rightarrow> (Inl e, s') | (Inr x, d) \<Rightarrow> (Inr (x, d), s'))"

definition CommitWork :: "net \<Rightarrow> 'd \<Rightarrow> ('d link, unit) eff" where
  "CommitWork net d s =
     (let n = net (lk_step s); s' = s\<lparr>lk_open := \<not> broken n, lk_step := lk_step s + 1\<rparr> in
      case n of
        Works \<Rightarrow> (Inr (), s'\<lparr>lk_db := d\<rparr>)
      | LostReply \<Rightarrow> (Inl (DbFailure ''commit in doubt''), s'\<lparr>lk_db := d\<rparr>)
      | _ \<Rightarrow> (Inl (DbFailure ''commit''), s'))"

text \<open>
  \<open>ProductionTransactionProvider::RunInTransaction\<close>. Up to a successful BEGIN a dead connection
  is replaced, once before BEGIN and once when BEGIN finds it dead; the work itself is never
  repeated, and the destructor of \<open>pqxx::work\<close> rolls back when it throws.
\<close>

definition OpenTransaction :: "net \<Rightarrow> ('d link, unit) eff" where
  "OpenTransaction net =
     bindE (\<lambda>s. if \<not> lk_open s then Reconnect net s else (Inr (), s)) (\<lambda>_.
       catchE (BeginWork net)
         (\<lambda>e s. if lk_open s then (Inl e, s) else bindE (Reconnect net) (\<lambda>_. BeginWork net) s))"

definition ProductionRunInTransaction :: "net \<Rightarrow> ('d, 'a) eff \<Rightarrow> ('d link, 'a) eff" where
  "ProductionRunInTransaction net f =
     bindE (OpenTransaction net) (\<lambda>_.
     bindE (UserWork net f) (\<lambda>(x, d).
     bindE (CommitWork net d) (\<lambda>_. retE x)))"

named_theorems link_defs \<open>the steps on a connection\<close>
declare ResetConnection_def [link_defs] Reconnect_def [link_defs] BeginWork_def [link_defs]
  UserWork_def [link_defs] CommitWork_def [link_defs] catchE_def [link_defs] bindE_def [link_defs]
  throwE_def [link_defs] retE_def [link_defs] broken_def [link_defs] Let_def [link_defs]

text \<open>Everything before the work leaves the database and the count of runs alone.\<close>

lemma OpenTransaction_frame:
  "OpenTransaction net s = (r, s') \<Longrightarrow> lk_db s' = lk_db s \<and> lk_runs s' = lk_runs s"
  by (auto simp: OpenTransaction_def link_defs split: if_splits)

lemma UserWork_cases:
  assumes "UserWork net f s = (r, s')"
  shows "lk_db s' = lk_db s" "lk_runs s' = lk_runs s + 1" "r = Inr (x, d) \<Longrightarrow> f (lk_db s) = (Inr x, d)"
  using assms by (auto simp: link_defs split: if_splits prod.splits sum.splits)

lemma CommitWork_cases:
  assumes "CommitWork net d s = (r, s')"
  shows "lk_runs s' = lk_runs s" "r = Inr () \<Longrightarrow> lk_db s' = d" "lk_db s' = d \<or> lk_db s' = lk_db s"
  using assms by (auto simp: link_defs split: netstep.splits)

text \<open>A run either throws before the work, or starts it exactly once.\<close>

lemma production_run:
  assumes "ProductionRunInTransaction net f s = (r, s')"
  obtains (before) e where "r = Inl e" "lk_db s' = lk_db s" "lk_runs s' = lk_runs s"
    | (work) e where "r = Inl e" "lk_db s' = lk_db s" "lk_runs s' = lk_runs s + 1"
    | (doubt) e x d where "r = Inl e" "f (lk_db s) = (Inr x, d)" "lk_db s' = d \<or> lk_db s' = lk_db s" "lk_runs s' = lk_runs s + 1"
    | (finished) x where "r = Inr x" "f (lk_db s) = (Inr x, lk_db s')" "lk_runs s' = lk_runs s + 1"
proof -
  obtain r0 s0 where p: "OpenTransaction net s = (r0, s0)" by fastforce
  note fr = OpenTransaction_frame [OF p]
  show thesis
  proof (cases r0)
    case (Inl e)
    then show thesis using assms p fr by (intro before [of e]) (simp_all add: ProductionRunInTransaction_def bindE_def)
  next
    case r0: (Inr u)
    obtain r1 s1 where w: "UserWork net f s0 = (r1, s1)" by fastforce
    show thesis
    proof (cases r1)
      case (Inl e)
      then show thesis using assms p fr r0 w UserWork_cases [OF w]
        by (intro work [of e]) (simp_all add: ProductionRunInTransaction_def bindE_def)
    next
      case (Inr xd)
      obtain x d where r1: "r1 = Inr (x, d)" using Inr by (cases xd) simp
      obtain r2 s2 where c: "CommitWork net d s1 = (r2, s2)" by fastforce
      note facts = assms p fr r0 w r1 c UserWork_cases(1,2) [OF w] UserWork_cases(3) [OF w r1] CommitWork_cases [OF c]
      show thesis
      proof (cases r2)
        case (Inl e)
        then show thesis using facts doubt [of e x d] by (simp add: ProductionRunInTransaction_def bindE_def)
      next
        case (Inr u)
        then show thesis using facts finished [of x] by (simp add: ProductionRunInTransaction_def bindE_def retE_def)
      qed
    qed
  qed
qed

interpretation production: transaction_provider "ProductionRunInTransaction net" lk_db "\<lambda>_. True" for net
  by unfold_locales (auto elim: production_run)

section \<open>The bounded pool, used by one thread\<close>

text \<open>
  Providers are numbered in the order they are created; \<open>freeProviders_\<close> is a stack. The pool's
  connections share the database; \<open>pl_links\<close> says which of them libpq holds for open.
\<close>

record 'd pool =
  pl_db :: 'd
  pl_links :: "bool list"
  pl_free :: "nat list"
  pl_max :: int
  pl_waits :: nat
  pl_step :: nat
  pl_runs :: nat

definition newPool :: "'d \<Rightarrow> int \<Rightarrow> nat \<Rightarrow> 'd pool" where
  "newPool d maxConnections n =
     \<lparr>pl_db = d, pl_links = [], pl_free = [], pl_max = (if maxConnections > 0 then maxConnections else 1),
      pl_waits = 0, pl_step = n, pl_runs = 0\<rparr>"

text \<open>
  \<open>AcquireProvider\<close>: the top of the stack, else a new connection, else a wait, which a pool used by
  one thread alone would never come back from.
\<close>

definition AcquireProvider :: "net \<Rightarrow> ('d pool, nat) eff" where
  "AcquireProvider net s =
     (if pl_free s \<noteq> [] then (Inr (last (pl_free s)), s\<lparr>pl_free := butlast (pl_free s)\<rparr>)
      else if int (length (pl_links s)) < pl_max s then
        if net (pl_step s) = Works
        then (Inr (length (pl_links s)), s\<lparr>pl_links := pl_links s @ [True], pl_step := pl_step s + 1\<rparr>)
        else (Inl (DbFailure ''connect''), s\<lparr>pl_step := pl_step s + 1\<rparr>)
      else (Inl (Undefined ''waits for ever''), s\<lparr>pl_waits := pl_waits s + 1\<rparr>))"

definition ReleaseProvider :: "nat \<Rightarrow> 'd pool \<Rightarrow> 'd pool" where
  "ReleaseProvider p s = s\<lparr>pl_free := pl_free s @ [p]\<rparr>"

definition on_link :: "nat \<Rightarrow> ('d link, 'a) eff \<Rightarrow> ('d pool, 'a) eff" where
  "on_link p m s =
     (case m \<lparr>lk_db = pl_db s, lk_open = pl_links s ! p, lk_step = pl_step s, lk_runs = pl_runs s\<rparr> of
        (r, l) \<Rightarrow> (r, s\<lparr>pl_db := lk_db l, pl_links := (pl_links s)[p := lk_open l],
                       pl_step := lk_step l, pl_runs := lk_runs l\<rparr>))"

text \<open>The connection goes back on both ways out.\<close>

definition PooledRunInTransaction :: "net \<Rightarrow> ('d, 'a) eff \<Rightarrow> ('d pool, 'a) eff" where
  "PooledRunInTransaction net f =
     bindE (AcquireProvider net)
       (\<lambda>p s. case on_link p (ProductionRunInTransaction net f) s of (r, s') \<Rightarrow> (r, ReleaseProvider p s'))"

text \<open>Between two uses every connection that was made is free, and none is listed twice.\<close>

definition pool_ok :: "'d pool \<Rightarrow> bool" where
  "pool_ok s \<longleftrightarrow> distinct (pl_free s) \<and> set (pl_free s) = {..<length (pl_links s)} \<and>
     0 < pl_max s \<and> int (length (pl_links s)) \<le> pl_max s"

lemma pool_ok_free: "pool_ok s \<Longrightarrow> pl_free s = [] \<longleftrightarrow> pl_links s = []"
  unfolding pool_ok_def by (metis length_0_conv lessThan_0 lessThan_eq_iff set_empty)

lemma AcquireProvider_cases:
  assumes "AcquireProvider net s = (r, s')"
  obtains (popped) ps p where "pl_free s = ps @ [p]" "r = Inr p" "s' = s\<lparr>pl_free := ps\<rparr>"
    | (grown) "pl_free s = []" "int (length (pl_links s)) < pl_max s" "r = Inr (length (pl_links s))"
        "s' = s\<lparr>pl_links := pl_links s @ [True], pl_step := pl_step s + 1\<rparr>"
    | (refused) "r = Inl (DbFailure ''connect'')" "s' = s\<lparr>pl_step := pl_step s + 1\<rparr>"
    | (blocked) "pl_free s = []" "pl_max s \<le> int (length (pl_links s))" "r = Inl (Undefined ''waits for ever'')" "s' = s\<lparr>pl_waits := pl_waits s + 1\<rparr>"
proof (cases "pl_free s" rule: rev_cases)
  case Nil
  show thesis
  proof (cases "int (length (pl_links s)) < pl_max s")
    case True
    show thesis
    proof (cases "net (pl_step s) = Works")
      case w: True
      show thesis using assms Nil True w by (intro grown) (auto simp: AcquireProvider_def)
    next
      case w: False
      show thesis using assms Nil True w by (intro refused) (auto simp: AcquireProvider_def)
    qed
  next
    case False
    then show thesis
      using assms Nil by (intro blocked) (simp_all add: AcquireProvider_def)
  qed
next
  case (snoc ps p)
  then show thesis
    using assms by (intro popped [of ps p]) (simp_all add: AcquireProvider_def)
qed

text \<open>What a successful acquisition leaves: the connection is out, the others are as they were.\<close>

definition pool_minus :: "nat \<Rightarrow> 'd pool \<Rightarrow> bool" where
  "pool_minus p s \<longleftrightarrow> p < length (pl_links s) \<and> p \<notin> set (pl_free s) \<and> distinct (pl_free s) \<and>
     insert p (set (pl_free s)) = {..<length (pl_links s)} \<and> 0 < pl_max s \<and> int (length (pl_links s)) \<le> pl_max s"

lemma AcquireProvider_ok:
  assumes "pool_ok s" "AcquireProvider net s = (r, s')"
  shows "pl_db s' = pl_db s \<and> pl_runs s' = pl_runs s \<and> (case r of Inl e \<Rightarrow> pool_ok s' | Inr p \<Rightarrow> pool_minus p s')"
  using assms(2)
proof (cases rule: AcquireProvider_cases)
  case (popped ps p)
  with assms(1) show ?thesis by (auto simp: pool_ok_def pool_minus_def)
next
  case grown
  then have "pl_links s = []" using assms(1) pool_ok_free by blast
  with grown assms(1) show ?thesis by (auto simp: pool_ok_def pool_minus_def)
next
  case refused
  with assms(1) show ?thesis by (simp add: pool_ok_def)
next
  case blocked
  with assms(1) show ?thesis by (simp add: pool_ok_def)
qed

lemma ReleaseProvider_ok: "pool_minus p s \<Longrightarrow> pool_ok (ReleaseProvider p s)"
  by (auto simp: pool_minus_def pool_ok_def ReleaseProvider_def)

lemma on_link_frame:
  "on_link p m s = (r, s') \<Longrightarrow> pl_free s' = pl_free s \<and> pl_max s' = pl_max s \<and> length (pl_links s') = length (pl_links s)"
  by (auto simp: on_link_def split: prod.splits)

lemma on_link_minus: "pool_minus p s \<Longrightarrow> on_link p m s = (r, s') \<Longrightarrow> pool_minus p s'"
  by (simp add: pool_minus_def on_link_frame)

lemma pooled_run:
  assumes "pool_ok s" "PooledRunInTransaction net f s = (r, s')"
  shows "pool_ok s' \<and> ((pl_db s' = pl_db s \<and> pl_runs s' = pl_runs s \<and> (\<exists>e. r = Inl e)) \<or>
      (\<exists>n o' l. ProductionRunInTransaction net f \<lparr>lk_db = pl_db s, lk_open = o', lk_step = n, lk_runs = pl_runs s\<rparr> = (r, l) \<and>
        pl_db s' = lk_db l \<and> pl_runs s' = lk_runs l))"
proof -
  obtain q a where aq: "AcquireProvider net s = (q, a)" by fastforce
  note A = AcquireProvider_ok [OF assms(1) aq]
  show ?thesis
  proof (cases q)
    case (Inl e)
    then show ?thesis using assms(2) aq A by (auto simp: PooledRunInTransaction_def bindE_def)
  next
    case q: (Inr p)
    obtain b where b: "on_link p (ProductionRunInTransaction net f) a = (r, b)" "s' = ReleaseProvider p b"
      using assms(2) aq q by (auto simp: PooledRunInTransaction_def bindE_def split: prod.splits)
    have "pool_minus p a" using A q by simp
    from ReleaseProvider_ok [OF on_link_minus [OF this b(1)]] b(2) have "pool_ok s'" by simp
    moreover obtain l where "ProductionRunInTransaction net f
        \<lparr>lk_db = pl_db a, lk_open = pl_links a ! p, lk_step = pl_step a, lk_runs = pl_runs a\<rparr> = (r, l)"
      "pl_db b = lk_db l" "pl_runs b = lk_runs l"
      using b(1) by (auto simp: on_link_def split: prod.splits)
    moreover have "pl_db s' = pl_db b" "pl_runs s' = pl_runs b" "pl_db a = pl_db s" "pl_runs a = pl_runs s"
      using A b(2) by (simp_all add: ReleaseProvider_def)
    ultimately show ?thesis by metis
  qed
qed

interpretation pooled: transaction_provider "PooledRunInTransaction net" pl_db pool_ok for net
proof unfold_locales
  fix s f x s'
  assume "pool_ok s" "PooledRunInTransaction net f s = (Inr x, s')"
  then show "f (pl_db s) = (Inr x, pl_db s')"
    using pooled_run [of s net f "Inr x" s'] by (auto dest!: production.committed [OF TrueI])
next
  fix s f e s'
  assume "pool_ok s" "PooledRunInTransaction net f s = (Inl e, s')"
  then show "pl_db s' = pl_db s \<or> (\<exists>x. f (pl_db s) = (Inr x, pl_db s'))"
    using pooled_run [of s net f "Inl e" s'] by (auto dest!: production.rolled_back [OF TrueI])
next
  fix s f
  assume "pool_ok s"
  then show "pool_ok (snd (PooledRunInTransaction net f s))"
    using pooled_run [of s net f] by (metis prod.collapse)
qed

section \<open>The pool under concurrent use\<close>

text \<open>
  Threads run \<open>AcquireProvider\<close>, the work and \<open>ReleaseProvider\<close> in any interleaving of the sections
  the mutex makes atomic. A thread that found the pool exhausted sleeps on the condition variable;
  it is woken by a \<open>notify_one\<close>, which comes after the mutex is given up, or for no reason, and
  then takes a connection when there is one or sleeps again (the wait with a predicate).
\<close>

datatype phase = Outside | Asleep | Woken | Holding nat | Notifying

record pstate =
  ps_free :: "nat list"
  ps_created :: nat
  ps_max :: nat
  ps_waits :: nat
  ps_phase :: "nat \<Rightarrow> phase"

definition set_phase :: "nat \<Rightarrow> phase \<Rightarrow> pstate \<Rightarrow> pstate" where
  "set_phase t x s = s\<lparr>ps_phase := (ps_phase s)(t := x)\<rparr>"

definition emptyPool :: "nat \<Rightarrow> pstate" where
  "emptyPool m = \<lparr>ps_free = [], ps_created = 0, ps_max = m, ps_waits = 0, ps_phase = (\<lambda>_. Outside)\<rparr>"

inductive pool_step :: "pstate \<Rightarrow> pstate \<Rightarrow> bool" where
  take: "ps_phase s t = Outside \<or> ps_phase s t = Woken \<Longrightarrow> ps_free s = ps @ [p] \<Longrightarrow>
    pool_step s (set_phase t (Holding p) (s\<lparr>ps_free := ps\<rparr>))"
| grow: "ps_phase s t = Outside \<Longrightarrow> ps_free s = [] \<Longrightarrow> ps_created s < ps_max s \<Longrightarrow>
    pool_step s (set_phase t (Holding (ps_created s)) (s\<lparr>ps_created := ps_created s + 1\<rparr>))"
| exhausted: "ps_phase s t = Outside \<Longrightarrow> ps_free s = [] \<Longrightarrow> \<not> ps_created s < ps_max s \<Longrightarrow>
    pool_step s (set_phase t Asleep (s\<lparr>ps_waits := ps_waits s + 1\<rparr>))"
| sleep_again: "ps_phase s t = Woken \<Longrightarrow> ps_free s = [] \<Longrightarrow> pool_step s (set_phase t Asleep s)"
| spurious: "ps_phase s t = Asleep \<Longrightarrow> pool_step s (set_phase t Woken s)"
| release: "ps_phase s t = Holding p \<Longrightarrow>
    pool_step s (set_phase t Notifying (s\<lparr>ps_free := ps_free s @ [p]\<rparr>))"
| notify: "ps_phase s t = Notifying \<Longrightarrow> ps_phase s u = Asleep \<Longrightarrow>
    pool_step s (set_phase u Woken (set_phase t Outside s))"
| notify_none: "ps_phase s t = Notifying \<Longrightarrow> \<forall>u. ps_phase s u \<noteq> Asleep \<Longrightarrow>
    pool_step s (set_phase t Outside s)"

inductive pool_reachable :: "nat \<Rightarrow> pstate \<Rightarrow> bool" for m where
  start: "0 < m \<Longrightarrow> pool_reachable m (emptyPool m)"
| step: "pool_reachable m s \<Longrightarrow> pool_step s s' \<Longrightarrow> pool_reachable m s'"

definition held_by :: "(nat \<Rightarrow> phase) \<Rightarrow> nat set" where
  "held_by f = {p. \<exists>t. f t = Holding p}"

abbreviation held :: "pstate \<Rightarrow> nat set" where
  "held s \<equiv> held_by (ps_phase s)"

definition holders :: "pstate \<Rightarrow> nat set" where
  "holders s = {t. \<exists>p. ps_phase s t = Holding p}"

text \<open>Threads that are about to look at the free list again, or to send someone there.\<close>

definition alert_by :: "(nat \<Rightarrow> phase) \<Rightarrow> nat set" where
  "alert_by f = {t. f t = Woken \<or> f t = Notifying}"

definition exclusive :: "nat list \<Rightarrow> (nat \<Rightarrow> phase) \<Rightarrow> bool" where
  "exclusive free f \<longleftrightarrow> distinct free \<and> (\<forall>t u p. f t = Holding p \<longrightarrow> f u = Holding p \<longrightarrow> t = u) \<and>
     (\<forall>t p. f t = Holding p \<longrightarrow> p \<notin> set free)"

definition pool_inv :: "nat \<Rightarrow> pstate \<Rightarrow> bool" where
  "pool_inv m s \<longleftrightarrow> ps_max s = m \<and> ps_created s \<le> m \<and> exclusive (ps_free s) (ps_phase s) \<and>
     set (ps_free s) \<union> held s = {..<ps_created s}"

definition wake_inv :: "pstate \<Rightarrow> bool" where
  "wake_inv s \<longleftrightarrow> finite (alert_by (ps_phase s)) \<and>
     ((\<exists>t. ps_phase s t = Asleep \<or> ps_phase s t = Woken) \<longrightarrow> ps_created s = ps_max s) \<and>
     ((\<exists>t. ps_phase s t = Asleep) \<longrightarrow> length (ps_free s) \<le> card (alert_by (ps_phase s)))"

lemma set_phase_sel [simp]:
  "ps_free (set_phase t x s) = ps_free s" "ps_created (set_phase t x s) = ps_created s"
  "ps_max (set_phase t x s) = ps_max s" "ps_phase (set_phase t x s) = (ps_phase s)(t := x)"
  "ps_waits (set_phase t x s) = ps_waits s"
  by (simp_all add: set_phase_def)

lemma held_by_enter: "held_by (f(t := Holding p)) = insert p (held_by (f(t := Outside)))"
  by (auto simp: held_by_def)

lemma held_by_other: "\<forall>p. x \<noteq> Holding p \<Longrightarrow> held_by (f(t := x)) = held_by (f(t := Outside))"
  by (auto simp: held_by_def)

lemma held_by_stay:
  assumes "\<forall>p. f t \<noteq> Holding p"
  shows "held_by (f(t := Outside)) = held_by f"
  unfolding held_by_def by (intro Collect_cong iff_exI) (use assms in auto)

lemma held_by_idle: "\<forall>p. x \<noteq> Holding p \<Longrightarrow> \<forall>p. f t \<noteq> Holding p \<Longrightarrow> held_by (f(t := x)) = held_by f"
  using held_by_other held_by_stay by metis

lemma held_by_leave:
  assumes "f t = Holding p" "\<And>u. f u = Holding p \<Longrightarrow> u = t"
  shows "held_by (f(t := Outside)) = held_by f - {p}"
proof (intro set_eqI iffI)
  fix q
  assume "q \<in> held_by (f(t := Outside))"
  then obtain u where "f u = Holding q" "u \<noteq> t" by (auto simp: held_by_def split: if_split_asm)
  moreover from this have "q \<noteq> p" using assms(2) by blast
  ultimately show "q \<in> held_by f - {p}" by (auto simp: held_by_def)
next
  fix q
  assume "q \<in> held_by f - {p}"
  then obtain u where u: "f u = Holding q" "q \<noteq> p" by (auto simp: held_by_def)
  then have "u \<noteq> t" using assms(1) by auto
  then show "q \<in> held_by (f(t := Outside))"
    unfolding held_by_def by (intro CollectI exI [of _ u]) (simp add: u(1))
qed

lemma held_by_bound: "set xs \<union> held_by f = {..<n} \<Longrightarrow> f t = Holding p \<Longrightarrow> p < n"
  by (metis (mono_tags, lifting) UnCI held_by_def lessThan_iff mem_Collect_eq)

lemma exclusive_other: "exclusive free f \<Longrightarrow> \<forall>p. x \<noteq> Holding p \<Longrightarrow> exclusive free (f(t := x))"
  unfolding exclusive_def by (metis fun_upd_apply)

lemma exclusive_enter:
  "exclusive free f \<Longrightarrow> p \<notin> set free \<Longrightarrow> \<forall>u. f u \<noteq> Holding p \<Longrightarrow> exclusive free (f(t := Holding p))"
  unfolding exclusive_def by auto

lemma exclusive_take: "exclusive (ps @ [p]) f \<Longrightarrow> exclusive ps (f(t := Holding p))"
  unfolding exclusive_def by (auto split: if_splits)

lemma exclusive_leave:
  assumes "exclusive free f" "f t = Holding p"
  shows "exclusive (free @ [p]) (f(t := Notifying))" "held_by (f(t := Notifying)) = held_by f - {p}" "p \<in> held_by f"
proof -
  have u: "f u = Holding p \<Longrightarrow> u = t" for u using assms unfolding exclusive_def by blast
  show "held_by (f(t := Notifying)) = held_by f - {p}"
    using held_by_leave [of f, OF assms(2)] u held_by_other [of Notifying f t] by simp
  show "p \<in> held_by f" using assms(2) by (auto simp: held_by_def)
  have pd: "p \<notin> set free" "distinct free" using assms unfolding exclusive_def by blast+
  have old: "v \<noteq> t \<and> f v = Holding q" if "(f(t := Notifying)) v = Holding q" for v q
    using that by (cases "v = t") simp_all
  show "exclusive (free @ [p]) (f(t := Notifying))"
    unfolding exclusive_def
  proof (intro conjI allI impI)
    show "distinct (free @ [p])" using pd by simp
  next
    fix v w q
    assume "(f(t := Notifying)) v = Holding q" "(f(t := Notifying)) w = Holding q"
    then have "f v = Holding q" "f w = Holding q" using old by blast+
    then show "v = w" using assms(1) unfolding exclusive_def by blast
  next
    fix v q
    assume "(f(t := Notifying)) v = Holding q"
    then have "v \<noteq> t" "f v = Holding q" using old by blast+
    moreover from this have "q \<noteq> p" "q \<notin> set free" using u assms(1) unfolding exclusive_def by blast+
    ultimately show "q \<notin> set (free @ [p])" by simp
  qed
qed

lemma pool_inv_step:
  assumes "pool_step s s'" "pool_inv m s"
  shows "pool_inv m s'"
  using assms
proof (induction rule: pool_step.induct)
  case (take s t ps p)
  then have "\<forall>p. ps_phase s t \<noteq> Holding p" by auto
  then have "held_by ((ps_phase s)(t := Holding p)) = insert p (held s)"
    by (simp add: held_by_enter held_by_stay)
  with take show ?case by (simp add: pool_inv_def exclusive_take)
next
  case (grow s t)
  then have "held_by ((ps_phase s)(t := Holding (ps_created s))) = insert (ps_created s) (held s)"
    by (simp add: held_by_enter held_by_stay)
  moreover have "ps_phase s u \<noteq> Holding (ps_created s)" for u
    using grow(4) held_by_bound by (metis less_irrefl pool_inv_def)
  ultimately show ?case using grow
    by (simp add: pool_inv_def exclusive_enter lessThan_Suc)
next
  case (release s t p)
  have ex: "exclusive (ps_free s) (ps_phase s)" and eq: "set (ps_free s) \<union> held s = {..<ps_created s}"
    using release(2) by (simp_all add: pool_inv_def)
  note L = exclusive_leave [OF ex release(1)]
  from L(3) have "set (ps_free s @ [p]) \<union> (held s - {p}) = set (ps_free s) \<union> held s" by auto
  then have "set (ps_free s @ [p]) \<union> held_by ((ps_phase s)(t := Notifying)) = {..<ps_created s}"
    unfolding L(2) eq .
  with L(1) release(2) show ?case by (simp add: pool_inv_def)
next
  case (notify s t u)
  then have "held_by ((ps_phase s)(t := Outside, u := Woken)) = held s"
    by (simp add: held_by_idle)
  with notify show ?case by (simp add: pool_inv_def exclusive_other)
qed (simp_all add: pool_inv_def held_by_idle exclusive_other)

lemma alert_by_upd:
  "alert_by (f(t := x)) = (if x = Woken \<or> x = Notifying then insert t (alert_by f) else alert_by f - {t})"
  by (auto simp: alert_by_def)

lemma alert_by_mem: "t \<in> alert_by f \<longleftrightarrow> f t = Woken \<or> f t = Notifying"
  by (simp add: alert_by_def)

lemma asleep_upd: "(f(t := x)) u = Asleep \<Longrightarrow> x \<noteq> Asleep \<Longrightarrow> f u = Asleep"
  by (metis fun_upd_apply)

lemma wake_inv_step:
  assumes "pool_step s s'" "wake_inv s" "pool_inv m s"
  shows "wake_inv s'"
  using assms
proof (induction rule: pool_step.induct)
  case (take s t ps p)
  have "length ps \<le> card (alert_by (ps_phase s) - {t})" if "ps_phase s u = Asleep" for u
    using take that by (auto simp: wake_inv_def card_Diff_singleton_if)
  with take show ?case
    by (auto simp: wake_inv_def alert_by_upd split: if_splits)
next
  case (release s t p)
  then have "t \<notin> alert_by (ps_phase s)" by (simp add: alert_by_mem)
  with release show ?case
    by (auto simp: wake_inv_def alert_by_upd split: if_splits)
next
  case (notify s t u)
  then have "t \<in> alert_by (ps_phase s)" "u \<notin> alert_by (ps_phase s)" "t \<noteq> u" by (auto simp: alert_by_mem)
  moreover from this have "card (insert u (alert_by (ps_phase s) - {t})) = card (alert_by (ps_phase s))"
    using notify(3) unfolding wake_inv_def
    by (metis DiffD1 card_Suc_Diff1 card_insert_disjoint finite_Diff)
  ultimately show ?case using notify
    by (auto simp: wake_inv_def alert_by_upd split: if_splits)
next
  case (notify_none s t)
  then show ?case
    by (auto simp: wake_inv_def alert_by_upd split: if_splits)
next
  case (spurious s t)
  then show ?case
    by (auto simp: wake_inv_def alert_by_upd card_insert_if split: if_splits)
next
  case (grow s t)
  then show ?case
    by (auto simp: wake_inv_def alert_by_upd split: if_splits)
qed (auto simp: wake_inv_def pool_inv_def alert_by_upd split: if_splits)

lemma pool_invariants: "pool_reachable m s \<Longrightarrow> pool_inv m s \<and> wake_inv s \<and> 0 < m"
proof (induction rule: pool_reachable.induct)
  case start
  then show ?case
    by (simp add: pool_inv_def wake_inv_def emptyPool_def exclusive_def held_by_def alert_by_def)
next
  case (step s s')
  then show ?case using pool_inv_step wake_inv_step by blast
qed

lemma card_holders:
  assumes "pool_inv m s"
  shows "card (holders s) = ps_created s - length (ps_free s)"
proof -
  define g where "g t = (case ps_phase s t of Holding p \<Rightarrow> p | _ \<Rightarrow> 0)" for t
  have ex: "exclusive (ps_free s) (ps_phase s)" and eq: "set (ps_free s) \<union> held s = {..<ps_created s}"
    using assms by (simp_all add: pool_inv_def)
  have "inj_on g (holders s)"
    using ex unfolding exclusive_def by (intro inj_onI) (auto simp: g_def holders_def)
  moreover have "g ` holders s = held s"
    by (force simp: g_def holders_def held_by_def image_iff)
  ultimately have "card (holders s) = card (held s)" by (metis card_image)
  also have "held s = {..<ps_created s} - set (ps_free s)"
    using ex eq unfolding exclusive_def held_by_def by blast
  also have "card \<dots> = ps_created s - length (ps_free s)"
    using ex eq by (subst card_Diff_subset) (auto simp: exclusive_def distinct_card)
  finally show ?thesis .
qed

text \<open>The counting semaphore the pool implements: the permits that are left.\<close>

inductive sem_step :: "nat \<Rightarrow> nat \<Rightarrow> nat \<Rightarrow> bool" for m where
  idle: "sem_step m n n"
| P: "sem_step m (Suc n) n"
| V: "n < m \<Longrightarrow> sem_step m n (Suc n)"

definition permits :: "pstate \<Rightarrow> nat" where
  "permits s = ps_max s - ps_created s + length (ps_free s)"

definition newLink :: "'d \<Rightarrow> 'd link" where
  "newLink d = \<lparr>lk_db = d, lk_open = True, lk_step = 0, lk_runs = 0\<rparr>"

text \<open>One connection, two threads: the first holds it, the second has gone to sleep, the first gives it back.\<close>

definition contended :: pstate where
  "contended = set_phase 1 Asleep ((set_phase 0 (Holding 0) ((emptyPool 1)\<lparr>ps_created := 1\<rparr>))\<lparr>ps_waits := 1\<rparr>)"

definition handed_back :: pstate where
  "handed_back = set_phase 0 Notifying (contended\<lparr>ps_free := [0]\<rparr>)"

lemma contended_reachable: "pool_reachable 1 contended"
proof -
  have "pool_step (emptyPool 1) (set_phase 0 (Holding 0) ((emptyPool 1)\<lparr>ps_created := 1\<rparr>))"
    using grow [of "emptyPool 1" 0] by (simp add: emptyPool_def)
  from pool_reachable.step [OF pool_reachable.start this]
  have "pool_reachable 1 (set_phase 0 (Holding 0) ((emptyPool 1)\<lparr>ps_created := 1\<rparr>))" by simp
  from pool_reachable.step [OF this exhausted [of _ 1]]
  show ?thesis by (simp add: contended_def emptyPool_def set_phase_def)
qed

lemma handed_back_reachable: "pool_reachable 1 handed_back"
  using pool_reachable.step [OF contended_reachable release [of contended 0 0]]
  by (simp add: handed_back_def contended_def emptyPool_def set_phase_def)

section \<open>Properties\<close>

text \<open>
  C8. A caller's work is started at most once per transaction, whatever the network does. When
  \<open>RunInTransaction\<close> returns, the work ran once and its whole effect is in the database; when it
  throws, either nothing of it is, or all of it (the reply to COMMIT was lost).
\<close>

theorem work_runs_at_most_once:
  "case ProductionRunInTransaction net f s of
     (Inr x, s') \<Rightarrow> lk_runs s' = lk_runs s + 1 \<and> f (lk_db s) = (Inr x, lk_db s')
   | (Inl e, s') \<Rightarrow> lk_runs s' \<le> lk_runs s + 1 \<and>
       (lk_db s' = lk_db s \<or> (lk_runs s' = lk_runs s + 1 \<and> (\<exists>x. f (lk_db s) = (Inr x, lk_db s'))))"
proof (cases "ProductionRunInTransaction net f s")
  case (Pair r s')
  then show ?thesis by (cases rule: production_run) (simp_all add: Pair, auto)
qed

text \<open>
  A connection that died while idle costs its next caller nothing: BEGIN fails on it, a new
  connection is opened, and the work runs and commits on that one.
\<close>

theorem idle_death_heals:
  assumes "lk_open s" "broken (net (lk_step s))"
    and "\<forall>i \<in> {1..4}. net (lk_step s + i) = Works" and "f (lk_db s) = (Inr x, d)"
  shows "ProductionRunInTransaction net f s
    = (Inr x, s\<lparr>lk_db := d, lk_step := lk_step s + 5, lk_runs := lk_runs s + 1\<rparr>)"
proof -
  have "net (lk_step s) \<noteq> Works" using assms(2) by (auto simp: broken_def)
  moreover have "net (lk_step s + i) = Works" if "i \<in> {1, 2, 3, 4}" for i
    using assms(3) that by auto
  note this [of 1] this [of 2] this [of 3] this [of 4]
  ultimately show ?thesis
    using assms(1,2,4)
    by (simp add: ProductionRunInTransaction_def OpenTransaction_def ResetConnection_def Reconnect_def
        BeginWork_def UserWork_def CommitWork_def catchE_def bindE_def throwE_def retE_def Let_def
        eval_nat_numeral broken_def)
qed

theorem idle_death_heals_witness:
  "ProductionRunInTransaction (\<lambda>n. if n = 0 then Dropped else Works) (\<lambda>d. (Inr (d + 1), d * 2)) (newLink (5 :: nat))
    = (Inr 6, \<lparr>lk_db = 10, lk_open = True, lk_step = 5, lk_runs = 1\<rparr>)"
  using idle_death_heals [of "newLink (5 :: nat)" "\<lambda>n. if n = 0 then Dropped else Works" "\<lambda>d. (Inr (d + 1), d * 2)" 6 10]
  by (simp add: newLink_def broken_def)

text \<open>
  In every interleaving no two threads hold the same connection, none that is held is also free,
  and at most \<open>maxConnections\<close> are ever opened.
\<close>

theorem pool_exclusive:
  assumes "pool_reachable m s"
  shows "ps_created s \<le> m \<and> length (ps_free s) + card (holders s) = ps_created s \<and>
    (ps_phase s t = Holding p \<longrightarrow> p < ps_created s \<and> p \<notin> set (ps_free s) \<and> (\<forall>u. ps_phase s u = Holding p \<longrightarrow> u = t))"
proof -
  have inv: "pool_inv m s" using pool_invariants [OF assms] by simp
  then have ex: "exclusive (ps_free s) (ps_phase s)" and eq: "set (ps_free s) \<union> held s = {..<ps_created s}"
    by (simp_all add: pool_inv_def)
  have "length (ps_free s) \<le> ps_created s"
    using ex eq by (metis Un_upper1 card_lessThan card_mono distinct_card exclusive_def finite_lessThan)
  then have "length (ps_free s) + card (holders s) = ps_created s" by (simp add: card_holders [OF inv])
  moreover have "ps_created s \<le> m" using inv by (simp add: pool_inv_def)
  moreover have "p < ps_created s \<and> p \<notin> set (ps_free s) \<and> (\<forall>u. ps_phase s u = Holding p \<longrightarrow> u = t)"
    if h: "ps_phase s t = Holding p"
    using held_by_bound [OF eq h] ex h unfolding exclusive_def by blast
  ultimately show ?thesis by blast
qed

theorem pool_exclusive_witness:
  "ps_created contended \<le> 1 \<and> length (ps_free contended) + card (holders contended) = ps_created contended \<and>
    (\<forall>u. ps_phase contended u = Holding 0 \<longrightarrow> u = 0)"
  using pool_exclusive [OF contended_reachable, of 0 0]
  by (simp add: contended_def emptyPool_def set_phase_def)

text \<open>
  C25. No wake-up is lost: while a thread sleeps, either all \<open>maxConnections\<close> connections are in use,
  or some thread has been woken, or is about to wake one, and a free connection is there for it.
\<close>

theorem pool_no_lost_wakeup:
  assumes "pool_reachable m s" "ps_phase s t = Asleep"
  shows "if ps_free s = [] then card (holders s) = m
    else \<exists>u. (ps_phase s u = Woken \<or> ps_phase s u = Notifying) \<and> (\<exists>s'. pool_step s s' \<and> ps_phase s' u \<noteq> ps_phase s u)"
proof (cases "ps_free s = []")
  case True
  have "pool_inv m s" "wake_inv s" using pool_invariants [OF assms(1)] by simp_all
  then have "card (holders s) = m"
    using card_holders [of m s] assms(2) True by (auto simp: pool_inv_def wake_inv_def)
  with True show ?thesis by simp
next
  case False
  have "wake_inv s" using pool_invariants [OF assms(1)] by simp
  then have "0 < card (alert_by (ps_phase s))"
    using assms(2) False unfolding wake_inv_def by (metis gr0I le_zero_eq length_0_conv)
  then obtain u where "u \<in> alert_by (ps_phase s)" by (metis card_gt_0_iff equals0I)
  then have u: "ps_phase s u = Woken \<or> ps_phase s u = Notifying" by (simp add: alert_by_mem)
  obtain ps p where ps: "ps_free s = ps @ [p]" using False by (metis rev_exhaust)
  have "\<exists>s'. pool_step s s' \<and> ps_phase s' u \<noteq> ps_phase s u"
  proof (cases "ps_phase s u = Woken")
    case True
    then show ?thesis
      using take [of s u ps p] ps by (intro exI [of _ "set_phase u (Holding p) (s\<lparr>ps_free := ps\<rparr>)"]) simp
  next
    case w: False
    then have "ps_phase s u = Notifying" using u by simp
    moreover from this have "t \<noteq> u" using assms(2) by auto
    ultimately show ?thesis
      using notify [of s u t] assms(2) by (intro exI [of _ "set_phase t Woken (set_phase u Outside s)"]) simp
  qed
  with u False show ?thesis by auto
qed

theorem pool_no_lost_wakeup_witness:
  "\<exists>u. (ps_phase handed_back u = Woken \<or> ps_phase handed_back u = Notifying) \<and>
     (\<exists>s'. pool_step handed_back s' \<and> ps_phase s' u \<noteq> ps_phase handed_back u)"
  using pool_no_lost_wakeup [OF handed_back_reachable, of 1]
  by (simp add: handed_back_def contended_def emptyPool_def set_phase_def)

text \<open>
  C35. The pool refines a counting semaphore with \<open>maxConnections\<close> permits: the permits left are
  \<open>maxConnections\<close> less the connections in use, and each step of the pool takes one, gives one back,
  or leaves them.
\<close>

theorem pool_is_semaphore:
  assumes "pool_reachable m s" "pool_step s s'"
  shows "permits s + card (holders s) = m \<and> sem_step m (permits s) (permits s')"
proof -
  have inv: "pool_inv m s" and inv': "pool_inv m s'"
    using pool_invariants [OF assms(1)] pool_invariants [OF pool_reachable.step [OF assms]] by simp_all
  have cap: "permits s + card (holders s) = m"
    using pool_exclusive [OF assms(1), of 0 0] inv unfolding permits_def pool_inv_def by linarith
  have cap': "permits s' \<le> m"
    using pool_exclusive [OF pool_reachable.step [OF assms], of 0 0] inv' unfolding permits_def pool_inv_def by linarith
  have "sem_step m (permits s) (permits s')"
    using assms(2) cap'
  proof (induction rule: pool_step.induct)
    case (take s t ps p)
    then show ?case using sem_step.P [of m "ps_max s - ps_created s + length ps"] by (simp add: permits_def)
  next
    case (grow s t)
    then show ?case
      using sem_step.P [of m "ps_max s - Suc (ps_created s)"] by (simp add: permits_def Suc_diff_Suc)
  next
    case (release s t p)
    then show ?case using sem_step.V [of "permits s" m] by (simp add: permits_def)
  qed (simp_all add: permits_def sem_step.idle)
  with cap show ?thesis by simp
qed

theorem pool_is_semaphore_witness:
  "permits contended + card (holders contended) = 1 \<and> sem_step 1 (permits contended) (permits handed_back)"
  by (rule pool_is_semaphore [OF contended_reachable])
    (use release [of contended 0 0] in \<open>simp add: handed_back_def contended_def emptyPool_def set_phase_def\<close>)

end
