(* ===== verification/Migration.thy ===== *)
theory Migration
  imports Connections
begin

text \<open>
  Schema migrations: \<open>sql_util/table_helpers/schema_migrations.cpp\<close> and
  \<open>business_logic/migration\<close> (\<open>migration_runner.cpp\<close>, \<open>migrate_command.cpp\<close>,
  \<open>migration_namespace.cpp\<close>). The runner is a client of the transaction provider interface; what it
  guarantees is proved once in that locale and read off for the one connection and for the pool.
\<close>

section \<open>The table schema_migrations\<close>

text \<open>
  A database under migration: its content \<open>'w\<close>, the rows (id, applied_at_us) of \<open>schema_migrations\<close>
  in insertion order, and its clock.
\<close>

record 'w migdb =
  md_data :: 'w
  md_applied :: "(string \<times> int) list"
  md_clock :: int

definition applied_ids :: "'w migdb \<Rightarrow> string list" where
  "applied_ids d = map fst (md_applied d)"

definition IsApplied :: "string \<Rightarrow> ('w migdb, bool) eff" where
  "IsApplied mid = getsE (\<lambda>d. mid \<in> set (applied_ids d))"

text \<open>\<open>ORDER BY applied_at_us ASC, id ASC\<close>.\<close>

definition ListAppliedIds :: "('w migdb, string list) eff" where
  "ListAppliedIds = getsE (\<lambda>d. map fst (sort_key (\<lambda>(i, t). t) (sort_key (\<lambda>(i, t). i) (md_applied d))))"

text \<open>The id is the primary key; \<open>applied_at_us\<close> takes its default, the current time.\<close>

definition RecordApplied :: "string \<Rightarrow> ('w migdb, unit) eff" where
  "RecordApplied mid d =
     (if mid \<in> set (applied_ids d) then (Inl (DbFailure ''duplicate key''), d)
      else (Inr (), d\<lparr>md_applied := md_applied d @ [(mid, md_clock d)]\<rparr>))"

section \<open>The runner\<close>

record 'w migration =
  mig_id :: string
  mig_apply :: "('w migdb, unit) eff"

record MigrationResult =
  applied :: "string list"
  skipped :: "string list"

record MigrationFailure =
  MigrationId :: string
  failure_what :: string

definition newMigrationFailure :: "string \<Rightarrow> string \<Rightarrow> MigrationFailure" where
  "newMigrationFailure mid what =
     \<lparr>MigrationId = mid,
      failure_what = ''Migration '' @ [CHR 0x27] @ mid @ [CHR 0x27] @ '' failed: '' @ what\<rparr>"

definition ApplyOne :: "'w migration \<Rightarrow> ('w migdb, bool) eff" where
  "ApplyOne m =
     bindE (IsApplied (mig_id m)) (\<lambda>b.
       if b then retE False
       else bindE (mig_apply m) (\<lambda>_. bindE (RecordApplied (mig_id m)) (\<lambda>_. retE True)))"

text \<open>The loop, each migration in a transaction of its own; the first exception ends it.\<close>

fun ApplyPending ::
  "(('w migdb, bool) eff \<Rightarrow> ('s, bool) eff) \<Rightarrow> 'w migration list \<Rightarrow> MigrationResult \<Rightarrow> 's \<Rightarrow>
   (MigrationFailure + MigrationResult) \<times> 's" where
  "ApplyPending run [] res s = (Inr res, s)"
| "ApplyPending run (m # ms) res s =
     (case run (ApplyOne m) s of
        (Inl e, s') \<Rightarrow> (Inl (newMigrationFailure (mig_id m) (exn_what e)), s')
      | (Inr True, s') \<Rightarrow> ApplyPending run ms (res\<lparr>applied := applied res @ [mig_id m]\<rparr>) s'
      | (Inr False, s') \<Rightarrow> ApplyPending run ms (res\<lparr>skipped := skipped res @ [mig_id m]\<rparr>) s')"

definition emptyResult :: MigrationResult where
  "emptyResult = \<lparr>applied = [], skipped = []\<rparr>"

definition RunMigrateCommand ::
  "(('w migdb, bool) eff \<Rightarrow> ('s, bool) eff) \<Rightarrow> 'w migration list \<Rightarrow> 's \<Rightarrow> int \<times> 's" where
  "RunMigrateCommand run ms s =
     (case ApplyPending run ms emptyResult s of (Inl _, s') \<Rightarrow> (1, s') | (Inr _, s') \<Rightarrow> (0, s'))"

definition kMigrationNamespaceSeparator :: char where
  "kMigrationNamespaceSeparator = CHR ''/''"

definition NamespacedMigrationId :: "string \<Rightarrow> string \<Rightarrow> string" where
  "NamespacedMigrationId ns localId = ns @ [kMigrationNamespaceSeparator] @ localId"

section \<open>What a run is meant to do\<close>

text \<open>The migrations of a list that are not applied yet, each id once, in order.\<close>

fun pending :: "string set \<Rightarrow> 'w migration list \<Rightarrow> 'w migration list" where
  "pending A [] = []"
| "pending A (m # ms) = (if mig_id m \<in> A then pending A ms else m # pending (insert (mig_id m) A) ms)"

definition recorded :: "string \<Rightarrow> 'w migdb \<Rightarrow> 'w migdb" where
  "recorded mid d = d\<lparr>md_applied := md_applied d @ [(mid, md_clock d)]\<rparr>"

text \<open>Running migrations one after the other on one database, each recorded.\<close>

fun apply_all :: "'w migration list \<Rightarrow> 'w migdb \<Rightarrow> 'w migdb option" where
  "apply_all [] d = Some d"
| "apply_all (m # ms) d =
     (case mig_apply m d of (Inr _, d') \<Rightarrow> apply_all ms (recorded (mig_id m) d') | (Inl _, _) \<Rightarrow> None)"

text \<open>A migration that leaves \<open>schema_migrations\<close> to the runner.\<close>

definition keeps_ledger :: "'w migration \<Rightarrow> bool" where
  "keeps_ledger m \<longleftrightarrow> (\<forall>d r d'. mig_apply m d = (r, d') \<longrightarrow> md_applied d' = md_applied d)"

lemma applied_ids_recorded [simp]: "applied_ids (recorded mid d) = applied_ids d @ [mid]"
  by (simp add: applied_ids_def recorded_def)

lemma keeps_ledgerD: "keeps_ledger m \<Longrightarrow> mig_apply m d = (r, d') \<Longrightarrow> applied_ids d' = applied_ids d"
  by (simp add: keeps_ledger_def applied_ids_def)

lemma ApplyOne_skipped: "mig_id m \<in> set (applied_ids d) \<Longrightarrow> ApplyOne m d = (Inr False, d)"
  by (simp add: ApplyOne_def IsApplied_def eff_simps)

lemma ApplyOne_fresh:
  assumes "mig_id m \<notin> set (applied_ids d)" "keeps_ledger m"
  shows "ApplyOne m d = (case mig_apply m d of (Inl e, d') \<Rightarrow> (Inl e, d') | (Inr _, d') \<Rightarrow> (Inr True, recorded (mig_id m) d'))"
  using assms(1) keeps_ledgerD [OF assms(2), of d]
  by (auto simp: ApplyOne_def IsApplied_def RecordApplied_def recorded_def bindE_def getsE_def retE_def
      split: prod.splits sum.splits)

lemma pending_subset: "set (pending A ms) \<subseteq> set ms"
  by (induction A ms rule: pending.induct) auto

lemma pending_none: "mig_id ` set ms \<subseteq> A \<Longrightarrow> pending A ms = []"
  by (induction ms) auto

lemma pending_covers: "mig_id ` set ms \<subseteq> A \<union> mig_id ` set (pending A ms)"
  by (induction A ms rule: pending.induct) auto

lemma pending_fresh: "distinct (map mig_id (pending A ms)) \<and> mig_id ` set (pending A ms) \<inter> A = {}"
  by (induction A ms rule: pending.induct) auto

lemma apply_all_append:
  "apply_all (xs @ ys) d = (case apply_all xs d of None \<Rightarrow> None | Some d' \<Rightarrow> apply_all ys d')"
  by (induction xs arbitrary: d) (auto split: prod.splits sum.splits)

lemma apply_all_ids:
  assumes "apply_all ms d = Some d'" "\<forall>m \<in> set ms. keeps_ledger m"
  shows "applied_ids d' = applied_ids d @ map mig_id ms"
  using assms
proof (induction ms arbitrary: d)
  case (Cons m ms)
  then obtain u d1 where "mig_apply m d = (Inr u, d1)" "apply_all ms (recorded (mig_id m) d1) = Some d'"
    by (auto split: prod.splits sum.splits)
  with Cons show ?case using keeps_ledgerD [of m d "Inr u" d1] by simp
qed simp

lemma pending_append:
  "pending A (xs @ ys) = pending A xs @ pending (A \<union> mig_id ` set xs) ys"
  by (induction A xs rule: pending.induct) (auto simp: insert_absorb)

section \<open>The runner over any provider\<close>


locale migration_host = transaction_provider run db ok
  for run :: "('w migdb, bool) eff \<Rightarrow> ('s, bool) eff" and db :: "'s \<Rightarrow> 'w migdb" and ok :: "'s \<Rightarrow> bool"
begin

lemma one_applied:
  assumes "ok s" "run (ApplyOne m) s = (Inr b, s')" "keeps_ledger m"
  shows "ok s' \<and> (if mig_id m \<in> set (applied_ids (db s)) then \<not> b \<and> db s' = db s
    else b \<and> apply_all [m] (db s) = Some (db s'))"
  using committed [OF assms(1,2)] stays_ok [OF assms(1), of "ApplyOne m"] assms(2,3)
  by (cases "mig_id m \<in> set (applied_ids (db s))")
    (auto simp: ApplyOne_skipped ApplyOne_fresh split: prod.splits sum.splits)

lemma one_failed:
  assumes "ok s" "run (ApplyOne m) s = (Inl e, s')" "keeps_ledger m"
  shows "ok s' \<and> (db s' = db s \<or> mig_id m \<notin> set (applied_ids (db s)) \<and> apply_all [m] (db s) = Some (db s'))"
  using rolled_back [OF assms(1,2)] stays_ok [OF assms(1), of "ApplyOne m"] assms(2,3)
  by (cases "mig_id m \<in> set (applied_ids (db s))")
    (auto simp: ApplyOne_skipped ApplyOne_fresh split: prod.splits sum.splits)

lemma run_complete:
  assumes "ApplyPending run ms res s = (Inr res', s')" "ok s" "\<forall>m \<in> set ms. keeps_ledger m"
  shows "ok s' \<and> apply_all (pending (set (applied_ids (db s))) ms) (db s) = Some (db s') \<and>
    applied res' = applied res @ map mig_id (pending (set (applied_ids (db s))) ms)"
  using assms
proof (induction ms arbitrary: res s)
  case (Cons m ms)
  obtain b s1 where s1: "run (ApplyOne m) s = (Inr b, s1)"
    using Cons.prems(1) by (auto split: prod.splits sum.splits)
  note one = one_applied [OF Cons.prems(2) s1]
  show ?case
  proof (cases "mig_id m \<in> set (applied_ids (db s))")
    case True
    with one Cons.prems s1 Cons.IH [of "res\<lparr>skipped := skipped res @ [mig_id m]\<rparr>" s1] show ?thesis by simp
  next
    case False
    with one Cons.prems s1 have b: "b" "ok s1" "apply_all [m] (db s) = Some (db s1)" by simp_all
    then have "applied_ids (db s1) = applied_ids (db s) @ [mig_id m]"
      using apply_all_ids [of "[m]" "db s" "db s1"] Cons.prems(3) by simp
    with b False Cons.prems s1 Cons.IH [of "res\<lparr>applied := applied res @ [mig_id m]\<rparr>" s1] show ?thesis
      by (auto split: prod.splits sum.splits)
  qed
qed simp

lemma run_stopped:
  assumes "ApplyPending run ms res s = (Inl f, s')" "ok s" "\<forall>m \<in> set ms. keeps_ledger m"
  shows "\<exists>ms1 m ms2 d. ms = ms1 @ m # ms2 \<and> MigrationId f = mig_id m \<and> ok s' \<and>
    apply_all (pending (set (applied_ids (db s))) ms1) (db s) = Some d \<and>
    (db s' = d \<or> mig_id m \<notin> set (applied_ids d) \<and> apply_all [m] d = Some (db s'))"
  using assms
proof (induction ms arbitrary: res s)
  case (Cons m ms)
  obtain r s1 where s1: "run (ApplyOne m) s = (r, s1)" by fastforce
  show ?case
  proof (cases r)
    case (Inl e)
    then have "f = newMigrationFailure (mig_id m) (exn_what e)" "s' = s1"
      using Cons.prems(1) s1 by auto
    with one_failed [of s m e s1] Cons.prems s1 Inl show ?thesis
      by (intro exI [of _ "[]"] exI [of _ m] exI [of _ ms] exI [of _ "db s"])
        (auto simp: newMigrationFailure_def)
  next
    case (Inr b)
    note one = one_applied [OF Cons.prems(2) s1 [unfolded Inr]]
    obtain res1 where rest: "ApplyPending run ms res1 s1 = (Inl f, s')"
      using Cons.prems(1) s1 Inr by (cases b) auto
    have ok1: "ok s1" using one Cons.prems(3) by simp
    obtain ms1 m' ms2 d where IH: "ms = ms1 @ m' # ms2" "MigrationId f = mig_id m'" "ok s'"
      "apply_all (pending (set (applied_ids (db s1))) ms1) (db s1) = Some d"
      "db s' = d \<or> mig_id m' \<notin> set (applied_ids d) \<and> apply_all [m'] d = Some (db s')"
      using Cons.IH [OF rest ok1] Cons.prems(3) by auto
    have "apply_all (pending (set (applied_ids (db s))) (m # ms1)) (db s) = Some d"
    proof (cases "mig_id m \<in> set (applied_ids (db s))")
      case True
      then show ?thesis using one IH(4) Cons.prems(3) by simp
    next
      case False
      then have a: "apply_all [m] (db s) = Some (db s1)" using one Cons.prems(3) by simp
      then have "applied_ids (db s1) = applied_ids (db s) @ [mig_id m]"
        using apply_all_ids [of "[m]" "db s" "db s1"] Cons.prems(3) by simp
      with a False IH(4) show ?thesis by (auto split: prod.splits sum.splits)
    qed
    with IH show ?thesis
      by (intro exI [of _ "m # ms1"] exI [of _ m'] exI [of _ ms2] exI [of _ d]) simp
  qed
qed simp

text \<open>A list whose migrations are all applied changes nothing, however the run ends.\<close>

lemma run_again:
  assumes "\<forall>m \<in> set ms. mig_id m \<in> set (applied_ids (db s)) \<and> keeps_ledger m" "ok s"
  shows "db (snd (ApplyPending run ms res s)) = db s"
proof (cases "ApplyPending run ms res s")
  case (Pair r s')
  show ?thesis
  proof (cases r)
    case (Inr res')
    have "pending (set (applied_ids (db s))) ms = []" using assms(1) by (auto intro: pending_none)
    with run_complete [of ms res s res' s'] Pair Inr assms show ?thesis by simp
  next
    case (Inl f)
    then obtain ms1 m ms2 d where f: "ms = ms1 @ m # ms2"
      "apply_all (pending (set (applied_ids (db s))) ms1) (db s) = Some d"
      "db s' = d \<or> mig_id m \<notin> set (applied_ids d) \<and> apply_all [m] d = Some (db s')"
      using run_stopped [of ms res s f s'] Pair assms by blast
    have "pending (set (applied_ids (db s))) ms1 = []" using assms(1) f(1) by (auto intro: pending_none)
    moreover have "mig_id m \<in> set (applied_ids (db s))" using assms(1) f(1) by simp
    ultimately show ?thesis using f(2,3) by (simp add: Pair)
  qed
qed

text \<open>A run that was cut off and then completed leaves what one complete run would have left.\<close>

lemma run_resumed:
  assumes "ApplyPending run ms res s = (Inl f, s1)" "ApplyPending run ms res' s1' = (Inr out, s2)"
    and "db s1' = db s1" "ok s" "ok s1'" "\<forall>m \<in> set ms. keeps_ledger m"
  shows "apply_all (pending (set (applied_ids (db s))) ms) (db s) = Some (db s2)"
proof -
  define A where "A = set (applied_ids (db s))"
  obtain ms1 m ms2 d where f: "ms = ms1 @ m # ms2" "apply_all (pending A ms1) (db s) = Some d"
    "db s1 = d \<or> mig_id m \<notin> set (applied_ids d) \<and> apply_all [m] d = Some (db s1)"
    using run_stopped [OF assms(1,4,6)] by (auto simp: A_def)
  have kl: "\<forall>m \<in> set (pending A ms1). keeps_ledger m" "keeps_ledger m"
    using assms(6) f(1) pending_subset [of A ms1] by auto
  have ids: "set (applied_ids d) = A \<union> mig_id ` set (pending A ms1)"
    using apply_all_ids [OF f(2) kl(1)] by (auto simp: A_def)
  then have cov: "mig_id ` set ms1 \<subseteq> set (applied_ids d)" "set (applied_ids d) \<subseteq> A \<union> mig_id ` set ms1"
    using pending_covers [of ms1 A] pending_subset [of A ms1] by auto
  then have B: "set (applied_ids d) = A \<union> mig_id ` set ms1" using ids by auto
  have two: "apply_all (pending (set (applied_ids (db s1))) ms) (db s1) = Some (db s2)"
    using run_complete [OF assms(2,5,6)] assms(3) by simp
  have rest: "apply_all (pending (set (applied_ids d)) (m # ms2)) d = Some (db s2)"
  proof (cases "db s1 = d")
    case True
    with two cov f(1) show ?thesis by (simp add: pending_append pending_none Un_absorb2)
  next
    case False
    then have m: "mig_id m \<notin> set (applied_ids d)" "apply_all [m] d = Some (db s1)" using f(3) by simp_all
    have ids1: "applied_ids (db s1) = applied_ids d @ [mig_id m]"
      using apply_all_ids [OF m(2)] kl(2) by simp
    with two cov f(1) have "apply_all (pending (insert (mig_id m) (set (applied_ids d))) ms2) (db s1) = Some (db s2)"
      by (simp add: pending_append pending_none subset_insertI2 Un_absorb2)
    with m show ?thesis by (auto split: prod.splits sum.splits)
  qed
  with f(2) B show ?thesis unfolding A_def [symmetric] f(1) by (simp add: pending_append apply_all_append)
qed

end

interpretation migrate_production: migration_host "ProductionRunInTransaction net" lk_db "\<lambda>_. True" for net ..

interpretation migrate_pooled: migration_host "PooledRunInTransaction net" pl_db pool_ok for net ..

definition bump :: "string \<Rightarrow> nat migration" where
  "bump i = \<lparr>mig_id = i, mig_apply = (\<lambda>d. (Inr (), d\<lparr>md_data := md_data d + 1\<rparr>))\<rparr>"

definition fresh_db :: "nat migdb" where
  "fresh_db = \<lparr>md_data = 0, md_applied = [], md_clock = 7\<rparr>"

definition reliable :: net where
  "reliable n = Works"

lemma bump_keeps: "keeps_ledger (bump i)"
  by (auto simp: keeps_ledger_def bump_def)

lemmas run_migrations = bump_def fresh_db_def newLink_def ProductionRunInTransaction_def OpenTransaction_def
  BeginWork_def UserWork_def CommitWork_def ApplyOne_def IsApplied_def RecordApplied_def applied_ids_def
  emptyResult_def catchE_def bindE_def retE_def getsE_def throwE_def reliable_def broken_def Let_def recorded_def

section \<open>Properties\<close>

text \<open>
  C9. A run that ends without a failure has applied, in order, exactly the migrations that were not
  recorded before, each once, and recorded each of them; the others did not run.
\<close>

theorem migrate_complete:
  assumes "ApplyPending (ProductionRunInTransaction net) ms emptyResult s = (Inr res, s')"
    and "\<forall>m \<in> set ms. keeps_ledger m"
  shows "apply_all (pending (set (applied_ids (lk_db s))) ms) (lk_db s) = Some (lk_db s') \<and>
    applied res = map mig_id (pending (set (applied_ids (lk_db s))) ms) \<and>
    applied_ids (lk_db s') = applied_ids (lk_db s) @ applied res"
proof -
  note run = migrate_production.run_complete [OF assms(1) TrueI assms(2)]
  then have "applied_ids (lk_db s') = applied_ids (lk_db s) @ map mig_id (pending (set (applied_ids (lk_db s))) ms)"
    using apply_all_ids assms(2) pending_subset by blast
  with run show ?thesis by (simp add: emptyResult_def)
qed

theorem migrate_complete_witness:
  "\<exists>res s'. ApplyPending (ProductionRunInTransaction reliable) [bump ''a'', bump ''b'', bump ''a''] emptyResult (newLink fresh_db) = (Inr res, s') \<and>
     applied_ids (lk_db s') = [''a'', ''b'']"
proof -
  obtain res s' where run: "ApplyPending (ProductionRunInTransaction reliable) [bump ''a'', bump ''b'', bump ''a''] emptyResult (newLink fresh_db) = (Inr res, s')"
    by (simp add: run_migrations)
  show ?thesis
    using migrate_complete [OF run] run bump_keeps by (auto simp: fresh_db_def newLink_def applied_ids_def bump_def)
qed

text \<open>
  A run that fails names the migration it stopped at. Everything before it is applied and
  recorded, nothing after it has run, and the failing one has left no partial effect: it is either not
  in the database at all, or whole and recorded (its COMMIT went through and the reply was lost).
\<close>

theorem migrate_stops:
  assumes "ApplyPending (PooledRunInTransaction net) ms emptyResult s = (Inl f, s')"
    and "pool_ok s" "\<forall>m \<in> set ms. keeps_ledger m"
  shows "\<exists>ms1 m ms2 d. ms = ms1 @ m # ms2 \<and> MigrationId f = mig_id m \<and>
    apply_all (pending (set (applied_ids (pl_db s))) ms1) (pl_db s) = Some d \<and>
    (pl_db s' = d \<or> mig_id m \<notin> set (applied_ids d) \<and> apply_all [m] d = Some (pl_db s'))"
  using migrate_pooled.run_stopped [OF assms] by blast

definition explode :: "nat migration" where
  "explode = \<lparr>mig_id = ''x'', mig_apply = (\<lambda>d. (Inl (RuntimeError ''boom''), d\<lparr>md_data := 99\<rparr>))\<rparr>"

theorem migrate_stops_witness:
  "\<exists>f s' d. ApplyPending (PooledRunInTransaction reliable) [bump ''a'', explode, bump ''b''] emptyResult (newPool fresh_db 2 0) = (Inl f, s') \<and>
     MigrationId f = ''x'' \<and> pl_db s' = d \<and> md_data d = 1 \<and> applied_ids d = [''a'']"
proof -
  obtain f s' where run: "ApplyPending (PooledRunInTransaction reliable) [bump ''a'', explode, bump ''b''] emptyResult (newPool fresh_db 2 0) = (Inl f, s')"
    and f: "MigrationId f = ''x''" and data: "md_data (pl_db s') = 1" "applied_ids (pl_db s') = [''a'']"
    by (simp add: run_migrations PooledRunInTransaction_def AcquireProvider_def ReleaseProvider_def on_link_def
        newPool_def explode_def newMigrationFailure_def)
  have "pool_ok (newPool fresh_db 2 0)" by (simp add: newPool_def pool_ok_def)
  moreover have "keeps_ledger explode" by (auto simp: keeps_ledger_def explode_def)
  ultimately have "\<exists>ms1 m ms2 d. [bump ''a'', explode, bump ''b''] = ms1 @ m # ms2 \<and> MigrationId f = mig_id m \<and>
    apply_all (pending (set (applied_ids (pl_db (newPool fresh_db 2 0)))) ms1) (pl_db (newPool fresh_db 2 0)) = Some d \<and>
    (pl_db s' = d \<or> mig_id m \<notin> set (applied_ids d) \<and> apply_all [m] d = Some (pl_db s'))"
    using bump_keeps by (intro migrate_stops [OF run]) simp_all
  with run f data show ?thesis by blast
qed

text \<open>
  \<open>--migrate\<close> can be repeated: once it has exited with 0, running it again changes nothing in the
  database, whatever becomes of that run; and a run that failed, followed by one that succeeds, leaves
  exactly what one uninterrupted run would have left.
\<close>

theorem migrate_repeatable:
  assumes "\<forall>m \<in> set ms. keeps_ledger m"
    and "RunMigrateCommand (ProductionRunInTransaction net) ms s = (code, s1)"
    and "RunMigrateCommand (ProductionRunInTransaction net') ms s1 = (code', s2)"
  shows "(code = 0 \<longrightarrow> lk_db s2 = lk_db s1) \<and>
    (code = 1 \<and> code' = 0 \<and> net' = net \<longrightarrow>
       apply_all (pending (set (applied_ids (lk_db s))) ms) (lk_db s) = Some (lk_db s2))"
proof (intro conjI impI)
  assume "code = 0"
  then obtain res where run: "ApplyPending (ProductionRunInTransaction net) ms emptyResult s = (Inr res, s1)"
    using assms(2) by (auto simp: RunMigrateCommand_def split: prod.splits sum.splits)
  have "set (applied_ids (lk_db s1)) = set (applied_ids (lk_db s)) \<union> mig_id ` set (pending (set (applied_ids (lk_db s))) ms)"
    using apply_all_ids migrate_production.run_complete [OF run TrueI assms(1)] assms(1) pending_subset by fastforce
  then have "\<forall>m \<in> set ms. mig_id m \<in> set (applied_ids (lk_db s1)) \<and> keeps_ledger m"
    using pending_covers [of ms "set (applied_ids (lk_db s))"] assms(1) by auto
  from migrate_production.run_again [OF this TrueI, of net' emptyResult]
  show "lk_db s2 = lk_db s1"
    using assms(3) by (auto simp: RunMigrateCommand_def split: prod.splits sum.splits)
next
  assume "code = 1 \<and> code' = 0 \<and> net' = net"
  then show "apply_all (pending (set (applied_ids (lk_db s))) ms) (lk_db s) = Some (lk_db s2)"
    using assms by (auto simp: RunMigrateCommand_def split: prod.splits sum.splits
        intro: migrate_production.run_resumed [OF _ _ refl TrueI TrueI])
qed

theorem migrate_repeatable_witness:
  "lk_db (snd (RunMigrateCommand (ProductionRunInTransaction reliable) [bump ''a''] (snd (RunMigrateCommand (ProductionRunInTransaction reliable) [bump ''a''] (newLink fresh_db)))))
   = \<lparr>md_data = 1, md_applied = [(''a'', 7)], md_clock = 7\<rparr>"
proof -
  define s1 where "s1 = snd (RunMigrateCommand (ProductionRunInTransaction reliable) [bump ''a''] (newLink fresh_db))"
  have one: "RunMigrateCommand (ProductionRunInTransaction reliable) [bump ''a''] (newLink fresh_db) = (0, s1)"
    by (simp add: s1_def run_migrations RunMigrateCommand_def)
  have "lk_db s1 = \<lparr>md_data = 1, md_applied = [(''a'', 7)], md_clock = 7\<rparr>"
    by (simp add: s1_def run_migrations RunMigrateCommand_def)
  then show ?thesis
    using migrate_repeatable [OF _ one, of reliable "fst (RunMigrateCommand (ProductionRunInTransaction reliable) [bump ''a''] s1)" "snd (RunMigrateCommand (ProductionRunInTransaction reliable) [bump ''a''] s1)"] bump_keeps
    by (simp add: s1_def)
qed

text \<open>
  Ids of different namespaces never meet: for namespaces without a slash the namespaced id
  determines the namespace and the local id.
\<close>

theorem NamespacedMigrationId_inj:
  assumes "CHR ''/'' \<notin> set ns" "CHR ''/'' \<notin> set ns'"
  shows "NamespacedMigrationId ns i = NamespacedMigrationId ns' i' \<longleftrightarrow> ns = ns' \<and> i = i'"
proof
  assume "NamespacedMigrationId ns i = NamespacedMigrationId ns' i'"
  then have eq: "ns @ CHR ''/'' # i = ns' @ CHR ''/'' # i'"
    by (simp add: NamespacedMigrationId_def kMigrationNamespaceSeparator_def)
  from arg_cong [OF eq, of "takeWhile (\<lambda>c. c \<noteq> CHR ''/'')"] have "ns = ns'"
    using assms by (simp add: takeWhile_to)
  with eq show "ns = ns' \<and> i = i'" by simp
qed simp

theorem NamespacedMigrationId_inj_witness:
  "NamespacedMigrationId ''honuware'' ''0001_baseline'' \<noteq> NamespacedMigrationId ''app'' ''0001_baseline''"
  by (subst NamespacedMigrationId_inj) simp_all

end
