(* ===== verification/Tenancy.thy ===== *)
theory Tenancy
  imports Migration Guards
begin

text \<open>
  Several sites behind one server: the control database's table \<open>tenants\<close>
  (\<open>sql_util/table_helpers/tenants.cpp\<close>), the resolvers and the registry
  (\<open>business_logic/tenancy/tenant_resolver.cpp\<close>, \<open>tenant_resources.cpp\<close>), the guard that picks a
  request's tenant (\<open>endpoints/tenant_resolution_guard.cpp\<close>, \<open>endpoint_auth_helper.cpp\<close>), and the
  commands that create and migrate tenants (\<open>provisioning.cpp\<close>, \<open>control_database.cpp\<close>, with
  \<open>foundation/util/destructive_guard.cpp\<close>).
\<close>

section \<open>The table tenants\<close>

record TenantRow =
  tn_id :: int
  tn_siteKey :: string
  tn_databaseName :: string
  tn_displayName :: string
  tn_status :: string
  tn_maxConnections :: int

record control =
  cd_tenants :: "TenantRow list"
  cd_next :: int

definition kTenantStatusActive :: string where "kTenantStatusActive = ''active''"
definition kTenantStatusSuspended :: string where "kTenantStatusSuspended = ''suspended''"

text \<open>
  \<open>site_key\<close> and \<open>database_name\<close> are unique; status and connection bound fall back to the columns'
  defaults.
\<close>

definition Tenants_Insert :: "TenantRow \<Rightarrow> (control, int) eff" where
  "Tenants_Insert row c =
     (if list_ex (\<lambda>r. tn_siteKey r = tn_siteKey row \<or> tn_databaseName r = tn_databaseName row) (cd_tenants c)
      then (Inl (DbFailure ''duplicate key''), c\<lparr>cd_next := cd_next c + 1\<rparr>)
      else (Inr (cd_next c),
            c\<lparr>cd_next := cd_next c + 1,
              cd_tenants := cd_tenants c @
                [row\<lparr>tn_id := cd_next c,
                     tn_status := (if tn_status row \<noteq> [] then tn_status row else kTenantStatusActive),
                     tn_maxConnections := (if tn_maxConnections row > 0 then tn_maxConnections row else 1)\<rparr>]\<rparr>))"

definition LookupBySiteKey :: "string \<Rightarrow> (control, TenantRow option) eff" where
  "LookupBySiteKey siteKey = getsE (\<lambda>c. List.find (\<lambda>r. tn_siteKey r = siteKey) (cd_tenants c))"

definition ListActive :: "(control, TenantRow list) eff" where
  "ListActive = getsE (\<lambda>c. sort_key tn_id (filter (\<lambda>r. tn_status r = kTenantStatusActive) (cd_tenants c)))"

definition Tenants_SetStatus :: "string \<Rightarrow> string \<Rightarrow> (control, unit) eff" where
  "Tenants_SetStatus siteKey status =
     modifyE (\<lambda>c. c\<lparr>cd_tenants := map (\<lambda>r. if tn_siteKey r = siteKey then r\<lparr>tn_status := status\<rparr> else r) (cd_tenants c)\<rparr>)"

definition control_ok :: "control \<Rightarrow> bool" where
  "control_ok c \<longleftrightarrow> distinct (map tn_siteKey (cd_tenants c)) \<and> distinct (map tn_databaseName (cd_tenants c)) \<and>
     distinct (map tn_id (cd_tenants c)) \<and> (\<forall>r \<in> set (cd_tenants c). tn_id r < cd_next c \<and> 0 < tn_maxConnections r)"

section \<open>Resolvers\<close>

record TenantContext =
  tc_tenantId :: int
  tc_siteKey :: string
  tc_databaseName :: string
  tc_displayName :: string
  tc_status :: string
  tc_maxConnections :: int

definition ContextFromRow :: "TenantRow \<Rightarrow> TenantContext" where
  "ContextFromRow r = \<lparr>tc_tenantId = tn_id r, tc_siteKey = tn_siteKey r, tc_databaseName = tn_databaseName r,
     tc_displayName = tn_displayName r, tc_status = tn_status r, tc_maxConnections = tn_maxConnections r\<rparr>"

text \<open>The resolver's state: its provider's connection to the control database, and its cache.\<close>

record resolver =
  rs_link :: "control link"
  rs_cache :: "string \<Rightarrow> TenantContext option"

definition ControlDbResolve :: "net \<Rightarrow> string \<Rightarrow> (resolver, TenantContext option) eff" where
  "ControlDbResolve net key s =
     (case rs_cache s key of
        Some c \<Rightarrow> (Inr (Some c), s)
      | None \<Rightarrow>
        (case ProductionRunInTransaction net (LookupBySiteKey key) (rs_link s) of
           (Inl e, l) \<Rightarrow> (Inl e, s\<lparr>rs_link := l\<rparr>)
         | (Inr None, l) \<Rightarrow> (Inr None, s\<lparr>rs_link := l\<rparr>)
         | (Inr (Some row), l) \<Rightarrow>
             (Inr (Some (ContextFromRow row)),
              s\<lparr>rs_link := l, rs_cache := (rs_cache s)(key \<mapsto> ContextFromRow row)\<rparr>)))"

definition Invalidate :: "string \<Rightarrow> resolver \<Rightarrow> resolver" where
  "Invalidate key s = s\<lparr>rs_cache := (rs_cache s)(key := None)\<rparr>"

definition InvalidateAll :: "resolver \<Rightarrow> resolver" where
  "InvalidateAll s = s\<lparr>rs_cache := Map.empty\<rparr>"

definition FixedResolve :: "TenantContext \<Rightarrow> string \<Rightarrow> TenantContext option" where
  "FixedResolve context key = (if key = [] \<or> key = tc_siteKey context then Some context else None)"

section \<open>The guard\<close>

datatype TenancyMode = Fixed | Control

definition kSiteHeaderName :: string where "kSiteHeaderName = ''X-Honuware-Site''"

record TenantResolutionGuard =
  tg_mode :: TenancyMode
  tg_lastRejectLog :: int

definition tenant_error :: "TenancyMode \<Rightarrow> bool \<Rightarrow> string \<Rightarrow> nat \<times> string" where
  "tenant_error mode suspended siteKey =
     (case mode of
        Control \<Rightarrow> (421, if suspended then ''site_suspended''
                         else if siteKey = [] then ''missing_site_header'' else ''unknown_site'')
      | Fixed \<Rightarrow> (400, ''site_mismatch''))"

text \<open>
  \<open>resolve\<close> is the installed resolver, if any. The result is the verdict, the tenant stashed in the
  request's context, and whether the rejection was logged.
\<close>

definition TenantResolutionGuard_before_handle ::
  "(string \<Rightarrow> ('r, TenantContext option) eff) option \<Rightarrow> int \<Rightarrow> request \<Rightarrow>
   ('r \<times> TenantResolutionGuard, verdict \<times> TenantContext option \<times> bool) eff" where
  "TenantResolutionGuard_before_handle resolver now req = (\<lambda>(rs, g).
     case resolver of
       None \<Rightarrow> (Inr (Pass, None, False), (rs, g))
     | Some resolve \<Rightarrow>
       if IsHealthPath (req_url req) then (Inr (Pass, None, False), (rs, g))
       else let siteKey = req_header req kSiteHeaderName in
         case resolve siteKey rs of
           (Inl e, rs') \<Rightarrow> (Inl e, (rs', g))
         | (Inr resolved, rs') \<Rightarrow>
           let suspended = (case resolved of Some c \<Rightarrow> tc_status c = kTenantStatusSuspended | None \<Rightarrow> False) in
           if resolved \<noteq> None \<and> \<not> suspended then (Inr (Pass, resolved, False), (rs', g))
           else let (code, err) = tenant_error (tg_mode g) suspended siteKey;
                    (logged, l) = log_reject now (tg_lastRejectLog g) in
             (Inr (Reject code (''{\"error\":\"'' @ err @ ''\"}''), None, logged), (rs', g\<lparr>tg_lastRejectLog := l\<rparr>)))"

text \<open>
  \<open>EndpointAuthHelper::ResolveTenant\<close> asks the resolver again and picks the provider the request
  runs on: \<open>Some c\<close> the tenant's, \<open>None\<close> the deployment's global one.
\<close>

definition ResolveTenant ::
  "(string \<Rightarrow> ('r, TenantContext option) eff) option \<Rightarrow> request \<Rightarrow> ('r, TenantContext option) eff" where
  "ResolveTenant resolver req =
     (case resolver of
        None \<Rightarrow> retE None
      | Some resolve \<Rightarrow>
        bindE (resolve (req_header req kSiteHeaderName)) (\<lambda>resolved.
          retE (case resolved of
                  Some c \<Rightarrow> if tc_status c \<noteq> kTenantStatusSuspended then Some c else None
                | None \<Rightarrow> None)))"

section \<open>The registry of tenant resources\<close>

type_synonym 'x registry = "int \<Rightarrow> 'x option"

definition GetOrCreate :: "(TenantContext \<Rightarrow> 'x res) \<Rightarrow> TenantContext \<Rightarrow> ('x registry, 'x) eff" where
  "GetOrCreate factory c rs =
     (case rs (tc_tenantId c) of
        Some x \<Rightarrow> (Inr x, rs)
      | None \<Rightarrow> (case factory c of Inl e \<Rightarrow> (Inl e, rs) | Inr x \<Rightarrow> (Inr x, rs(tc_tenantId c \<mapsto> x))))"

definition Evict :: "int \<Rightarrow> 'x registry \<Rightarrow> 'x registry" where
  "Evict tenantId rs = rs(tenantId := None)"

text \<open>The pool a tenant's resources are built on.\<close>

definition MakeTenantTransactionProvider :: "TenantContext \<Rightarrow> 'd \<Rightarrow> 'd pool" where
  "MakeTenantTransactionProvider c d = newPool d (if tc_maxConnections c > 0 then tc_maxConnections c else 1) 0"

section \<open>Creating and migrating tenants\<close>

definition kDestructiveAllowedEnvVar :: string where "kDestructiveAllowedEnvVar = ''HONUWARE_ALLOW_DESTRUCTIVE''"
definition kDestructiveAllowedEnvVarLegacy :: string where
  "kDestructiveAllowedEnvVarLegacy = ''KNOTTYYOGA_ALLOW_DESTRUCTIVE''"

definition IsDestructiveAllowed :: "environ \<Rightarrow> bool" where
  "IsDestructiveAllowed V =
     (case GetEnvWithFallback V kDestructiveAllowedEnvVar kDestructiveAllowedEnvVarLegacy of
        None \<Rightarrow> False | Some v \<Rightarrow> v = ''1'')"

definition kDestructiveRefused :: string where
  "kDestructiveRefused = ''Destructive database operation refused. The '' @
     ''HONUWARE_ALLOW_DESTRUCTIVE environment variable must be exactly '' @
     ''\"1\" to authorize dropping and recreating the database. This is a '' @
     ''safety guard that protects production deploys from accidental '' @
     ''data loss. In dev, set the variable in your .vs/launch.vs.json '' @
     ''(see SERVER.md) or in the shell that invokes this binary.''"

definition EnsureDestructiveAllowed :: "environ \<Rightarrow> unit res" where
  "EnsureDestructiveAllowed V =
     (if IsDestructiveAllowed V then Inr () else Inl (RuntimeError kDestructiveRefused))"

definition ControlDatabaseName :: "environ \<Rightarrow> string" where
  "ControlDatabaseName V =
     (case GetEnvWithFallback V ''HONUWARE_CONTROL_DB_NAME'' ''KNOTTYYOGA_CONTROL_DB_NAME'' of
        None \<Rightarrow> ''honuware_control''
      | Some v \<Rightarrow> if v = [] then ''honuware_control'' else v)"

text \<open>The database server: the connection to the control database and the databases by name.\<close>

record 'd cluster =
  cl_link :: "control link"
  cl_dbs :: "string \<Rightarrow> 'd option"

definition on_control :: "net \<Rightarrow> (control, 'a) eff \<Rightarrow> ('d cluster, 'a) eff" where
  "on_control net f s = (case ProductionRunInTransaction net f (cl_link s) of (r, l) \<Rightarrow> (r, s\<lparr>cl_link := l\<rparr>))"

record TenantSpec =
  sp_siteKey :: string
  sp_databaseName :: string
  sp_displayName :: string
  sp_maxConnections :: int

record ProvisionTenantResult =
  pr_tenantId :: int
  pr_created :: bool

text \<open>Step 1: an existing site key is an error unless forced.\<close>

definition provision_check :: "TenantSpec \<Rightarrow> bool \<Rightarrow> (control, unit) eff" where
  "provision_check spec force =
     bindE (LookupBySiteKey (sp_siteKey spec)) (\<lambda>r.
       if r \<noteq> None \<and> \<not> force
       then throwE (RuntimeError (''ProvisionTenant: site_key '' @ squote (sp_siteKey spec) @ '' already exists (pass --force to recreate)''))
       else retE ())"

text \<open>Step 2: create the database, or drop and recreate it; \<open>blank\<close> is a database just created.\<close>

definition provision_database :: "environ \<Rightarrow> 'd \<Rightarrow> TenantSpec \<Rightarrow> bool \<Rightarrow> ('d cluster, unit) eff" where
  "provision_database V blank spec force s =
     (if cl_dbs s (sp_databaseName spec) = None
      then (Inr (), s\<lparr>cl_dbs := (cl_dbs s)(sp_databaseName spec \<mapsto> blank)\<rparr>)
      else if force then
        (case EnsureDestructiveAllowed V of
           Inl e \<Rightarrow> (Inl e, s)
         | Inr _ \<Rightarrow> (Inr (), s\<lparr>cl_dbs := (cl_dbs s)(sp_databaseName spec \<mapsto> blank)\<rparr>))
      else (Inl (RuntimeError (''ProvisionTenant: database '' @ squote (sp_databaseName spec) @ '' already exists'')), s))"

text \<open>Step 3: the caller's population of the tenant database; what it did before it threw stays.\<close>

definition provision_populate :: "('d, unit) eff \<Rightarrow> TenantSpec \<Rightarrow> ('d cluster, unit) eff" where
  "provision_populate createPopulate spec s =
     (case cl_dbs s (sp_databaseName spec) of
        None \<Rightarrow> (Inl (DbFailure ''connect''), s)
      | Some d \<Rightarrow> (case createPopulate d of
          (r, d') \<Rightarrow> (r, s\<lparr>cl_dbs := (cl_dbs s)(sp_databaseName spec \<mapsto> d')\<rparr>)))"

text \<open>Step 4: record the tenant; a row that is already there is kept as it is.\<close>

definition provision_record :: "TenantSpec \<Rightarrow> (control, ProvisionTenantResult) eff" where
  "provision_record spec =
     bindE (LookupBySiteKey (sp_siteKey spec)) (\<lambda>existing.
       case existing of
         Some row \<Rightarrow> retE \<lparr>pr_tenantId = tn_id row, pr_created = False\<rparr>
       | None \<Rightarrow>
         bindE (Tenants_Insert \<lparr>tn_id = 0, tn_siteKey = sp_siteKey spec, tn_databaseName = sp_databaseName spec,
             tn_displayName = sp_displayName spec, tn_status = kTenantStatusActive,
             tn_maxConnections = (if sp_maxConnections spec > 0 then sp_maxConnections spec else 1)\<rparr>)
           (\<lambda>tid. retE \<lparr>pr_tenantId = tid, pr_created = True\<rparr>))"

definition ProvisionTenant ::
  "net \<Rightarrow> environ \<Rightarrow> 'd \<Rightarrow> ('d, unit) eff \<Rightarrow> TenantSpec \<Rightarrow> bool \<Rightarrow> ('d cluster, ProvisionTenantResult) eff" where
  "ProvisionTenant net V blank createPopulate spec force =
     bindE (on_control net (provision_check spec force)) (\<lambda>_.
     bindE (provision_database V blank spec force) (\<lambda>_.
     bindE (provision_populate createPopulate spec) (\<lambda>_.
     on_control net (provision_record spec))))"

text \<open>The loop over the active tenants; what a tenant's migration throws ends it.\<close>

fun migrate_each :: "(TenantRow \<Rightarrow> ('s, MigrationResult) eff) \<Rightarrow> TenantRow list \<Rightarrow> string list \<Rightarrow> ('s, string list) eff" where
  "migrate_each migrateTenant [] sites s = (Inr sites, s)"
| "migrate_each migrateTenant (t # ts) sites s =
     (case migrateTenant t s of
        (Inl e, s') \<Rightarrow> (Inl e, s')
      | (Inr _, s') \<Rightarrow> migrate_each migrateTenant ts (sites @ [tn_siteKey t]) s')"

definition MigrateAllTenants ::
  "net \<Rightarrow> (TenantRow \<Rightarrow> ('d cluster, MigrationResult) eff) \<Rightarrow> ('d cluster, string list) eff" where
  "MigrateAllTenants net migrateTenant =
     bindE (on_control net ListActive) (\<lambda>activeTenants. migrate_each migrateTenant activeTenants [])"

text \<open>A new connection to the tenant's database, and the runner on it.\<close>

definition MakeProductionTenantMigrateFn ::
  "net \<Rightarrow> 'w migration list \<Rightarrow> TenantRow \<Rightarrow> ('w migdb cluster, MigrationResult) eff" where
  "MakeProductionTenantMigrateFn net tenantMigrations tenant s =
     (case cl_dbs s (tn_databaseName tenant) of
        None \<Rightarrow> (Inl (DbFailure ''connect''), s)
      | Some d \<Rightarrow>
        (case ApplyPending (ProductionRunInTransaction net) tenantMigrations emptyResult (newLink d) of
           (Inl f, l) \<Rightarrow> (Inl (RuntimeError (failure_what f)), s\<lparr>cl_dbs := (cl_dbs s)(tn_databaseName tenant \<mapsto> lk_db l)\<rparr>)
         | (Inr res, l) \<Rightarrow> (Inr res, s\<lparr>cl_dbs := (cl_dbs s)(tn_databaseName tenant \<mapsto> lk_db l)\<rparr>)))"

section \<open>The table\<close>

lemma Tenants_Insert_ok:
  assumes "control_ok c" "Tenants_Insert row c = (r, c')"
  shows "control_ok c'"
proof (cases "list_ex (\<lambda>r. tn_siteKey r = tn_siteKey row \<or> tn_databaseName r = tn_databaseName row) (cd_tenants c)")
  case True
  with assms have "c' = c\<lparr>cd_next := cd_next c + 1\<rparr>" by (auto simp: Tenants_Insert_def)
  with assms(1) show ?thesis by (force simp: control_ok_def)
next
  case False
  then have new: "tn_siteKey row \<notin> tn_siteKey ` set (cd_tenants c)" "tn_databaseName row \<notin> tn_databaseName ` set (cd_tenants c)"
    by (auto simp: list_ex_iff)
  have "cd_next c \<notin> tn_id ` set (cd_tenants c)" using assms(1) by (auto simp: control_ok_def)
  with new False assms show ?thesis
    by (clarsimp simp: Tenants_Insert_def control_ok_def) (use order.strict_trans in fastforce)
qed

lemma Tenants_SetStatus_ok:
  assumes "control_ok c"
  shows "control_ok (snd (Tenants_SetStatus k st c))"
proof -
  define f :: "TenantRow \<Rightarrow> TenantRow" where "f = (\<lambda>r. if tn_siteKey r = k then r\<lparr>tn_status := st\<rparr> else r)"
  have f: "tn_siteKey \<circ> f = tn_siteKey" "tn_databaseName \<circ> f = tn_databaseName" "tn_id \<circ> f = tn_id"
    and f': "tn_id (f r) = tn_id r" "tn_maxConnections (f r) = tn_maxConnections r" for r
    by (auto simp: f_def)
  have "snd (Tenants_SetStatus k st c) = c\<lparr>cd_tenants := map f (cd_tenants c)\<rparr>"
    by (simp add: Tenants_SetStatus_def modifyE_def f_def)
  then show ?thesis
    using assms by (simp add: control_ok_def f f' del: map_map) (simp add: f)
qed

definition tenant_of :: "control \<Rightarrow> string \<Rightarrow> TenantContext option" where
  "tenant_of c k = map_option ContextFromRow (List.find (\<lambda>r. tn_siteKey r = k) (cd_tenants c))"

lemma tenant_of_Some:
  "tenant_of c k = Some t \<Longrightarrow> \<exists>row \<in> set (cd_tenants c). tn_siteKey row = k \<and> t = ContextFromRow row"
  by (auto simp: tenant_of_def find_Some_iff)

lemma lookup_run:
  assumes "ProductionRunInTransaction net (LookupBySiteKey k) l = (r, l')"
  shows "lk_db l' = lk_db l \<and> (\<forall>x. r = Inr x \<longrightarrow> map_option ContextFromRow x = tenant_of (lk_db l) k)"
proof (intro conjI allI impI)
  show "lk_db l' = lk_db l"
    using production.reads_only [OF TrueI, of "LookupBySiteKey k" net l] assms by (simp add: LookupBySiteKey_def getsE_def)
  fix x
  assume "r = Inr x"
  with production.committed [OF TrueI assms [unfolded this]]
  show "map_option ContextFromRow x = tenant_of (lk_db l) k"
    by (auto simp: LookupBySiteKey_def getsE_def tenant_of_def)
qed

section \<open>What a resolver promises\<close>

text \<open>
  \<open>known s\<close> is the assignment of tenants to site keys the resolver answers from, \<open>good\<close> what it keeps
  of its own state.
\<close>

locale tenant_resolver =
  fixes resolve :: "string \<Rightarrow> ('r, TenantContext option) eff"
    and known :: "'r \<Rightarrow> string \<Rightarrow> TenantContext option"
    and good :: "'r \<Rightarrow> bool"
  assumes answers: "good s \<Longrightarrow> resolve k s = (Inr c, s') \<Longrightarrow> c = known s k"
    and keeps: "good s \<Longrightarrow> good (snd (resolve k s)) \<and> known (snd (resolve k s)) = known s"
begin

lemma guard_outcome:
  assumes "good rs" "\<not> IsHealthPath (req_url req)"
    and "TenantResolutionGuard_before_handle (Some resolve) now req (rs, g) = (Inr (v, t, logged), (rs', g'))"
  shows "good rs' \<and> known rs' = known rs \<and>
    (let k = req_header req kSiteHeaderName in
     case known rs k of
       Some c \<Rightarrow> if tc_status c \<noteq> kTenantStatusSuspended then v = Pass \<and> t = Some c
                 else t = None \<and> v = Reject (fst (tenant_error (tg_mode g) True k)) (''{\"error\":\"'' @ snd (tenant_error (tg_mode g) True k) @ ''\"}'')
     | None \<Rightarrow> t = None \<and> v = Reject (fst (tenant_error (tg_mode g) False k)) (''{\"error\":\"'' @ snd (tenant_error (tg_mode g) False k) @ ''\"}''))"
proof -
  obtain c s1 where r: "resolve (req_header req kSiteHeaderName) rs = (Inr c, s1)"
    using assms(2,3) by (auto simp: TenantResolutionGuard_before_handle_def Let_def split: prod.splits sum.splits)
  have c: "c = known rs (req_header req kSiteHeaderName)" by (rule answers [OF assms(1) r])
  have "rs' = s1"
    using assms(2,3) r by (auto simp: TenantResolutionGuard_before_handle_def Let_def split: prod.splits if_splits)
  then have "good rs' \<and> known rs' = known rs" using keeps [OF assms(1), of "req_header req kSiteHeaderName"] r by simp
  moreover have "fst (TenantResolutionGuard_before_handle (Some resolve) now req (rs, g)) = Inr (v, t, logged)"
    using assms(3) by simp
  ultimately show ?thesis
    using assms(2) r c
    by (cases "known rs (req_header req kSiteHeaderName)")
      (auto simp: TenantResolutionGuard_before_handle_def Let_def split: prod.splits if_splits)
qed

text \<open>A request that passed runs on the tenant the guard saw.\<close>

lemma routed:
  assumes "good rs" "\<not> IsHealthPath (req_url req)"
    and "TenantResolutionGuard_before_handle (Some resolve) now req (rs, g) = (Inr (Pass, t, logged), (rs', g'))"
    and "ResolveTenant (Some resolve) req rs' = (Inr p, rs'')"
  shows "p = t \<and> t = known rs (req_header req kSiteHeaderName) \<and> (\<exists>c. t = Some c \<and> tc_status c \<noteq> kTenantStatusSuspended)"
proof -
  note out = guard_outcome [OF assms(1-3)]
  then obtain c where c: "known rs (req_header req kSiteHeaderName) = Some c" "tc_status c \<noteq> kTenantStatusSuspended" "t = Some c"
    by (auto simp: Let_def split: option.splits if_splits)
  obtain c' s1 where r: "resolve (req_header req kSiteHeaderName) rs' = (Inr c', s1)"
    using assms(4) by (auto simp: ResolveTenant_def retE_def elim: bindE_InrE)
  have c': "c' = Some c" using answers [OF _ r] out c by simp
  have "p = Some c" using c(2) assms(4) r unfolding c' by (simp add: ResolveTenant_def bindE_def retE_def)
  with c show ?thesis by auto
qed

end

text \<open>The cache agrees with the table.\<close>

definition coherent :: "resolver \<Rightarrow> bool" where
  "coherent s \<longleftrightarrow> (\<forall>k c. rs_cache s k = Some c \<longrightarrow> tenant_of (lk_db (rs_link s)) k = Some c)"

definition resolver_knows :: "resolver \<Rightarrow> string \<Rightarrow> TenantContext option" where
  "resolver_knows s = tenant_of (lk_db (rs_link s))"

interpretation control_resolver: tenant_resolver "ControlDbResolve net" resolver_knows coherent for net
proof unfold_locales
  fix s k c s'
  assume a: "coherent s" "ControlDbResolve net k s = (Inr c, s')"
  show "c = resolver_knows s k"
  proof (cases "rs_cache s k")
    case None
    with a(2) show ?thesis
      using lookup_run [of net k "rs_link s"]
      by (fastforce simp: ControlDbResolve_def resolver_knows_def split: prod.splits sum.splits option.splits)
  next
    case (Some c')
    with a have "c = Some c'" by (simp add: ControlDbResolve_def)
    with a(1) Some show ?thesis by (simp add: coherent_def resolver_knows_def)
  qed
next
  fix s k
  assume a: "coherent s"
  show "coherent (snd (ControlDbResolve net k s)) \<and> resolver_knows (snd (ControlDbResolve net k s)) = resolver_knows s"
  proof (cases "rs_cache s k")
    case None
    obtain r l where l: "ProductionRunInTransaction net (LookupBySiteKey k) (rs_link s) = (r, l)" by fastforce
    with a None lookup_run [OF l] show ?thesis
      by (auto simp: ControlDbResolve_def resolver_knows_def coherent_def split: sum.splits option.splits)
  next
    case (Some c')
    with a show ?thesis by (simp add: ControlDbResolve_def)
  qed
qed

interpretation fixed_resolver: tenant_resolver "\<lambda>k (u :: unit). (Inr (FixedResolve fixed k), u)" "\<lambda>_. FixedResolve fixed" "\<lambda>_. True"
  for fixed
  by unfold_locales simp_all

section \<open>Requests that overlap a change of a tenant\<close>

text \<open>
  \<open>Resolve\<close> holds the mutex to look into the cache and to store, not in between: several threads
  may have read a row they have not stored yet. \<open>rc_reading\<close> is what each thread carries.
\<close>

record race =
  rc_rows :: "string \<Rightarrow> TenantContext option"
  rc_cache :: "string \<Rightarrow> TenantContext option"
  rc_reading :: "nat \<Rightarrow> (string \<times> TenantContext) option"

datatype action = ReadRow nat string | Store nat | ChangeStatus string string | Drop string

fun act :: "action \<Rightarrow> race \<Rightarrow> race" where
  "act (ReadRow t k) s =
     (case (rc_cache s k, rc_rows s k) of
        (None, Some c) \<Rightarrow> s\<lparr>rc_reading := (rc_reading s)(t \<mapsto> (k, c))\<rparr>
      | _ \<Rightarrow> s)"
| "act (Store t) s =
     (case rc_reading s t of
        Some (k, c) \<Rightarrow> s\<lparr>rc_cache := (rc_cache s)(k \<mapsto> c), rc_reading := (rc_reading s)(t := None)\<rparr>
      | None \<Rightarrow> s)"
| "act (ChangeStatus k st) s =
     s\<lparr>rc_rows := (rc_rows s)(k := map_option (\<lambda>c. c\<lparr>tc_status := st\<rparr>) (rc_rows s k))\<rparr>"
| "act (Drop k) s = s\<lparr>rc_cache := (rc_cache s)(k := None)\<rparr>"

definition race_coherent :: "race \<Rightarrow> bool" where
  "race_coherent s \<longleftrightarrow> (\<forall>k c. rc_cache s k = Some c \<longrightarrow> rc_rows s k = Some c) \<and>
     (\<forall>t k c. rc_reading s t = Some (k, c) \<longrightarrow> rc_rows s k = Some c)"

lemma race_reads_coherent:
  "race_coherent s \<Longrightarrow> race_coherent (act (ReadRow t k) s) \<and> race_coherent (act (Store t) s)"
  by (auto simp: race_coherent_def split: option.splits prod.splits)

lemma race_change_coherent:
  assumes "race_coherent s" "\<forall>t c. rc_reading s t \<noteq> Some (k, c)"
  shows "race_coherent (act (Drop k) (act (ChangeStatus k st) s))"
  using assms by (auto simp: race_coherent_def)

section \<open>Provisioning\<close>

lemma on_control_frame: "on_control net f s = (r, s') \<Longrightarrow> cl_dbs s' = cl_dbs s"
  by (auto simp: on_control_def split: prod.splits)

lemma on_control_run:
  assumes "on_control net f s = (Inr x, s')"
  shows "f (lk_db (cl_link s)) = (Inr x, lk_db (cl_link s'))"
proof -
  obtain l where l: "ProductionRunInTransaction net f (cl_link s) = (Inr x, l)" "s' = s\<lparr>cl_link := l\<rparr>"
    using assms by (auto simp: on_control_def split: prod.splits)
  with production.committed [OF TrueI l(1)] show ?thesis by simp
qed

lemma on_control_reads:
  assumes "on_control net f s = (r, s')" "\<And>d. snd (f d) = d"
  shows "lk_db (cl_link s') = lk_db (cl_link s)"
  using production.reads_only [OF TrueI assms(2), of net "cl_link s"] assms(1)
  by (auto simp: on_control_def split: prod.splits)

lemma provision_check_reads: "snd (provision_check spec force d) = d"
  by (simp add: provision_check_def LookupBySiteKey_def eff_simps)

text \<open>Only the database named in the request is ever touched.\<close>

lemma provision_database_other:
  "provision_database V blank spec force s = (r, s') \<Longrightarrow> db \<noteq> sp_databaseName spec \<Longrightarrow> cl_dbs s' db = cl_dbs s db"
  by (auto simp: provision_database_def split: if_splits sum.splits)

lemma provision_populate_other:
  "provision_populate p spec s = (r, s') \<Longrightarrow> db \<noteq> sp_databaseName spec \<Longrightarrow> cl_dbs s' db = cl_dbs s db"
  by (auto simp: provision_populate_def split: option.splits prod.splits)

lemma ProvisionTenant_cases:
  assumes "ProvisionTenant net V blank p spec force s = (r, s')"
  obtains (refused) e where "r = Inl e" "on_control net (provision_check spec force) s = (Inl e, s')"
    | (no_database) e s1 where "r = Inl e" "on_control net (provision_check spec force) s = (Inr (), s1)"
        "provision_database V blank spec force s1 = (Inl e, s')"
    | (not_populated) e s1 s2 where "r = Inl e" "on_control net (provision_check spec force) s = (Inr (), s1)"
        "provision_database V blank spec force s1 = (Inr (), s2)" "provision_populate p spec s2 = (Inl e, s')"
    | (populated) s1 s2 s3 where "on_control net (provision_check spec force) s = (Inr (), s1)"
        "provision_database V blank spec force s1 = (Inr (), s2)" "provision_populate p spec s2 = (Inr (), s3)"
        "on_control net (provision_record spec) s3 = (r, s')"
proof -
  obtain r1 s1 where 1: "on_control net (provision_check spec force) s = (r1, s1)" by fastforce
  obtain r2 s2 where 2: "provision_database V blank spec force s1 = (r2, s2)" by fastforce
  obtain r3 s3 where 3: "provision_populate p spec s2 = (r3, s3)" by fastforce
  note eq = assms [unfolded ProvisionTenant_def bindE_def 1]
  show thesis
  proof (cases r1)
    case (Inl e)
    then show thesis using eq 1 by (intro refused [of e]) simp_all
  next
    case r1: (Inr u)
    show thesis
    proof (cases r2)
      case (Inl e)
      then show thesis using eq 1 2 r1 by (intro no_database [of e s1]) simp_all
    next
      case r2: (Inr u)
      show thesis
      proof (cases r3)
        case (Inl e)
        then show thesis using eq 1 2 3 r1 r2 by (intro not_populated [of e s1 s2]) simp_all
      next
        case (Inr u)
        then show thesis using eq 1 2 3 r1 r2 by (intro populated [of s1 s2 s3]) simp_all
      qed
    qed
  qed
qed

lemma ProvisionTenant_other:
  assumes "ProvisionTenant net V blank p spec force s = (r, s')" "db \<noteq> sp_databaseName spec"
  shows "cl_dbs s' db = cl_dbs s db"
  using assms(1)
proof (cases rule: ProvisionTenant_cases)
  case (refused e)
  then show ?thesis using on_control_frame by metis
next
  case (no_database e s1)
  then show ?thesis using on_control_frame provision_database_other assms(2) by metis
next
  case (not_populated e s1 s2)
  then show ?thesis using on_control_frame provision_database_other provision_populate_other assms(2) by metis
next
  case (populated s1 s2 s3)
  then show ?thesis using on_control_frame provision_database_other provision_populate_other assms(2) by metis
qed

section \<open>Migrating every tenant\<close>

definition active_tenants :: "control \<Rightarrow> TenantRow list" where
  "active_tenants c = sort_key tn_id (filter (\<lambda>t. tn_status t = kTenantStatusActive) (cd_tenants c))"

definition migrated :: "'w migration list \<Rightarrow> 'w migdb option \<Rightarrow> 'w migdb option \<Rightarrow> bool" where
  "migrated ms o1 o2 \<longleftrightarrow> (\<exists>d d'. o1 = Some d \<and> o2 = Some d' \<and> apply_all (pending (set (applied_ids d)) ms) d = Some d')"

lemma tenant_migrated:
  assumes "MakeProductionTenantMigrateFn net ms t s = (r, s')" "\<forall>m \<in> set ms. keeps_ledger m"
  shows "(\<forall>db. db \<noteq> tn_databaseName t \<longrightarrow> cl_dbs s' db = cl_dbs s db) \<and>
    ((\<exists>res. r = Inr res) \<longrightarrow> migrated ms (cl_dbs s (tn_databaseName t)) (cl_dbs s' (tn_databaseName t)))"
proof (cases "cl_dbs s (tn_databaseName t)")
  case None
  with assms(1) show ?thesis by (auto simp: MakeProductionTenantMigrateFn_def)
next
  case (Some d)
  obtain q l where run: "ApplyPending (ProductionRunInTransaction net) ms emptyResult (newLink d) = (q, l)" by fastforce
  show ?thesis
  proof (cases q)
    case (Inl f)
    with Some run assms(1) show ?thesis by (auto simp: MakeProductionTenantMigrateFn_def)
  next
    case (Inr res)
    from migrate_complete [OF run [unfolded Inr] assms(2)] Some run Inr assms(1) show ?thesis
      by (auto simp: MakeProductionTenantMigrateFn_def migrated_def newLink_def)
  qed
qed

lemma migrate_each_run:
  assumes "migrate_each (MakeProductionTenantMigrateFn net ms) ts sites s = (r, s')" "\<forall>m \<in> set ms. keeps_ledger m"
    and "distinct (map tn_databaseName ts)"
  shows "\<exists>ts1 ts2. ts = ts1 @ ts2 \<and>
    (\<forall>t \<in> set ts1. migrated ms (cl_dbs s (tn_databaseName t)) (cl_dbs s' (tn_databaseName t))) \<and>
    (\<forall>db. db \<notin> tn_databaseName ` set (ts1 @ take 1 ts2) \<longrightarrow> cl_dbs s' db = cl_dbs s db) \<and>
    (case r of Inr out \<Rightarrow> ts2 = [] \<and> out = sites @ map tn_siteKey ts | Inl e \<Rightarrow> ts2 \<noteq> [])"
  using assms(1,3)
proof (induction ts arbitrary: sites s)
  case (Cons t ts)
  obtain q s1 where one: "MakeProductionTenantMigrateFn net ms t s = (q, s1)" by fastforce
  note T = tenant_migrated [OF one assms(2)]
  show ?case
  proof (cases q)
    case (Inl e)
    with Cons.prems one T show ?thesis by (intro exI [of _ "[]"] exI [of _ "t # ts"]) auto
  next
    case (Inr res)
    then have rest: "migrate_each (MakeProductionTenantMigrateFn net ms) ts (sites @ [tn_siteKey t]) s1 = (r, s')"
      using Cons.prems(1) one by simp
    obtain ts1 ts2 where IH: "ts = ts1 @ ts2"
      "\<forall>t \<in> set ts1. migrated ms (cl_dbs s1 (tn_databaseName t)) (cl_dbs s' (tn_databaseName t))"
      "\<forall>db. db \<notin> tn_databaseName ` set (ts1 @ take 1 ts2) \<longrightarrow> cl_dbs s' db = cl_dbs s1 db"
      "case r of Inr out \<Rightarrow> ts2 = [] \<and> out = (sites @ [tn_siteKey t]) @ map tn_siteKey ts | Inl e \<Rightarrow> ts2 \<noteq> []"
      using Cons.IH [OF rest] Cons.prems(2) by auto
    have new: "tn_databaseName t \<notin> tn_databaseName ` set ts" using Cons.prems(2) by simp
    then have "tn_databaseName t \<notin> tn_databaseName ` set (ts1 @ take 1 ts2)"
      unfolding IH(1) by (auto dest: in_set_takeD)
    then have t: "cl_dbs s' (tn_databaseName t) = cl_dbs s1 (tn_databaseName t)" using IH(3) by blast
    have "cl_dbs s1 (tn_databaseName u) = cl_dbs s (tn_databaseName u)" if "u \<in> set ts1" for u
      using T new that IH(1) by (metis UnCI image_eqI set_append)
    with IH t T Inr show ?thesis
      by (intro exI [of _ "t # ts1"] exI [of _ ts2]) (auto split: sum.splits)
  qed
qed auto

section \<open>Properties\<close>


definition demo_tenant :: TenantRow where
  "demo_tenant = \<lparr>tn_id = 1, tn_siteKey = ''alpha'', tn_databaseName = ''alpha_db'', tn_displayName = ''Alpha'',
     tn_status = ''active'', tn_maxConnections = 2\<rparr>"

definition demo_resolver :: resolver where
  "demo_resolver = \<lparr>rs_link = newLink \<lparr>cd_tenants = [demo_tenant], cd_next = 2\<rparr>, rs_cache = Map.empty\<rparr>"

definition site_request :: "string \<Rightarrow> request" where
  "site_request k = \<lparr>req_method = Get, req_url = ''/api/me'',
     req_header = (\<lambda>h. if h = ''X-Honuware-Site'' then k else []), remote_ip_address = ''10.0.0.1''\<rparr>"

lemmas resolver_run = ControlDbResolve_def ProductionRunInTransaction_def OpenTransaction_def BeginWork_def
  UserWork_def CommitWork_def LookupBySiteKey_def catchE_def bindE_def retE_def getsE_def throwE_def reliable_def broken_def
  newLink_def demo_resolver_def demo_tenant_def site_request_def kSiteHeaderName_def Let_def

lemma demo_guard:
  "\<exists>rs' g'. TenantResolutionGuard_before_handle (Some (ControlDbResolve reliable)) 5 (site_request ''alpha'')
      (demo_resolver, \<lparr>tg_mode = Control, tg_lastRejectLog = 0\<rparr>) = (Inr (Pass, Some (ContextFromRow demo_tenant), False), (rs', g')) \<and>
    (\<exists>rs''. ResolveTenant (Some (ControlDbResolve reliable)) (site_request ''alpha'') rs' = (Inr (Some (ContextFromRow demo_tenant)), rs''))"
  by (simp add: TenantResolutionGuard_before_handle_def ResolveTenant_def resolver_run IsHealthPath_def kHealthPathPrefix_def
      kTenantStatusSuspended_def ContextFromRow_def)


text \<open>
  A request the guard turns away is answered according to the mode: a site header that names
  another site than the one served is a 400, an unknown, missing or suspended site behind a control
  database is a 421 that says which of the three it was.
\<close>

theorem tenant_guard_rejects:
  assumes "coherent rs" "\<not> IsHealthPath (req_url req)" "tg_mode g = Control"
    and "TenantResolutionGuard_before_handle (Some (ControlDbResolve net)) now req (rs, g) = (Inr (v, t, logged), (rs', g'))"
  shows "v = (case tenant_of (lk_db (rs_link rs)) (req_header req ''X-Honuware-Site'') of
       Some c \<Rightarrow> if tc_status c = ''suspended'' then Reject 421 ''{\"error\":\"site_suspended\"}'' else Pass
     | None \<Rightarrow> if req_header req ''X-Honuware-Site'' = [] then Reject 421 ''{\"error\":\"missing_site_header\"}''
               else Reject 421 ''{\"error\":\"unknown_site\"}'')"
  using control_resolver.guard_outcome [OF assms(1,2,4)] assms(3)
  by (auto simp: Let_def tenant_error_def resolver_knows_def kSiteHeaderName_def kTenantStatusSuspended_def
      split: option.splits if_splits)

theorem tenant_guard_rejects_witness:
  "\<exists>rs' g' logged. TenantResolutionGuard_before_handle (Some (ControlDbResolve reliable)) 5 (site_request ''beta'')
      (demo_resolver, \<lparr>tg_mode = Control, tg_lastRejectLog = 0\<rparr>)
    = (Inr (Reject 421 ''{\"error\":\"unknown_site\"}'', None, logged), (rs', g'))"
proof -
  have h: "\<not> IsHealthPath (req_url (site_request ''beta''))"
    by (simp add: IsHealthPath_def kHealthPathPrefix_def site_request_def)
  have c: "coherent demo_resolver" by (simp add: coherent_def demo_resolver_def)
  obtain v logged rs' g' where run: "TenantResolutionGuard_before_handle (Some (ControlDbResolve reliable)) 5 (site_request ''beta'')
      (demo_resolver, \<lparr>tg_mode = Control, tg_lastRejectLog = 0\<rparr>) = (Inr (v, None, logged), (rs', g'))"
    by (simp add: TenantResolutionGuard_before_handle_def resolver_run IsHealthPath_def kHealthPathPrefix_def
        tenant_error_def log_reject_def kRejectLogThrottle_def)
  have "v = Reject 421 ''{\"error\":\"unknown_site\"}''"
    using tenant_guard_rejects [OF c h _ run] by (simp add: tenant_of_def demo_resolver_def newLink_def demo_tenant_def site_request_def)
  with run show ?thesis by blast
qed

text \<open>
  A change of a tenant's status followed by \<open>Invalidate\<close> does not end the old status when a
  \<open>Resolve\<close> of that site is under way: the reader stores what it read before the change, after the
  invalidation, and from then on the suspended site is served as active.
\<close>

theorem suspension_lost:
  assumes "rc_rows s k = Some c" "rc_cache s k = None" "rc_reading s t = None"
  shows "let s' = act (Store t) (act (Drop k) (act (ChangeStatus k st) (act (ReadRow t k) s))) in
    rc_rows s' k = Some (c\<lparr>tc_status := st\<rparr>) \<and> rc_cache s' k = Some c \<and> rc_reading s' t = None \<and>
    (\<forall>t'. act (ReadRow t' k) s' = s')"
  using assms by (simp add: Let_def)

definition calm :: race where
  "calm = \<lparr>rc_rows = [''alpha'' \<mapsto> ContextFromRow demo_tenant], rc_cache = Map.empty, rc_reading = Map.empty\<rparr>"

theorem suspension_lost_witness:
  "tc_status (the (rc_cache (act (Store 0) (act (Drop ''alpha'') (act (ChangeStatus ''alpha'' ''suspended'') (act (ReadRow 0 ''alpha'') calm)))) ''alpha'')) = ''active''"
  using suspension_lost [of calm "''alpha''" "ContextFromRow demo_tenant" 0 "''suspended''"]
  by (simp add: calm_def ContextFromRow_def demo_tenant_def Let_def)



text \<open>
  Provisioning an existing site without \<open>--force\<close> fails, and leaves every database, and every row of
  \<open>tenants\<close>, as it was.
\<close>

theorem provision_duplicate_refused:
  assumes "tn_siteKey row = sp_siteKey spec" "row \<in> set (cd_tenants (lk_db (cl_link s)))"
    and "ProvisionTenant net V blank p spec False s = (r, s')"
  shows "(\<exists>e. r = Inl e) \<and> cl_dbs s' = cl_dbs s \<and> lk_db (cl_link s') = lk_db (cl_link s)"
proof -
  have "List.find (\<lambda>r. tn_siteKey r = sp_siteKey spec) (cd_tenants (lk_db (cl_link s))) \<noteq> None"
    using assms(1,2) by (auto simp: find_None_iff)
  then have no: "fst (provision_check spec False (lk_db (cl_link s))) \<noteq> Inr ()"
    by (auto simp: provision_check_def LookupBySiteKey_def eff_simps)
  show ?thesis
    using assms(3)
  proof (cases rule: ProvisionTenant_cases)
    case (refused e)
    then show ?thesis using on_control_frame on_control_reads provision_check_reads by blast
  next
    case (no_database e s1)
    then show ?thesis using on_control_run no by (metis fst_conv)
  next
    case (not_populated e s1 s2)
    then show ?thesis using on_control_run no by (metis fst_conv)
  next
    case (populated s1 s2 s3)
    then show ?thesis using on_control_run no by (metis fst_conv)
  qed
qed

definition demo_cluster :: "nat cluster" where
  "demo_cluster = \<lparr>cl_link = newLink \<lparr>cd_tenants = [demo_tenant], cd_next = 2\<rparr>, cl_dbs = [''alpha_db'' \<mapsto> 7]\<rparr>"

definition seed :: "(nat, unit) eff" where
  "seed = modifyE (\<lambda>n. n + 1)"

definition demo_spec :: "string \<Rightarrow> string \<Rightarrow> TenantSpec" where
  "demo_spec k db = \<lparr>sp_siteKey = k, sp_databaseName = db, sp_displayName = ''Demo'', sp_maxConnections = 3\<rparr>"

theorem provision_duplicate_refused_witness:
  "cl_dbs (snd (ProvisionTenant reliable (\<lambda>_. Some ''1'') 0 seed (demo_spec ''alpha'' ''new_db'') False demo_cluster)) = [''alpha_db'' \<mapsto> 7]"
proof -
  obtain r s' where run: "ProvisionTenant reliable (\<lambda>_. Some ''1'') 0 seed (demo_spec ''alpha'' ''new_db'') False demo_cluster = (r, s')"
    by fastforce
  show ?thesis
    using provision_duplicate_refused [OF _ _ run, of demo_tenant] run
    by (simp add: demo_spec_def demo_cluster_def newLink_def demo_tenant_def)
qed

lemma provision_record_run:
  assumes "provision_record spec c = (Inr res, c')" "control_ok c"
  shows "control_ok c' \<and> (\<exists>row \<in> set (cd_tenants c'). tn_siteKey row = sp_siteKey spec \<and> tn_id row = pr_tenantId res \<and>
    (if pr_created res then tn_databaseName row = sp_databaseName spec \<and> tn_status row = kTenantStatusActive \<and> tn_id row = cd_next c
     else row \<in> set (cd_tenants c)))"
proof (cases "List.find (\<lambda>r. tn_siteKey r = sp_siteKey spec) (cd_tenants c)")
  case (Some row)
  then have "row \<in> set (cd_tenants c)" "tn_siteKey row = sp_siteKey spec" by (auto simp: find_Some_iff)
  with Some assms show ?thesis
    by (auto simp: provision_record_def LookupBySiteKey_def eff_simps)
next
  case None
  define new where "new = \<lparr>tn_id = 0, tn_siteKey = sp_siteKey spec, tn_databaseName = sp_databaseName spec,
             tn_displayName = sp_displayName spec, tn_status = kTenantStatusActive,
             tn_maxConnections = (if sp_maxConnections spec > 0 then sp_maxConnections spec else 1)\<rparr>"
  obtain tid c1 where ins: "Tenants_Insert new c = (Inr tid, c1)" "res = \<lparr>pr_tenantId = tid, pr_created = True\<rparr>" "c' = c1"
    using assms(1) None
    by (auto simp: provision_record_def LookupBySiteKey_def new_def [symmetric] bindE_def getsE_def retE_def split: prod.splits sum.splits)
  have "control_ok c'" using Tenants_Insert_ok [OF assms(2) ins(1)] ins(3) by simp
  moreover have "new\<lparr>tn_id := cd_next c\<rparr> \<in> set (cd_tenants c') \<and> tid = cd_next c"
    using ins by (auto simp: Tenants_Insert_def new_def kTenantStatusActive_def split: if_splits)
  ultimately show ?thesis
    using ins(2) by (intro conjI bexI [of _ "new\<lparr>tn_id := cd_next c\<rparr>"]) (simp_all add: new_def)
qed

text \<open>
  C38. A provisioning that succeeds leaves a tenant under the site key and the named database populated
  from blank. A new tenant is active, has a new id, and points to that database; a tenant that was
  already there, which takes \<open>--force\<close>, keeps its row. No other database has changed, and without
  \<open>--force\<close> none that existed.
\<close>

theorem provision_success:
  assumes "ProvisionTenant net V blank p spec force s = (Inr res, s')" "control_ok (lk_db (cl_link s))"
  shows "control_ok (lk_db (cl_link s')) \<and> p blank = (Inr (), the (cl_dbs s' (sp_databaseName spec))) \<and>
    (\<exists>row \<in> set (cd_tenants (lk_db (cl_link s'))). tn_siteKey row = sp_siteKey spec \<and> tn_id row = pr_tenantId res \<and>
       (if pr_created res then tn_databaseName row = sp_databaseName spec \<and> tn_status row = ''active'' \<and>
          tn_id row = cd_next (lk_db (cl_link s))
        else force \<and> row \<in> set (cd_tenants (lk_db (cl_link s))))) \<and>
    (\<forall>db. if db = sp_databaseName spec then force \<or> cl_dbs s db = None else cl_dbs s' db = cl_dbs s db)"
  using assms(1)
proof (cases rule: ProvisionTenant_cases)
  case (populated s1 s2 s3)
  have c1: "lk_db (cl_link s1) = lk_db (cl_link s)" using on_control_reads [OF populated(1) provision_check_reads] .
  have d1: "cl_dbs s1 = cl_dbs s" using on_control_frame [OF populated(1)] .
  have s2: "cl_link s2 = cl_link s1" "cl_dbs s2 = (cl_dbs s)(sp_databaseName spec \<mapsto> blank)" "force \<or> cl_dbs s (sp_databaseName spec) = None"
    using populated(2) d1 by (auto simp: provision_database_def split: if_splits sum.splits)
  obtain d where d: "p blank = (Inr (), d)" "cl_link s3 = cl_link s2" "cl_dbs s3 = (cl_dbs s2)(sp_databaseName spec \<mapsto> d)"
    using populated(3) s2(2) by (auto simp: provision_populate_def split: prod.splits)
  have d4: "cl_dbs s' = cl_dbs s3" using on_control_frame [OF populated(4)] .
  have "provision_record spec (lk_db (cl_link s)) = (Inr res, lk_db (cl_link s'))"
    using on_control_run [OF populated(4)] c1 s2(1) d(2) by simp
  note rec = provision_record_run [OF this assms(2)]
  have "pr_created res \<or> force"
  proof (rule ccontr)
    assume not: "\<not> (pr_created res \<or> force)"
    with rec obtain row where "row \<in> set (cd_tenants (lk_db (cl_link s)))" "tn_siteKey row = sp_siteKey spec" by auto
    then have "fst (provision_check spec force (lk_db (cl_link s))) \<noteq> Inr ()"
      using not by (auto simp: provision_check_def LookupBySiteKey_def eff_simps find_None_iff split: option.splits)
    with on_control_run [OF populated(1)] show False by simp
  qed
  with rec d(1,3) d4 s2(2,3) show ?thesis
    by (auto simp: kTenantStatusActive_def)
qed simp_all

theorem provision_success_witness:
  "\<exists>res s'. ProvisionTenant reliable (\<lambda>_. None) 0 seed (demo_spec ''beta'' ''beta_db'') False demo_cluster = (Inr res, s') \<and>
     cl_dbs s' ''alpha_db'' = Some 7 \<and> control_ok (lk_db (cl_link s'))"
proof -
  have ok: "control_ok (lk_db (cl_link demo_cluster))"
    by (simp add: control_ok_def demo_cluster_def newLink_def demo_tenant_def)
  obtain res s' where run: "ProvisionTenant reliable (\<lambda>_. None) 0 seed (demo_spec ''beta'' ''beta_db'') False demo_cluster = (Inr res, s')"
    by (simp add: ProvisionTenant_def on_control_def provision_check_def provision_database_def provision_populate_def
        provision_record_def Tenants_Insert_def resolver_run demo_cluster_def demo_spec_def seed_def modifyE_def)
  from provision_success [OF run ok]
  have "cl_dbs s' ''alpha_db'' = cl_dbs demo_cluster ''alpha_db''" "control_ok (lk_db (cl_link s'))"
    by (auto simp: demo_spec_def dest!: spec [of _ "''alpha_db''"])
  with run show ?thesis by (simp add: demo_cluster_def)
qed

text \<open>
  With \<open>--force\<close> and another database name the command succeeds, and the site keeps running on its
  old database: the row still names it, and no row names the database that was just populated.
\<close>

theorem forced_database_unused:
  assumes "ProvisionTenant net V blank p spec True s = (Inr res, s')" "control_ok (lk_db (cl_link s))"
    and "row \<in> set (cd_tenants (lk_db (cl_link s)))" "tn_siteKey row = sp_siteKey spec"
    and "\<forall>r \<in> set (cd_tenants (lk_db (cl_link s))). tn_databaseName r \<noteq> sp_databaseName spec"
  shows "cd_tenants (lk_db (cl_link s')) = cd_tenants (lk_db (cl_link s)) \<and> tn_databaseName row \<noteq> sp_databaseName spec"
  using assms(1)
proof (cases rule: ProvisionTenant_cases)
  case (populated s1 s2 s3)
  have "lk_db (cl_link s1) = lk_db (cl_link s)" using on_control_reads [OF populated(1) provision_check_reads] .
  moreover have "cl_link s2 = cl_link s1" using populated(2) by (auto simp: provision_database_def split: if_splits sum.splits)
  moreover have "cl_link s3 = cl_link s2" using populated(3) by (auto simp: provision_populate_def split: option.splits prod.splits)
  ultimately have "provision_record spec (lk_db (cl_link s)) = (Inr res, lk_db (cl_link s'))"
    using on_control_run [OF populated(4)] by simp
  then have "cd_tenants (lk_db (cl_link s')) = cd_tenants (lk_db (cl_link s))"
    using assms(3,4) by (auto simp: provision_record_def LookupBySiteKey_def eff_simps find_None_iff split: option.splits)
  with assms(3,5) show ?thesis by simp
qed simp_all

theorem forced_database_unused_witness:
  "\<exists>res s'. ProvisionTenant reliable (\<lambda>_. None) 0 seed (demo_spec ''alpha'' ''new_db'') True demo_cluster = (Inr res, s') \<and>
     cl_dbs s' ''new_db'' = Some 1 \<and> cd_tenants (lk_db (cl_link s')) = [demo_tenant]"
proof -
  have ok: "control_ok (lk_db (cl_link demo_cluster))"
    by (simp add: control_ok_def demo_cluster_def newLink_def demo_tenant_def)
  obtain res s' where run: "ProvisionTenant reliable (\<lambda>_. None) 0 seed (demo_spec ''alpha'' ''new_db'') True demo_cluster = (Inr res, s')"
    and "cl_dbs s' ''new_db'' = Some 1"
    by (simp add: ProvisionTenant_def on_control_def provision_check_def provision_database_def provision_populate_def
        provision_record_def Tenants_Insert_def resolver_run demo_cluster_def demo_spec_def seed_def modifyE_def)
  with forced_database_unused [OF run ok, of demo_tenant] show ?thesis
    by (simp add: demo_cluster_def newLink_def demo_spec_def demo_tenant_def)
qed

text \<open>
  \<open>--migrate_tenants\<close> goes through the active tenants in the order of their ids. When it succeeds
  every one of their databases has had its missing migrations, and no other database has changed; when
  it fails at one tenant, those before it are migrated and those after it untouched.
\<close>

theorem migrate_all_tenants:
  assumes "MigrateAllTenants net (MakeProductionTenantMigrateFn mnet ms) s = (r, s')"
    and "control_ok (lk_db (cl_link s))" "\<forall>m \<in> set ms. keeps_ledger m"
  shows "\<exists>ts1 ts2. active_tenants (lk_db (cl_link s)) = ts1 @ ts2 \<and>
    (\<forall>t \<in> set ts1. migrated ms (cl_dbs s (tn_databaseName t)) (cl_dbs s' (tn_databaseName t))) \<and>
    (\<forall>db. db \<notin> tn_databaseName ` set (ts1 @ take 1 ts2) \<longrightarrow> cl_dbs s' db = cl_dbs s db) \<and>
    (case r of Inr out \<Rightarrow> ts2 = [] \<and> out = map tn_siteKey (active_tenants (lk_db (cl_link s))) | Inl e \<Rightarrow> True)"
proof -
  let ?act = "active_tenants (lk_db (cl_link s))"
  have "distinct (map tn_databaseName ?act)"
    using assms(2) unfolding active_tenants_def control_ok_def
    by (simp add: distinct_map) (auto intro: inj_on_subset)
  moreover obtain q s1 where q: "on_control net ListActive s = (q, s1)" by fastforce
  note dbs = on_control_frame [OF q]
  show ?thesis
  proof (cases q)
    case (Inl e)
    then have "r = Inl e" "s' = s1" using assms(1) q by (simp_all add: MigrateAllTenants_def bindE_def)
    with dbs show ?thesis by (intro exI [of _ "[]"] exI [of _ ?act]) simp
  next
    case (Inr ts)
    then have "fst (ListActive (lk_db (cl_link s))) = Inr ts" using on_control_run [OF q [unfolded Inr]] by simp
    then have "ts = ?act" by (simp add: ListActive_def getsE_def active_tenants_def)
    then have "migrate_each (MakeProductionTenantMigrateFn mnet ms) ?act [] s1 = (r, s')"
      using assms(1) q Inr by (simp add: MigrateAllTenants_def bindE_def)
    from migrate_each_run [OF this assms(3) calculation]
    obtain ts1 ts2 where parts: "?act = ts1 @ ts2"
      "\<forall>t \<in> set ts1. migrated ms (cl_dbs s1 (tn_databaseName t)) (cl_dbs s' (tn_databaseName t))"
      "\<forall>db. db \<notin> tn_databaseName ` set (ts1 @ take 1 ts2) \<longrightarrow> cl_dbs s' db = cl_dbs s1 db"
      and out: "case r of Inr out \<Rightarrow> ts2 = [] \<and> out = [] @ map tn_siteKey ?act | Inl e \<Rightarrow> ts2 \<noteq> []"
      by (elim exE conjE)
    have "case r of Inr out \<Rightarrow> ts2 = [] \<and> out = map tn_siteKey ?act | Inl e \<Rightarrow> True"
      using out by (cases r) simp_all
    with parts [unfolded dbs] show ?thesis by blast
  qed
qed

definition demo_fleet :: "nat migdb cluster" where
  "demo_fleet = \<lparr>cl_link = newLink \<lparr>cd_tenants = [demo_tenant], cd_next = 2\<rparr>, cl_dbs = [''alpha_db'' \<mapsto> fresh_db]\<rparr>"

theorem migrate_all_tenants_witness:
  "\<exists>out s'. MigrateAllTenants reliable (MakeProductionTenantMigrateFn reliable [bump ''a'']) demo_fleet = (Inr out, s') \<and>
     out = [''alpha''] \<and> migrated [bump ''a''] (cl_dbs demo_fleet ''alpha_db'') (cl_dbs s' ''alpha_db'')"
proof -
  obtain out s' where run: "MigrateAllTenants reliable (MakeProductionTenantMigrateFn reliable [bump ''a'']) demo_fleet = (Inr out, s')"
    by (simp add: MigrateAllTenants_def on_control_def ListActive_def MakeProductionTenantMigrateFn_def run_migrations
        demo_fleet_def demo_tenant_def kTenantStatusActive_def)
  have ok: "control_ok (lk_db (cl_link demo_fleet))"
    by (simp add: control_ok_def demo_fleet_def newLink_def demo_tenant_def)
  from migrate_all_tenants [OF run ok] run show ?thesis
    using bump_keeps by (auto simp: demo_fleet_def newLink_def demo_tenant_def active_tenants_def kTenantStatusActive_def)
qed

text \<open>
  A tenant's resources are made once, from a context with its id, and kept until they are evicted:
  whatever is asked for in between, two requests of one tenant share them, and tenants do not.
\<close>

theorem registry_keyed_by_tenant:
  assumes "\<forall>i x. rs i = Some x \<longrightarrow> (\<exists>c. tc_tenantId c = i \<and> factory c = Inr x)"
    and "GetOrCreate factory c rs = (Inr x, rs')"
  shows "rs' (tc_tenantId c) = Some x \<and> (\<exists>c'. tc_tenantId c' = tc_tenantId c \<and> factory c' = Inr x) \<and>
    (\<forall>i. i \<noteq> tc_tenantId c \<longrightarrow> rs' i = rs i) \<and>
    (\<forall>c'. tc_tenantId c' = tc_tenantId c \<longrightarrow> GetOrCreate factory c' rs' = (Inr x, rs')) \<and>
    (\<forall>i x. rs' i = Some x \<longrightarrow> (\<exists>c. tc_tenantId c = i \<and> factory c = Inr x))"
proof (cases "rs (tc_tenantId c)")
  case None
  then have "factory c = Inr x" "rs' = rs(tc_tenantId c \<mapsto> x)"
    using assms(2) by (auto simp: GetOrCreate_def split: sum.splits)
  with assms(1) show ?thesis by (auto simp: GetOrCreate_def)
next
  case (Some y)
  with assms show ?thesis by (auto simp: GetOrCreate_def)
qed

theorem registry_keyed_by_tenant_witness:
  "fst (GetOrCreate (\<lambda>c. Inr (tc_databaseName c)) ((ContextFromRow demo_tenant)\<lparr>tc_databaseName := ''other''\<rparr>)
     (snd (GetOrCreate (\<lambda>c. Inr (tc_databaseName c)) (ContextFromRow demo_tenant) Map.empty))) = Inr ''alpha_db''"
proof -
  have "GetOrCreate (\<lambda>c. Inr (tc_databaseName c)) (ContextFromRow demo_tenant) Map.empty = (Inr ''alpha_db'', [1 \<mapsto> ''alpha_db''])"
    by (simp add: GetOrCreate_def ContextFromRow_def demo_tenant_def)
  from registry_keyed_by_tenant [OF _ this] this show ?thesis
    by (auto simp: ContextFromRow_def demo_tenant_def)
qed

end
