(* ===== verification/Json.thy ===== *)
theory Json
  imports StringUtil
begin

text \<open>
  JSON values (\<open>foundation/util/json_value.h\<close>), the conversions of \<open>json_util.cpp\<close> and
  \<open>data/sql_util/json/key_value_table_json.cpp\<close>, and the problem bodies of \<open>error_response.cpp\<close> with
  the tables of \<open>error_codes.h\<close>. The parser and its value type belong to the HTTP library; \<open>rvalue\<close>
  is what the code can observe of them. A floating-point number is kept as the text it prints.
\<close>

section \<open>Values and their text\<close>

datatype dbl = Finite string | NonFinite

datatype JValue =
    JNull
  | JBool bool
  | JInt int
  | JDouble dbl
  | JString string
  | JArray "JValue list"
  | JObject "(string \<times> JValue) list"

definition hex_upper :: "nat \<Rightarrow> char" where
  "hex_upper d = (if d < 10 then digit_char d else char_of (55 + d))"

definition json_escape :: "char \<Rightarrow> string" where
  "json_escape c =
     (if c = CHR 0x22 then [CHR 0x5C, CHR 0x22]
      else if c = CHR 0x5C then [CHR 0x5C, CHR 0x5C]
      else if c = CHR 0x08 then [CHR 0x5C, CHR ''b'']
      else if c = CHR 0x0C then [CHR 0x5C, CHR ''f'']
      else if c = CHR 0x0A then [CHR 0x5C, CHR ''n'']
      else if c = CHR 0x0D then [CHR 0x5C, CHR ''r'']
      else if c = CHR 0x09 then [CHR 0x5C, CHR ''t'']
      else if (of_char c :: nat) < 32
        then [CHR 0x5C, CHR ''u'', CHR ''0'', CHR ''0'', hex_upper (of_char c div 16), hex_upper (of_char c mod 16)]
      else [c])"

definition append_escaped_json_string :: "string \<Rightarrow> string" where
  "append_escaped_json_string s = CHR 0x22 # concat (map json_escape s) @ [CHR 0x22]"

fun append_json_number :: "dbl \<Rightarrow> string" where
  "append_json_number (Finite t) = t"
| "append_json_number NonFinite = ''null''"

fun comma_join :: "string list \<Rightarrow> string" where
  "comma_join [] = []"
| "comma_join [x] = x"
| "comma_join (x # xs) = x @ CHR '','' # comma_join xs"

fun ToString :: "JValue \<Rightarrow> string" where
  "ToString JNull = ''null''"
| "ToString (JBool b) = (if b then ''true'' else ''false'')"
| "ToString (JInt i) = StringFromInt i"
| "ToString (JDouble d) = append_json_number d"
| "ToString (JString s) = append_escaped_json_string s"
| "ToString (JArray xs) = CHR ''['' # comma_join (map ToString xs) @ '']''"
| "ToString (JObject kvs) =
     CHR ''{'' # comma_join (map (\<lambda>(k, v). append_escaped_json_string k @ CHR '':'' # ToString v) kvs) @ ''}''"

fun ToSimpleString :: "JValue \<Rightarrow> string" where
  "ToSimpleString (JString s) = s"
| "ToSimpleString v = ToString v"

section \<open>Access\<close>

fun MakeObject :: "JValue \<Rightarrow> (string \<times> JValue) list" where
  "MakeObject (JObject o') = o'"
| "MakeObject _ = []"

fun MakeArray :: "JValue \<Rightarrow> JValue list" where
  "MakeArray (JArray a) = a"
| "MakeArray _ = []"

text \<open>\<open>json[key] = x\<close>: a value that is not an object is overwritten by an empty one first.\<close>

definition SetKey :: "JValue \<Rightarrow> string \<Rightarrow> JValue \<Rightarrow> JValue" where
  "SetKey v key x = JObject (kv_assign key x (MakeObject v))"

fun HasChildren :: "JValue \<Rightarrow> bool" where
  "HasChildren (JObject _) = True"
| "HasChildren _ = False"

fun IsArray :: "JValue \<Rightarrow> bool" where
  "IsArray (JArray _) = True"
| "IsArray _ = False"

definition HasChild :: "JValue \<Rightarrow> string \<Rightarrow> JValue option" where
  "HasChild v key = map_of (MakeObject v) key"

fun AtKey :: "JValue \<Rightarrow> string \<Rightarrow> JValue res" where
  "AtKey (JObject o') key =
     (case map_of o' key of None \<Rightarrow> Inl (OutOfRange ''Json::Value: key not found in object'') | Some v \<Rightarrow> Inr v)"
| "AtKey _ key = Inl (RuntimeError ''bad_variant_access'')"

fun AtIndex :: "JValue \<Rightarrow> nat \<Rightarrow> JValue res" where
  "AtIndex (JArray a) i = (if i < length a then Inr (a ! i) else Inl (OutOfRange ''vector::at''))"
| "AtIndex _ i = Inl (RuntimeError ''bad_variant_access'')"

text \<open>\<open>Get<T>\<close> of a value of another kind throws.\<close>

fun get_string :: "JValue \<Rightarrow> string res" where
  "get_string (JString t) = Inr t"
| "get_string _ = Inl (RuntimeError ''std::get: wrong index for variant'')"

fun get_bool :: "JValue \<Rightarrow> bool res" where
  "get_bool (JBool b) = Inr b"
| "get_bool _ = Inl (RuntimeError ''std::get: wrong index for variant'')"

fun get_int64 :: "JValue \<Rightarrow> int res" where
  "get_int64 (JInt i) = Inr i"
| "get_int64 _ = Inl (RuntimeError ''std::get: wrong index for variant'')"

fun GetArray :: "JValue \<Rightarrow> JValue list res" where
  "GetArray (JArray xs) = Inr xs"
| "GetArray _ = Inl (RuntimeError ''std::get: wrong index for variant'')"

section \<open>The HTTP library's values\<close>

datatype rnumber = Signed_integer int | Unsigned_integer int | Floating string

datatype rvalue = RNull | RFalse | RTrue | RNumber rnumber | RString string | RList "rvalue list"
  | RObject "(string \<times> rvalue) list"

text \<open>
  \<open>FromCrow\<close>. \<open>as_double\<close> prints the double nearest to an unsigned integer that does not fit
  \<open>int64_t\<close>. \<open>emplace\<close> keeps the first value of a key.
\<close>

fun FromCrow :: "(int \<Rightarrow> dbl) \<Rightarrow> rvalue \<Rightarrow> JValue" where
  "FromCrow as_double RNull = JNull"
| "FromCrow as_double RTrue = JBool True"
| "FromCrow as_double RFalse = JBool False"
| "FromCrow as_double (RString s) = JString s"
| "FromCrow as_double (RNumber (Signed_integer i)) = JInt i"
| "FromCrow as_double (RNumber (Unsigned_integer u)) =
     (if u \<le> 9223372036854775807 then JInt u else JDouble (as_double u))"
| "FromCrow as_double (RNumber (Floating t)) = JDouble (Finite t)"
| "FromCrow as_double (RList xs) = JArray (map (FromCrow as_double) xs)"
| "FromCrow as_double (RObject kvs) =
     JObject (fold (\<lambda>(k, v) m. kv_insert k v m) (map (\<lambda>(k, r). (k, FromCrow as_double r)) kvs) [])"

section \<open>Conversions of tables\<close>

definition StringFromBool :: "bool \<Rightarrow> string" where
  "StringFromBool b = (if b then ''t'' else ''f'')"

definition JsonFromKeyValueTable :: "KeyValueTable \<Rightarrow> JValue" where
  "JsonFromKeyValueTable t = fold (\<lambda>(k, v) json. SetKey json k (JString v)) t JNull"

definition JsonFromKeyValueTableArray :: "KeyValueTable list \<Rightarrow> JValue" where
  "JsonFromKeyValueTableArray ts = JArray (map JsonFromKeyValueTable ts)"

definition KeyValueTableFromJson :: "JValue \<Rightarrow> KeyValueTable" where
  "KeyValueTableFromJson v =
     (if HasChildren v then fold (\<lambda>(k, x) t. kv_assign k (ToSimpleString x) t) (MakeObject v) [] else [])"

definition JsonFromStringArray :: "StringArray \<Rightarrow> JValue" where
  "JsonFromStringArray xs = JArray (map JString xs)"

definition JsonFromArrayOfJson :: "JValue list \<Rightarrow> JValue" where
  "JsonFromArrayOfJson xs = JArray xs"

definition JsonFromDataResults :: "DataResults \<Rightarrow> JValue" where
  "JsonFromDataResults d =
     SetKey (SetKey JNull ''sortedColumnNames'' (JsonFromStringArray (sortedColumnNames d)))
       ''dataTable'' (JsonFromArrayOfJson (map JsonFromStringArray (dataTable d)))"

definition JsonFromDataResultsWithCount :: "DataResults \<Rightarrow> int \<Rightarrow> JValue" where
  "JsonFromDataResultsWithCount d totalCount =
     SetKey (SetKey (SetKey JNull ''sortedColumnNames'' (JsonFromStringArray (sortedColumnNames d)))
       ''dataTable'' (JsonFromArrayOfJson (map JsonFromStringArray (dataTable d))))
       ''totalCount'' (JInt totalCount)"

definition IsIntegerString :: "string \<Rightarrow> bool" where
  "IsIntegerString str =
     (if str = [] then False
      else if hd str = CHR ''-'' then tl str \<noteq> [] \<and> list_all is_digit (tl str)
      else list_all is_digit str)"

text \<open>\<open>from_chars\<close> on such a text fails only when the number does not fit \<open>int64_t\<close>.\<close>

definition from_chars :: "string \<Rightarrow> int option" where
  "from_chars str =
     (let n = (if hd str = CHR ''-'' then - int (read_digits 0 (tl str)) else int (read_digits 0 str)) in
      if in_i64 n then Some n else None)"

definition json_of_text :: "string \<Rightarrow> JValue" where
  "json_of_text v =
     (if IsIntegerString v then (case from_chars v of Some n \<Rightarrow> JInt n | None \<Rightarrow> JString v) else JString v)"

definition KeyValueTableToJson :: "KeyValueTable \<Rightarrow> JValue" where
  "KeyValueTableToJson t = JObject (fold (\<lambda>(k, v) m. kv_assign k (json_of_text v) m) t [])"

definition KeyValueTableArrayToJson :: "KeyValueTable list \<Rightarrow> JValue" where
  "KeyValueTableArrayToJson ts = JArray (map KeyValueTableToJson ts)"

section \<open>Problem bodies\<close>

definition error_table :: "(string \<times> string \<times> int) list" where
  "error_table =
    [(''validation_error'', ''Validation Error'', 400), (''bad_request'', ''Bad Request'', 400),
     (''not_authenticated'', ''Authentication Required'', 401), (''invalid_credentials'', ''Invalid Credentials'', 401),
     (''session_expired'', ''Session Expired'', 401), (''not_authorized'', ''Not Authorized'', 403),
     (''not_found'', ''Not Found'', 404), (''idempotency_conflict'', ''Conflict'', 409),
     (''too_many_attempts'', ''Too Many Attempts'', 429), (''internal_error'', ''Internal Server Error'', 500),
     (''service_unavailable'', ''Service Unavailable'', 503), (''payment_declined'', ''Payment Declined'', 402),
     (''payment_failed'', ''Payment Failed'', 402), (''voucher_invalid'', ''Invalid Voucher'', 400),
     (''seats_exceeded'', ''Seats Exceeded'', 400)]"

definition GetTitleForType :: "string \<Rightarrow> string" where
  "GetTitleForType type = (case map_of error_table type of Some (title, _) \<Rightarrow> title | None \<Rightarrow> ''Error'')"

definition GetStatusForType :: "string \<Rightarrow> int" where
  "GetStatusForType type = (case map_of error_table type of Some (_, status) \<Rightarrow> status | None \<Rightarrow> 500)"

record problem =
  pb_status :: int
  pb_contentType :: string
  pb_body :: string

text \<open>What a route's handler answers.\<close>

datatype reply = Refuse problem | Answer JValue

definition BuildJsonBody :: "string \<Rightarrow> string \<Rightarrow> int \<Rightarrow> string \<Rightarrow> (string \<times> JValue) list \<Rightarrow> JValue" where
  "BuildJsonBody type title status detail extensions =
     JObject (fold (\<lambda>(k, v) m. kv_assign k v m) extensions
       (fold (\<lambda>(k, v) m. kv_assign k v m)
         [(''type'', JString type), (''title'', JString title), (''status'', JInt status), (''detail'', JString detail)] []))"

definition BuildResponse :: "int \<Rightarrow> JValue \<Rightarrow> problem" where
  "BuildResponse status body =
     \<lparr>pb_status = status, pb_contentType = ''application/json'', pb_body = ToString body\<rparr>"

definition ErrorCreate :: "string \<Rightarrow> string \<Rightarrow> int \<Rightarrow> string \<Rightarrow> (string \<times> JValue) list \<Rightarrow> problem" where
  "ErrorCreate type title status detail extensions =
     BuildResponse status (BuildJsonBody type title status detail extensions)"

definition simple_error :: "string \<Rightarrow> string \<Rightarrow> problem" where
  "simple_error type detail = ErrorCreate type (GetTitleForType type) (GetStatusForType type) detail []"

definition optional_field :: "string \<Rightarrow> string \<Rightarrow> (string \<times> JValue) list \<Rightarrow> (string \<times> JValue) list" where
  "optional_field key value ext = (if value \<noteq> [] then kv_assign key (JString value) ext else ext)"

definition ValidationError :: "string \<Rightarrow> string \<Rightarrow> string \<Rightarrow> problem" where
  "ValidationError detail field constr =
     ErrorCreate ''validation_error'' (GetTitleForType ''validation_error'') (GetStatusForType ''validation_error'') detail
       (optional_field ''constraint'' constr (optional_field ''field'' field []))"

definition BadRequest :: "string \<Rightarrow> problem" where "BadRequest = simple_error ''bad_request''"
definition NotAuthenticated :: "string \<Rightarrow> problem" where "NotAuthenticated = simple_error ''not_authenticated''"
definition InvalidCredentials :: "string \<Rightarrow> problem" where "InvalidCredentials = simple_error ''invalid_credentials''"
definition SessionExpired :: "string \<Rightarrow> problem" where "SessionExpired = simple_error ''session_expired''"
definition NotAuthorized :: "string \<Rightarrow> problem" where "NotAuthorized = simple_error ''not_authorized''"
definition NotFound :: "string \<Rightarrow> problem" where "NotFound = simple_error ''not_found''"
definition IdempotencyConflict :: "string \<Rightarrow> problem" where "IdempotencyConflict = simple_error ''idempotency_conflict''"
definition TooManyAttempts :: "string \<Rightarrow> problem" where "TooManyAttempts = simple_error ''too_many_attempts''"

text \<open>The argument of \<open>InternalError\<close> goes to the log only; \<open>ServiceUnavailable\<close> sends its detail.\<close>

definition InternalError :: "string \<Rightarrow> problem" where
  "InternalError serverContext =
     ErrorCreate ''internal_error'' (GetTitleForType ''internal_error'') (GetStatusForType ''internal_error'')
       ''An unexpected error occurred. Please try again later'' []"

definition ServiceUnavailable :: "string \<Rightarrow> string \<Rightarrow> problem" where
  "ServiceUnavailable detail serverContext = simple_error ''service_unavailable'' detail"

definition payment_error :: "string \<Rightarrow> string \<Rightarrow> string \<Rightarrow> string \<Rightarrow> problem" where
  "payment_error type detail provider providerCode =
     ErrorCreate type (GetTitleForType type) (GetStatusForType type) detail
       (optional_field ''provider_code'' providerCode (optional_field ''provider'' provider []))"

definition PaymentDeclined :: "string \<Rightarrow> string \<Rightarrow> string \<Rightarrow> problem" where
  "PaymentDeclined = payment_error ''payment_declined''"

definition PaymentFailed :: "string \<Rightarrow> string \<Rightarrow> string \<Rightarrow> problem" where
  "PaymentFailed = payment_error ''payment_failed''"

section \<open>A reader for compact JSON\<close>

text \<open>
  RFC 8259 read back, for texts without white space: what a conforming parser makes of a text. Strings
  stay bytes; the escape with four hexadecimal digits is read for one-byte codes. A token that is an
  integer text is an integer, any other number a floating-point one.
\<close>

definition hex_val :: "char \<Rightarrow> nat option" where
  "hex_val c =
     (let n = (of_char c :: nat) in
      if 48 \<le> n \<and> n \<le> 57 then Some (n - 48)
      else if 65 \<le> n \<and> n \<le> 70 then Some (n - 55)
      else if 97 \<le> n \<and> n \<le> 102 then Some (n - 87) else None)"

definition unescape :: "char \<Rightarrow> char option" where
  "unescape c = map_of [(CHR 0x22, CHR 0x22), (CHR 0x5C, CHR 0x5C), (CHR ''/'', CHR ''/''), (CHR ''b'', CHR 0x08),
     (CHR ''f'', CHR 0x0C), (CHR ''n'', CHR 0x0A), (CHR ''r'', CHR 0x0D), (CHR ''t'', CHR 0x09)] c"

definition cons_to :: "char \<Rightarrow> (string \<times> string) option \<Rightarrow> (string \<times> string) option" where
  "cons_to c r = (case r of Some (s, rest) \<Rightarrow> Some (c # s, rest) | None \<Rightarrow> None)"

fun read_body :: "string \<Rightarrow> (string \<times> string) option" where
  "read_body [] = None"
| "read_body (c # t) =
     (if c = CHR 0x22 then Some ([], t)
      else if c = CHR 0x5C then
        (case t of
           e # t' \<Rightarrow>
             if e = CHR ''u'' then
               (case t' of
                  CHR ''0'' # CHR ''0'' # h # l # t'' \<Rightarrow>
                    (case (hex_val h, hex_val l) of
                       (Some a, Some b) \<Rightarrow> cons_to (char_of (16 * a + b)) (read_body t'')
                     | _ \<Rightarrow> None)
                | _ \<Rightarrow> None)
             else (case unescape e of Some d \<Rightarrow> cons_to d (read_body t') | None \<Rightarrow> None)
         | [] \<Rightarrow> None)
      else if (of_char c :: nat) < 32 then None
      else cons_to c (read_body t))"

definition token_char :: "char \<Rightarrow> bool" where
  "token_char c \<longleftrightarrow> c \<noteq> CHR '','' \<and> c \<noteq> CHR '']'' \<and> c \<noteq> CHR ''}'' \<and> c \<noteq> CHR '':''"

definition read_token :: "string \<Rightarrow> JValue option" where
  "read_token t =
     (if t = ''null'' then Some JNull
      else if t = ''true'' then Some (JBool True)
      else if t = ''false'' then Some (JBool False)
      else if IsIntegerString t then
        Some (JInt (if hd t = CHR ''-'' then - int (read_digits 0 (tl t)) else int (read_digits 0 t)))
      else if t \<noteq> [] then Some (JDouble (Finite t)) else None)"

fun read_value :: "nat \<Rightarrow> string \<Rightarrow> (JValue \<times> string) option"
  and read_elems :: "nat \<Rightarrow> string \<Rightarrow> (JValue list \<times> string) option"
  and read_members :: "nat \<Rightarrow> string \<Rightarrow> ((string \<times> JValue) list \<times> string) option" where
  "read_value 0 s = None"
| "read_value (Suc n) s =
     (case s of
        [] \<Rightarrow> None
      | c # t \<Rightarrow>
        if c = CHR 0x22 then (case read_body t of Some (x, r) \<Rightarrow> Some (JString x, r) | None \<Rightarrow> None)
        else if c = CHR ''['' then
          (if t \<noteq> [] \<and> hd t = CHR '']'' then Some (JArray [], tl t)
           else case read_elems n t of Some (xs, r) \<Rightarrow> Some (JArray xs, r) | None \<Rightarrow> None)
        else if c = CHR ''{'' then
          (if t \<noteq> [] \<and> hd t = CHR ''}'' then Some (JObject [], tl t)
           else case read_members n t of Some (xs, r) \<Rightarrow> Some (JObject xs, r) | None \<Rightarrow> None)
        else (case read_token (takeWhile token_char s) of
                Some v \<Rightarrow> Some (v, dropWhile token_char s) | None \<Rightarrow> None))"
| "read_elems 0 s = None"
| "read_elems (Suc n) s =
     (case read_value n s of
        Some (v, CHR '','' # r) \<Rightarrow> (case read_elems n r of Some (xs, r') \<Rightarrow> Some (v # xs, r') | None \<Rightarrow> None)
      | Some (v, CHR '']'' # r) \<Rightarrow> Some ([v], r)
      | _ \<Rightarrow> None)"
| "read_members 0 s = None"
| "read_members (Suc n) s =
     (case s of
        CHR 0x22 # t \<Rightarrow>
          (case read_body t of
             Some (k, CHR '':'' # r) \<Rightarrow>
               (case read_value n r of
                  Some (v, CHR '','' # r') \<Rightarrow> (case read_members n r' of Some (xs, r'') \<Rightarrow> Some ((k, v) # xs, r'') | None \<Rightarrow> None)
                | Some (v, CHR ''}'' # r') \<Rightarrow> Some ([(k, v)], r')
                | _ \<Rightarrow> None)
           | _ \<Rightarrow> None)
      | _ \<Rightarrow> None)"

text \<open>Values that have a text of their own: a floating-point number must not print like an integer.\<close>

definition proper_double :: "string \<Rightarrow> bool" where
  "proper_double t \<longleftrightarrow> t \<noteq> [] \<and> list_all token_char t \<and> hd t \<notin> {CHR 0x22, CHR ''['', CHR ''{''} \<and>
     \<not> IsIntegerString t \<and> t \<notin> {''null'', ''true'', ''false''}"

fun printable :: "JValue \<Rightarrow> bool" where
  "printable (JDouble (Finite t)) = proper_double t"
| "printable (JDouble NonFinite) = False"
| "printable (JArray xs) = list_all printable xs"
| "printable (JObject kvs) = list_all (\<lambda>(k, v). printable v) kvs"
| "printable JNull = True"
| "printable (JBool b) = True"
| "printable (JInt i) = True"
| "printable (JString s) = True"

fun fuel :: "JValue \<Rightarrow> nat" where
  "fuel (JArray xs) = Suc (sum_list (map (\<lambda>x. Suc (fuel x)) xs))"
| "fuel (JObject kvs) = Suc (sum_list (map (\<lambda>(k, v). Suc (fuel v)) kvs))"
| "fuel _ = 1"

lemma hex_val_upper: "d < 16 \<Longrightarrow> hex_val (hex_upper d) = Some d"
  by (auto simp: hex_val_def hex_upper_def digit_char_def Let_def)

lemma read_body_hex:
  assumes "a < 16" "b < 16"
  shows "read_body (CHR 0x5C # CHR ''u'' # CHR ''0'' # CHR ''0'' # hex_upper a # hex_upper b # rest)
    = cons_to (char_of (16 * a + b)) (read_body rest)"
  by (simp add: hex_val_upper assms)

lemma read_body_plain:
  "c \<noteq> CHR 0x22 \<Longrightarrow> c \<noteq> CHR 0x5C \<Longrightarrow> \<not> (of_char c :: nat) < 32 \<Longrightarrow> read_body (c # rest) = cons_to c (read_body rest)"
  by simp

lemma read_body_short: "e \<noteq> CHR ''u'' \<Longrightarrow> unescape e = Some d \<Longrightarrow> read_body (CHR 0x5C # e # rest) = cons_to d (read_body rest)"
  by simp

declare read_body.simps(2) [simp del]

lemma read_body_escape: "read_body (json_escape c @ rest) = cons_to c (read_body rest)"
proof (cases "c \<in> {CHR 0x22, CHR 0x5C, CHR 0x08, CHR 0x0C, CHR 0x0A, CHR 0x0D, CHR 0x09}")
  case True
  then show ?thesis by (auto simp: json_escape_def unescape_def read_body_short)
next
  case False
  show ?thesis
  proof (cases "(of_char c :: nat) < 32")
    case True
    have "char_of (16 * ((of_char c :: nat) div 16) + of_char c mod 16) = c"
      by (simp only: mult_div_mod_eq char_of_char)
    with False True show ?thesis
      using read_body_hex [of "of_char c div 16" "of_char c mod 16" rest] by (simp add: json_escape_def)
  next
    case big: False
    with False show ?thesis by (simp add: json_escape_def read_body_plain)
  qed
qed

lemma read_body_string: "read_body (concat (map json_escape s) @ CHR 0x22 # rest) = Some (s, rest)"
  by (induction s) (simp_all add: read_body_escape cons_to_def read_body.simps(2))

lemma token_digits: "\<forall>c \<in> set t. is_digit c \<Longrightarrow> \<forall>c \<in> set t. token_char c"
  by (auto simp: is_digit_def token_char_def)

lemma StringFromInt_token:
  "IsIntegerString (StringFromInt i) \<and> list_all token_char (StringFromInt i) \<and>
   (if hd (StringFromInt i) = CHR ''-'' then - int (read_digits 0 (tl (StringFromInt i))) else int (read_digits 0 (StringFromInt i))) = i"
proof -
  have d: "list_all is_digit (show_nat n)" "show_nat n \<noteq> []" "hd (show_nat n) \<noteq> CHR ''-''" for n
    using show_nat_digits [of n] show_nat_nonempty [of n] is_digit_not_sign
    by (auto simp: list_all_iff)
  have t: "list_all token_char (show_nat n)" for n using token_digits show_nat_digits by (auto simp: list_all_iff)
  show ?thesis
    by (simp add: StringFromInt_def IsIntegerString_def d t read_digits_show_nat token_char_def)
qed

lemma IsIntegerString_first: "IsIntegerString t \<Longrightarrow> hd t \<notin> {CHR 0x22, CHR ''['', CHR ''{'', CHR ''n'', CHR ''t'', CHR ''f''} \<and> t \<noteq> []"
  by (cases t) (auto simp: IsIntegerString_def is_digit_def split: if_splits)

lemma read_token_int: "read_token (StringFromInt i) = Some (JInt i)"
  using StringFromInt_token [of i] IsIntegerString_first [of "StringFromInt i"]
  by (auto simp: read_token_def)

lemma read_token_at:
  assumes "list_all token_char t" "t \<noteq> []" "hd t \<notin> {CHR 0x22, CHR ''['', CHR ''{''}" "read_token t = Some v"
    and "rest = [] \<or> \<not> token_char (hd rest)"
  shows "read_value (Suc n) (t @ rest) = Some (v, rest)"
proof -
  have "takeWhile token_char (t @ rest) = t" "dropWhile token_char (t @ rest) = rest"
    using assms(1,5) by (cases rest; simp add: list_all_iff takeWhile_append dropWhile_append)+
  with assms show ?thesis by (cases t) auto
qed

text \<open>A text can be read as a value when what follows cannot belong to it.\<close>

definition ends :: "string \<Rightarrow> bool" where
  "ends rest \<longleftrightarrow> rest = [] \<or> \<not> token_char (hd rest)"

definition reads_back :: "JValue \<Rightarrow> bool" where
  "reads_back v \<longleftrightarrow> (\<forall>n rest. fuel v \<le> n \<longrightarrow> ends rest \<longrightarrow> read_value n (ToString v @ rest) = Some (v, rest))"

lemma token_reads_back:
  assumes "ToString v = t" "list_all token_char t" "t \<noteq> []" "hd t \<notin> {CHR 0x22, CHR ''['', CHR ''{''}" "read_token t = Some v"
    and "fuel v = 1"
  shows "reads_back v"
  unfolding reads_back_def
proof (intro allI impI)
  fix n rest
  assume "fuel v \<le> n" "ends rest"
  then obtain m where "n = Suc m" using assms(6) by (cases n) auto
  then show "read_value n (ToString v @ rest) = Some (v, rest)"
    using read_token_at [OF assms(2-5), of rest m] \<open>ends rest\<close> assms(1) by (simp only: ends_def)
qed

lemma ends_simps [simp]: "ends []" "ends (CHR '','' # r)" "ends (CHR '']'' # r)" "ends (CHR ''}'' # r)"
  by (simp_all add: ends_def token_char_def)

lemma comma_join_Cons: "xs \<noteq> [] \<Longrightarrow> comma_join (x # xs) = x @ CHR '','' # comma_join xs"
  by (cases xs) simp_all

lemma read_elems_back:
  assumes "\<forall>x \<in> set xs. reads_back x" "xs \<noteq> []" "sum_list (map (\<lambda>x. Suc (fuel x)) xs) \<le> n"
  shows "read_elems n (comma_join (map ToString xs) @ CHR '']'' # rest) = Some (xs, rest)"
  using assms
proof (induction xs arbitrary: n)
  case (Cons x xs)
  then obtain m where n: "n = Suc m" "fuel x \<le> m" "sum_list (map (\<lambda>x. Suc (fuel x)) xs) \<le> m"
    by (cases n) auto
  show ?case
  proof (cases "xs = []")
    case True
    with Cons.prems(1) n show ?thesis by (simp add: reads_back_def)
  next
    case False
    have "read_elems m (comma_join (map ToString xs) @ CHR '']'' # rest) = Some (xs, rest)"
      using Cons False n by simp
    with Cons.prems(1) n False show ?thesis by (simp add: reads_back_def comma_join_Cons)
  qed
qed simp

lemma read_members_back:
  assumes "\<forall>(k, x) \<in> set kvs. reads_back x" "kvs \<noteq> []" "sum_list (map (\<lambda>(k, v). Suc (fuel v)) kvs) \<le> n"
  shows "read_members n (comma_join (map (\<lambda>(k, v). append_escaped_json_string k @ CHR '':'' # ToString v) kvs) @ CHR ''}'' # rest)
    = Some (kvs, rest)"
  using assms
proof (induction kvs arbitrary: n)
  case (Cons kv kvs)
  obtain k x where kv: "kv = (k, x)" by fastforce
  obtain m where n: "n = Suc m" "fuel x \<le> m" "sum_list (map (\<lambda>(k, v). Suc (fuel v)) kvs) \<le> m"
    using Cons.prems(3) kv by (cases n) auto
  show ?case
  proof (cases "kvs = []")
    case True
    with Cons.prems(1) n kv show ?thesis
      by (simp add: reads_back_def append_escaped_json_string_def read_body_string)
  next
    case False
    have "read_members m (comma_join (map (\<lambda>(k, v). append_escaped_json_string k @ CHR '':'' # ToString v) kvs) @ CHR ''}'' # rest)
        = Some (kvs, rest)"
      using Cons False n by auto
    with Cons.prems(1) n False kv show ?thesis
      by (simp add: reads_back_def append_escaped_json_string_def read_body_string comma_join_Cons)
  qed
qed simp

lemma comma_join_first:
  "(\<And>x. x \<in> set xs \<Longrightarrow> x \<noteq> [] \<and> hd x \<noteq> c) \<Longrightarrow> xs \<noteq> [] \<Longrightarrow> comma_join xs \<noteq> [] \<and> hd (comma_join xs) \<noteq> c"
  by (induction xs rule: comma_join.induct) auto

lemma ToString_first: "printable v \<Longrightarrow> ToString v \<noteq> [] \<and> hd (ToString v) \<noteq> CHR '']''"
proof (cases v)
  case (JInt i)
  have "token_char (hd (StringFromInt i))" "StringFromInt i \<noteq> []"
    using StringFromInt_token [of i] IsIntegerString_first [of "StringFromInt i"]
    by (auto simp: list_all_iff)
  with JInt show ?thesis by (auto simp: token_char_def)
next
  case (JDouble d)
  moreover assume "printable v"
  ultimately show ?thesis
    by (cases d) (auto simp: proper_double_def list_all_iff token_char_def)
qed (auto simp: append_escaped_json_string_def)

lemma all_reads_back: "printable v \<Longrightarrow> reads_back v"
proof (induction v rule: printable.induct)
  case (1 t)
  then show ?case by (intro token_reads_back [of _ t]) (auto simp: read_token_def proper_double_def)
next
  case (3 xs)
  have IH: "\<forall>x \<in> set xs. reads_back x" using 3 by (auto simp: list_all_iff)
  show ?case
  proof (cases "xs = []")
    case True
    then show ?thesis by (auto simp: reads_back_def dest!: Suc_le_D)
  next
    case False
    have "comma_join (map ToString xs) \<noteq> [] \<and> hd (comma_join (map ToString xs)) \<noteq> CHR '']''"
      using 3(2) False ToString_first by (intro comma_join_first) (auto simp: list_all_iff)
    with False show ?thesis
      unfolding reads_back_def by (intro allI impI, case_tac n) (simp_all add: read_elems_back [OF IH False])
  qed
next
  case (4 kvs)
  have IH: "\<forall>(k, x) \<in> set kvs. reads_back x" using 4 by (auto simp: list_all_iff)
  show ?case
  proof (cases "kvs = []")
    case True
    then show ?thesis by (auto simp: reads_back_def dest!: Suc_le_D)
  next
    case False
    let ?ms = "map (\<lambda>(k, v). append_escaped_json_string k @ CHR '':'' # ToString v) kvs"
    have "comma_join ?ms \<noteq> [] \<and> hd (comma_join ?ms) \<noteq> CHR ''}''"
      using False by (intro comma_join_first) (auto simp: append_escaped_json_string_def)
    with False show ?thesis
      unfolding reads_back_def by (intro allI impI, case_tac n) (simp_all add: read_members_back [OF IH False])
  qed
next
  case 5
  show ?case by (intro token_reads_back [of _ "''null''"]) (simp_all add: read_token_def token_char_def)
next
  case (6 b)
  show ?case
    by (intro token_reads_back [of _ "if b then ''true'' else ''false''"]) (simp_all add: read_token_def token_char_def)
next
  case (7 i)
  show ?case
    using StringFromInt_token [of i] IsIntegerString_first [of "StringFromInt i"] read_token_int [of i]
    by (intro token_reads_back [of _ "StringFromInt i"]) auto
next
  case (8 s)
  then show ?case
    by (auto simp: reads_back_def append_escaped_json_string_def read_body_string dest!: Suc_le_D)
qed simp

section \<open>Tables and objects\<close>

definition assign_all :: "(string \<times> 'v) list \<Rightarrow> (string \<times> 'v) list \<Rightarrow> (string \<times> 'v) list" where
  "assign_all kvs m = fold (\<lambda>(k, v) m. kv_assign k v m) kvs m"

lemma assign_all_ok: "kvt_ok m \<Longrightarrow> kvt_ok (assign_all kvs m)"
  unfolding assign_all_def by (induction kvs arbitrary: m) (auto simp: kvt_ok_assign)

lemma map_of_assign_all:
  "kvt_ok m \<Longrightarrow> distinct (map fst kvs) \<Longrightarrow>
   map_of (assign_all kvs m) k = (case map_of kvs k of Some v \<Rightarrow> Some v | None \<Rightarrow> map_of m k)"
  unfolding assign_all_def
proof (induction kvs arbitrary: m)
  case (Cons kv kvs)
  obtain k' v where kv: "kv = (k', v)" by fastforce
  have none: "map_of kvs k' = None" using Cons.prems(2) kv by (simp add: map_of_eq_None_iff)
  have "map_of (fold (\<lambda>(k, v) m. kv_assign k v m) kvs (kv_assign k' v m)) k =
    (case map_of kvs k of Some v \<Rightarrow> Some v | None \<Rightarrow> map_of (kv_assign k' v m) k)"
    using Cons.prems kv by (intro Cons.IH) (simp_all add: kvt_ok_assign)
  with none kv Cons.prems(1) show ?case
    by (cases "k = k'") (simp_all add: map_of_kv_assign split: option.split)
qed simp

lemma kv_assign_below: "\<forall>k' \<in> fst ` set t. k' < k \<Longrightarrow> kv_assign k v t = t @ [(k, v)]"
  by (induction t) (auto dest: less_asym)

lemma assign_all_append:
  "kvt_ok t \<Longrightarrow> (\<forall>k \<in> fst ` set acc. \<forall>k' \<in> fst ` set t. k < k') \<Longrightarrow> assign_all t acc = acc @ t"
  unfolding assign_all_def
proof (induction t arbitrary: acc)
  case (Cons p t)
  obtain k v where p: "p = (k, v)" by (cases p)
  have "kv_assign k v acc = acc @ [(k, v)]"
    using Cons.prems p by (intro kv_assign_below) auto
  then show ?case using Cons p by auto
qed simp

lemma assign_all_id: "kvt_ok t \<Longrightarrow> assign_all t [] = t"
  by (simp add: assign_all_append)

lemma MakeObject_SetKey [simp]: "MakeObject (SetKey v k x) = kv_assign k x (MakeObject v)"
  by (simp add: SetKey_def)

lemma JsonFromKeyValueTable_object:
  "t \<noteq> [] \<Longrightarrow> JsonFromKeyValueTable t = JObject (assign_all (map (\<lambda>(k, v). (k, JString v)) t) [])"
proof -
  have "fold (\<lambda>(k, v) json. SetKey json k (JString v)) t (JObject m) = JObject (assign_all (map (\<lambda>(k, v). (k, JString v)) t) m)" for t m
    unfolding assign_all_def by (induction t arbitrary: m) (auto simp: SetKey_def)
  then show "t \<noteq> [] \<Longrightarrow> ?thesis"
    by (cases t) (auto simp: JsonFromKeyValueTable_def SetKey_def assign_all_def)
qed

lemma kvt_ok_map_values: "kvt_ok (map (\<lambda>(k, v). (k, f v)) t) \<longleftrightarrow> kvt_ok t"
  by (simp add: kvt_ok_def comp_def case_prod_unfold)

lemma KeyValueTableFromJson_object:
  "kvt_ok m \<Longrightarrow> KeyValueTableFromJson (JObject m) = map (\<lambda>(k, v). (k, ToSimpleString v)) m"
proof -
  assume "kvt_ok m"
  have "fold (\<lambda>(k, x) t. kv_assign k (ToSimpleString x) t) m t = assign_all (map (\<lambda>(k, v). (k, ToSimpleString v)) m) t" for m t
    unfolding assign_all_def by (induction m arbitrary: t) auto
  with \<open>kvt_ok m\<close> show ?thesis
    by (simp add: KeyValueTableFromJson_def assign_all_id kvt_ok_map_values)
qed

lemma KeyValueTableToJson_object:
  "kvt_ok t \<Longrightarrow> KeyValueTableToJson t = JObject (map (\<lambda>(k, v). (k, json_of_text v)) t)"
proof -
  assume "kvt_ok t"
  have "fold (\<lambda>(k, v) m. kv_assign k (json_of_text v) m) t m = assign_all (map (\<lambda>(k, v). (k, json_of_text v)) t) m" for t m
    unfolding assign_all_def by (induction t arbitrary: m) auto
  with \<open>kvt_ok t\<close> show ?thesis
    by (simp add: KeyValueTableToJson_def assign_all_id kvt_ok_map_values)
qed

section \<open>Properties\<close>

text \<open>
  The text of a value is JSON that a conforming reader turns back into exactly that value, whatever
  bytes its strings hold; so two values never print alike. A floating-point number is excepted when it
  is not finite (it prints as null) or prints without a point or exponent (it reads as an integer).
\<close>

theorem json_text_reads_back:
  assumes "printable v"
  shows "read_value (fuel v) (ToString v) = Some (v, []) \<and> (\<forall>w. printable w \<longrightarrow> ToString w = ToString v \<longrightarrow> w = v)"
proof -
  have rd: "read_value n (ToString x) = Some (x, [])" if "printable x" "fuel x \<le> n" for x n
    using all_reads_back [OF that(1)] that(2) by (auto simp: reads_back_def dest!: spec [of _ "[]"])
  have "w = v" if "printable w" "ToString w = ToString v" for w
    using rd [OF assms, of "max (fuel v) (fuel w)"] rd [OF that(1), of "max (fuel v) (fuel w)"] that(2) by simp
  with rd [OF assms order_refl] show ?thesis by blast
qed

theorem json_text_reads_back_witness:
  "read_value 9 (ToString (JObject [(''a'', JArray [JInt (- 5), JBool True]), (''b'', JString [CHR 0x22, CHR 0x0A, CHR 0x01])]))
    = Some (JObject [(''a'', JArray [JInt (- 5), JBool True]), (''b'', JString [CHR 0x22, CHR 0x0A, CHR 0x01])], [])"
  using json_text_reads_back [of "JObject [(''a'', JArray [JInt (- 5), JBool True]), (''b'', JString [CHR 0x22, CHR 0x0A, CHR 0x01])]"]
  by (simp add: numeral_nat del: ToString.simps read_value.simps)

text \<open>
  A table sent as JSON strings comes back as the same table. Sent through \<open>KeyValueTableToJson\<close> it
  comes back with every text that is an integer of 64 bits in its shortest form: leading zeros, and the
  sign of a zero, are lost.
\<close>

theorem tables_through_json:
  assumes "kvt_ok t"
  shows "KeyValueTableFromJson (JsonFromKeyValueTable t) = t \<and>
    KeyValueTableFromJson (KeyValueTableToJson t) =
      map (\<lambda>(k, v). (k, if IsIntegerString v then (case from_chars v of Some n \<Rightarrow> StringFromInt n | None \<Rightarrow> v) else v)) t"
proof -
  have "KeyValueTableFromJson (JsonFromKeyValueTable t) = t"
  proof (cases "t = []")
    case True
    then show ?thesis by (simp add: JsonFromKeyValueTable_def KeyValueTableFromJson_def)
  next
    case False
    have ok: "kvt_ok (map (\<lambda>(k, v). (k, JString v)) t)" using assms by (simp only: kvt_ok_map_values)
    have "KeyValueTableFromJson (JsonFromKeyValueTable t) = map (\<lambda>(k, v). (k, ToSimpleString v)) (map (\<lambda>(k, v). (k, JString v)) t)"
      unfolding JsonFromKeyValueTable_object [OF False] assign_all_id [OF ok] by (rule KeyValueTableFromJson_object [OF ok])
    then show ?thesis by (simp add: comp_def case_prod_unfold)
  qed
  moreover have "KeyValueTableFromJson (KeyValueTableToJson t) = map (\<lambda>(k, v). (k, ToSimpleString (json_of_text v))) t"
    using assms KeyValueTableFromJson_object [of "map (\<lambda>(k, v). (k, json_of_text v)) t"]
    by (simp add: KeyValueTableToJson_object kvt_ok_map_values) (simp add: comp_def case_prod_unfold)
  ultimately show ?thesis by (auto simp: json_of_text_def split: option.splits)
qed

theorem tables_through_json_witness:
  "KeyValueTableFromJson (KeyValueTableToJson [(''name'', ''Ann''), (''zip'', ''02134'')]) = [(''name'', ''Ann''), (''zip'', ''2134'')]"
proof -
  have "from_chars ''02134'' = Some 2134" by (simp add: from_chars_def digit_val_def is_digit_def in_i64_def)
  moreover have "StringFromInt 2134 = ''2134''" by code_simp
  ultimately show ?thesis
    using tables_through_json [of "[(''name'', ''Ann''), (''zip'', ''02134'')]"]
    by (simp add: IsIntegerString_def is_digit_def)
qed

text \<open>
  An error response repeats its HTTP status, type, title and detail in the body whatever extension
  fields it carries (they have other names), and the body of an internal error does not depend on the
  context that is logged.
\<close>

theorem error_bodies:
  assumes "distinct (map fst ext)" "fst ` set ext \<inter> {''type'', ''title'', ''status'', ''detail''} = {}"
  shows "pb_status (ErrorCreate type title status detail ext) = status \<and>
    pb_body (ErrorCreate type title status detail ext) = ToString (BuildJsonBody type title status detail ext) \<and>
    AtKey (BuildJsonBody type title status detail ext) ''status'' = Inr (JInt status) \<and>
    AtKey (BuildJsonBody type title status detail ext) ''type'' = Inr (JString type) \<and>
    AtKey (BuildJsonBody type title status detail ext) ''detail'' = Inr (JString detail) \<and>
    (\<forall>k v. (k, v) \<in> set ext \<longrightarrow> AtKey (BuildJsonBody type title status detail ext) k = Inr v) \<and>
    InternalError c = InternalError c'"
proof -
  let ?base = "[(''type'', JString type), (''title'', JString title), (''status'', JInt status), (''detail'', JString detail)]"
  have body: "BuildJsonBody type title status detail ext = JObject (assign_all ext (assign_all ?base []))"
    by (simp add: BuildJsonBody_def assign_all_def)
  have base: "kvt_ok (assign_all ?base [])" "map_of (assign_all ?base []) k = map_of ?base k" for k
    by (simp_all add: assign_all_ok map_of_assign_all split: option.splits)
  have "map_of ext k = None" if "k \<in> {''type'', ''title'', ''status'', ''detail''}" for k
    using assms(2) that by (metis IntI empty_iff map_of_eq_None_iff)
  moreover have "AtKey (BuildJsonBody type title status detail ext) k = Inr v" if "(k, v) \<in> set ext" for k v
    using base(1) assms(1) that by (simp add: body map_of_assign_all)
  ultimately show ?thesis
    using base assms(1)
    by (simp add: ErrorCreate_def BuildResponse_def body map_of_assign_all InternalError_def)
qed

theorem error_bodies_witness:
  "AtKey (BuildJsonBody ''validation_error'' ''Validation Error'' 400 ''bad'' [(''field'', JString ''email'')]) ''status'' = Inr (JInt 400)"
  using error_bodies [of "[(''field'', JString ''email'')]"] by simp

end
