(* ===== verification/Scheduler.thy ===== *)
theory Scheduler
  imports Json Effects Guards
begin

text \<open>
  The scheduler process (\<open>components/scheduler/scheduler\<close>): the HTTP client's cookie jar and login
  (\<open>api_client.cpp\<close>), the jobs and their targets (\<open>job_scheduler.cpp\<close>), and the reload of the job set
  (\<open>scheduler.cpp\<close>), with the header parser of \<open>foundation/util/http/http_client.cpp\<close>. The transport
  is the parameter \<open>exec\<close> on a state \<open>'w\<close> of the servers; the timers of the event loop are modelled as
  the documentation of \<open>steady_timer\<close> has them: cancelling a timer aborts the waits that are pending,
  and a wait that has already expired keeps its success.
\<close>

section \<open>Requests, responses and the cookie jar\<close>

record HttpRequest =
  hq_url :: string
  hq_method :: string
  hq_body :: string
  hq_headers :: KeyValueTable

record HttpResponse =
  hr_statusCode :: int
  hr_body :: string
  hr_headers :: KeyValueTable
  hr_setCookies :: "string list"

type_synonym 'w transport = "HttpRequest \<Rightarrow> ('w, HttpResponse) eff"

definition IEquals :: "string \<Rightarrow> string \<Rightarrow> bool" where
  "IEquals a b \<longleftrightarrow> length a = length b \<and> map to_lower a = map to_lower b"

definition IsSetCookie :: "string \<Rightarrow> bool" where
  "IsSetCookie name \<longleftrightarrow> length name = length ''set-cookie'' \<and> map to_lower name = ''set-cookie''"

definition is_line_blank :: "char \<Rightarrow> bool" where
  "is_line_blank c \<longleftrightarrow> c = CHR '' '' \<or> c = CHR 0x09 \<or> c = CHR 0x0D \<or> c = CHR 0x0A"

text \<open>
  \<open>ParseResponseHeaderLine\<close>: the value runs from its first character that is no blank to its last that
  is no blank or line end; one that begins with a line end keeps it when text follows.
\<close>

definition header_value :: "string \<Rightarrow> string" where
  "header_value v =
     (let v1 = dropWhile is_blank v; v2 = rev (dropWhile is_line_blank (rev v1)) in v2)"

definition ParseResponseHeaderLine :: "string \<Rightarrow> HttpResponse \<Rightarrow> HttpResponse" where
  "ParseResponseHeaderLine line r =
     (if CHR '':'' \<notin> set line then r
      else let key = takeWhile (\<lambda>c. c \<noteq> CHR '':'') line;
               value = header_value (tl (dropWhile (\<lambda>c. c \<noteq> CHR '':'') line));
               r1 = (if IsSetCookie key then r\<lparr>hr_setCookies := hr_setCookies r @ [value]\<rparr> else r) in
        r1\<lparr>hr_headers := kv_assign key value (hr_headers r1)\<rparr>)"

record ApiClient =
  ac_baseUrl :: string
  ac_loginHeaders :: "(string \<times> string) list"
  ac_cookies :: KeyValueTable
  ac_email :: string
  ac_password :: string

definition newApiClient :: "string \<Rightarrow> (string \<times> string) list \<Rightarrow> ApiClient" where
  "newApiClient baseUrl loginHeaders =
     \<lparr>ac_baseUrl = rev (dropWhile (\<lambda>c. c = CHR ''/'') (rev baseUrl)), ac_loginHeaders = loginHeaders,
      ac_cookies = [], ac_email = [], ac_password = []\<rparr>"

definition BuildUrl :: "ApiClient \<Rightarrow> string \<Rightarrow> string" where
  "BuildUrl c path =
     (if path = [] \<or> hd path \<noteq> CHR ''/'' then ac_baseUrl c @ ''/'' @ path else ac_baseUrl c @ path)"

definition StoreSetCookie :: "string \<Rightarrow> ApiClient \<Rightarrow> ApiClient" where
  "StoreSetCookie v c =
     (let nameValue = StringTrim (takeWhile (\<lambda>x. x \<noteq> CHR '';'') v) in
      if CHR ''='' \<notin> set nameValue \<or> hd nameValue = CHR ''='' then c
      else let name = StringTrim (takeWhile (\<lambda>x. x \<noteq> CHR ''='') nameValue);
               value = StringTrim (tl (dropWhile (\<lambda>x. x \<noteq> CHR ''='') nameValue)) in
        if name = [] then c else c\<lparr>ac_cookies := kv_assign name value (ac_cookies c)\<rparr>)"

definition HarvestSetCookies :: "HttpResponse \<Rightarrow> ApiClient \<Rightarrow> ApiClient" where
  "HarvestSetCookies r c =
     fold StoreSetCookie (hr_setCookies r)
       (fold (\<lambda>(k, v) c. if IEquals k ''Set-Cookie'' then StoreSetCookie v c else c) (hr_headers r) c)"

text \<open>The loop that joins the cookies; the separator depends on what has been written so far.\<close>

definition BuildCookieHeader :: "ApiClient \<Rightarrow> string" where
  "BuildCookieHeader c =
     fold (\<lambda>(name, value) out. (if out \<noteq> [] then out @ ''; '' else out) @ name @ ''='' @ value) (ac_cookies c) []"

definition IsStateChangingMethod :: "string \<Rightarrow> bool" where
  "IsStateChangingMethod m \<longleftrightarrow> IEquals m ''POST'' \<or> IEquals m ''PUT'' \<or> IEquals m ''PATCH'' \<or> IEquals m ''DELETE''"

definition set_headers :: "(string \<times> string) list \<Rightarrow> KeyValueTable \<Rightarrow> KeyValueTable" where
  "set_headers hs m = fold (\<lambda>(k, v) m. kv_assign k v m) hs m"

definition request_for :: "ApiClient \<Rightarrow> string \<Rightarrow> string \<Rightarrow> string \<Rightarrow> (string \<times> string) list \<Rightarrow> HttpRequest" where
  "request_for c method path body extraHeaders =
     (let h1 = (if body \<noteq> [] then kv_assign ''Content-Type'' ''application/json'' [] else []);
          cookieHeader = BuildCookieHeader c;
          h2 = (if cookieHeader \<noteq> [] then kv_assign ''Cookie'' cookieHeader h1 else h1);
          h3 = (if IsStateChangingMethod method then
                  (case map_of (ac_cookies c) kCsrfCookieName of
                     Some t \<Rightarrow> kv_assign kCsrfHeaderName t h2 | None \<Rightarrow> h2)
                else h2) in
      \<lparr>hq_url = BuildUrl c path, hq_method = method, hq_body = body, hq_headers = set_headers extraHeaders h3\<rparr>)"

definition ExecuteOnce ::
  "'w transport \<Rightarrow> string \<Rightarrow> string \<Rightarrow> string \<Rightarrow> (string \<times> string) list \<Rightarrow> ('w \<times> ApiClient, HttpResponse) eff" where
  "ExecuteOnce exec method path body extraHeaders = (\<lambda>(w, c).
     case exec (request_for c method path body extraHeaders) w of (r, w') \<Rightarrow> (r, (w', c)))"

definition login_request :: "ApiClient \<Rightarrow> string \<Rightarrow> string \<Rightarrow> HttpRequest" where
  "login_request c mail password =
     \<lparr>hq_url = BuildUrl c ''/api/login'', hq_method = ''POST'',
      hq_body = ToString (JObject [(''email'', JString mail), (''password'', JString password), (''remember'', JBool False)]),
      hq_headers = set_headers (ac_loginHeaders c) (kv_assign ''Content-Type'' ''application/json'' [])\<rparr>"

definition ClientLogin :: "'w transport \<Rightarrow> string \<Rightarrow> string \<Rightarrow> ('w \<times> ApiClient, bool) eff" where
  "ClientLogin exec mail password = (\<lambda>(w, c).
     let c1 = c\<lparr>ac_email := mail, ac_password := password, ac_cookies := []\<rparr> in
     case exec (login_request c1 mail password) w of
       (Inl e, w') \<Rightarrow> (Inl e, (w', c1))
     | (Inr resp, w') \<Rightarrow>
       if hr_statusCode resp = 200 then (Inr True, (w', HarvestSetCookies resp c1)) else (Inr False, (w', c1)))"

definition CallEndpoint ::
  "'w transport \<Rightarrow> string \<Rightarrow> string \<Rightarrow> string \<Rightarrow> (string \<times> string) list \<Rightarrow> ('w \<times> ApiClient, HttpResponse) eff" where
  "CallEndpoint exec method path body extraHeaders =
     bindE (ExecuteOnce exec method path body extraHeaders) (\<lambda>response s.
       if hr_statusCode response = 401 \<and> ac_email (snd s) \<noteq> [] \<and> ac_password (snd s) \<noteq> [] then
         bindE (ClientLogin exec (ac_email (snd s)) (ac_password (snd s)))
           (\<lambda>ok. if ok then ExecuteOnce exec method path body extraHeaders else retE response)
           (fst s, (snd s)\<lparr>ac_cookies := []\<rparr>)
       else (Inr response, s))"

section \<open>Jobs and targets\<close>

record ScheduledJob =
  sj_name :: string
  sj_method :: string
  sj_path :: string
  sj_intervalSeconds :: int
  sj_serverUrl :: string
  sj_email :: string
  sj_password :: string
  sj_headers :: "(string \<times> string) list"

record JobExecutionResult =
  je_jobName :: string
  je_statusCode :: int
  je_success :: bool
  je_errorMessage :: string

definition TargetKey :: "string \<Rightarrow> string \<Rightarrow> string \<Rightarrow> (string \<times> string) list \<Rightarrow> string" where
  "TargetKey serverUrl mail password headers =
     serverUrl @ [CHR 0x0A] @ mail @ [CHR 0x0A] @ password @
       concat (map (\<lambda>(name, value). [CHR 0x0A] @ name @ '': '' @ value) headers)"

definition job_key :: "ScheduledJob \<Rightarrow> string" where
  "job_key j = TargetKey (sj_serverUrl j) (sj_email j) (sj_password j) (sj_headers j)"

text \<open>A handler the event loop is about to run.\<close>

datatype handler = JobTimer nat bool | RefreshTimer bool

record 'w engine =
  en_world :: 'w
  en_jobs :: "ScheduledJob list"
  en_clients :: "string \<Rightarrow> ApiClient option"
  en_started :: bool
  en_timers :: "nat list"
  en_nextTimer :: nat
  en_armed :: "(nat \<times> nat) list"
  en_ready :: "handler list"
  en_lastJobs :: "ScheduledJob list"
  en_initialized :: bool
  en_ran :: "string list"

definition newEngine :: "'w \<Rightarrow> 'w engine" where
  "newEngine w = \<lparr>en_world = w, en_jobs = [], en_clients = Map.empty, en_started = False, en_timers = [],
     en_nextTimer = 0, en_armed = [], en_ready = [], en_lastJobs = [], en_initialized = False, en_ran = []\<rparr>"

definition RegisterJob :: "ScheduledJob \<Rightarrow> 'w engine \<Rightarrow> 'w engine" where
  "RegisterJob j s = (if sj_intervalSeconds j \<le> 0 then s else s\<lparr>en_jobs := en_jobs s @ [j]\<rparr>)"

definition SetJobs :: "ScheduledJob list \<Rightarrow> 'w engine \<Rightarrow> 'w engine" where
  "SetJobs js s = s\<lparr>en_jobs := filter (\<lambda>j. \<not> sj_intervalSeconds j \<le> 0) js, en_clients := Map.empty\<rparr>"

definition EnsureClient :: "ScheduledJob \<Rightarrow> 'w engine \<Rightarrow> 'w engine" where
  "EnsureClient j s =
     (case en_clients s (job_key j) of
        Some _ \<Rightarrow> s
      | None \<Rightarrow> s\<lparr>en_clients := (en_clients s)(job_key j \<mapsto> newApiClient (sj_serverUrl j) (sj_headers j))\<rparr>)"

text \<open>Run a client operation on the client of a target.\<close>

definition on_client :: "string \<Rightarrow> ('w \<times> ApiClient, 'a) eff \<Rightarrow> ('w engine, 'a) eff" where
  "on_client key m s =
     (case en_clients s key of
        None \<Rightarrow> (Inl (Undefined ''null client''), s)
      | Some c \<Rightarrow> (case m (en_world s, c) of
          (r, (w, c')) \<Rightarrow> (r, s\<lparr>en_world := w, en_clients := (en_clients s)(key \<mapsto> c')\<rparr>)))"

fun authenticate_each :: "'w transport \<Rightarrow> ScheduledJob list \<Rightarrow> string list \<Rightarrow> bool \<Rightarrow> ('w engine, bool) eff" where
  "authenticate_each exec [] attempted allOk s = (Inr allOk, s)"
| "authenticate_each exec (j # js) attempted allOk s =
     (if job_key j \<in> set attempted then authenticate_each exec js attempted allOk s
      else case on_client (job_key j) (ClientLogin exec (sj_email j) (sj_password j)) (EnsureClient j s) of
        (Inl e, s') \<Rightarrow> (Inl e, s')
      | (Inr ok, s') \<Rightarrow> authenticate_each exec js (job_key j # attempted) (allOk \<and> ok) s')"

definition AuthenticateTargets :: "'w transport \<Rightarrow> ('w engine, bool) eff" where
  "AuthenticateTargets exec s = authenticate_each exec (en_jobs s) [] True s"

definition FindJob :: "string \<Rightarrow> 'w engine \<Rightarrow> ScheduledJob option" where
  "FindJob jobName s = List.find (\<lambda>j. sj_name j = jobName) (en_jobs s)"

definition RunJobOnce :: "'w transport \<Rightarrow> string \<Rightarrow> ('w engine, JobExecutionResult) eff" where
  "RunJobOnce exec jobName s =
     (case FindJob jobName s of
        None \<Rightarrow> (Inl (OutOfRange (''JobScheduler::RunJobOnce - unknown job: '' @ jobName)), s)
      | Some j \<Rightarrow>
        let s1 = (EnsureClient j s)\<lparr>en_ran := en_ran s @ [sj_path j]\<rparr> in
        (case on_client (job_key j) (CallEndpoint exec (sj_method j) (sj_path j) [] (sj_headers j)) s1 of
           (Inr response, s2) \<Rightarrow>
             (Inr \<lparr>je_jobName = sj_name j, je_statusCode = hr_statusCode response,
                   je_success = (200 \<le> hr_statusCode response \<and> hr_statusCode response < 300), je_errorMessage = []\<rparr>, s2)
         | (Inl e, s2) \<Rightarrow>
             (Inr \<lparr>je_jobName = sj_name j, je_statusCode = 0, je_success = False, je_errorMessage = exn_what e\<rparr>, s2)))"

section \<open>Timers\<close>

text \<open>Cancelling (and re-arming) a timer aborts its pending waits; handlers already queued stay.\<close>

definition cancel_timer :: "nat \<Rightarrow> 'w engine \<Rightarrow> 'w engine" where
  "cancel_timer t s =
     s\<lparr>en_armed := filter (\<lambda>(t', i). t' \<noteq> t) (en_armed s),
       en_ready := en_ready s @ map (\<lambda>(t', i). JobTimer i True) (filter (\<lambda>(t', i). t' = t) (en_armed s))\<rparr>"

definition ScheduleNext :: "nat \<Rightarrow> 'w engine \<Rightarrow> 'w engine" where
  "ScheduleNext i s =
     (if \<not> en_started s \<or> length (en_timers s) \<le> i then s
      else let t = en_timers s ! i; s1 = cancel_timer t s in s1\<lparr>en_armed := en_armed s1 @ [(t, i)]\<rparr>)"

definition Start :: "'w engine \<Rightarrow> 'w engine" where
  "Start s =
     (if en_started s then s
      else let n = length (en_jobs s);
               s1 = s\<lparr>en_started := True, en_timers := [en_nextTimer s..<en_nextTimer s + n], en_nextTimer := en_nextTimer s + n\<rparr> in
        fold ScheduleNext [0..<n] s1)"

definition Stop :: "'w engine \<Rightarrow> 'w engine" where
  "Stop s = (fold cancel_timer (en_timers s) (s\<lparr>en_started := False\<rparr>))\<lparr>en_timers := []\<rparr>"

text \<open>The completion handler of a job's timer. \<open>jobs_[jobIndex]\<close> is not checked.\<close>

definition job_handler :: "'w transport \<Rightarrow> nat \<Rightarrow> bool \<Rightarrow> ('w engine, unit) eff" where
  "job_handler exec i aborted s =
     (if aborted \<or> \<not> en_started s then (Inr (), s)
      else if length (en_jobs s) \<le> i then (Inl (Undefined ''jobs_[jobIndex] past the end''), s)
      else bindE (RunJobOnce exec (sj_name (en_jobs s ! i))) (\<lambda>_ s'. (Inr (), ScheduleNext i s')) s)"

section \<open>Reloading the jobs\<close>

type_synonym 'w provider = "('w, ScheduledJob list) eff"

definition Initialize :: "'w transport \<Rightarrow> 'w provider option \<Rightarrow> ScheduledJob list \<Rightarrow> ('w engine, bool) eff" where
  "Initialize exec provider initial s =
     (case (case provider of None \<Rightarrow> (Inr initial, s)
            | Some p \<Rightarrow> (case p (en_world s) of
                (Inl e, w) \<Rightarrow> (Inl e, s\<lparr>en_world := w\<rparr>)
              | (Inr js, w) \<Rightarrow> (Inr js, s\<lparr>en_world := w, en_lastJobs := js\<rparr>))) of
        (Inl e, s') \<Rightarrow> (Inl e, s')
      | (Inr js, s') \<Rightarrow>
        bindE (AuthenticateTargets exec)
          (\<lambda>ok s. if ok then (Inr True, s\<lparr>en_initialized := True\<rparr>) else (Inr False, s))
          (fold RegisterJob js s'))"

text \<open>\<open>AuthenticateTargets\<close> is called outside the \<open>try\<close> that guards the provider.\<close>

definition Refresh :: "'w transport \<Rightarrow> 'w provider option \<Rightarrow> ('w engine, bool) eff" where
  "Refresh exec provider s =
     (case provider of
        None \<Rightarrow> (Inr False, s)
      | Some p \<Rightarrow>
        (case p (en_world s) of
           (Inl e, w) \<Rightarrow> (Inr False, s\<lparr>en_world := w\<rparr>)
         | (Inr next, w) \<Rightarrow>
           if next = en_lastJobs s then (Inr False, s\<lparr>en_world := w\<rparr>)
           else bindE (AuthenticateTargets exec) (\<lambda>_ s'. (Inr True, Start s'))
                  (SetJobs next (Stop (s\<lparr>en_world := w, en_lastJobs := next\<rparr>)))))"

text \<open>
  The event loop: a pending wait expires, which queues its handler with success, or the first queued
  handler runs.
\<close>

datatype event = Expire nat | RefreshDue | RunNext

fun loop_step :: "'w transport \<Rightarrow> 'w provider option \<Rightarrow> event \<Rightarrow> ('w engine, unit) eff" where
  "loop_step exec provider (Expire k) s =
     (if k < length (en_armed s)
      then (Inr (), s\<lparr>en_ready := en_ready s @ [JobTimer (snd (en_armed s ! k)) False],
                      en_armed := take k (en_armed s) @ drop (Suc k) (en_armed s)\<rparr>)
      else (Inr (), s))"
| "loop_step exec provider RefreshDue s = (Inr (), s\<lparr>en_ready := en_ready s @ [RefreshTimer False]\<rparr>)"
| "loop_step exec provider RunNext s =
     (case en_ready s of
        [] \<Rightarrow> (Inr (), s)
      | JobTimer i aborted # hs \<Rightarrow> job_handler exec i aborted (s\<lparr>en_ready := hs\<rparr>)
      | RefreshTimer aborted # hs \<Rightarrow>
          if aborted then (Inr (), s\<lparr>en_ready := hs\<rparr>)
          else bindE (Refresh exec provider) (\<lambda>_ s'. (Inr (), s')) (s\<lparr>en_ready := hs\<rparr>))"

fun loop :: "'w transport \<Rightarrow> 'w provider option \<Rightarrow> event list \<Rightarrow> ('w engine, unit) eff" where
  "loop exec provider [] s = (Inr (), s)"
| "loop exec provider (e # es) s = bindE (loop_step exec provider e) (\<lambda>_. loop exec provider es) s"

section \<open>Keys and cookies\<close>

lemma lines_inj:
  assumes "l @ concat (map ((#) x) ls) = l' @ concat (map ((#) x) ls')" "x \<notin> set l" "x \<notin> set l'"
    and "\<forall>k \<in> set ls \<union> set ls'. x \<notin> set k"
  shows "l = l' \<and> ls = ls'"
  using assms
proof (induction ls arbitrary: l l' ls')
  case Nil
  then show ?case by (cases ls') auto
next
  case (Cons k ls)
  show ?case
  proof (cases ls')
    case Nil
    with Cons.prems show ?thesis by (auto dest: arg_cong [of _ _ set])
  next
    case ls': (Cons k' ks)
    have "takeWhile (\<lambda>c. c \<noteq> x) (l @ x # k @ concat (map ((#) x) ls)) = takeWhile (\<lambda>c. c \<noteq> x) (l' @ x # k' @ concat (map ((#) x) ks))"
      using Cons.prems(1) ls' by simp
    then have "l = l'" by (simp only: takeWhile_to(1) [OF Cons.prems(2)] takeWhile_to(1) [OF Cons.prems(3)])
    with Cons.prems ls' have "k = k' \<and> ls = ks" by (intro Cons.IH) simp_all
    with ls' \<open>l = l'\<close> show ?thesis by simp
  qed
qed

definition header_line :: "string \<times> string \<Rightarrow> string" where
  "header_line h = fst h @ '': '' @ snd h"

lemma header_line_inj:
  "CHR '':'' \<notin> set (fst h) \<Longrightarrow> CHR '':'' \<notin> set (fst h') \<Longrightarrow> header_line h = header_line h' \<Longrightarrow> h = h'"
proof -
  assume n: "CHR '':'' \<notin> set (fst h)" "CHR '':'' \<notin> set (fst h')" and eq: "header_line h = header_line h'"
  from arg_cong [OF eq, of "takeWhile (\<lambda>c. c \<noteq> CHR '':'')"] have "fst h = fst h'"
    using n by (simp add: header_line_def takeWhile_to)
  with eq show "h = h'" by (simp add: header_line_def prod_eq_iff)
qed

lemma map_header_line_inj:
  "map header_line hs = map header_line hs' \<Longrightarrow> \<forall>h \<in> set hs \<union> set hs'. CHR '':'' \<notin> set (fst h) \<Longrightarrow> hs = hs'"
proof (induction hs arbitrary: hs')
  case (Cons h hs)
  then obtain h' hs'' where "hs' = h' # hs''" by (cases hs') auto
  with Cons header_line_inj [of h h'] show ?case by auto
qed simp

lemma TargetKey_lines:
  "TargetKey u e p hs = u @ concat (map ((#) (CHR 0x0A)) (e # p # map header_line hs))"
  by (simp add: TargetKey_def header_line_def comp_def case_prod_unfold)

lemma BuildCookieHeader_eq: "BuildCookieHeader c = cookie_header (ac_cookies c)"
proof -
  have more: "fold (\<lambda>(name, value) out. (if out \<noteq> [] then out @ ''; '' else out) @ name @ ''='' @ value) cs (cookie_header acc)
      = cookie_header (acc @ cs)" if "acc \<noteq> []" for acc cs
    using that
  proof (induction cs arbitrary: acc)
    case (Cons nv cs)
    obtain n v where nv: "nv = (n, v)" by fastforce
    have "cookie_header acc \<noteq> []" using Cons.prems by (cases acc rule: cookie_header.cases) auto
    moreover have "cookie_header (acc @ [(n, v)]) = cookie_header acc @ ''; '' @ n @ ''='' @ v"
      using Cons.prems by (induction acc rule: cookie_header.induct) auto
    ultimately show ?case using Cons.IH [of "acc @ [(n, v)]"] nv by simp
  qed simp
  show ?thesis
  proof (cases "ac_cookies c")
    case (Cons nv cs)
    obtain n v where "nv = (n, v)" by fastforce
    with Cons more [of "[(n, v)]" cs] show ?thesis by (simp add: BuildCookieHeader_def)
  qed (simp add: BuildCookieHeader_def)
qed

section \<open>Waits of a running schedule\<close>

definition waits :: "nat \<Rightarrow> 'w engine \<Rightarrow> nat" where
  "waits i s = length (filter (\<lambda>(t, k). k = i) (en_armed s)) + length (filter (\<lambda>h. h = JobTimer i False) (en_ready s))"

definition scheduled :: "'w engine \<Rightarrow> bool" where
  "scheduled s \<longleftrightarrow> en_started s \<and> length (en_timers s) = length (en_jobs s) \<and> distinct (en_timers s) \<and>
     (\<forall>i < length (en_jobs s). waits i s = 1) \<and>
     (\<forall>(t, i) \<in> set (en_armed s). i < length (en_jobs s) \<and> t = en_timers s ! i) \<and>
     (\<forall>i. JobTimer i False \<in> set (en_ready s) \<longrightarrow> i < length (en_jobs s))"

text \<open>The parts of the engine that calls of endpoints leave alone.\<close>

definition same_schedule :: "'w engine \<Rightarrow> 'w engine \<Rightarrow> bool" where
  "same_schedule s s' \<longleftrightarrow> en_started s' = en_started s \<and> en_timers s' = en_timers s \<and> en_jobs s' = en_jobs s \<and>
     en_armed s' = en_armed s \<and> en_ready s' = en_ready s \<and> en_lastJobs s' = en_lastJobs s"

lemma on_client_schedule: "on_client k m s = (r, s') \<Longrightarrow> same_schedule s s'"
  by (auto simp: on_client_def same_schedule_def split: option.splits prod.splits)

lemma EnsureClient_schedule: "same_schedule s (EnsureClient j s)"
  by (simp add: EnsureClient_def same_schedule_def split: option.splits)

lemma same_schedule_trans: "same_schedule a b \<Longrightarrow> same_schedule b c \<Longrightarrow> same_schedule a c"
  by (simp add: same_schedule_def)

lemma EnsureClient_there: "en_clients (EnsureClient j s) (job_key j) \<noteq> None"
  by (simp add: EnsureClient_def split: option.splits)

lemma RunJobOnce_known:
  assumes "i < length (en_jobs s)"
  obtains res s' where "RunJobOnce exec (sj_name (en_jobs s ! i)) s = (Inr res, s')" "same_schedule s s'"
proof -
  have "FindJob (sj_name (en_jobs s ! i)) s \<noteq> None"
    using assms by (auto simp: FindJob_def find_None_iff dest: nth_mem)
  then obtain j where j: "FindJob (sj_name (en_jobs s ! i)) s = Some j" by blast
  define s1 where "s1 = (EnsureClient j s)\<lparr>en_ran := en_ran s @ [sj_path j]\<rparr>"
  have "same_schedule s s1"
    using EnsureClient_schedule [of s j] by (simp add: s1_def same_schedule_def)
  moreover obtain r s2 where c: "on_client (job_key j) (CallEndpoint exec (sj_method j) (sj_path j) [] (sj_headers j)) s1 = (r, s2)"
    by fastforce
  ultimately have "same_schedule s s2" using on_client_schedule same_schedule_trans by blast
  with that j c show thesis
    by (cases r) (simp_all add: RunJobOnce_def s1_def [symmetric] Let_def)
qed

lemma ScheduleNext_idle:
  assumes "en_started s" "i < length (en_timers s)" "\<forall>k. (en_timers s ! i, k) \<notin> set (en_armed s)"
  shows "ScheduleNext i s = s\<lparr>en_armed := en_armed s @ [(en_timers s ! i, i)]\<rparr>"
proof -
  have "filter (\<lambda>(t', k). t' \<noteq> en_timers s ! i) (en_armed s) = en_armed s"
    "filter (\<lambda>(t', k). t' = en_timers s ! i) (en_armed s) = []"
    using assms(3) by (auto simp: filter_id_conv filter_empty_conv)
  with assms show ?thesis by (simp add: ScheduleNext_def cancel_timer_def Let_def)
qed

lemma scheduled_same: "scheduled s \<Longrightarrow> same_schedule s s' \<Longrightarrow> scheduled s'"
  by (simp add: scheduled_def same_schedule_def waits_def)

lemma scheduled_handler:
  assumes "scheduled s" "en_ready s = JobTimer i False # hs"
  shows "\<exists>s'. job_handler exec i False (s\<lparr>en_ready := hs\<rparr>) = (Inr (), s') \<and> scheduled s' \<and> en_jobs s' = en_jobs s"
proof -
  let ?s0 = "s\<lparr>en_ready := hs\<rparr>"
  have i: "i < length (en_jobs ?s0)" and st: "en_started s" "length (en_timers s) = length (en_jobs s)" "distinct (en_timers s)"
    using assms by (auto simp: scheduled_def)
  obtain res s1 where run: "RunJobOnce exec (sj_name (en_jobs ?s0 ! i)) ?s0 = (Inr res, s1)" and same: "same_schedule ?s0 s1"
    using RunJobOnce_known [OF i] by metis
  have w: "waits i s = 1" using assms(1) i by (simp add: scheduled_def)
  then have none: "filter (\<lambda>(t, k). k = i) (en_armed s) = []" "filter (\<lambda>h. h = JobTimer i False) hs = []"
    using assms(2) by (simp_all add: waits_def)
  have armed: "(en_timers s ! i, k) \<notin> set (en_armed s)" for k
  proof
    assume "(en_timers s ! i, k) \<in> set (en_armed s)"
    then have "k < length (en_jobs s)" "en_timers s ! i = en_timers s ! k" using assms(1) by (auto simp: scheduled_def)
    then have "k = i" using st i by (simp add: nth_eq_iff_index_eq)
    with \<open>(en_timers s ! i, k) \<in> set (en_armed s)\<close> none(1) show False by (auto simp: filter_empty_conv)
  qed
  have nxt: "ScheduleNext i s1 = s1\<lparr>en_armed := en_armed s1 @ [(en_timers s1 ! i, i)]\<rparr>"
    using same st i armed by (intro ScheduleNext_idle) (simp_all add: same_schedule_def)
  have "job_handler exec i False ?s0 = (Inr (), ScheduleNext i s1)"
    using i run st(1) by (simp add: job_handler_def bindE_def)
  moreover have "scheduled (ScheduleNext i s1)"
  proof -
    have "waits k (ScheduleNext i s1) = 1" if "k < length (en_jobs s)" for k
    proof (cases "k = i")
      case True
      then show ?thesis using same none by (simp add: nxt waits_def same_schedule_def)
    next
      case False
      moreover have "waits k s = 1" using assms(1) that by (simp add: scheduled_def)
      ultimately show ?thesis using same assms(2) by (simp add: nxt waits_def same_schedule_def)
    qed
    with same assms st i show ?thesis by (auto simp: scheduled_def nxt same_schedule_def)
  qed
  ultimately show ?thesis using same nxt by (auto simp: same_schedule_def)
qed

lemma ScheduleNext_fold:
  assumes "en_started s" "distinct (en_timers s)" "n \<le> length (en_timers s)" "en_armed s = []"
  shows "fold ScheduleNext [0..<n] s = s\<lparr>en_armed := map (\<lambda>i. (en_timers s ! i, i)) [0..<n]\<rparr>"
  using assms(3)
proof (induction n)
  case 0
  with assms(4) show ?case by simp
next
  case (Suc n)
  let ?s = "s\<lparr>en_armed := map (\<lambda>i. (en_timers s ! i, i)) [0..<n]\<rparr>"
  have "ScheduleNext n ?s = ?s\<lparr>en_armed := en_armed ?s @ [(en_timers ?s ! n, n)]\<rparr>"
    using assms(1,2) Suc.prems by (intro ScheduleNext_idle) (auto simp: nth_eq_iff_index_eq)
  with Suc show ?case by simp
qed

lemma Start_scheduled:
  assumes "\<not> en_started s" "en_armed s = []" "\<forall>i. JobTimer i False \<notin> set (en_ready s)"
  shows "scheduled (Start s) \<and> en_jobs (Start s) = en_jobs s"
proof -
  let ?n = "length (en_jobs s)"
  let ?s1 = "s\<lparr>en_started := True, en_timers := [en_nextTimer s..<en_nextTimer s + ?n], en_nextTimer := en_nextTimer s + ?n\<rparr>"
  have "Start s = ?s1\<lparr>en_armed := map (\<lambda>i. (en_timers ?s1 ! i, i)) [0..<?n]\<rparr>"
    using assms(1,2) ScheduleNext_fold [of ?s1 ?n] by (simp add: Start_def Let_def)
  moreover have "filter (\<lambda>h. h = JobTimer i False) (en_ready s) = []" for i
    using assms(3) by (auto simp: filter_empty_conv)
  moreover have "length (filter (\<lambda>(t, k). k = i) (map (\<lambda>i. (f i, i)) [0..<m])) = (if i < m then 1 else 0)" for i m and f :: "nat \<Rightarrow> nat"
    by (induction m) auto
  ultimately show ?thesis using assms(3) by (auto simp: scheduled_def waits_def)
qed

lemma scheduled_step:
  assumes "scheduled s"
  shows "\<exists>s'. loop_step exec None e s = (Inr (), s') \<and> scheduled s' \<and> en_jobs s' = en_jobs s"
proof (cases e)
  case (Expire k)
  show ?thesis
  proof (cases "k < length (en_armed s)")
    case True
    obtain t i where ti: "en_armed s ! k = (t, i)" by fastforce
    let ?s' = "s\<lparr>en_ready := en_ready s @ [JobTimer i False], en_armed := take k (en_armed s) @ drop (Suc k) (en_armed s)\<rparr>"
    have split: "en_armed s = take k (en_armed s) @ (t, i) # drop (Suc k) (en_armed s)"
      using True ti by (metis id_take_nth_drop)
    have "waits j ?s' = waits j s" for j
      unfolding waits_def by (subst (3) split) simp
    moreover have "(t, i) \<in> set (en_armed s)" using True ti by (metis nth_mem)
    moreover have "set (take k (en_armed s) @ drop (Suc k) (en_armed s)) \<subseteq> set (en_armed s)"
      by (auto dest: in_set_takeD in_set_dropD)
    ultimately have "scheduled ?s'" using assms unfolding scheduled_def by simp blast
    with Expire True ti show ?thesis by simp
  qed (use assms Expire in simp)
next
  case RefreshDue
  with assms show ?thesis by (simp add: scheduled_def waits_def)
next
  case RunNext
  show ?thesis
  proof (cases "en_ready s")
    case Nil
    with assms RunNext show ?thesis by simp
  next
    case (Cons h hs)
    have drop: "scheduled (s\<lparr>en_ready := hs\<rparr>)" if "\<forall>i. h \<noteq> JobTimer i False"
      using assms Cons that by (auto simp: scheduled_def waits_def)
    show ?thesis
    proof (cases h)
      case (JobTimer i aborted)
      show ?thesis
      proof (cases aborted)
        case True
        with drop JobTimer RunNext Cons show ?thesis by (simp add: job_handler_def)
      next
        case False
        with scheduled_handler [OF assms] JobTimer RunNext Cons show ?thesis by simp
      qed
    next
      case (RefreshTimer aborted)
      with drop RunNext Cons show ?thesis by (simp add: Refresh_def bindE_def)
    qed
  qed
qed

lemma scheduled_loop: "scheduled s \<Longrightarrow> \<exists>s'. loop exec None es s = (Inr (), s') \<and> scheduled s' \<and> en_jobs s' = en_jobs s"
proof (induction es arbitrary: s)
  case (Cons e es)
  obtain s1 where s1: "loop_step exec None e s = (Inr (), s1)" "scheduled s1" "en_jobs s1 = en_jobs s"
    using scheduled_step [OF Cons.prems] by blast
  with Cons.IH [OF s1(2)] show ?case by (simp add: bindE_def)
qed simp

section \<open>The client behind the guards\<close>

text \<open>A request of the client as the server's guards see it.\<close>

definition method_of :: "string \<Rightarrow> HTTPMethod" where
  "method_of m = (if m = ''GET'' then Get else if m = ''POST'' then Post else if m = ''PUT'' then Put
     else if m = ''PATCH'' then Patch else if m = ''DELETE'' then Delete else OtherMethod)"

definition received :: "HttpRequest \<Rightarrow> request" where
  "received q = \<lparr>req_method = method_of (hq_method q), req_url = hq_url q,
     req_header = (\<lambda>k. case map_of (hq_headers q) k of Some v \<Rightarrow> v | None \<Rightarrow> []), remote_ip_address = []\<rparr>"

lemma set_headers_other:
  "kvt_ok m \<Longrightarrow> k \<notin> fst ` set hs \<Longrightarrow> map_of (set_headers hs m) k = map_of m k"
  unfolding set_headers_def
  by (induction hs arbitrary: m) (auto simp: kvt_ok_assign map_of_kv_assign)

lemma method_of_changing: "IsStateChanging (method_of m) \<Longrightarrow> IsStateChangingMethod m"
  by (auto simp: IsStateChanging_def method_of_def IsStateChangingMethod_def IEquals_def split: if_splits)

lemma request_for_headers:
  assumes "''Cookie'' \<notin> fst ` set hs" "''X-CSRF-Token'' \<notin> fst ` set hs" "ac_cookies c \<noteq> []"
    and "map_of (ac_cookies c) ''csrft'' = Some t" "IsStateChangingMethod m"
  shows "map_of (hq_headers (request_for c m path body hs)) ''Cookie'' = Some (cookie_header (ac_cookies c))"
    and "map_of (hq_headers (request_for c m path body hs)) ''X-CSRF-Token'' = Some t"
proof -
  have ne: "cookie_header (ac_cookies c) \<noteq> []"
    using assms(3) by (cases "ac_cookies c" rule: cookie_header.cases) auto
  let ?h1 = "if body \<noteq> [] then kv_assign ''Content-Type'' ''application/json'' [] else []"
  have ok: "kvt_ok (kv_assign ''X-CSRF-Token'' t (kv_assign ''Cookie'' (cookie_header (ac_cookies c)) ?h1))"
    by (intro kvt_ok_assign) simp
  have eq: "hq_headers (request_for c m path body hs) =
      set_headers hs (kv_assign ''X-CSRF-Token'' t (kv_assign ''Cookie'' (cookie_header (ac_cookies c)) ?h1))"
    using assms(4,5) ne by (simp add: request_for_def Let_def BuildCookieHeader_eq kCsrfCookieName_def kCsrfHeaderName_def)
  show "map_of (hq_headers (request_for c m path body hs)) ''Cookie'' = Some (cookie_header (ac_cookies c))"
    unfolding eq set_headers_other [OF ok assms(1)] by (simp add: map_of_kv_assign kvt_ok_assign)
  show "map_of (hq_headers (request_for c m path body hs)) ''X-CSRF-Token'' = Some t"
    unfolding eq set_headers_other [OF ok assms(2)] by (simp add: map_of_kv_assign kvt_ok_assign)
qed

section \<open>Properties\<close>

text \<open>
  C26. A job set that is not reloaded is never lost: from \<open>Start\<close> on, whatever the servers answer and in
  whatever order timers expire and handlers run, no handler fails, and each job has exactly one wait that
  is pending or about to be served.
\<close>

theorem every_job_stays_scheduled:
  assumes "\<not> en_started s" "en_armed s = []" "en_ready s = []"
  shows "\<exists>s'. loop exec None es (Start s) = (Inr (), s') \<and> en_jobs s' = en_jobs s \<and>
    (\<forall>i < length (en_jobs s). waits i s' = 1)"
proof -
  have "scheduled (Start s)" "en_jobs (Start s) = en_jobs s" using Start_scheduled [of s] assms by simp_all
  with scheduled_loop [of "Start s" exec es] show ?thesis by (auto simp: scheduled_def)
qed

definition demo_job :: "string \<Rightarrow> string \<Rightarrow> ScheduledJob" where
  "demo_job n p = \<lparr>sj_name = n, sj_method = ''POST'', sj_path = p, sj_intervalSeconds = 60, sj_serverUrl = ''http://h'',
     sj_email = ''e'', sj_password = ''p'', sj_headers = []\<rparr>"

definition deaf :: "nat transport" where
  "deaf q n = (Inl (RuntimeError ''CURL error''), n + 1)"

definition two_jobs :: "nat engine" where
  "two_jobs = (newEngine 0)\<lparr>en_jobs := [demo_job ''a'' ''/a'', demo_job ''b'' ''/b'']\<rparr>"

theorem every_job_stays_scheduled_witness:
  "\<exists>s'. loop deaf None [Expire 1, RunNext, Expire 0, RunNext] (Start two_jobs) = (Inr (), s') \<and> waits 0 s' = 1 \<and> waits 1 s' = 1"
  using every_job_stays_scheduled [of two_jobs deaf "[Expire 1, RunNext, Expire 0, RunNext]"]
  by (auto simp: two_jobs_def newEngine_def)

text \<open>
  A reload of the job set that overtakes a timer which has expired ends in undefined behaviour: the
  handler of the second job is already queued with success, the refresh runs first and puts one job in
  place of two, and the handler reads the job list past its end.
\<close>

theorem reload_overtakes_expired_timer:
  "fst (loop (\<lambda>q n. (Inr \<lparr>hr_statusCode = 200, hr_body = [], hr_headers = [], hr_setCookies = []\<rparr>, n))
      (Some (\<lambda>n. (Inr [demo_job ''a'' ''/a''], n))) [RefreshDue, Expire 1, RunNext, RunNext] (Start two_jobs))
   = Inl (Undefined ''jobs_[jobIndex] past the end'')"
  by (simp add: two_jobs_def newEngine_def Start_def ScheduleNext_def cancel_timer_def Let_def upt_rec bindE_def
      Refresh_def SetJobs_def Stop_def demo_job_def AuthenticateTargets_def on_client_def EnsureClient_def
      ClientLogin_def HarvestSetCookies_def job_handler_def job_key_def TargetKey_def)

text \<open>
  When a login of a reload throws (the server does not answer), the exception leaves \<open>Refresh\<close> with
  the old timers stopped and none started, and the new set remembered as the running one: asking again
  changes nothing, so no job runs any more.
\<close>

theorem reload_login_error_stops_all:
  assumes "p (en_world s) = (Inr js, w)" "js \<noteq> en_lastJobs s" "\<exists>j \<in> set js. 0 < sj_intervalSeconds j"
    and "\<And>q w. \<exists>e w'. exec q w = (Inl e, w')" "\<And>w. \<exists>w'. p w = (Inr js, w')"
  shows "\<exists>e s'. Refresh exec (Some p) s = (Inl e, s') \<and> \<not> en_started s' \<and> en_timers s' = [] \<and>
    (\<exists>s''. Refresh exec (Some p) s' = (Inr False, s'') \<and> \<not> en_started s'' \<and> en_timers s'' = [])"
proof -
  let ?s1 = "SetJobs js (Stop (s\<lparr>en_world := w, en_lastJobs := js\<rparr>))"
  obtain j rest where jobs: "en_jobs ?s1 = j # rest"
    using assms(3) by (cases "en_jobs ?s1") (auto simp: SetJobs_def filter_empty_conv)
  obtain e s2 where login: "on_client (job_key j) (ClientLogin exec (sj_email j) (sj_password j)) (EnsureClient j ?s1) = (Inl e, s2)"
  proof -
    obtain c where c: "en_clients (EnsureClient j ?s1) (job_key j) = Some c" using EnsureClient_there by blast
    let ?c1 = "c\<lparr>ac_email := sj_email j, ac_password := sj_password j, ac_cookies := []\<rparr>"
    obtain e w' where "exec (login_request ?c1 (sj_email j) (sj_password j)) (en_world (EnsureClient j ?s1)) = (Inl e, w')"
      using assms(4) by blast
    with c that show thesis by (simp add: on_client_def ClientLogin_def Let_def)
  qed
  have same: "same_schedule ?s1 s2"
    using EnsureClient_schedule on_client_schedule [OF login] same_schedule_trans by blast
  have stop: "\<not> en_started ?s1" "en_timers ?s1 = []" "en_lastJobs ?s1 = js"
  proof -
    have "en_started (fold cancel_timer ts s) = en_started s \<and> en_lastJobs (fold cancel_timer ts s) = en_lastJobs s" for ts and s :: "'a engine"
      by (induction ts arbitrary: s) (simp_all add: cancel_timer_def)
    then show "\<not> en_started ?s1" "en_timers ?s1 = []" "en_lastJobs ?s1 = js" by (simp_all add: SetJobs_def Stop_def)
  qed
  have "AuthenticateTargets exec ?s1 = (Inl e, s2)" using login jobs by (simp add: AuthenticateTargets_def)
  then have first: "Refresh exec (Some p) s = (Inl e, s2)"
    using assms(1,2) by (simp add: Refresh_def bindE_def)
  obtain w' where "p (en_world s2) = (Inr js, w')" using assms(5) by blast
  then have "Refresh exec (Some p) s2 = (Inr False, s2\<lparr>en_world := w'\<rparr>)"
    using same stop(3) by (simp add: Refresh_def same_schedule_def)
  with first same stop(1,2) show ?thesis by (auto simp: same_schedule_def)
qed

theorem reload_login_error_stops_all_witness:
  "\<exists>e s'. Refresh deaf (Some (\<lambda>n. (Inr [demo_job ''c'' ''/c''], n))) (Start two_jobs) = (Inl e, s') \<and> \<not> en_started s' \<and> en_timers s' = []"
  using reload_login_error_stops_all [of "\<lambda>n. (Inr [demo_job ''c'' ''/c''], n)" "Start two_jobs" "[demo_job ''c'' ''/c'']" "en_world (Start two_jobs)" deaf]
  by (auto simp: deaf_def demo_job_def two_jobs_def newEngine_def Start_def ScheduleNext_def cancel_timer_def Let_def upt_rec)

text \<open>
  Jobs are run by name: the timer of a job runs the first job of that name, so a job that shares its
  name with an earlier one is never run, and the earlier one runs in its place.
\<close>

theorem job_runs_first_of_its_name:
  assumes "RunJobOnce exec (sj_name (en_jobs s ! i)) s = (Inr res, s')" "i < length (en_jobs s)"
  shows "\<exists>j \<le> i. sj_name (en_jobs s ! j) = sj_name (en_jobs s ! i) \<and> en_ran s' = en_ran s @ [sj_path (en_jobs s ! j)] \<and>
    (\<forall>k < j. sj_name (en_jobs s ! k) \<noteq> sj_name (en_jobs s ! i))"
proof -
  obtain job where find: "FindJob (sj_name (en_jobs s ! i)) s = Some job"
    using assms(1) by (cases "FindJob (sj_name (en_jobs s ! i)) s") (auto simp: RunJobOnce_def)
  then obtain j where j: "j < length (en_jobs s)" "sj_name (en_jobs s ! j) = sj_name (en_jobs s ! i)" "job = en_jobs s ! j"
    "\<forall>k < j. sj_name (en_jobs s ! k) \<noteq> sj_name (en_jobs s ! i)"
    by (auto simp: FindJob_def find_Some_iff)
  have ran: "en_ran s2 = en_ran s1" if "on_client k m s1 = (r, s2)" for k s1 r s2 and m :: "('a \<times> ApiClient, HttpResponse) eff"
    using that by (auto simp: on_client_def split: option.splits prod.splits)
  have "en_ran s' = en_ran s @ [sj_path job]"
    using assms(1) find by (auto simp: RunJobOnce_def Let_def split: prod.splits sum.splits dest!: ran)
  moreover have "j \<le> i" using j(4) by (metis not_le)
  ultimately show ?thesis using j by blast
qed

theorem job_runs_first_of_its_name_witness:
  "\<exists>res s'. RunJobOnce deaf ''a'' (two_jobs\<lparr>en_jobs := [demo_job ''a'' ''/a'', demo_job ''a'' ''/b'']\<rparr>) = (Inr res, s') \<and> en_ran s' = [''/a'']"
proof -
  let ?s = "two_jobs\<lparr>en_jobs := [demo_job ''a'' ''/a'', demo_job ''a'' ''/b'']\<rparr>"
  obtain res s' where run: "RunJobOnce deaf (sj_name (en_jobs ?s ! 1)) ?s = (Inr res, s')"
    by (rule RunJobOnce_known [of 1 ?s deaf]) simp_all
  have "\<exists>j \<le> 1. en_ran s' = en_ran ?s @ [sj_path (en_jobs ?s ! j)] \<and> (\<forall>k < j. sj_name (en_jobs ?s ! k) \<noteq> sj_name (en_jobs ?s ! 1))"
    using job_runs_first_of_its_name [OF run] by auto
  then have "en_ran s' = [''/a'']"
    by (auto simp: demo_job_def two_jobs_def newEngine_def less_Suc_eq le_Suc_eq)
  with run show ?thesis by (auto simp: demo_job_def)
qed

text \<open>
  Two jobs share a login session exactly when server, account, password and headers agree, for
  texts without line ends and header names without a colon: no two targets collide.
\<close>

theorem TargetKey_injective:
  assumes "\<forall>x \<in> {u, e, p, u', e', p'}. CHR 0x0A \<notin> set x"
    and "\<forall>(n, v) \<in> set hs \<union> set hs'. CHR 0x0A \<notin> set n \<and> CHR 0x0A \<notin> set v \<and> CHR '':'' \<notin> set n"
  shows "TargetKey u e p hs = TargetKey u' e' p' hs' \<longleftrightarrow> u = u' \<and> e = e' \<and> p = p' \<and> hs = hs'"
proof
  assume eq: "TargetKey u e p hs = TargetKey u' e' p' hs'"
  have "CHR 0x0A \<notin> set (header_line h)" if "h \<in> set hs \<union> set hs'" for h
    using bspec [OF assms(2) that] by (cases h) (simp add: header_line_def)
  then have "\<forall>k \<in> set (e # p # map header_line hs) \<union> set (e' # p' # map header_line hs'). CHR 0x0A \<notin> set k"
    using assms(1) by auto
  from lines_inj [OF eq [unfolded TargetKey_lines] _ _ this] assms(1)
  have "u = u'" "e = e'" "p = p'" "map header_line hs = map header_line hs'" by simp_all
  moreover from this(4) have "hs = hs'"
    using assms(2) by (intro map_header_line_inj) auto
  ultimately show "u = u' \<and> e = e' \<and> p = p' \<and> hs = hs'" by simp
qed simp

theorem TargetKey_injective_witness:
  "TargetKey ''http://h'' ''e'' ''p'' [(''X-Honuware-Site'', ''alpha'')] \<noteq> TargetKey ''http://h'' ''e'' ''p'' [(''X-Honuware-Site'', ''beta'')]"
  by (subst TargetKey_injective) simp_all

text \<open>
  Once logged in, the client passes the server's forgery guard: every request it builds, of any
  method and to any path, carries the whole cookie jar and, when it changes state, the token of the
  \<open>csrft\<close> cookie, and the guard lets it through.
\<close>

theorem client_passes_csrf_guard:
  assumes "map_of (ac_cookies c) ''csrft'' = Some t" "t \<noteq> []"
    and "list_all (\<lambda>(k, v). cookie_text k \<and> cookie_text v) (ac_cookies c)"
    and "''Cookie'' \<notin> fst ` set hs" "''X-CSRF-Token'' \<notin> fst ` set hs"
  shows "fst (CsrfGuard_before_handle now (received (request_for c m path body hs)) g) = Pass"
proof (cases "IsStateChanging (method_of m)")
  case False
  then show ?thesis by (simp add: CsrfGuard_before_handle_def received_def request_for_def Let_def)
next
  case True
  have ne: "ac_cookies c \<noteq> []" using assms(1) by auto
  note h = request_for_headers [OF assms(4,5) ne assms(1) method_of_changing [OF True]]
  have "GetCookieValue (cookie_header (ac_cookies c)) kCsrfCookieName = t"
    using GetCookieValue_rendered [OF assms(3), of "[]" kCsrfCookieName] ne assms(1) by (simp add: kCsrfCookieName_def)
  with h assms(2) show ?thesis
    by (simp add: CsrfGuard_before_handle_def received_def ConstantTimeEqual_iff kCsrfHeaderName_def Let_def)
qed

theorem client_passes_csrf_guard_witness:
  "fst (CsrfGuard_before_handle 0 (received (request_for ((newApiClient ''http://h/'' [])\<lparr>ac_cookies := [(''csrft'', ''tok''), (''session'', ''u1'')]\<rparr>)
     ''POST'' ''/api/admin/run'' [] [(''X-Honuware-Site'', ''alpha'')])) \<lparr>csrf_enabled = True, csrf_lastRejectLog = 0\<rparr>) = Pass"
  by (rule client_passes_csrf_guard [where t = "''tok''"]) (simp_all add: newApiClient_def cookie_text_def)

text \<open>
  A call of an endpoint is one request; after a 401, and only with stored credentials, it is
  followed by one login and, when that succeeds, by the same call once more with the new cookies. It is
  never repeated further.
\<close>

definition recording :: "'w transport \<Rightarrow> (HttpRequest list \<times> 'w) transport" where
  "recording exec q = (\<lambda>(qs, w). case exec q w of (r, w') \<Rightarrow> (r, (qs @ [q], w')))"

theorem call_endpoint_traffic:
  "\<exists>c'. fst (fst (snd (CallEndpoint (recording exec) m path body hs ((qs, w), c)))) \<in>
     {qs @ [request_for c m path body hs],
      qs @ [request_for c m path body hs, login_request (c\<lparr>ac_cookies := []\<rparr>) (ac_email c) (ac_password c)],
      qs @ [request_for c m path body hs, login_request (c\<lparr>ac_cookies := []\<rparr>) (ac_email c) (ac_password c),
            request_for c' m path body hs]}"
  by (auto simp: CallEndpoint_def ExecuteOnce_def ClientLogin_def recording_def bindE_def retE_def Let_def
      split: prod.splits sum.splits)

end
