(* ===== verification/Branding.thy ===== *)
theory Branding
  imports Secrets
begin

text \<open>
  Tenant theming (\<open>components/platform/business_logic/branding\<close>): the validation of values
  (\<open>site_value_validation.cpp\<close>), the registries of content slots and design tokens
  (\<open>site_content_slots.cpp\<close>, \<open>site_theme_tokens.cpp\<close>), the names and types of the files of a theme
  (\<open>theme_bundle_assets.cpp\<close>) and the font rules (\<open>site_font_inventory.cpp\<close>). Strings are bytes;
  a byte above 127 is in none of the character classes.
\<close>

section \<open>Validating values\<close>

definition between :: "char \<Rightarrow> char \<Rightarrow> char \<Rightarrow> bool" where
  "between a c z \<longleftrightarrow> (of_char a :: nat) \<le> of_char c \<and> (of_char c :: nat) \<le> of_char z"

definition IsHexDigit :: "char \<Rightarrow> bool" where
  "IsHexDigit c \<longleftrightarrow> between (CHR ''0'') c (CHR ''9'') \<or> between (CHR ''a'') c (CHR ''f'') \<or> between (CHR ''A'') c (CHR ''F'')"

definition IsControlByte :: "char \<Rightarrow> bool" where
  "IsControlByte c \<longleftrightarrow> (of_char c :: nat) < 32 \<or> c = CHR 0x7F"

definition TooLongMessage :: "nat \<Rightarrow> string" where
  "TooLongMessage limit = FormatString ''Value is longer than the {limit}-byte limit for this field.''
     [(''limit'', StringFromInt (int limit))]"

definition HasDisallowedControlByte :: "string \<Rightarrow> bool \<Rightarrow> bool \<Rightarrow> bool" where
  "HasDisallowedControlByte value allowNewline allowTab =
     list_ex (\<lambda>c. IsControlByte c \<and> \<not> (allowNewline \<and> c = CHR 0x0A) \<and> \<not> (allowTab \<and> c = CHR 0x09)) value"

definition IsValidHexColor :: "string \<Rightarrow> bool" where
  "IsValidHexColor value \<longleftrightarrow> length value = 7 \<and> hd value = CHR 0x23 \<and> list_all IsHexDigit (tl value)"

definition kMaxLineBytes :: nat where "kMaxLineBytes = 1024"
definition kMaxLinesBytes :: nat where "kMaxLinesBytes = 4096"
definition kMaxMarkdownBytes :: nat where "kMaxMarkdownBytes = 65536"
definition kMaxUrlBytes :: nat where "kMaxUrlBytes = 2048"

definition IsValidSiteUrl :: "string \<Rightarrow> bool" where
  "IsValidSiteUrl value =
     (if kMaxUrlBytes < length value then False
      else if list_ex (\<lambda>c. IsControlByte c \<or> c = CHR '' '') value then False
      else if starts_with ''http://'' value then 7 < length value
      else if starts_with ''https://'' value then 8 < length value
      else case value of [] \<Rightarrow> False
        | c # rest \<Rightarrow> c = CHR ''/'' \<and> (rest = [] \<or> hd rest \<noteq> CHR ''/'' \<and> hd rest \<noteq> CHR 0x5C))"

text \<open>A number is digits with at most one dot among them; the unit is what follows it.\<close>

definition IsValidCssLength :: "string \<Rightarrow> bool" where
  "IsValidCssLength value =
     (if value = [] \<or> 16 < length value then False
      else if value = ''0'' then True
      else let whole = takeWhile is_digit value; rest = dropWhile is_digit value;
               (part, unit') = (if rest \<noteq> [] \<and> hd rest = CHR ''.''
                  then (takeWhile is_digit (tl rest), dropWhile is_digit (tl rest)) else ([], rest))
           in if whole = [] \<and> part = [] then False
              else unit' \<in> set [''px'', ''rem'', ''em'', ''%'', ''pt''])"

definition is_alnum :: "char \<Rightarrow> bool" where
  "is_alnum c \<longleftrightarrow> between (CHR ''a'') c (CHR ''z'') \<or> between (CHR ''A'') c (CHR ''Z'') \<or> between (CHR ''0'') c (CHR ''9'')"

definition font_list_char :: "char \<Rightarrow> bool" where
  "font_list_char c \<longleftrightarrow> is_alnum c \<or> c = CHR '' '' \<or> c = CHR ''-'' \<or> c = CHR ''_'' \<or> c = CHR '',''"

definition IsValidFontFamilyList :: "string \<Rightarrow> bool" where
  "IsValidFontFamilyList value =
     (if value = [] \<or> 256 < length value then False
      else list_all (\<lambda>c. c = CHR 0x22 \<or> font_list_char c) value \<and> even (length (filter (\<lambda>c. c = CHR 0x22) value)))"

datatype SlotType = Line | Lines | Markdown | Url | Color

text \<open>The empty message says that the value is acceptable.\<close>

fun ValidateSlotValue :: "SlotType \<Rightarrow> string \<Rightarrow> string" where
  "ValidateSlotValue type [] = []"
| "ValidateSlotValue Line value =
     (if kMaxLineBytes < length value then TooLongMessage kMaxLineBytes
      else if list_ex (\<lambda>c. c = CHR 0x0A \<or> c = CHR 0x0D) value then ''Value must be a single line.''
      else if HasDisallowedControlByte value False False then ''Value contains a control character.'' else [])"
| "ValidateSlotValue Lines value =
     (if kMaxLinesBytes < length value then TooLongMessage kMaxLinesBytes
      else if HasDisallowedControlByte value True False then ''Value contains a control character.'' else [])"
| "ValidateSlotValue Markdown value =
     (if kMaxMarkdownBytes < length value then TooLongMessage kMaxMarkdownBytes
      else if HasDisallowedControlByte value True True then ''Value contains a control character.'' else [])"
| "ValidateSlotValue Url value =
     (if kMaxUrlBytes < length value then TooLongMessage kMaxUrlBytes
      else if \<not> IsValidSiteUrl value
      then ''Value must be an http(s) URL or a root-relative path beginning with '' @ [CHR 0x27, CHR ''/'', CHR 0x27] @ ''.''
      else [])"
| "ValidateSlotValue Color value =
     (if \<not> IsValidHexColor value then ''Value must be a color in #RRGGBB form.'' else [])"

text \<open>CRLF and a lone CR become LF.\<close>

fun NormalizeLineEndings :: "string \<Rightarrow> string" where
  "NormalizeLineEndings [] = []"
| "NormalizeLineEndings (c # s) =
     (if c = CHR 0x0D
      then CHR 0x0A # NormalizeLineEndings (if s \<noteq> [] \<and> hd s = CHR 0x0A then tl s else s)
      else c # NormalizeLineEndings s)"

definition NormalizeSlotValue :: "SlotType \<Rightarrow> string \<Rightarrow> string" where
  "NormalizeSlotValue type value =
     (let normalized = NormalizeLineEndings value in
      if ValidateSlotValue type normalized \<noteq> [] then [] else normalized)"

section \<open>Content slots\<close>

definition kSiteLogoUrl :: string where "kSiteLogoUrl = ''site_logo_url''"
definition kSiteSocialLinks :: string where "kSiteSocialLinks = ''site_social_links''"

definition SiteContentSlots :: "(string \<times> SlotType) list" where
  "SiteContentSlots =
    [(''site_logo_alt'', Line), (''site_browser_title'', Line), (''site_favicon_url'', Url),
     (''site_hero_headline'', Line), (''site_hero_subline'', Line), (''site_hero_image_url'', Url),
     (''site_tagline_lines'', Lines), (''site_tagline_image_url'', Url), (''site_address_lines'', Lines),
     (''site_contact_email'', Line), (''site_about_heading'', Line), (''site_about_markdown'', Markdown),
     (''site_start_intro'', Line), (''site_membership_blurb'', Line), (kSiteSocialLinks, Lines)]"

definition LoadSiteContent :: "env \<Rightarrow> SecretsHelper \<Rightarrow> KeyValueTable tx" where
  "LoadSiteContent E S =
     bindT (mapT (\<lambda>(key, type). bindT (LookupSecret E S key) (\<lambda>stored.
              ret (key, NormalizeSlotValue type stored))) SiteContentSlots)
       (\<lambda>kvs. ret (fold (\<lambda>(k, v) t. kv_assign k v t) kvs []))"

section \<open>Design tokens\<close>

datatype ThemeTokenType = TColor | TLength | TFontFamily | TWeight

datatype ThemeTokenGroup = Brand | Surface | Status | Shell | Palette | Radius | TypeScale | FontRole

record ThemeToken =
  tt_key :: string
  tt_cssVariable :: string
  tt_type :: ThemeTokenType
  tt_group :: ThemeTokenGroup
  tt_description :: string

definition token_of :: "string \<times> string \<times> ThemeTokenType \<times> ThemeTokenGroup \<times> string \<Rightarrow> ThemeToken" where
  "token_of = (\<lambda>(k, css, t, g, d). \<lparr>tt_key = k, tt_cssVariable = css, tt_type = t, tt_group = g, tt_description = d\<rparr>)"

text \<open>The em dash of the descriptions, in UTF-8.\<close>

definition em_dash :: string where
  "em_dash = [CHR 0xE2, CHR 0x80, CHR 0x94]"

text \<open>The macro \<open>RAMP\<close>: the seven steps of a palette.\<close>

definition ramp :: "string \<Rightarrow> string \<Rightarrow> ThemeToken list" where
  "ramp name human = map (\<lambda>(step, d). token_of
      (''site_theme_palette_'' @ name @ ''_'' @ step, ''--palette-'' @ name @ ''-'' @ step, TColor, Palette,
       human @ '' '' @ em_dash @ d))
     [(''100'', '' lightest tint. Used for soft banner fills.''),
      (''200'', '' light. Used for badge fills and outlines.''),
      (''300'', '' light-mid.''),
      (''400'', '' THE base shade. Change this one to re-brand.''),
      (''500'', '' dark. Used for hover states and strong text.''),
      (''600'', '' darker.''),
      (''700'', '' darkest.'')]"

definition SiteThemeTokens :: "ThemeToken list" where
  "SiteThemeTokens =
     ramp ''primary'' (''Your brand colour'') @
     ramp ''secondary'' (''Your accent colour (also the warning tone)'') @
     ramp ''tertiary'' (''The success tone'') @
     ramp ''quaternary'' (''The danger tone'') @
     ramp ''quinary'' (''The information tone'') @
     ramp ''grey'' (''Neutral greys '' @ em_dash @ '' text, borders and backgrounds'') @
     map token_of [
       (''site_theme_palette_surface_tint'', ''--palette-surface-tint'', TColor, Palette, ''The subtle fill behind table headers and inactive chips.''),
       (''site_theme_palette_surface_subtle'', ''--palette-surface-subtle'', TColor, Palette, ''A near-white row fill, one step off the page background.''),
       (''site_theme_primary'', ''--theme-primary'', TColor, Brand, ''Buttons, links and anything that should read as your brand.''),
       (''site_theme_on_primary'', ''--theme-on-primary'', TColor, Brand, ''Text and icons drawn ON your brand colour. Needs to be readable on it.''),
       (''site_theme_primary_hover'', ''--theme-primary-hover'', TColor, Brand, ''Your brand colour when the pointer is over a button.''),
       (''site_theme_accent'', ''--theme-accent'', TColor, Brand, ''A second brand colour for highlights beside the main one.''),
       (''site_theme_on_accent'', ''--theme-on-accent'', TColor, Brand, ''Text drawn on the accent colour.''),
       (''site_theme_ink'', ''--theme-ink'', TColor, Surface, ''Headings.''),
       (''site_theme_text'', ''--theme-text'', TColor, Surface, ''Ordinary body copy.''),
       (''site_theme_text_muted'', ''--theme-text-muted'', TColor, Surface, ''Secondary text '' @ em_dash @ '' dates, captions, the quieter half of a row.''),
       (''site_theme_surface'', ''--theme-surface'', TColor, Surface, ''The fill behind cards and panels.''),
       (''site_theme_surface_tint'', ''--theme-surface-tint'', TColor, Surface, ''A slightly tinted surface '' @ em_dash @ '' table headers, inactive chips.''),
       (''site_theme_background'', ''--theme-background'', TColor, Surface, ''The page background behind everything.''),
       (''site_theme_border'', ''--theme-border'', TColor, Surface, ''The line around cards, tables and inputs.''),
       (''site_theme_inverse_surface'', ''--theme-inverse-surface'', TColor, Shell, ''The header and footer band. Dark by default '' @ em_dash @ '' the strongest brand gesture on the page.''),
       (''site_theme_on_inverse_surface'', ''--theme-on-inverse-surface'', TColor, Shell, ''Text and your logo on that band. Must contrast with it.''),
       (''site_theme_success'', ''--theme-success'', TColor, Status, ''Fill behind a \"confirmed\" or \"paid\" badge.''),
       (''site_theme_on_success'', ''--theme-on-success'', TColor, Status, ''Text on the success fill.''),
       (''site_theme_warn'', ''--theme-warn'', TColor, Status, ''Fill behind a \"waitlisted\" or \"pending\" badge.''),
       (''site_theme_on_warn'', ''--theme-on-warn'', TColor, Status, ''Text on the warning fill.''),
       (''site_theme_danger'', ''--theme-danger'', TColor, Status, ''Fill behind a \"cancelled\" or \"no-show\" badge.''),
       (''site_theme_on_danger'', ''--theme-on-danger'', TColor, Status, ''Text on the danger fill.''),
       (''site_theme_info'', ''--theme-info'', TColor, Status, ''Fill behind a neutral informational badge.''),
       (''site_theme_on_info'', ''--theme-on-info'', TColor, Status, ''Text on the information fill.''),
       (''site_theme_radius_control'', ''--radius-control'', TLength, Radius, ''Corner rounding on buttons, inputs and chips. e.g. 4px''),
       (''site_theme_radius_panel'', ''--radius-panel'', TLength, Radius, ''Corner rounding on inline panels and banners.''),
       (''site_theme_radius_card'', ''--radius-card'', TLength, Radius, ''Corner rounding on cards.''),
       (''site_theme_radius_pill'', ''--radius-pill'', TLength, Radius, ''Used where something should be fully rounded. 9999px means \"a pill\".''),
       (''site_theme_font_body'', ''--font-body'', TFontFamily, FontRole, ''The font ordinary reading text is set in.''),
       (''site_theme_font_heading'', ''--font-heading'', TFontFamily, FontRole, ''The font for headings, buttons and badges.''),
       (''site_theme_font_display'', ''--font-display'', TFontFamily, FontRole, ''The font for the biggest page titles and hero lines.''),
       (''site_theme_text_xs'', ''--text-xs'', TLength, TypeScale, ''Smallest text '' @ em_dash @ '' badges and captions.''),
       (''site_theme_text_sm'', ''--text-sm'', TLength, TypeScale, ''Small text '' @ em_dash @ '' dense rows and secondary copy.''),
       (''site_theme_text_base'', ''--text-base'', TLength, TypeScale, ''Ordinary body text, buttons and the top menu.''),
       (''site_theme_text_lg'', ''--text-lg'', TLength, TypeScale, ''Large text '' @ em_dash @ '' card titles and big buttons.''),
       (''site_theme_text_xl'', ''--text-xl'', TLength, TypeScale, ''Section headings.''),
       (''site_theme_text_2xl'', ''--text-2xl'', TLength, TypeScale, ''Page titles '' @ em_dash @ '' the biggest text on a page.''),
       (''site_theme_weight_regular'', ''--weight-regular'', TWeight, TypeScale, ''The weight ordinary text is set in. 400 is normal.''),
       (''site_theme_weight_medium'', ''--weight-medium'', TWeight, TypeScale, ''A slightly heavier weight for emphasis.''),
       (''site_theme_weight_semibold'', ''--weight-semibold'', TWeight, TypeScale, ''Heavier again '' @ em_dash @ '' used sparingly.''),
       (''site_theme_weight_bold'', ''--weight-bold'', TWeight, TypeScale, ''Headings, buttons and badges. 700 is bold.''),
       (''site_theme_weight_menu'', ''--weight-menu'', TWeight, TypeScale, ''Menu items in the top bar. 600 is semi bold.''),
       (''site_theme_weight_heading'', ''--weight-heading'', TWeight, TypeScale, ''Headings and bold text throughout the site.''),
       (''site_theme_weight_display'', ''--weight-display'', TWeight, TypeScale, ''The biggest page titles and hero lines.'')]"

definition IsValidThemeTokenValue :: "ThemeTokenType \<Rightarrow> string \<Rightarrow> bool" where
  "IsValidThemeTokenValue type value =
     (if value = [] then False
      else case type of
        TColor \<Rightarrow> IsValidHexColor value
      | TLength \<Rightarrow> IsValidCssLength value
      | TFontFamily \<Rightarrow> IsValidFontFamilyList value
      | TWeight \<Rightarrow>
          if 4 < length value then False
          else if \<not> list_all is_digit value then False
          else let weight = read_digits 0 value in 1 \<le> weight \<and> weight \<le> 1000)"

definition LoadSiteTheme :: "env \<Rightarrow> SecretsHelper \<Rightarrow> KeyValueTable tx" where
  "LoadSiteTheme E S =
     bindT (mapT (\<lambda>token. bindT (LookupSecret E S (tt_key token)) (\<lambda>stored.
              ret (if IsValidThemeTokenValue (tt_type token) stored then [(tt_cssVariable token, stored)] else [])))
            SiteThemeTokens)
       (\<lambda>kvs. ret (fold (\<lambda>(k, v) t. kv_assign k v t) (concat kvs) []))"

section \<open>The files of a theme\<close>

definition kMaxAssetNameBytes :: nat where "kMaxAssetNameBytes = 64"
definition kMaxBundleAssets :: nat where "kMaxBundleAssets = 64"
definition kMaxBundleAssetBytes :: nat where "kMaxBundleAssetBytes = 8 * 1024 * 1024"
definition kMaxBundleTotalBytes :: nat where "kMaxBundleTotalBytes = 64 * 1024 * 1024"
definition kMaxBundleJsonBytes :: nat where "kMaxBundleJsonBytes = 1024 * 1024"

definition IsAssetNameChar :: "char \<Rightarrow> bool" where
  "IsAssetNameChar c \<longleftrightarrow> is_alnum c \<or> c = CHR ''.'' \<or> c = CHR ''_'' \<or> c = CHR ''-''"

definition IsValidBundleAssetName :: "string \<Rightarrow> bool" where
  "IsValidBundleAssetName name =
     (if name = [] \<or> kMaxAssetNameBytes < length name then False
      else if \<not> is_alnum (hd name) then False
      else if \<not> list_all IsAssetNameChar name then False
      else find_str ''..'' name = None)"

definition IsExternalUrlValue :: "string \<Rightarrow> bool" where
  "IsExternalUrlValue value \<longleftrightarrow> find_str ''://'' value \<noteq> None"

definition IsBundleAssetReference :: "string \<Rightarrow> bool" where
  "IsBundleAssetReference value =
     (if value = [] \<or> IsExternalUrlValue value then False else IsValidBundleAssetName value)"

text \<open>The set of the lower-case names seen so far is an argument.\<close>

fun find_duplicate :: "string set \<Rightarrow> string list \<Rightarrow> string" where
  "find_duplicate seen [] = []"
| "find_duplicate seen (name # names) =
     (if StringToLower name \<in> seen then name else find_duplicate (insert (StringToLower name) seen) names)"

definition FindCaseInsensitiveDuplicate :: "string list \<Rightarrow> string" where
  "FindCaseInsensitiveDuplicate names = find_duplicate {} names"

definition ExtensionForImageType :: "string \<Rightarrow> string" where
  "ExtensionForImageType imageType =
     (let lower = StringToLower imageType;
          type = (if CHR ''/'' \<in> set lower then rev (takeWhile (\<lambda>c. c \<noteq> CHR ''/'') (rev lower)) else lower)
      in if type = ''jpeg'' \<or> type = ''jpg'' then ''jpg''
         else if type = ''png'' then ''png''
         else if type = ''gif'' then ''gif''
         else if type = ''webp'' then ''webp''
         else if type = ''svg'' \<or> type = ''svg+xml'' then ''svg''
         else if type = ''tiff'' \<or> type = ''tif'' then ''tif''
         else [])"

definition ExtensionForFontFormat :: "string \<Rightarrow> string" where
  "ExtensionForFontFormat fontFormat =
     (let format = StringToLower fontFormat
      in if format \<in> set [''woff2'', ''woff'', ''ttf'', ''otf''] then format else [])"

definition ImageTypeFromMagicBytes :: "string \<Rightarrow> string" where
  "ImageTypeFromMagicBytes bytes =
     (if starts_with [CHR 0x89, CHR ''P'', CHR ''N'', CHR ''G'', CHR 0x0D, CHR 0x0A, CHR 0x1A, CHR 0x0A] bytes then ''png''
      else if starts_with [CHR 0xFF, CHR 0xD8, CHR 0xFF] bytes then ''jpeg''
      else if starts_with ''GIF87a'' bytes \<or> starts_with ''GIF89a'' bytes then ''gif''
      else if 12 \<le> length bytes \<and> starts_with ''RIFF'' bytes \<and> take 4 (drop 8 bytes) = ''WEBP'' then ''webp''
      else if find_str ''<svg'' (take 512 bytes) \<noteq> None then ''svg''
      else [])"

text \<open>The stem so far, and whether it ends in a separator.\<close>

definition stem_step :: "char \<Rightarrow> string \<times> bool \<Rightarrow> string \<times> bool" where
  "stem_step c = (\<lambda>(stem, lastWasSeparator).
     if is_alnum c then (stem @ [c], False)
     else if stem \<noteq> [] \<and> \<not> lastWasSeparator then (stem @ ''-'', True)
     else (stem, lastWasSeparator))"

definition drop_hyphens :: "string \<Rightarrow> string" where
  "drop_hyphens s = rev (dropWhile (\<lambda>c. c = CHR ''-'') (rev s))"

definition SanitizeAssetStem :: "string \<Rightarrow> string" where
  "SanitizeAssetStem t = drop_hyphens (fst (fold stem_step (StringToLower t) ([], False)))"

text \<open>\<open>room\<close> is computed in \<open>std::size_t\<close>.\<close>

definition MakeAssetName :: "string \<Rightarrow> string \<Rightarrow> string" where
  "MakeAssetName stem extension =
     (if extension = [] then []
      else let clean = SanitizeAssetStem stem;
               cleanStem = (if clean = [] then ''asset'' else clean);
               room = (2 ^ 64 + kMaxAssetNameBytes - length extension - 1) mod 2 ^ 64;
               cut = (if room < length cleanStem
                      then let shorter = drop_hyphens (take room cleanStem)
                           in if shorter = [] then ''asset'' else shorter
                      else cleanStem);
               name = cut @ ''.'' @ extension
           in if IsValidBundleAssetName name then name else [])"

section \<open>Fonts\<close>

definition FontFormatFromMagicBytes :: "string \<Rightarrow> string" where
  "FontFormatFromMagicBytes bytes =
     (if length bytes < 4 then []
      else if starts_with ''wOF2'' bytes then ''woff2''
      else if starts_with ''wOFF'' bytes then ''woff''
      else if starts_with ''OTTO'' bytes then ''otf''
      else if starts_with [CHR 0x00, CHR 0x01, CHR 0x00, CHR 0x00] bytes then ''ttf''
      else if starts_with ''true'' bytes then ''ttf''
      else if starts_with ''ttcf'' bytes then ''ttf''
      else [])"

definition kMaxFamilyBytes :: nat where "kMaxFamilyBytes = 64"
definition kMaxSpecBytes :: nat where "kMaxSpecBytes = 256"

definition HasControlOrSpace :: "string \<Rightarrow> bool" where
  "HasControlOrSpace value = list_ex (\<lambda>c. (of_char c :: nat) \<le> 32 \<or> c = CHR 0x7F) value"

definition IsValidFontSourceUrl :: "string \<Rightarrow> bool" where
  "IsValidFontSourceUrl value =
     (if value = [] \<or> kMaxUrlBytes < length value then False
      else if HasControlOrSpace value then False
      else if \<not> starts_with ''https://'' value \<or> length value \<le> 8 then False
      else \<not> list_ex (\<lambda>c. c \<in> set [CHR 0x22, CHR 0x27, CHR ''<'', CHR ''>'', CHR 0x5C]) value)"

definition IsValidFontFamilyName :: "string \<Rightarrow> bool" where
  "IsValidFontFamilyName value =
     (if value = [] \<or> kMaxFamilyBytes < length value then False
      else list_all (\<lambda>c. is_alnum c \<or> c = CHR '' '' \<or> c = CHR ''-'' \<or> c = CHR ''_'') value)"

definition font_spec_char :: "char \<Rightarrow> bool" where
  "font_spec_char c \<longleftrightarrow> is_alnum c \<or> c \<in> set ''=:@.,+-_;%''"

definition IsValidFontSpec :: "string \<Rightarrow> bool" where
  "IsValidFontSpec value =
     (if value = [] \<or> kMaxSpecBytes < length value then False
      else if HasControlOrSpace value then False
      else list_all font_spec_char value)"

text \<open>The pieces of a text between its line feeds, the last one included.\<close>

fun split_lines :: "string \<Rightarrow> string list" where
  "split_lines [] = [[]]"
| "split_lines (c # s) =
     (if c = CHR 0x0A then [] # split_lines s
      else case split_lines s of [] \<Rightarrow> [[c]] | l # ls \<Rightarrow> (c # l) # ls)"

record FontPreconnect =
  fp_href :: string
  fp_crossorigin :: bool

definition IsTrue :: "string \<Rightarrow> bool" where
  "IsTrue value \<longleftrightarrow> value \<in> set [''t'', ''true'', ''TRUE'']"

definition preconnect_of_line :: "string \<Rightarrow> FontPreconnect list" where
  "preconnect_of_line raw =
     (let line = dropWhile (\<lambda>c. c = CHR '' '')
                   (rev (dropWhile (\<lambda>c. c = CHR 0x0D \<or> c = CHR '' '') (rev raw)));
          href = takeWhile (\<lambda>c. c \<noteq> CHR ''|'') line;
          flag = (if CHR ''|'' \<in> set line then drop (length href + 1) line else [])
      in if line = [] then []
         else if \<not> IsValidFontSourceUrl href then []
         else [\<lparr>fp_href = href, fp_crossorigin = IsTrue flag\<rparr>])"

definition ParsePreconnectLines :: "string \<Rightarrow> FontPreconnect list" where
  "ParsePreconnectLines ls = concat (map preconnect_of_line (split_lines ls))"

text \<open>The valid specs, joined by ampersands.\<close>

definition BuildFontStylesheetUrl :: "string \<Rightarrow> string list \<Rightarrow> string \<Rightarrow> string" where
  "BuildFontStylesheetUrl baseUrl specs querySuffix =
     (if specs = [] \<or> \<not> IsValidFontSourceUrl baseUrl then []
      else let good = filter IsValidFontSpec specs in
        if good = [] then []
        else baseUrl @ ''?'' @ join ''&'' good @
          (if querySuffix \<noteq> [] \<and> IsValidFontSpec querySuffix then ''&'' @ querySuffix else []))"

definition ComposeFontStack :: "string \<Rightarrow> string \<Rightarrow> string" where
  "ComposeFontStack family fallback =
     (if \<not> IsValidFontFamilyName family then []
      else [CHR 0x27] @ family @ [CHR 0x27] @ (if fallback \<noteq> [] then '', '' @ fallback else []))"

section \<open>What the validators accept\<close>

lemma starts_with_append: "starts_with p (p @ s)"
  by (simp add: starts_with_iff)

lemma is_digit_alnum: "is_digit c \<Longrightarrow> is_alnum c"
  by (auto simp: is_digit_def is_alnum_def between_def)

lemma IsHexDigit_alnum: "IsHexDigit c \<Longrightarrow> is_alnum c"
  by (auto simp: IsHexDigit_def is_alnum_def between_def)

text \<open>The characters a design token may hold: none of them ends or opens a CSS construct.\<close>

definition css_plain :: "char \<Rightarrow> bool" where
  "css_plain c \<longleftrightarrow> is_alnum c \<or> c \<in> set [CHR 0x23, CHR ''.'', CHR ''%'', CHR '' '', CHR ''-'', CHR ''_'', CHR '','']"

definition css_char :: "char \<Rightarrow> bool" where
  "css_char c \<longleftrightarrow> css_plain c \<or> c = CHR 0x22"

lemma css_plain_alnum: "is_alnum c \<Longrightarrow> css_plain c"
  by (simp add: css_plain_def)

lemma css_plain_not_quote: "\<not> css_plain (CHR 0x22)"
  by (simp add: css_plain_def is_alnum_def between_def)

lemma digits_css: "\<forall>c \<in> set (takeWhile is_digit s). css_plain c"
  by (auto dest!: set_takeWhileD is_digit_alnum simp: css_plain_alnum)

lemma css_length_chars: "IsValidCssLength v \<Longrightarrow> \<forall>c \<in> set v. css_plain c"
proof -
  assume v: "IsValidCssLength v"
  have unit: "\<forall>c \<in> set u. css_plain c" if "u \<in> set [''px'', ''rem'', ''em'', ''%'', ''pt'']" for u
    using that by (simp, elim disjE; simp add: css_plain_def is_alnum_def between_def)
  have split: "v = takeWhile is_digit v @ dropWhile is_digit v" by simp
  have all: "\<forall>c \<in> set (dropWhile is_digit v). css_plain c"
  proof (cases "dropWhile is_digit v \<noteq> [] \<and> hd (dropWhile is_digit v) = CHR ''.''")
    case True
    then obtain rest where rest: "dropWhile is_digit v = CHR ''.'' # rest" by (cases "dropWhile is_digit v") auto
    show ?thesis
    proof (cases "v = ''0''")
      case True
      then show ?thesis by (simp add: is_digit_def)
    next
      case False
      with v rest have "dropWhile is_digit rest \<in> set [''px'', ''rem'', ''em'', ''%'', ''pt'']"
        by (simp add: IsValidCssLength_def Let_def split: if_splits)
      then have "\<forall>c \<in> set (dropWhile is_digit rest). css_plain c" by (rule unit)
      moreover have "set rest = set (takeWhile is_digit rest) \<union> set (dropWhile is_digit rest)"
        by (metis set_append takeWhile_dropWhile_id)
      ultimately show ?thesis using digits_css [of rest] rest by (auto simp: css_plain_def)
    qed
  next
    case False
    show ?thesis
    proof (cases "v = ''0''")
      case True
      then show ?thesis by (simp add: is_digit_def)
    next
      case nz: False
      with v False have "dropWhile is_digit v \<in> set [''px'', ''rem'', ''em'', ''%'', ''pt'']"
        by (auto simp: IsValidCssLength_def Let_def split: if_splits)
      then show ?thesis by (rule unit)
    qed
  qed
  then show ?thesis using digits_css [of v] by (metis UnE set_append split)
qed

lemma token_value_chars:
  assumes "IsValidThemeTokenValue type v"
  shows "v \<noteq> [] \<and> (\<forall>c \<in> set v. css_char c) \<and> even (length (filter (\<lambda>c. c = CHR 0x22) v))"
proof -
  have ne: "v \<noteq> []" using assms by (auto simp: IsValidThemeTokenValue_def)
  have plain: ?thesis if "\<forall>c \<in> set v. css_plain c"
  proof -
    have "filter (\<lambda>c. c = CHR 0x22) v = []" using that css_plain_not_quote by (auto simp: filter_empty_conv)
    then show ?thesis using that ne by (simp add: css_char_def)
  qed
  show ?thesis
  proof (cases type)
    case TColor
    with assms obtain h where "v = CHR 0x23 # h" "list_all IsHexDigit h"
      by (cases v) (auto simp: IsValidThemeTokenValue_def IsValidHexColor_def)
    then have "\<forall>c \<in> set v. css_plain c" by (auto simp: list_all_iff css_plain_alnum IsHexDigit_alnum css_plain_def)
    then show ?thesis by (rule plain)
  next
    case TLength
    with assms have "IsValidCssLength v" by (simp add: IsValidThemeTokenValue_def split: if_splits)
    then show ?thesis by (intro plain css_length_chars)
  next
    case TFontFamily
    with assms show ?thesis
      by (auto simp: IsValidThemeTokenValue_def IsValidFontFamilyList_def list_all_iff font_list_char_def css_char_def css_plain_def
          split: if_splits)
  next
    case TWeight
    with assms have "\<forall>c \<in> set v. css_plain c"
      by (auto simp: IsValidThemeTokenValue_def list_all_iff is_digit_alnum css_plain_alnum split: if_splits)
    then show ?thesis by (rule plain)
  qed
qed

lemma set_kv_assign: "p \<in> set (kv_assign k v t) \<Longrightarrow> p = (k, v) \<or> p \<in> set t"
  by (induction k v t rule: kv_assign.induct) (auto split: if_splits)

lemma set_assign_fold: "p \<in> set (fold (\<lambda>(k, v) t. kv_assign k v t) kvs t) \<Longrightarrow> p \<in> set kvs \<or> p \<in> set t"
proof (induction kvs arbitrary: t)
  case (Cons kv kvs)
  then show ?case by (cases kv) (auto dest: Cons.IH set_kv_assign)
qed simp

lemma keys_assign_fold: "fst ` set (fold (\<lambda>(k, v) t. kv_assign k v t) kvs t) = fst ` set kvs \<union> fst ` set t"
proof (induction kvs arbitrary: t)
  case (Cons kv kvs)
  then show ?case by (cases kv) (simp add: keys_kv_assign del: set_map)
qed simp

lemma mapT_reads:
  assumes "mapT f xs w = (Inr ys, w')" "\<And>x r v. f x w = (r, v) \<Longrightarrow> v = w"
  shows "w' = w \<and> (\<forall>y \<in> set ys. \<exists>x \<in> set xs. f x w = (Inr y, w)) \<and> (\<forall>x \<in> set xs. \<exists>y \<in> set ys. f x w = (Inr y, w))"
  using assms(1)
proof (induction xs arbitrary: ys)
  case (Cons x xs)
  then obtain y ys' where "f x w = (Inr y, w)" "mapT f xs w = (Inr ys', w')" "ys = y # ys'"
    by (auto simp: bindT_def ret_def dest: assms(2) split: prod.splits sum.splits)
  with Cons.IH show ?case by auto
qed (simp add: ret_def)

lemma theme_entry:
  assumes "LoadSiteTheme E S w = (Inr css, w')"
  shows "w' = w \<and> (\<forall>(var, v) \<in> set css. \<exists>token \<in> set SiteThemeTokens. var = tt_cssVariable token \<and>
           IsValidThemeTokenValue (tt_type token) v \<and> LookupSecret E S (tt_key token) w = (Inr v, w))"
proof -
  let ?f = "\<lambda>token. bindT (LookupSecret E S (tt_key token)) (\<lambda>stored.
     ret (if IsValidThemeTokenValue (tt_type token) stored then [(tt_cssVariable token, stored)] else []))"
  obtain kvs where m: "mapT ?f SiteThemeTokens w = (Inr kvs, w')"
    and css: "css = fold (\<lambda>(k, v) t. kv_assign k v t) (concat kvs) []"
    using assms unfolding LoadSiteTheme_def by (auto elim!: bindT_InrE simp: ret_def)
  have all: "w' = w \<and> (\<forall>y \<in> set kvs. \<exists>x \<in> set SiteThemeTokens. ?f x w = (Inr y, w)) \<and>
      (\<forall>x \<in> set SiteThemeTokens. \<exists>y \<in> set kvs. ?f x w = (Inr y, w))"
    using m by (rule mapT_reads) (auto simp: bindT_def ret_def dest: LookupSecret_state split: prod.splits sum.splits)
  have "\<exists>token \<in> set SiteThemeTokens. var = tt_cssVariable token \<and>
           IsValidThemeTokenValue (tt_type token) v \<and> LookupSecret E S (tt_key token) w = (Inr v, w)"
    if "(var, v) \<in> set css" for var v
  proof -
    from that css obtain y where y: "y \<in> set kvs" "(var, v) \<in> set y" by (auto dest!: set_assign_fold)
    with all obtain token where t: "token \<in> set SiteThemeTokens" "?f token w = (Inr y, w)"
      by blast
    from t(2) y(2) show ?thesis
      by (intro bexI [OF _ t(1)]) (auto simp: bindT_def ret_def dest: LookupSecret_state split: prod.splits sum.splits if_splits)
  qed
  with all show ?thesis by auto
qed



lemma mapT_reads_ok: "(\<And>x. \<exists>y. f x w = (Inr y, w)) \<Longrightarrow> \<exists>ys. mapT f xs w = (Inr ys, w)"
proof (induction xs)
  case (Cons x xs)
  obtain y ys where "f x w = (Inr y, w)" "mapT f xs w = (Inr ys, w)" using Cons by blast
  then show ?case by (simp add: bindT_def ret_def)
qed (simp add: ret_def)


section \<open>Content slots are typed\<close>

lemma NormalizeLineEndings_no_cr: "CHR 0x0D \<notin> set (NormalizeLineEndings s)"
  by (induction s rule: NormalizeLineEndings.induct) auto

lemma NormalizeLineEndings_id: "CHR 0x0D \<notin> set s \<Longrightarrow> NormalizeLineEndings s = s"
  by (induction s rule: NormalizeLineEndings.induct) auto

lemma NormalizeSlotValue_typed:
  "ValidateSlotValue type (NormalizeSlotValue type v) = [] \<and> CHR 0x0D \<notin> set (NormalizeSlotValue type v) \<and>
   NormalizeSlotValue type (NormalizeSlotValue type v) = NormalizeSlotValue type v"
  by (auto simp: NormalizeSlotValue_def Let_def NormalizeLineEndings_no_cr NormalizeLineEndings_id)

lemma content_entry:
  assumes "LoadSiteContent E S w = (Inr kv, w')"
  shows "w' = w \<and> fst ` set kv = fst ` set SiteContentSlots \<and> (\<forall>(key, v) \<in> set kv. \<exists>type stored. (key, type) \<in> set SiteContentSlots \<and>
           v = NormalizeSlotValue type stored \<and> LookupSecret E S key w = (Inr stored, w))"
proof -
  let ?f = "\<lambda>(key, type). bindT (LookupSecret E S key) (\<lambda>stored. ret (key, NormalizeSlotValue type stored))"
  obtain kvs where m: "mapT ?f SiteContentSlots w = (Inr kvs, w')"
    and kv: "kv = fold (\<lambda>(k, v) t. kv_assign k v t) kvs []"
    using assms unfolding LoadSiteContent_def by (auto elim!: bindT_InrE simp: ret_def)
  have all: "w' = w \<and> (\<forall>y \<in> set kvs. \<exists>x \<in> set SiteContentSlots. ?f x w = (Inr y, w)) \<and>
      (\<forall>x \<in> set SiteContentSlots. \<exists>y \<in> set kvs. ?f x w = (Inr y, w))"
    using m by (rule mapT_reads) (auto simp: bindT_def ret_def dest: LookupSecret_state split: prod.splits sum.splits)
  have shape: "\<exists>type stored. x = (fst y, type) \<and> snd y = NormalizeSlotValue type stored \<and> LookupSecret E S (fst y) w = (Inr stored, w)"
    if "?f x w = (Inr y, w)" for x y
    using that by (cases x) (auto simp: bindT_def ret_def dest: LookupSecret_state split: prod.splits sum.splits)
  have keys: "fst ` set kvs = fst ` set SiteContentSlots"
  proof (intro equalityI subsetI)
    fix k assume "k \<in> fst ` set kvs"
    then obtain y where y: "y \<in> set kvs" "k = fst y" by auto
    from all y(1) obtain x where x: "x \<in> set SiteContentSlots" "?f x w = (Inr y, w)" by blast
    from shape [OF x(2)] x(1) y(2) show "k \<in> fst ` set SiteContentSlots" by force
  next
    fix k assume "k \<in> fst ` set SiteContentSlots"
    then obtain x where x: "x \<in> set SiteContentSlots" "k = fst x" by auto
    from all x(1) obtain y where y: "y \<in> set kvs" "?f x w = (Inr y, w)" by blast
    from shape [OF y(2)] x(2) y(1) show "k \<in> fst ` set kvs" by force
  qed
  have "\<exists>type stored. (key, type) \<in> set SiteContentSlots \<and>
           v = NormalizeSlotValue type stored \<and> LookupSecret E S key w = (Inr stored, w)"
    if "(key, v) \<in> set kv" for key v
  proof -
    from that kv have "(key, v) \<in> set kvs" by (auto dest!: set_assign_fold)
    with all obtain x where x: "x \<in> set SiteContentSlots" "?f x w = (Inr (key, v), w)" by blast
    from shape [OF x(2)] x(1) show ?thesis by auto
  qed
  moreover have "fst ` set kv = fst ` set SiteContentSlots" using keys kv keys_assign_fold [of kvs "[]"] by simp
  moreover have "w' = w" using all by blast
  ultimately show ?thesis by blast
qed

text \<open>
  C24. (type) The site content the unauthenticated endpoint serves is well typed: exactly the registered
  slots are served, and every value passes the validator of its slot's type, holds no carriage
  return and is a fixed point of the normalization, whatever bytes the secrets table holds for it. The
  transaction's state is untouched.
\<close>
theorem served_content_well_typed:
  assumes "LoadSiteContent E S w = (Inr kv, w')"
  shows "w' = w \<and> fst ` set kv = fst ` set SiteContentSlots \<and>
    (\<forall>(key, v) \<in> set kv. \<exists>type. (key, type) \<in> set SiteContentSlots \<and> ValidateSlotValue type v = [] \<and>
       CHR 0x0D \<notin> set v \<and> NormalizeSlotValue type v = v)"
  using content_entry [OF assms] NormalizeSlotValue_typed by fastforce

lemma served_content_well_typed_witness:
  "\<exists>kv w'. LoadSiteContent demoEnv None (emptyWorld\<lparr>config_secrets :=
        [(''site_favicon_url'', ''//evil.example''), (''site_address_lines'', ''a'' @ [CHR 0x0D, CHR 0x0A] @ ''b'')]\<rparr>) = (Inr kv, w') \<and>
     fst ` set kv = fst ` set SiteContentSlots \<and> (\<forall>(key, v) \<in> set kv. CHR 0x0D \<notin> set v)"
proof -
  define w where "w = emptyWorld\<lparr>config_secrets := [(''site_favicon_url'', ''//evil.example''), (''site_address_lines'', ''a'' @ [CHR 0x0D, CHR 0x0A] @ ''b'')]\<rparr>"
  have live: "\<not> aborted w" by (simp add: w_def emptyWorld_def)
  let ?m = "mapT (\<lambda>(key, type). bindT (LookupSecret demoEnv None key) (\<lambda>stored. ret (key, NormalizeSlotValue type stored))) SiteContentSlots"
  have "\<exists>ys. ?m w = (Inr ys, w)"
    by (intro mapT_reads_ok) (simp add: bindT_def ret_def LookupSecret_live [OF live] split: prod.split)
  then obtain ys where y: "?m w = (Inr ys, w)" by blast
  have c: "LoadSiteContent demoEnv None w = (Inr (fold (\<lambda>(k, v) t. kv_assign k v t) ys []), w)"
    by (simp only: LoadSiteContent_def bindT_def [of ?m] y ret_def prod.case sum.case)
  have "\<forall>p \<in> set (fold (\<lambda>(k, v) t. kv_assign k v t) ys []). CHR 0x0D \<notin> set (snd p)"
    using served_content_well_typed [OF c] by force
  then show ?thesis using c served_content_well_typed [OF c] unfolding w_def [symmetric]
    by (intro exI conjI) (rule c, simp, simp add: case_prod_beta)
qed

section \<open>Asset names\<close>

definition stem_ok :: "string \<Rightarrow> bool" where
  "stem_ok s \<longleftrightarrow> (s \<noteq> [] \<longrightarrow> is_alnum (hd s)) \<and> (\<forall>c \<in> set s. is_alnum c \<or> c = CHR ''-'')"

lemma stem_ok_take: "stem_ok s \<Longrightarrow> stem_ok (take n s)"
  by (auto simp: stem_ok_def hd_take dest: in_set_takeD)

lemma drop_hyphens_take: "\<exists>n. drop_hyphens s = take n s"
  by (auto simp: drop_hyphens_def dropWhile_eq_drop rev_drop)

lemma stem_ok_drop_hyphens: "stem_ok s \<Longrightarrow> stem_ok (drop_hyphens s)"
  using drop_hyphens_take [of s] stem_ok_take by metis

lemma stem_ok_step: "stem_ok (fst p) \<Longrightarrow> stem_ok (fst (stem_step c p))"
  by (cases p) (auto simp: stem_ok_def stem_step_def hd_append)

lemma stem_ok_Sanitize: "stem_ok (SanitizeAssetStem t)"
proof -
  have "stem_ok (fst p) \<Longrightarrow> stem_ok (fst (fold stem_step cs p))" for cs p
    by (induction cs arbitrary: p) (auto simp: stem_ok_step)
  moreover have "stem_ok (fst ([], False))" by (simp add: stem_ok_def)
  ultimately show ?thesis unfolding SanitizeAssetStem_def by (intro stem_ok_drop_hyphens)
qed

definition known_extensions :: "string list" where
  "known_extensions = [''jpg'', ''png'', ''gif'', ''webp'', ''svg'', ''tif'', ''woff2'', ''woff'', ''ttf'', ''otf'']"

lemma known_extension_chars: "ext \<in> set known_extensions \<Longrightarrow> list_all is_alnum ext \<and> ext \<noteq> [] \<and> length ext \<le> 5"
  by (simp add: known_extensions_def, elim disjE; simp add: is_alnum_def between_def)

lemma Extension_known:
  "ExtensionForImageType t = [] \<or> ExtensionForImageType t \<in> set known_extensions"
  "ExtensionForFontFormat f = [] \<or> ExtensionForFontFormat f \<in> set known_extensions"
  by (simp_all add: ExtensionForImageType_def ExtensionForFontFormat_def known_extensions_def Let_def)

lemma one_dot_no_dots:
  assumes "CHR ''.'' \<notin> set a" "CHR ''.'' \<notin> set b"
  shows "find_str ''..'' (a @ ''.'' @ b) = None"
proof (rule ccontr)
  assume "find_str ''..'' (a @ ''.'' @ b) \<noteq> None"
  then obtain i where i: "find_str ''..'' (a @ ''.'' @ b) = Some i" by auto
  have "i + 2 \<le> length (a @ ''.'' @ b)" "take 2 (drop i (a @ ''.'' @ b)) = ''..''"
    using find_str_Some [OF i] by (simp_all add: numeral_2_eq_2)
  then obtain x y where "a @ ''.'' @ b = x @ ''..'' @ y" by (metis append_take_drop_id)
  then have "count_list (a @ ''.'' @ b) (CHR ''.'') = count_list (x @ ''..'' @ y) (CHR ''.'')" by (rule arg_cong)
  then show False using assms by (simp add: count_list_0_iff)
qed

text \<open>
  (functional) For every extension the image and font tables know, \<open>MakeAssetName\<close> always
  succeeds: whatever the proposed stem (empty, all punctuation, thousands of bytes, a path, \<open>../..\<close>), the
  name is a stem, a dot and the extension, accepted by \<open>IsValidBundleAssetName\<close>, at most 64 bytes
  long, and holds no slash, backslash or second dot.
\<close>
theorem MakeAssetName_total:
  assumes "ext \<in> set known_extensions"
  shows "\<exists>cut. MakeAssetName stem ext = cut @ ''.'' @ ext \<and> IsValidBundleAssetName (MakeAssetName stem ext) \<and>
     cut \<noteq> [] \<and> (\<forall>c \<in> set cut. is_alnum c \<or> c = CHR ''-'') \<and> length (MakeAssetName stem ext) \<le> kMaxAssetNameBytes \<and>
     set (MakeAssetName stem ext) \<inter> set [CHR ''/'', CHR 0x5C] = {}"
proof -
  note ext = known_extension_chars [OF assms]
  define clean where "clean = (if SanitizeAssetStem stem = [] then ''asset'' else SanitizeAssetStem stem)"
  define room where "room = 63 - length ext"
  define cut where "cut = (if room < length clean
     then let shorter = drop_hyphens (take room clean) in if shorter = [] then ''asset'' else shorter else clean)"
  have asset: "stem_ok ''asset''" by (simp add: stem_ok_def is_alnum_def between_def)
  have clean: "stem_ok clean" "clean \<noteq> []" by (simp_all add: clean_def stem_ok_Sanitize asset)
  then have cut: "stem_ok cut" "cut \<noteq> []"
    by (simp_all add: cut_def Let_def asset stem_ok_drop_hyphens stem_ok_take)
  have short: "length (drop_hyphens (take room clean)) \<le> room"
    using drop_hyphens_take [of "take room clean"] by (metis length_take min.bounded_iff nle_le)
  have len: "length cut \<le> room" using ext short by (auto simp: cut_def Let_def room_def)
  have room: "(2 ^ 64 + kMaxAssetNameBytes - length ext - 1) mod 2 ^ 64 = room"
  proof -
    have "2 ^ 64 + kMaxAssetNameBytes - length ext - 1 = 2 ^ 64 + room"
      using ext by (simp add: room_def kMaxAssetNameBytes_def)
    moreover have "room < 2 ^ 64" by (simp add: room_def)
    ultimately show ?thesis by simp
  qed
  let ?name = "cut @ ''.'' @ ext"
  have dot: "\<not> is_alnum (CHR ''.'')" by (simp add: is_alnum_def between_def)
  have stems: "\<forall>c \<in> set cut. is_alnum c \<or> c = CHR ''-''" using cut by (simp add: stem_ok_def)
  have "CHR ''.'' \<notin> set cut" "CHR ''.'' \<notin> set ext" using stems dot ext by (auto simp: list_all_iff)
  then have nodots: "find_str ''..'' ?name = None" by (rule one_dot_no_dots)
  have valid: "IsValidBundleAssetName ?name"
    using cut ext len stems nodots
    by (auto simp: IsValidBundleAssetName_def kMaxAssetNameBytes_def room_def stem_ok_def hd_append list_all_iff IsAssetNameChar_def)
  then have name: "MakeAssetName stem ext = ?name"
    using ext unfolding MakeAssetName_def room by (simp only: Let_def clean_def [symmetric] cut_def [unfolded Let_def, symmetric] if_True if_False)
  have "set ?name \<inter> set [CHR ''/'', CHR 0x5C] = {}"
  proof -
    have "\<not> is_alnum (CHR ''/'')" "\<not> is_alnum (CHR 0x5C)" by (simp_all add: is_alnum_def between_def)
    then show ?thesis using stems ext by (auto simp: list_all_iff)
  qed
  moreover have "length ?name \<le> kMaxAssetNameBytes" using len ext by (auto simp: kMaxAssetNameBytes_def room_def)
  ultimately show ?thesis unfolding name using valid cut(2) stems by (intro exI [of _ cut]) simp
qed

lemma MakeAssetName_total_witness:
  "MakeAssetName ''../Logo Final'' ''svg'' = ''logo-final.svg'' \<and>
   length (MakeAssetName ''../Logo Final'' ''svg'') \<le> kMaxAssetNameBytes"
proof -
  have "''svg'' \<in> set known_extensions" by (simp add: known_extensions_def)
  from MakeAssetName_total [OF this, of "''../Logo Final''"] have "length (MakeAssetName ''../Logo Final'' ''svg'') \<le> kMaxAssetNameBytes"
    by blast
  moreover have "SanitizeAssetStem ''../Logo Final'' = ''logo-final''" by code_simp
  then have "MakeAssetName ''../Logo Final'' ''svg'' = ''logo-final.svg''"
    by (simp add: MakeAssetName_def kMaxAssetNameBytes_def IsValidBundleAssetName_def is_alnum_def between_def IsAssetNameChar_def)
  ultimately show ?thesis by simp
qed

text \<open>An HTML page with a drawing in it is taken for an image.\<close>

theorem html_passes_as_svg:
  "ImageTypeFromMagicBytes ''<html><body onload=x><svg></svg>'' = ''svg''"
  by (simp add: ImageTypeFromMagicBytes_def starts_with_iff)

end
