(* ===== verification/ThemeBundle.thy ===== *)
theory ThemeBundle
  imports Branding Json
begin

text \<open>
  A theme as a file (\<open>platform/business_logic/branding\<close>): the in-memory bundle (\<open>theme_bundle.h\<close>),
  its JSON form (\<open>theme_bundle_json.cpp\<close>), the version chain and the report
  (\<open>theme_bundle_migrations.cpp\<close>), reading a zip or a directory (\<open>theme_bundle_zip.cpp\<close>,
  \<open>theme_bundle_directory.cpp\<close>) and the checks before an import (\<open>FindFatalBundleProblem\<close>,
  \<open>PruneUnusableBundleItems\<close>, \<open>ValidateThemeBundle\<close> of \<open>theme_bundle_import.cpp\<close>).
  libzip, the file system and the JSON parser are parameters: what they answer is an argument.
\<close>

section \<open>The bundle\<close>

definition kThemeBundleFormat :: string where "kThemeBundleFormat = ''honuware.site-theme''"
definition kThemeBundleJsonName :: string where "kThemeBundleJsonName = ''theme.json''"
definition kThemeBundleAssetUrlPrefix :: string where "kThemeBundleAssetUrlPrefix = ''/api/site_asset/''"

record BundleFontPreconnect =
  bp_url :: string
  bp_crossorigin :: bool

record BundleFontSource =
  bs_sourceKey :: string
  bs_displayName :: string
  bs_baseUrl :: string
  bs_querySuffix :: string
  bs_preconnects :: "BundleFontPreconnect list"

record BundleFontFace =
  bf_weight :: int
  bf_style :: string
  bf_file :: string

record BundleFontFamily =
  ff_family :: string
  ff_fallback :: string
  ff_sourceKind :: string
  ff_sourceKey :: string
  ff_spec :: string
  ff_faces :: "BundleFontFace list"

record ThemeBundle =
  tb_formatVersion :: int
  tb_name :: string
  tb_description :: string
  tb_exportedAt :: string
  tb_exportedFromApp :: string
  tb_exportedFromSite :: string
  tb_exportedFromHonuware :: string
  tb_content :: KeyValueTable
  tb_tokens :: KeyValueTable
  tb_sources :: "BundleFontSource list"
  tb_families :: "BundleFontFamily list"
  tb_appSections :: "(string \<times> JValue) list"
  tb_assets :: KeyValueTable

definition new_bundle :: ThemeBundle where
  "new_bundle = \<lparr>tb_formatVersion = 0, tb_name = [], tb_description = [], tb_exportedAt = [], tb_exportedFromApp = [],
     tb_exportedFromSite = [], tb_exportedFromHonuware = [], tb_content = [], tb_tokens = [], tb_sources = [],
     tb_families = [], tb_appSections = [], tb_assets = []\<rparr>"

definition HasAsset :: "ThemeBundle \<Rightarrow> string \<Rightarrow> bool" where
  "HasAsset b fileName \<longleftrightarrow> map_of (tb_assets b) fileName \<noteq> None"

section \<open>Reading fields\<close>

definition BundleContentKeys :: "string list" where
  "BundleContentKeys = kSiteLogoUrl # map fst SiteContentSlots"

definition IsLinesSlot :: "string \<Rightarrow> bool" where
  "IsLinesSlot key = (case map_of SiteContentSlots key of Some type \<Rightarrow> type = Lines | None \<Rightarrow> False)"

definition IsLabelledLinksSlot :: "string \<Rightarrow> bool" where
  "IsLabelledLinksSlot key \<longleftrightarrow> key = kSiteSocialLinks"

fun ValueAsString :: "JValue \<Rightarrow> string" where
  "ValueAsString (JString t) = t"
| "ValueAsString (JInt n) = StringFromInt n"
| "ValueAsString (JBool b) = (if b then ''true'' else ''false'')"
| "ValueAsString _ = []"

definition FieldString :: "JValue \<Rightarrow> string \<Rightarrow> string" where
  "FieldString obj name = (case HasChild obj name of None \<Rightarrow> [] | Some v \<Rightarrow> ValueAsString v)"

text \<open>\<open>std::atoi\<close>: no digits read as 0, a number that is no \<open>int\<close> is undefined.\<close>

definition atoi :: "string \<Rightarrow> int res" where
  "atoi t = (case parse_int ''atoi'' t of Inl _ \<Rightarrow> Inr 0
     | Inr n \<Rightarrow> if in_i32 n then Inr n else Inl (Undefined ''atoi''))"

text \<open>\<open>static_cast<int>\<close> of a 64-bit number keeps its low 32 bits.\<close>

definition narrow32 :: "int \<Rightarrow> int" where
  "narrow32 n = (n + 2 ^ 31) mod 2 ^ 32 - 2 ^ 31"

definition FieldInt :: "JValue \<Rightarrow> string \<Rightarrow> int \<Rightarrow> int res" where
  "FieldInt obj name fallback =
     (case HasChild obj name of
        None \<Rightarrow> Inr fallback
      | Some (JInt n) \<Rightarrow> Inr (narrow32 n)
      | Some v \<Rightarrow> if ValueAsString v = [] then Inr fallback else atoi (ValueAsString v))"

definition FieldBool :: "JValue \<Rightarrow> string \<Rightarrow> bool \<Rightarrow> bool" where
  "FieldBool obj name fallback =
     (case HasChild obj name of
        None \<Rightarrow> fallback
      | Some (JBool b) \<Rightarrow> b
      | Some v \<Rightarrow> ValueAsString v \<in> set [''true'', ''t'', ''1''])"

section \<open>Packed lines\<close>

definition UnpackLines :: "string \<Rightarrow> string list" where
  "UnpackLines stored =
     (if stored = [] then []
      else rev (dropWhile (\<lambda>l. l = []) (rev (split_lines (NormalizeLineEndings stored)))))"

definition PackLines :: "string list \<Rightarrow> string" where
  "PackLines ls = join [CHR 0x0A] ls"

definition UnpackLabelledLinks :: "string \<Rightarrow> (string \<times> string) list" where
  "UnpackLabelledLinks stored = map (\<lambda>line.
     if CHR ''|'' \<in> set line
     then (takeWhile (\<lambda>c. c \<noteq> CHR ''|'') line, tl (dropWhile (\<lambda>c. c \<noteq> CHR ''|'') line))
     else (line, [])) (UnpackLines stored)"

definition PackLabelledLinks :: "(string \<times> string) list \<Rightarrow> string" where
  "PackLabelledLinks links = PackLines (map (\<lambda>(label, url). if url = [] then label else label @ ''|'' @ url) links)"

section \<open>To JSON\<close>

text \<open>A \<open>JsonObject\<close> from an initializer list, and one filled by assignments.\<close>

definition json_object :: "(string \<times> JValue) list \<Rightarrow> JValue" where
  "json_object kvs = JObject (fold (\<lambda>(k, v) m. kv_insert k v m) kvs [])"

definition content_json :: "KeyValueTable \<Rightarrow> string \<Rightarrow> JValue" where
  "content_json content key =
     (let value = (case map_of content key of None \<Rightarrow> [] | Some v \<Rightarrow> v)
      in if IsLabelledLinksSlot key
         then JArray (map (\<lambda>(label, url). json_object [(''label'', JString label), (''url'', JString url)]) (UnpackLabelledLinks value))
         else if IsLinesSlot key then JArray (map JString (UnpackLines value))
         else JString value)"

definition token_json :: "KeyValueTable \<Rightarrow> string \<Rightarrow> JValue" where
  "token_json tokens key = JString (case map_of tokens key of None \<Rightarrow> [] | Some v \<Rightarrow> v)"

definition source_json :: "BundleFontSource \<Rightarrow> JValue" where
  "source_json s = json_object
     [(''source_key'', JString (bs_sourceKey s)), (''display_name'', JString (bs_displayName s)),
      (''base_url'', JString (bs_baseUrl s)), (''query_suffix'', JString (bs_querySuffix s)),
      (''preconnects'', JArray (map (\<lambda>p. json_object
         [(''url'', JString (bp_url p)), (''crossorigin'', JBool (bp_crossorigin p))]) (bs_preconnects s)))]"

definition face_json :: "BundleFontFace \<Rightarrow> JValue" where
  "face_json f = json_object
     [(''weight'', JInt (bf_weight f)), (''style'', JString (bf_style f)), (''file'', JString (bf_file f))]"

definition family_json :: "BundleFontFamily \<Rightarrow> JValue" where
  "family_json f =
     (let j0 = json_object [(''family'', JString (ff_family f)), (''fallback'', JString (ff_fallback f)),
                 (''source_kind'', JString (ff_sourceKind f))];
          j1 = (if ff_sourceKey f \<noteq> [] then SetKey j0 ''source_key'' (JString (ff_sourceKey f)) else j0);
          j2 = (if ff_spec f \<noteq> [] then SetKey j1 ''spec'' (JString (ff_spec f)) else j1)
      in if ff_faces f \<noteq> [] then SetKey j2 ''faces'' (JArray (map face_json (ff_faces f))) else j2)"

definition CurrentBundleFormatVersion :: int where "CurrentBundleFormatVersion = 1"
definition OldestSupportedBundleFormatVersion :: int where "OldestSupportedBundleFormatVersion = 1"

definition ThemeBundleToJson :: "ThemeBundle \<Rightarrow> JValue" where
  "ThemeBundleToJson b =
     (let content = fold (\<lambda>key m. kv_assign key (content_json (tb_content b) key) m) BundleContentKeys [];
          tokens = fold (\<lambda>key m. kv_assign key (token_json (tb_tokens b) key) m) (map tt_key SiteThemeTokens) [];
          root = json_object
            [(''format'', JString kThemeBundleFormat),
             (''format_version'', JInt (if 0 < tb_formatVersion b then tb_formatVersion b else CurrentBundleFormatVersion)),
             (''name'', JString (tb_name b)),
             (''description'', JString (tb_description b)),
             (''exported_at'', JString (tb_exportedAt b)),
             (''exported_from'', json_object [(''app'', JString (tb_exportedFromApp b)),
                (''site'', JString (tb_exportedFromSite b)), (''honuware'', JString (tb_exportedFromHonuware b))]),
             (''theme'', json_object [(''content'', JObject content), (''tokens'', JObject tokens)]),
             (''fonts'', json_object [(''sources'', JArray (map source_json (tb_sources b))),
                (''families'', JArray (map family_json (tb_families b)))])]
      in fold (\<lambda>(name, body) r. SetKey r name body) (tb_appSections b) root)"

section \<open>From JSON\<close>

definition ReadBundleFormatVersion :: "JValue \<Rightarrow> int res" where
  "ReadBundleFormatVersion json = FieldInt json ''format_version'' 0"

definition read_link :: "JValue \<Rightarrow> string \<times> string" where
  "read_link entry =
     (if HasChildren entry then (FieldString entry ''label'', FieldString entry ''url'')
      else (ValueAsString entry, []))"

definition read_content :: "string \<Rightarrow> JValue \<Rightarrow> string" where
  "read_content key v =
     (if IsArray v
      then (if IsLabelledLinksSlot key then PackLabelledLinks (map read_link (MakeArray v))
            else PackLines (map ValueAsString (MakeArray v)))
      else ValueAsString v)"

definition read_preconnect :: "JValue \<Rightarrow> BundleFontPreconnect" where
  "read_preconnect p = \<lparr>bp_url = FieldString p ''url'', bp_crossorigin = FieldBool p ''crossorigin'' False\<rparr>"

text \<open>The elements of an array member; a member of another kind counts as empty.\<close>

definition ArrayField :: "JValue \<Rightarrow> string \<Rightarrow> JValue list" where
  "ArrayField obj name = (case HasChild obj name of Some (JArray xs) \<Rightarrow> xs | _ \<Rightarrow> [])"

definition ObjectField :: "JValue \<Rightarrow> string \<Rightarrow> (string \<times> JValue) list" where
  "ObjectField obj name = (case HasChild obj name of Some (JObject kvs) \<Rightarrow> kvs | _ \<Rightarrow> [])"

definition read_source :: "JValue \<Rightarrow> BundleFontSource" where
  "read_source e = \<lparr>bs_sourceKey = FieldString e ''source_key'', bs_displayName = FieldString e ''display_name'',
     bs_baseUrl = FieldString e ''base_url'', bs_querySuffix = FieldString e ''query_suffix'',
     bs_preconnects = map read_preconnect (ArrayField e ''preconnects'')\<rparr>"

definition read_face :: "JValue \<Rightarrow> BundleFontFace res" where
  "read_face f = rbind (FieldInt f ''weight'' 400) (\<lambda>weight.
     Inr \<lparr>bf_weight = weight, bf_style = FieldString f ''style'', bf_file = FieldString f ''file''\<rparr>)"

definition read_family :: "JValue \<Rightarrow> BundleFontFamily res" where
  "read_family e = rbind (rmap read_face (ArrayField e ''faces'')) (\<lambda>faces.
     Inr \<lparr>ff_family = FieldString e ''family'', ff_fallback = FieldString e ''fallback'',
          ff_sourceKind = FieldString e ''source_kind'', ff_sourceKey = FieldString e ''source_key'',
          ff_spec = FieldString e ''spec'', ff_faces = faces\<rparr>)"

definition reserved_keys :: "string list" where
  "reserved_keys = [''format'', ''format_version'', ''name'', ''description'', ''exported_at'', ''exported_from'', ''theme'', ''fonts'']"

text \<open>The answer is the reason and the bundle as the call leaves it.\<close>

definition ThemeBundleFromJson :: "JValue \<Rightarrow> ThemeBundle \<Rightarrow> (string \<times> ThemeBundle) res" where
  "ThemeBundleFromJson json out =
     (if \<not> HasChildren json then Inr (''That file is not a theme bundle.'', out)
      else let format = FieldString json ''format'' in
      if format \<noteq> kThemeBundleFormat
      then Inr (''That file is not a theme bundle (format is '' @ [CHR 0x22] @ format @ [CHR 0x22] @ '').'', out)
      else rbind (ReadBundleFormatVersion json) (\<lambda>version.
        let out = out\<lparr>tb_formatVersion := version, tb_name := FieldString json ''name'',
              tb_description := FieldString json ''description'', tb_exportedAt := FieldString json ''exported_at''\<rparr>;
            out = (case HasChild json ''exported_from'' of None \<Rightarrow> out
              | Some f \<Rightarrow> out\<lparr>tb_exportedFromApp := FieldString f ''app'', tb_exportedFromSite := FieldString f ''site'',
                  tb_exportedFromHonuware := FieldString f ''honuware''\<rparr>);
            out = (case HasChild json ''theme'' of None \<Rightarrow> out
              | Some t \<Rightarrow> out\<lparr>
                  tb_content := fold (\<lambda>(k, v) m. kv_assign k (read_content k v) m) (ObjectField t ''content'') (tb_content out),
                  tb_tokens := fold (\<lambda>(k, v) m. kv_assign k (ValueAsString v) m) (ObjectField t ''tokens'') (tb_tokens out)\<rparr>);
            fonts = (case HasChild json ''fonts'' of None \<Rightarrow> JNull | Some f \<Rightarrow> f)
        in rbind (rmap read_family (ArrayField fonts ''families'')) (\<lambda>families.
             Inr ([], out\<lparr>tb_sources := tb_sources out @ map read_source (ArrayField fonts ''sources''),
               tb_families := tb_families out @ families,
               tb_appSections := fold (\<lambda>(k, v) m. if k \<in> set reserved_keys then m else kv_assign k v m)
                 (MakeObject json) (tb_appSections out)\<rparr>))))"

section \<open>Versions\<close>

record BundleMigration =
  bm_from :: int
  bm_to :: int
  bm_description :: string
  bm_apply :: "JValue \<Rightarrow> JValue"

definition BundleMigrations :: "BundleMigration list" where "BundleMigrations = []"

fun run_migrations :: "BundleMigration list \<Rightarrow> JValue \<Rightarrow> int \<Rightarrow> string list \<Rightarrow> JValue \<times> int \<times> string list" where
  "run_migrations [] json version applied = (json, version, applied)"
| "run_migrations (m # ms) json version applied =
     (if bm_from m \<noteq> version then run_migrations ms json version applied
      else run_migrations ms (bm_apply m json) (bm_to m) (applied @ [bm_description m]))"

definition bundle_version :: "JValue \<Rightarrow> int res" where
  "bundle_version json =
     (case HasChild json ''format_version'' of
        Some (JInt n) \<Rightarrow> Inr (narrow32 n)
      | Some (JString t) \<Rightarrow> atoi t
      | _ \<Rightarrow> Inr 0)"

definition MigrateBundleJson :: "JValue \<Rightarrow> string list \<Rightarrow> (string \<times> JValue \<times> string list) res" where
  "MigrateBundleJson json applied = rbind (bundle_version json) (\<lambda>version.
     if version \<le> 0 then Inr (''That theme file does not say which format version it is.'', json, applied)
     else if CurrentBundleFormatVersion < version
     then Inr (''That theme file was made by a newer version of this site (format '' @ StringFromInt version @
            '', this build understands '' @ StringFromInt CurrentBundleFormatVersion @ '').'', json, applied)
     else if version < OldestSupportedBundleFormatVersion
     then Inr (''That theme file is too old to be read (format '' @ StringFromInt version @ '').'', json, applied)
     else let (json', version', applied') = run_migrations BundleMigrations json version applied in
       if version' \<noteq> CurrentBundleFormatVersion
       then Inr (''This build cannot migrate that theme file (stopped at format '' @ StringFromInt version' @ '').'', json', applied')
       else Inr ([], SetKey json' ''format_version'' (JInt version'), applied'))"

record BundleProblem =
  pr_area :: string
  pr_item :: string
  pr_reason :: string

datatype BundleStrictness = Strict | Lenient

record BundleImportReport =
  rp_ok :: bool
  rp_migratedFrom :: int
  rp_migrationsApplied :: "string list"
  rp_unknownKeys :: "string list"
  rp_skippedSections :: "string list"
  rp_problems :: "BundleProblem list"
  rp_contentChanges :: int
  rp_tokenChanges :: int
  rp_fontFamilyChanges :: int
  rp_assetChanges :: int
  rp_error :: string

definition new_report :: BundleImportReport where
  "new_report = \<lparr>rp_ok = False, rp_migratedFrom = 0, rp_migrationsApplied = [], rp_unknownKeys = [],
     rp_skippedSections = [], rp_problems = [], rp_contentChanges = 0, rp_tokenChanges = 0,
     rp_fontFamilyChanges = 0, rp_assetChanges = 0, rp_error = []\<rparr>"

definition problem_json :: "BundleProblem \<Rightarrow> JValue" where
  "problem_json p = json_object
     [(''area'', JString (pr_area p)), (''item'', JString (pr_item p)), (''reason'', JString (pr_reason p))]"

definition BundleImportReportToJson :: "BundleImportReport \<Rightarrow> JValue" where
  "BundleImportReportToJson r =
     (let j = json_object
        [(''problems'', JArray (map problem_json (rp_problems r))),
         (''ok'', JBool (rp_ok r)),
         (''migrated_from'', JInt (rp_migratedFrom r)),
         (''migrations_applied'', JArray (map JString (rp_migrationsApplied r))),
         (''unknown_keys'', JArray (map JString (rp_unknownKeys r))),
         (''skipped_sections'', JArray (map JString (rp_skippedSections r))),
         (''changes'', json_object [(''content'', JInt (rp_contentChanges r)), (''tokens'', JInt (rp_tokenChanges r)),
            (''font_families'', JInt (rp_fontFamilyChanges r)), (''assets'', JInt (rp_assetChanges r))])]
      in if rp_error r \<noteq> [] then SetKey j ''error'' (JString (rp_error r)) else j)"

section \<open>Reading a zip\<close>

definition quoted :: "string \<Rightarrow> string" where
  "quoted s = [CHR 0x22] @ s @ [CHR 0x22]"

text \<open>
  What libzip answers for an entry: its statistics (\<open>None\<close> when the call fails) with the name, possibly
  null, and the size, when the archive says one; and its uncompressed content (\<open>None\<close> when it cannot be
  opened, \<open>Some None\<close> when reading fails). \<open>zip_fread\<close> reads no more than the bytes asked for.
\<close>

record zip_entry =
  ze_stat :: "(string option \<times> nat option) option"
  ze_data :: "string option option"

datatype zip_archive = NoSource | NotAZip | NoCount | Archive "zip_entry list"

record bundle_read =
  br_jsonText :: string
  br_names :: "string list"
  br_totalBytes :: nat
  br_assets :: KeyValueTable

definition fread :: "nat \<Rightarrow> string option \<Rightarrow> string option" where
  "fread sz data = (if sz = 0 then Some []
     else case data of None \<Rightarrow> None | Some d \<Rightarrow> if length (take sz d) = sz then Some (take sz d) else None)"

definition store_file :: "string \<Rightarrow> string \<Rightarrow> nat \<Rightarrow> bundle_read \<Rightarrow> bundle_read" where
  "store_file name bytes sz r =
     (if name = kThemeBundleJsonName then r\<lparr>br_jsonText := bytes, br_totalBytes := br_totalBytes r + sz\<rparr>
      else r\<lparr>br_names := br_names r @ [name], br_totalBytes := br_totalBytes r + sz,
             br_assets := kv_assign name bytes (br_assets r)\<rparr>)"

definition read_cap :: "string \<Rightarrow> nat" where
  "read_cap name = (if name = kThemeBundleJsonName then kMaxBundleJsonBytes else kMaxBundleAssetBytes)"

text \<open>The entries in order; the reason that stops the loop, or the empty one, and what was read.\<close>

fun read_entries :: "zip_entry list \<Rightarrow> bundle_read \<Rightarrow> string \<times> bundle_read" where
  "read_entries [] r = ([], r)"
| "read_entries (e # es) r =
     (case ze_stat e of
        None \<Rightarrow> (''That theme file could not be read.'', r)
      | Some (statName, statSize) \<Rightarrow>
        let name = (case statName of None \<Rightarrow> [] | Some n \<Rightarrow> n) in
        if name = [] \<or> last name = CHR ''/''
        then (''That theme file contains folders, which a theme cannot have.'', r)
        else if name \<noteq> kThemeBundleJsonName \<and> \<not> IsValidBundleAssetName name
        then (quoted name @ '' is not a usable file name.'', r)
        else (case statSize of
            None \<Rightarrow> (''That theme file could not be read.'', r)
          | Some sz \<Rightarrow>
            if read_cap name < sz then (quoted name @ '' is larger than we can accept.'', r)
            else if kMaxBundleTotalBytes < br_totalBytes r + sz
            then (''That theme file'' @ [CHR 0x27] @ ''s contents add up to more than we can accept.'', r)
            else (case ze_data e of
                None \<Rightarrow> (quoted name @ '' could not be read.'', r)
              | Some d \<Rightarrow> (case fread sz d of
                    None \<Rightarrow> (quoted name @ '' could not be read.'', r)
                  | Some bytes \<Rightarrow> read_entries es (store_file name bytes sz r)))))"

definition new_read :: "KeyValueTable \<Rightarrow> bundle_read" where
  "new_read assets = \<lparr>br_jsonText = [], br_names = [], br_totalBytes = 0, br_assets = assets\<rparr>"

text \<open>
  \<open>load\<close> is the parser. The answer is the reason, the document (the one passed in, when none was
  read) and the assets read so far.
\<close>

definition ThemeBundleFromZip ::
  "(string \<Rightarrow> JValue res) \<Rightarrow> zip_archive \<Rightarrow> string \<Rightarrow> JValue \<Rightarrow> KeyValueTable \<Rightarrow> (string \<times> JValue \<times> KeyValueTable) res" where
  "ThemeBundleFromZip load archive zipBytes json assets =
     (if zipBytes = [] then Inr (''That file is empty.'', json, assets)
      else case archive of
        NoSource \<Rightarrow> Inr (''That file could not be read.'', json, assets)
      | NotAZip \<Rightarrow> Inr (''That file is not a theme file (it is not a .zip).'', json, assets)
      | NoCount \<Rightarrow> Inr (''That theme file could not be read.'', json, assets)
      | Archive entries \<Rightarrow>
        if kMaxBundleAssets + 1 < length entries
        then Inr (''That theme file has more files in it than we can accept.'', json, assets)
        else let (reason, r) = read_entries entries (new_read assets) in
          if reason \<noteq> [] then Inr (reason, json, br_assets r)
          else if br_jsonText r = [] then Inr (''That theme file has no theme.json in it.'', json, br_assets r)
          else let duplicate = FindCaseInsensitiveDuplicate (br_names r) in
          if duplicate \<noteq> []
          then Inr (''Two files in that theme are both called '' @ quoted duplicate @ ''.'', json, br_assets r)
          else rbind (load (br_jsonText r)) (\<lambda>j.
            if \<not> HasChildren j then Inr (''The theme.json in that file could not be read.'', j, br_assets r)
            else Inr ([], j, br_assets r)))"

section \<open>Reading a directory\<close>

text \<open>
  An entry as the file system answers for it: whether it is a regular file, its name, its size (\<open>None\<close>
  when the call fails) and its content (\<open>None\<close> when it cannot be opened). Iterating over a directory that
  cannot be opened gives no entries.
\<close>

record dir_entry =
  de_regular :: bool
  de_name :: string
  de_size :: "nat option"
  de_bytes :: "string option"

fun read_directory_entries :: "dir_entry list \<Rightarrow> bundle_read \<Rightarrow> string \<times> bundle_read" where
  "read_directory_entries [] r = ([], r)"
| "read_directory_entries (e # es) r =
     (if \<not> de_regular e then read_directory_entries es r
      else let name = de_name e in
        if name \<noteq> kThemeBundleJsonName \<and> \<not> IsValidBundleAssetName name
        then (quoted name @ '' is not a usable file name.'', r)
        else (case de_size e of
            None \<Rightarrow> (''Could not read '' @ name @ ''.'', r)
          | Some sz \<Rightarrow>
            if read_cap name < sz then (quoted name @ '' is larger than we can accept.'', r)
            else if kMaxBundleTotalBytes < br_totalBytes r + sz
            then (''That theme'' @ [CHR 0x27] @ ''s files add up to more than we can accept.'', r)
            else (case de_bytes e of
                None \<Rightarrow> (''Could not read '' @ name @ ''.'', r)
              | Some bytes \<Rightarrow> read_directory_entries es (store_file name bytes sz r))))"

definition ReadThemeBundleDirectory ::
  "(string \<Rightarrow> JValue res) \<Rightarrow> dir_entry list option \<Rightarrow> string \<Rightarrow> JValue \<Rightarrow> KeyValueTable \<Rightarrow> (string \<times> JValue \<times> KeyValueTable) res" where
  "ReadThemeBundleDirectory load entries directory json assets =
     (case entries of
        None \<Rightarrow> Inr (directory @ '' is not a directory.'', json, assets)
      | Some es \<Rightarrow>
        let (reason, r) = read_directory_entries es (new_read assets) in
          if reason \<noteq> [] then Inr (reason, json, br_assets r)
          else if br_jsonText r = [] then Inr (directory @ '' has no theme.json in it.'', json, br_assets r)
          else if kMaxBundleAssets < length (br_assets r)
          then Inr (''That theme has more files in it than we can accept.'', json, br_assets r)
          else let duplicate = FindCaseInsensitiveDuplicate (br_names r) in
          if duplicate \<noteq> []
          then Inr (''Two files in that theme are both called '' @ quoted duplicate @ ''.'', json, br_assets r)
          else rbind (load (br_jsonText r)) (\<lambda>j.
            if \<not> HasChildren j then Inr (''The theme.json in '' @ directory @ '' could not be read.'', j, br_assets r)
            else Inr ([], j, br_assets r)))"

section \<open>What refuses a bundle\<close>

definition FindContentSlot :: "string \<Rightarrow> SlotType option" where
  "FindContentSlot key = map_of SiteContentSlots key"

definition FindThemeToken :: "string \<Rightarrow> ThemeToken option" where
  "FindThemeToken key = List.find (\<lambda>t. key = tt_key t) SiteThemeTokens"

definition IsUrlSlot :: "string \<Rightarrow> bool" where
  "IsUrlSlot key \<longleftrightarrow> key = kSiteLogoUrl \<or> FindContentSlot key = Some Url"

fun fatal_asset :: "KeyValueTable \<Rightarrow> string" where
  "fatal_asset [] = []"
| "fatal_asset ((name, bytes) # rest) =
     (if \<not> IsValidBundleAssetName name then quoted name @ '' is not a usable file name.''
      else if kMaxBundleAssetBytes < length bytes then quoted name @ '' is larger than we can accept.''
      else if FontFormatFromMagicBytes bytes = [] \<and> ImageTypeFromMagicBytes bytes = []
      then quoted name @ '' is not an image or a font.''
      else fatal_asset rest)"

definition site_key :: "string \<Rightarrow> bool" where
  "site_key key \<longleftrightarrow> starts_with ''site_'' key"

definition fatal_key :: "string \<Rightarrow> string" where
  "fatal_key key = quoted key @ '' is not a theme setting.''"

definition FindFatalBundleProblem :: "ThemeBundle \<Rightarrow> string" where
  "FindFatalBundleProblem b =
     (if kMaxBundleAssets < length (tb_assets b) then ''That theme file has more files in it than we can accept.''
      else if fatal_asset (tb_assets b) \<noteq> [] then fatal_asset (tb_assets b)
      else if kMaxBundleTotalBytes < sum_list (map (\<lambda>p. length (snd p)) (tb_assets b))
      then ''That theme file'' @ [CHR 0x27] @ ''s contents add up to more than we can accept.''
      else let duplicate = FindCaseInsensitiveDuplicate (map fst (tb_assets b)) in
      if duplicate \<noteq> [] then ''Two files in that theme are both called '' @ quoted duplicate @ ''.''
      else case List.find (\<lambda>(key, _). key \<noteq> kSiteLogoUrl \<and> FindContentSlot key = None \<and> \<not> site_key key) (tb_content b) of
        Some (key, _) \<Rightarrow> fatal_key key
      | None \<Rightarrow>
        (case List.find (\<lambda>(key, _). FindThemeToken key = None \<and> \<not> site_key key) (tb_tokens b) of
           Some (key, _) \<Rightarrow> fatal_key key
         | None \<Rightarrow> []))"

section \<open>Pruning\<close>

datatype verdict = Keep | Unknown | Bad string

definition content_verdict :: "ThemeBundle \<Rightarrow> string \<Rightarrow> string \<Rightarrow> verdict" where
  "content_verdict b key v =
     (if key \<noteq> kSiteLogoUrl \<and> FindContentSlot key = None then Unknown
      else if v = [] then Keep
      else if IsUrlSlot key \<and> IsBundleAssetReference v
      then (if \<not> HasAsset b v then Bad (''points at '' @ quoted v @ '', which is not in that theme file.'') else Keep)
      else case FindContentSlot key of
        None \<Rightarrow> Keep
      | Some type \<Rightarrow>
        let reason = ValidateSlotValue type (NormalizeLineEndings v)
        in if reason \<noteq> [] then Bad reason else Keep)"

definition token_verdict :: "string \<Rightarrow> string \<Rightarrow> verdict" where
  "token_verdict key v =
     (case FindThemeToken key of
        None \<Rightarrow> Unknown
      | Some token \<Rightarrow>
        if v = [] then Keep
        else if \<not> IsValidThemeTokenValue (tt_type token) v
        then Bad (quoted v @ '' is not a valid value for that setting.'') else Keep)"

definition AddProblem :: "string \<Rightarrow> string \<Rightarrow> string \<Rightarrow> BundleProblem list \<Rightarrow> BundleProblem list" where
  "AddProblem area item reason ps = ps @ [\<lparr>pr_area = area, pr_item = item, pr_reason = reason\<rparr>]"

text \<open>The entries kept, the unknown keys and the problems, in the order of the map.\<close>

fun prune_map :: "(string \<Rightarrow> string \<Rightarrow> verdict) \<Rightarrow> string \<Rightarrow> KeyValueTable \<Rightarrow> string list \<Rightarrow> BundleProblem list \<Rightarrow>
    KeyValueTable \<times> string list \<times> BundleProblem list" where
  "prune_map f area [] unknown ps = ([], unknown, ps)"
| "prune_map f area ((key, v) # m) unknown ps =
     (case f key v of
        Keep \<Rightarrow> (let (m', unknown', ps') = prune_map f area m unknown ps in ((key, v) # m', unknown', ps'))
      | Unknown \<Rightarrow> prune_map f area m (unknown @ [key]) ps
      | Bad reason \<Rightarrow> prune_map f area m unknown (AddProblem area key reason ps))"

definition preconnects_reason :: "BundleFontPreconnect list \<Rightarrow> string" where
  "preconnects_reason ps = (case List.find (\<lambda>p. \<not> IsValidFontSourceUrl (bp_url p)) ps of
      None \<Rightarrow> [] | Some p \<Rightarrow> quoted (bp_url p) @ '' is not a usable address to warm up.'')"

definition source_reason :: "string set \<Rightarrow> BundleFontSource \<Rightarrow> string" where
  "source_reason keys s =
     (if bs_sourceKey s = [] then ''a font service in that theme has no short key.''
      else if bs_sourceKey s \<in> keys then ''two font services in that theme share this key.''
      else if \<not> IsValidFontSourceUrl (bs_baseUrl s) then ''the font service address must be an https:// URL.''
      else if bs_querySuffix s \<noteq> [] \<and> \<not> IsValidFontSpec (bs_querySuffix s) then ''that extra setting is not valid.''
      else preconnects_reason (bs_preconnects s))"

text \<open>
  A refused source takes its key out of the set, also when the key is there because an earlier source,
  which is kept, put it in.
\<close>

fun prune_sources :: "BundleFontSource list \<Rightarrow> string set \<Rightarrow> BundleProblem list \<Rightarrow>
    BundleFontSource list \<times> string set \<times> BundleProblem list" where
  "prune_sources [] keys ps = ([], keys, ps)"
| "prune_sources (s # ss) keys ps =
     (let reason = source_reason keys s in
      if reason \<noteq> [] then prune_sources ss (keys - {bs_sourceKey s}) (AddProblem ''fonts'' (bs_sourceKey s) reason ps)
      else let (kept, keys', ps') = prune_sources ss (insert (bs_sourceKey s) keys) ps in (s # kept, keys', ps'))"

definition kSiteFontSourceKindCdn :: string where "kSiteFontSourceKindCdn = ''cdn''"
definition kSiteFontSourceKindUploaded :: string where "kSiteFontSourceKindUploaded = ''uploaded''"
definition kSiteFontSourceKindSystem :: string where "kSiteFontSourceKindSystem = ''system''"

definition face_reason :: "KeyValueTable \<Rightarrow> BundleFontFace \<Rightarrow> string" where
  "face_reason assets f =
     (if bf_weight f < 1 \<or> 1000 < bf_weight f then StringFromInt (bf_weight f) @ '' is not a usable font weight.''
      else case map_of assets (bf_file f) of
        None \<Rightarrow> ''the file '' @ quoted (bf_file f) @ '' is not in that theme file.''
      | Some bytes \<Rightarrow>
        if FontFormatFromMagicBytes bytes = [] then quoted (bf_file f) @ '' is not a WOFF2, WOFF, TTF or OTF font.'' else [])"

fun prune_faces :: "KeyValueTable \<Rightarrow> string \<Rightarrow> BundleFontFace list \<Rightarrow> BundleProblem list \<Rightarrow>
    BundleFontFace list \<times> BundleProblem list" where
  "prune_faces assets family [] ps = ([], ps)"
| "prune_faces assets family (f # fs) ps =
     (if face_reason assets f = []
      then (let (kept, ps') = prune_faces assets family fs ps in (f # kept, ps'))
      else prune_faces assets family fs (AddProblem ''fonts'' family (face_reason assets f) ps))"

text \<open>The reason against a family, the family as its faces leave it and the problems of the faces.\<close>

definition judge_family :: "KeyValueTable \<Rightarrow> string set \<Rightarrow> string set \<Rightarrow> BundleFontFamily \<Rightarrow> BundleProblem list \<Rightarrow>
    string \<times> BundleFontFamily \<times> BundleProblem list" where
  "judge_family assets sourceKeys names f ps =
     (if \<not> IsValidFontFamilyName (ff_family f) then (''that is not a usable font name.'', f, ps)
      else if ff_family f \<in> names then (''two fonts in that theme are both called this.'', f, ps)
      else if ff_fallback f = [] \<or> \<not> IsValidFontFamilyList (ff_fallback f)
      then (''needs a backup font (for example sans-serif).'', f, ps)
      else if ff_sourceKind f = kSiteFontSourceKindCdn
      then (if ff_sourceKey f \<notin> sourceKeys
            then ''names a font service ('' @ quoted (ff_sourceKey f) @ '') that theme does not include.''
            else if \<not> IsValidFontSpec (ff_spec f) then ''that font specification is not valid.'' else [], f, ps)
      else if ff_sourceKind f = kSiteFontSourceKindUploaded
      then (let (kept, ps') = prune_faces assets (ff_family f) (ff_faces f) ps
            in (if kept = [] then ''has no usable font files, so nothing could be shown in it.'' else [],
                f\<lparr>ff_faces := kept\<rparr>, ps'))
      else (if ff_sourceKind f \<noteq> kSiteFontSourceKindSystem then ''unknown font kind '' @ quoted (ff_sourceKind f) @ ''.'' else [],
            f, ps))"

fun prune_families :: "KeyValueTable \<Rightarrow> string set \<Rightarrow> BundleFontFamily list \<Rightarrow> string set \<Rightarrow> BundleProblem list \<Rightarrow>
    BundleFontFamily list \<times> BundleProblem list" where
  "prune_families assets sourceKeys [] names ps = ([], ps)"
| "prune_families assets sourceKeys (f # fs) names ps =
     (case judge_family assets sourceKeys names f ps of (reason, f', ps') \<Rightarrow>
        if reason \<noteq> []
        then prune_families assets sourceKeys fs (names - {ff_family f}) (AddProblem ''fonts'' (ff_family f) reason ps')
        else (let (kept, ps'') = prune_families assets sourceKeys fs (insert (ff_family f) names) ps' in (f' # kept, ps'')))"

definition PruneUnusableBundleItems :: "ThemeBundle \<Rightarrow> string list \<Rightarrow> BundleProblem list \<Rightarrow>
    ThemeBundle \<times> string list \<times> BundleProblem list" where
  "PruneUnusableBundleItems b unknown ps =
     (let (content, unknown, ps) = prune_map (content_verdict b) ''content'' (tb_content b) unknown ps;
          (tokens, unknown, ps) = prune_map token_verdict ''tokens'' (tb_tokens b) unknown ps;
          (sources, keys, ps) = prune_sources (tb_sources b) {} ps;
          (families, ps) = prune_families (tb_assets b) keys (tb_families b) {} ps
      in (b\<lparr>tb_content := content, tb_tokens := tokens, tb_sources := sources, tb_families := families\<rparr>, unknown, ps))"

definition unknown_reason :: "string list \<Rightarrow> string" where
  "unknown_reason unknown = ''That theme file has settings this site does not have ('' @ hd unknown @
     (if 1 < length unknown then '' and '' @ StringFromInt (int (length unknown) - 1) @ '' more'' else []) @ '').''"

definition problem_text :: "BundleProblem \<Rightarrow> string" where
  "problem_text p = (if pr_item p = [] then pr_reason p else pr_item p @ '': '' @ pr_reason p)"

definition ValidateThemeBundle :: "ThemeBundle \<Rightarrow> BundleStrictness \<Rightarrow> string list \<Rightarrow> string \<times> string list" where
  "ValidateThemeBundle b strictness unknown =
     (let fatal = FindFatalBundleProblem b in
      if fatal \<noteq> [] then (fatal, unknown)
      else let (_, unknown', ps) = PruneUnusableBundleItems b unknown [] in
        if ps \<noteq> [] then (problem_text (hd ps), unknown')
        else if strictness = Strict \<and> unknown' \<noteq> [] then (unknown_reason unknown', unknown')
        else ([], unknown'))"

section \<open>What reading a file takes in\<close>

definition asset_bytes :: "KeyValueTable \<Rightarrow> nat" where
  "asset_bytes assets = sum_list (map (\<lambda>p. length (snd p)) assets)"

lemma asset_bytes_assign: "asset_bytes (kv_assign n d t) \<le> asset_bytes t + length d"
  by (induction n d t rule: kv_assign.induct) (auto simp: asset_bytes_def)

lemma length_assign: "length (kv_assign n d t) \<le> Suc (length t)"
  by (induction n d t rule: kv_assign.induct) auto

text \<open>What holds of a read at every point, whichever way it ends.\<close>

definition read_ok :: "bundle_read \<Rightarrow> bool" where
  "read_ok r \<longleftrightarrow> kvt_ok (br_assets r) \<and> asset_bytes (br_assets r) + length (br_jsonText r) \<le> br_totalBytes r \<and>
     br_totalBytes r \<le> kMaxBundleTotalBytes \<and> fst ` set (br_assets r) = set (br_names r) \<and>
     (\<forall>n \<in> set (br_names r). IsValidBundleAssetName n \<and> n \<noteq> kThemeBundleJsonName) \<and>
     (\<forall>p \<in> set (br_assets r). length (snd p) \<le> kMaxBundleAssetBytes) \<and>
     length (br_assets r) \<le> length (br_names r)"

definition files_read :: "bundle_read \<Rightarrow> nat" where
  "files_read r = length (br_names r) + (if br_jsonText r = [] then 0 else 1)"

lemma store_file_ok:
  assumes "read_ok r" "name = kThemeBundleJsonName \<or> IsValidBundleAssetName name" "length bytes \<le> sz"
    "sz \<le> read_cap name" "br_totalBytes r + sz \<le> kMaxBundleTotalBytes"
  shows "read_ok (store_file name bytes sz r)"
proof (cases "name = kThemeBundleJsonName")
  case True
  with assms show ?thesis by (simp add: store_file_def read_ok_def)
next
  case False
  have "asset_bytes (kv_assign name bytes (br_assets r)) + length (br_jsonText r) \<le> br_totalBytes r + sz"
    using assms asset_bytes_assign [of name bytes "br_assets r"] by (simp add: read_ok_def)
  moreover have "length (kv_assign name bytes (br_assets r)) \<le> Suc (length (br_names r))"
    using assms(1) length_assign [of name bytes "br_assets r"] by (simp add: read_ok_def)
  moreover have "\<forall>p \<in> set (kv_assign name bytes (br_assets r)). length (snd p) \<le> kMaxBundleAssetBytes"
    using assms False by (auto simp: read_ok_def read_cap_def dest!: set_kv_assign)
  ultimately show ?thesis using assms False
    by (simp add: store_file_def read_ok_def kvt_ok_assign keys_kv_assign del: set_map)
qed

lemma files_store_file: "files_read (store_file name bytes sz r) \<le> Suc (files_read r)"
  by (simp add: store_file_def files_read_def)

lemma fread_length: "fread sz data = Some bytes \<Longrightarrow> length bytes \<le> sz"
  by (auto simp: fread_def split: if_splits option.splits)

text \<open>The decisions for one entry, as the loops of both readers take them.\<close>

lemma read_entries_ok:
  "read_ok r \<Longrightarrow> read_entries es r = (reason, r') \<Longrightarrow> read_ok r' \<and> files_read r' \<le> files_read r + length es"
proof (induction es arbitrary: r)
  case (Cons e es)
  consider (stops) "r' = r" | (goes) name bytes sz where "name = kThemeBundleJsonName \<or> IsValidBundleAssetName name"
      "sz \<le> read_cap name" "br_totalBytes r + sz \<le> kMaxBundleTotalBytes" "length bytes \<le> sz"
      "read_entries es (store_file name bytes sz r) = (reason, r')"
    using Cons.prems(2) by (auto simp: Let_def not_less dest: fread_length split: option.splits if_splits prod.splits)
  then show ?case
  proof cases
    case stops
    with Cons.prems(1) show ?thesis by simp
  next
    case goes
    have ok: "read_ok (store_file name bytes sz r)" using Cons.prems(1) goes by (intro store_file_ok) auto
    from Cons.IH [OF ok goes(5)] files_store_file [of name bytes sz r] show ?thesis by simp
  qed
qed simp

lemma new_read_ok: "read_ok (new_read [])"
  by (simp add: read_ok_def new_read_def asset_bytes_def)

lemma find_duplicate_none:
  "find_duplicate seen names = [] \<Longrightarrow> [] \<notin> set names \<Longrightarrow>
   distinct (map StringToLower names) \<and> StringToLower ` set names \<inter> seen = {}"
  by (induction names arbitrary: seen) (auto split: if_splits)

lemma no_duplicate:
  "FindCaseInsensitiveDuplicate names = [] \<Longrightarrow> [] \<notin> set names \<Longrightarrow> distinct (map StringToLower names)"
  using find_duplicate_none [of "{}"] by (simp add: FindCaseInsensitiveDuplicate_def)

text \<open>
  C10. (bounds) Whatever an uploaded archive holds and however reading it ends, what was taken out of it
  stays within the limits: every file kept has an accepted plain name (so no path, no folder), at most 8
  MiB, all of them together at most 64 MiB, and no more files than entries allowed. When the archive is
  accepted there are at most 64 of them, no two names differ only in case, and the document is an object.
\<close>
theorem zip_stays_bounded:
  assumes "ThemeBundleFromZip load archive zipBytes json [] = Inr (reason, json', assets)"
  shows "kvt_ok assets \<and> asset_bytes assets \<le> kMaxBundleTotalBytes \<and> length assets \<le> kMaxBundleAssets + 1 \<and>
    (\<forall>(name, bytes) \<in> set assets. IsValidBundleAssetName name \<and> length bytes \<le> kMaxBundleAssetBytes) \<and>
    (reason = [] \<longrightarrow> length assets \<le> kMaxBundleAssets \<and> inj_on StringToLower (fst ` set assets) \<and> HasChildren json')"
proof (cases "assets = [] \<and> reason \<noteq> []")
  case True
  then show ?thesis by (simp add: asset_bytes_def)
next
  case False
  with assms have ne: "zipBytes \<noteq> []" by (auto simp: ThemeBundleFromZip_def)
  from assms False obtain entries where e: "archive = Archive entries" "length entries \<le> kMaxBundleAssets + 1"
    by (cases archive) (auto simp: ThemeBundleFromZip_def not_less split: if_splits)
  obtain reason' r where r: "read_entries entries (new_read []) = (reason', r)" by fastforce
  note run = assms [unfolded ThemeBundleFromZip_def e(1) Let_def, simplified ne, simplified]
  have e4: "assets = br_assets r" using run e(2) by (auto simp: r split: if_splits)
  have done': "br_jsonText r \<noteq> [] \<and> FindCaseInsensitiveDuplicate (br_names r) = [] \<and> HasChildren json'" if "reason = []"
    using run e(2) that by (auto simp: r split: if_splits)
  have ok: "read_ok r" and n: "files_read r \<le> length entries"
    using read_entries_ok [OF new_read_ok r] by (simp_all add: files_read_def new_read_def)
  have names: "fst ` set (br_assets r) = set (br_names r)" "length (br_assets r) \<le> length (br_names r)"
    using ok by (simp_all add: read_ok_def)
  have nonempty: "[] \<notin> set (br_names r)" using ok by (auto simp: read_ok_def IsValidBundleAssetName_def)
  have full: "length assets \<le> kMaxBundleAssets \<and> inj_on StringToLower (fst ` set assets)" if "reason = []"
  proof -
    have "distinct (map StringToLower (br_names r))" using done' [OF that] nonempty by (intro no_duplicate) auto
    then have "inj_on StringToLower (set (br_names r))" by (simp add: distinct_map)
    moreover have "length (br_names r) < files_read r" using done' [OF that] by (simp add: files_read_def)
    ultimately show ?thesis using names n e(2) e4 by simp
  qed
  have "length assets \<le> kMaxBundleAssets + 1" using names n e(2) e4 by (simp add: files_read_def)
  moreover have "\<forall>(name, bytes) \<in> set assets. IsValidBundleAssetName name \<and> length bytes \<le> kMaxBundleAssetBytes"
  proof (intro ballI, clarify)
    fix name bytes assume m: "(name, bytes) \<in> set assets"
    then have "name \<in> set (br_names r)" unfolding names(1) [symmetric] e4 by (force simp del: set_map)
    moreover have "length (snd (name, bytes)) \<le> kMaxBundleAssetBytes" using ok m unfolding read_ok_def e4 by blast
    ultimately show "IsValidBundleAssetName name \<and> length bytes \<le> kMaxBundleAssetBytes"
      using ok unfolding read_ok_def by simp
  qed
  ultimately show ?thesis using ok e4 full done' by (simp add: read_ok_def)
qed

definition demo_zip :: zip_archive where
  "demo_zip = Archive [\<lparr>ze_stat = Some (Some ''theme.json'', Some 2), ze_data = Some (Some ''{}'')\<rparr>,
     \<lparr>ze_stat = Some (Some ''logo.png'', Some 3), ze_data = Some (Some ''abc'')\<rparr>,
     \<lparr>ze_stat = Some (Some ''../../etc/passwd'', Some 1), ze_data = Some (Some ''x'')\<rparr>]"

lemma zip_stays_bounded_witness:
  "\<exists>reason json'. ThemeBundleFromZip (\<lambda>_. Inr (JObject [])) demo_zip ''PK'' JNull [] = Inr (reason, json', [(''logo.png'', ''abc'')]) \<and>
     reason = quoted ''../../etc/passwd'' @ '' is not a usable file name.'' \<and> asset_bytes [(''logo.png'', ''abc'')] \<le> kMaxBundleTotalBytes"
proof -
  have c: "ThemeBundleFromZip (\<lambda>_. Inr (JObject [])) demo_zip ''PK'' JNull [] =
      Inr (quoted ''../../etc/passwd'' @ '' is not a usable file name.'', JNull, [(''logo.png'', ''abc'')])"
    by (simp add: Let_def ThemeBundleFromZip_def demo_zip_def new_read_def kMaxBundleAssets_def kThemeBundleJsonName_def
        IsValidBundleAssetName_def kMaxAssetNameBytes_def is_alnum_def between_def IsAssetNameChar_def read_cap_def
        kMaxBundleJsonBytes_def kMaxBundleAssetBytes_def kMaxBundleTotalBytes_def fread_def store_file_def quoted_def)
  from zip_stays_bounded [OF c] c show ?thesis by blast
qed

section \<open>The file form reads back\<close>

lemma kvt_ext:
  assumes "kvt_ok a" "kvt_ok b" "map_of a = map_of b"
  shows "a = b"
proof -
  have dom: "set (map fst a) = set (map fst b)" using assms(3) by (metis dom_map_of_conv_image_fst set_map)
  have keys: "map fst a = map fst b"
    using assms(1,2) dom unfolding kvt_ok_def by (intro strict_sorted_equal) auto
  have form: "t = map (\<lambda>k. (k, the (map_of t k))) (map fst t)" if "kvt_ok t" for t :: "(string \<times> 'a) list"
    using kvt_ok_distinct [OF that] by (simp add: comp_def) (intro map_idI [symmetric], auto)
  show ?thesis using form [OF assms(1)] form [OF assms(2)] keys assms(3) by metis
qed

lemma HasChild_json_object [simp]: "HasChild (json_object kvs) key = map_of kvs key"
  by (simp add: HasChild_def json_object_def kvt.find_fold_ins)

lemma HasChild_SetKey [simp]: "kvt_ok (MakeObject j) \<Longrightarrow> HasChild (SetKey j k v) key = (if key = k then Some v else HasChild j key)"
  by (simp add: HasChild_def map_of_kv_assign)

lemma json_object_ok [simp]: "kvt_ok (MakeObject (json_object kvs))"
  by (simp add: json_object_def kvt.ok_fold_ins)

lemma SetKey_ok [simp]: "kvt_ok (MakeObject j) \<Longrightarrow> kvt_ok (MakeObject (SetKey j k v))"
  by (simp add: kvt_ok_assign)

lemma read_preconnect_back: "read_preconnect (json_object [(''url'', JString (bp_url p)), (''crossorigin'', JBool (bp_crossorigin p))]) = p"
  by (cases p) (simp add: read_preconnect_def FieldString_def FieldBool_def)

lemma read_source_back: "read_source (source_json s) = s"
  by (cases s) (simp add: read_source_def source_json_def FieldString_def ArrayField_def read_preconnect_back comp_def)

lemma narrow32_id: "in_i32 n \<Longrightarrow> narrow32 n = n"
  by (simp add: narrow32_def in_i32_def)

lemma read_face_back: "in_i32 (bf_weight f) \<Longrightarrow> read_face (face_json f) = Inr f"
  by (cases f) (simp add: read_face_def face_json_def FieldInt_def FieldString_def narrow32_id)

lemma read_family_back:
  assumes "\<forall>face \<in> set (ff_faces f). in_i32 (bf_weight face)"
  shows "read_family (family_json f) = Inr f"
proof -
  have faces: "rmap read_face (map face_json fs) = Inr fs" if "\<forall>face \<in> set fs. in_i32 (bf_weight face)" for fs
    using that by (induction fs) (simp_all add: read_face_back)
  show ?thesis
    using faces [OF assms] by (cases f) (simp add: kvt_ok_assign read_family_def family_json_def Let_def FieldString_def ArrayField_def)
qed

lemma split_lines_ne: "split_lines s \<noteq> []"
  by (induction s) (auto split: list.splits)

lemma split_lines_Cons: "split_lines s = hd (split_lines s) # tl (split_lines s)"
  by (simp add: split_lines_ne)

lemma join_split_lines: "join [CHR 0x0A] (split_lines s) = s"
proof (induction s)
  case (Cons c s)
  obtain l ls where l: "split_lines s = l # ls" using split_lines_Cons by blast
  then show ?case using Cons by (cases ls) simp_all
qed simp

lemma last_split_lines: "s \<noteq> [] \<Longrightarrow> last s \<noteq> CHR 0x0A \<Longrightarrow> last (split_lines s) \<noteq> []"
proof (induction s)
  case (Cons c s)
  obtain l ls where l: "split_lines s = l # ls" using split_lines_Cons by blast
  then show ?case using Cons by (cases "s = []") (auto split: if_splits)
qed simp

text \<open>Stored lines as the editor writes them: no carriage return, no line feed at the end.\<close>

definition stored_lines :: "string \<Rightarrow> bool" where
  "stored_lines v \<longleftrightarrow> CHR 0x0D \<notin> set v \<and> (v \<noteq> [] \<longrightarrow> last v \<noteq> CHR 0x0A)"

lemma UnpackLines_stored: "stored_lines v \<Longrightarrow> UnpackLines v = (if v = [] then [] else split_lines v)"
proof -
  assume v: "stored_lines v"
  have "dropWhile (\<lambda>l. l = []) (rev (split_lines v)) = rev (split_lines v)" if "v \<noteq> []"
    using v that last_split_lines [of v] by (simp add: dropWhile_eq_self_iff stored_lines_def hd_rev split_lines_ne)
  then show ?thesis using v by (simp add: UnpackLines_def NormalizeLineEndings_id stored_lines_def)
qed

lemma PackLines_UnpackLines: "stored_lines v \<Longrightarrow> PackLines (UnpackLines v) = v"
  by (simp add: UnpackLines_stored PackLines_def join_split_lines)

text \<open>Links: what follows the first bar of a line is not empty.\<close>

definition stored_links :: "string \<Rightarrow> bool" where
  "stored_links v \<longleftrightarrow> stored_lines v \<and>
     (\<forall>l \<in> set (UnpackLines v). CHR ''|'' \<in> set l \<longrightarrow> tl (dropWhile (\<lambda>c. c \<noteq> CHR ''|'') l) \<noteq> [])"

lemma bar_split: "CHR ''|'' \<in> set l \<Longrightarrow>
  takeWhile (\<lambda>c. c \<noteq> CHR ''|'') l @ CHR ''|'' # tl (dropWhile (\<lambda>c. c \<noteq> CHR ''|'') l) = l"
  by (induction l) auto

lemma PackLabelledLinks_Unpack:
  assumes "stored_links v"
  shows "PackLabelledLinks (UnpackLabelledLinks v) = v"
proof -
  have "map (\<lambda>(label, url). if url = [] then label else label @ ''|'' @ url) (UnpackLabelledLinks v) = UnpackLines v"
    unfolding UnpackLabelledLinks_def using assms
    by (simp add: stored_links_def comp_def) (intro map_idI, auto simp: bar_split)
  then show ?thesis using assms by (simp add: PackLabelledLinks_def PackLines_UnpackLines stored_links_def)
qed


lemma read_link_back: "read_link (json_object [(''label'', JString l), (''url'', JString u)]) = (l, u)"
  by (simp add: read_link_def FieldString_def) (simp add: json_object_def)

lemma content_back:
  "(IsLabelledLinksSlot key \<longrightarrow> stored_links v) \<Longrightarrow> (IsLinesSlot key \<longrightarrow> stored_lines v) \<Longrightarrow> map_of c key = Some v \<Longrightarrow>
   read_content key (content_json c key) = v"
  by (simp add: read_content_def content_json_def PackLines_UnpackLines PackLabelledLinks_Unpack comp_def case_prod_unfold read_link_back)

text \<open>A map filled by assignments along a list of keys, and read again through a function of the entry.\<close>

lemma assign_keys: "fold (\<lambda>key m. kv_assign key (f key) m) keys [] = assign_all (map (\<lambda>k. (k, f k)) keys) []"
proof -
  have "fold (\<lambda>key m. kv_assign key (f key) m) keys m = assign_all (map (\<lambda>k. (k, f k)) keys) m" for m
    unfolding assign_all_def by (induction keys arbitrary: m) auto
  then show ?thesis .
qed

lemma assign_values: "fold (\<lambda>(k, v) m. kv_assign k (g k v) m) kvs m = assign_all (map (\<lambda>(k, v). (k, g k v)) kvs) m"
  unfolding assign_all_def by (induction kvs arbitrary: m) auto

lemma map_of_map2: "map_of (map (\<lambda>(k, v). (k, g k v)) kvs) key = map_option (g key) (map_of kvs key)"
  by (induction kvs) auto

lemma kvt_ok_map2: "kvt_ok (map (\<lambda>(k, v). (k, g k v)) t) \<longleftrightarrow> kvt_ok t"
  by (simp add: kvt_ok_def comp_def case_prod_unfold)

lemma registry_back:
  assumes "kvt_ok t" "set keys = fst ` set t" "distinct keys" "\<And>key v. map_of t key = Some v \<Longrightarrow> g key (f key) = v"
  shows "fold (\<lambda>(k, v) m. kv_assign k (g k v) m) (fold (\<lambda>key m. kv_assign key (f key) m) keys []) [] = t"
proof -
  let ?M = "assign_all (map (\<lambda>k. (k, f k)) keys) []"
  have ok: "kvt_ok ?M" by (simp add: assign_all_ok)
  have M: "map_of ?M key = (if key \<in> set keys then Some (f key) else None)" for key
    using assms(3) by (subst map_of_assign_all) (auto simp: comp_def map_of_map_restrict restrict_map_def)
  have "map_of (map (\<lambda>(k, v). (k, g k v)) ?M) key = map_of t key" for key
  proof (cases "map_of t key")
    case None
    then have "key \<notin> set keys" using assms(2) by (simp add: map_of_eq_None_iff)
    then show ?thesis using None by (simp add: map_of_map2 M)
  next
    case (Some v)
    then have "key \<in> set keys" unfolding assms(2) by (metis domI dom_map_of_conv_image_fst)
    then show ?thesis using Some assms(4) by (simp add: map_of_map2 M)
  qed
  then have "map (\<lambda>(k, v). (k, g k v)) ?M = t" using ok assms(1) by (intro kvt_ext) (simp_all add: kvt_ok_map2 fun_eq_iff)
  then show ?thesis using assms(1) by (simp add: assign_keys assign_values assign_all_id)
qed

text \<open>A complete bundle, as an export builds it: every registered key, values as the editor stores them.\<close>

definition tb_complete :: "ThemeBundle \<Rightarrow> bool" where
  "tb_complete b \<longleftrightarrow> 0 < tb_formatVersion b \<and> in_i32 (tb_formatVersion b) \<and>
     kvt_ok (tb_content b) \<and> fst ` set (tb_content b) = set BundleContentKeys \<and>
     (\<forall>(k, v) \<in> set (tb_content b). (IsLinesSlot k \<longrightarrow> stored_lines v) \<and> (IsLabelledLinksSlot k \<longrightarrow> stored_links v)) \<and>
     kvt_ok (tb_tokens b) \<and> fst ` set (tb_tokens b) = tt_key ` set SiteThemeTokens \<and>
     (\<forall>f \<in> set (tb_families b). \<forall>face \<in> set (ff_faces f). in_i32 (bf_weight face)) \<and>
     kvt_ok (tb_appSections b) \<and> fst ` set (tb_appSections b) \<inter> set reserved_keys = {}"

lemma SetKey_fold: "MakeObject (fold (\<lambda>(name, body) r. SetKey r name body) kvs root) = assign_all kvs (MakeObject root) \<and>
   (HasChildren root \<longrightarrow> HasChildren (fold (\<lambda>(name, body) r. SetKey r name body) kvs root))"
  unfolding assign_all_def by (induction kvs arbitrary: root) (auto simp: SetKey_def)

lemma assign_unless:
  "fold (\<lambda>(k, v) m. if k \<in> R then m else kv_assign k v m) kvs m = assign_all (filter (\<lambda>p. fst p \<notin> R) kvs) m"
  unfolding assign_all_def by (induction kvs arbitrary: m) auto

lemma kvt_ok_filter: "kvt_ok t \<Longrightarrow> kvt_ok (filter P t)"
  unfolding kvt_ok_def by (induction t) auto

lemma map_of_filter_keys: "map_of (filter (\<lambda>p. fst p \<notin> R) kvs) key = (if key \<in> R then None else map_of kvs key)"
  by (induction kvs) auto

lemma ramp_keys: "map tt_key (ramp name human) = map (\<lambda>step. ''site_theme_palette_'' @ name @ ''_'' @ step)
   [''100'', ''200'', ''300'', ''400'', ''500'', ''600'', ''700'']"
  by (simp add: ramp_def token_of_def)

lemma token_keys_distinct: "distinct (map tt_key SiteThemeTokens)"
  unfolding SiteThemeTokens_def map_append ramp_keys map_map by (simp add: token_of_def)

lemma content_keys_distinct: "distinct BundleContentKeys"
  by (simp add: BundleContentKeys_def SiteContentSlots_def kSiteLogoUrl_def kSiteSocialLinks_def)




definition demo_bundle :: ThemeBundle where
  "demo_bundle = new_bundle\<lparr>tb_formatVersion := 1, tb_name := ''Demo'',
     tb_content := assign_all ((''site_address_lines'', ''1 High St'' @ [CHR 0x0A] @ ''Town'') #
        map (\<lambda>k. (k, [])) (filter (\<lambda>k. k \<noteq> ''site_address_lines'') BundleContentKeys)) [],
     tb_tokens := assign_all (map (\<lambda>t. (tt_key t, [])) SiteThemeTokens) [],
     tb_families := [\<lparr>ff_family = ''Barlow'', ff_fallback = ''sans-serif'', ff_sourceKind = ''uploaded'', ff_sourceKey = [],
        ff_spec = [], ff_faces = [\<lparr>bf_weight = 700, bf_style = ''italic'', bf_file = ''barlow.woff2''\<rparr>]\<rparr>]\<rparr>"

lemma keys_assign_all: "fst ` set (assign_all kvs m) = fst ` set kvs \<union> fst ` set m"
  unfolding assign_all_def by (rule keys_assign_fold)

lemma keys_override: "a \<in> set ks \<Longrightarrow> fst ` set ((a, v) # map (\<lambda>k. (k, [])) (filter (\<lambda>k. k \<noteq> a) ks)) = set ks"
  by (auto simp: image_image)


section \<open>Duplicates\<close>

text \<open>
  A second source under a key that is already taken makes the first one, which is kept, unusable: no
  family can name it any more. A third one is accepted again.
\<close>

theorem duplicate_source_orphans:
  assumes "source_reason {} s = []"
  shows "prune_sources [s, s] {} ps =
      ([s], {}, AddProblem ''fonts'' (bs_sourceKey s) ''two font services in that theme share this key.'' ps)"
    and "fst (prune_sources [s, s, s] {} ps) = [s, s]"
  using assms by (simp_all add: source_reason_def Let_def split: if_splits)

lemma orphaned_family_dropped:
  assumes "source_reason {} s = []" "ff_sourceKind f = kSiteFontSourceKindCdn" "ff_sourceKey f = bs_sourceKey s"
  shows "fst (prune_families assets (fst (snd (prune_sources [s, s] {} ps))) [f] {} ps') = []"
  using duplicate_source_orphans(1) [OF assms(1)] assms(2,3) by (simp add: judge_family_def)

end
