(* ===== verification/SiteFonts.thy ===== *)
theory SiteFonts
  imports ThemeBundle Effects
begin

text \<open>
  The tables of a tenant's fonts and theme images and their helpers
  (\<open>sql_util/table_helpers/site_fonts.cpp\<close>, \<open>site_assets.cpp\<close>), and the font inventory that is served
  (\<open>LoadSiteFontInventory\<close>, \<open>LookupFontStack\<close> of \<open>site_font_inventory.cpp\<close>). These tables stand beside
  \<open>world\<close> in a state of their own; a statement on a table that does not exist fails, like any failing
  statement it aborts the transaction. The time columns, which nothing here reads, are left out. An
  identifier is the number its decimal text stands for; a NULL column is \<open>None\<close>.
\<close>

section \<open>Tables\<close>

record SiteAssetRow =
  sa_id :: int
  sa_name :: string
  sa_type :: string
  sa_bytes :: string

record SiteFontSourceRow =
  fs_id :: int
  fs_sourceKey :: string
  fs_displayName :: string
  fs_baseUrl :: string
  fs_querySuffix :: string
  fs_preconnectLines :: string
  fs_active :: bool

record SiteFontRow =
  sf_id :: int
  sf_family :: string
  sf_fallback :: string
  sf_sourceKind :: string
  sf_fontSourceId :: "int option"
  sf_spec :: string
  sf_ordinal :: int
  sf_active :: bool

record SiteFontFaceRow =
  fc_id :: int
  fc_fontId :: int
  fc_weight :: int
  fc_style :: string
  fc_format :: string
  fc_bytes :: string

record site_db =
  site_tables :: "string list"
  site_assets :: "SiteAssetRow list"
  site_font_sources :: "SiteFontSourceRow list"
  site_fonts :: "SiteFontRow list"
  site_font_faces :: "SiteFontFaceRow list"

definition kSiteFontSources :: string where "kSiteFontSources = ''site_font_sources''"
definition kSiteFonts :: string where "kSiteFonts = ''site_fonts''"
definition kSiteFontFaces :: string where "kSiteFontFaces = ''site_font_faces''"
definition kSiteAssets :: string where "kSiteAssets = ''site_assets''"

type_synonym 'a stx = "(world \<times> site_db, 'a) eff"

definition in_world :: "'a tx \<Rightarrow> 'a stx" where
  "in_world m = (\<lambda>(w, d). case m w of (r, w') \<Rightarrow> (r, (w', d)))"

text \<open>A statement on a table, and one that only reads.\<close>

definition on_table :: "string \<Rightarrow> (world \<times> site_db \<Rightarrow> 'a res \<times> (world \<times> site_db)) \<Rightarrow> 'a stx" where
  "on_table t f = (\<lambda>(w, d).
     if aborted w then (Inl (DbFailure ''current transaction is aborted''), (w, d))
     else if t \<notin> set (site_tables d) then (Inl (DbFailure ''relation does not exist''), (w\<lparr>aborted := True\<rparr>, d))
     else case f (w, d) of
        (Inl e, _) \<Rightarrow> (Inl e, (w\<lparr>aborted := True\<rparr>, d))
      | (Inr x, s) \<Rightarrow> (Inr x, s))"

definition rows_of :: "string \<Rightarrow> (site_db \<Rightarrow> 'a) \<Rightarrow> 'a stx" where
  "rows_of t f = on_table t (\<lambda>(w, d). (Inr (f d), (w, d)))"

definition change_rows :: "string \<Rightarrow> (site_db \<Rightarrow> site_db) \<Rightarrow> unit stx" where
  "change_rows t f = on_table t (\<lambda>(w, d). (Inr (), (w, f d)))"

text \<open>An inserted row takes the next number of its table's sequence, also when the statement then fails.\<close>

definition insert_row :: "string \<Rightarrow> (site_db \<Rightarrow> bool) \<Rightarrow> (int \<Rightarrow> site_db \<Rightarrow> site_db) \<Rightarrow> int stx" where
  "insert_row t allowed f = on_table t (\<lambda>(w, d).
     case nextval t w of (n, w') \<Rightarrow>
       if allowed d then (Inr n, (w', f n d)) else (Inl (DbFailure ''constraint violation''), (w', d)))"

section \<open>Images\<close>

definition GetAssetByName :: "string \<Rightarrow> SiteAssetRow option stx" where
  "GetAssetByName name = rows_of kSiteAssets (\<lambda>d. List.find (\<lambda>r. sa_name r = name) (site_assets d))"

definition PutAsset :: "string \<Rightarrow> string \<Rightarrow> string \<Rightarrow> int stx" where
  "PutAsset name type bytes =
     bindE (GetAssetByName name) (\<lambda>existing. case existing of
       Some row \<Rightarrow> bindE (change_rows kSiteAssets (\<lambda>d. d\<lparr>site_assets := map (\<lambda>r.
           if sa_id r = sa_id row then r\<lparr>sa_type := type, sa_bytes := bytes\<rparr> else r) (site_assets d)\<rparr>)) (\<lambda>_. retE (sa_id row))
     | None \<Rightarrow> insert_row kSiteAssets (\<lambda>d. name \<notin> sa_name ` set (site_assets d))
         (\<lambda>n d. d\<lparr>site_assets := site_assets d @ [\<lparr>sa_id = n, sa_name = name, sa_type = type, sa_bytes = bytes\<rparr>]\<rparr>))"

definition GetAllAssets :: "SiteAssetRow list stx" where
  "GetAllAssets = rows_of kSiteAssets (\<lambda>d. sort_key sa_name (site_assets d))"

definition GetAssetBytes :: "string \<Rightarrow> string stx" where
  "GetAssetBytes name = bindE (GetAssetByName name) (\<lambda>r. case r of
     None \<Rightarrow> retE []
   | Some _ \<Rightarrow> bindE (rows_of kSiteAssets (\<lambda>d. map sa_bytes (filter (\<lambda>r. sa_name r = name) (site_assets d))))
       (\<lambda>bs. case bs of [] \<Rightarrow> throwE (RuntimeError ''no rows'') | b # _ \<Rightarrow> retE b))"

definition DeleteAssetByName :: "string \<Rightarrow> unit stx" where
  "DeleteAssetByName name = change_rows kSiteAssets (\<lambda>d. d\<lparr>site_assets := filter (\<lambda>r. sa_name r \<noteq> name) (site_assets d)\<rparr>)"

section \<open>Font sources\<close>

definition AddSource :: "string \<Rightarrow> string \<Rightarrow> string \<Rightarrow> string \<Rightarrow> string \<Rightarrow> int stx" where
  "AddSource sourceKey displayName baseUrl querySuffix preconnectLines =
     insert_row kSiteFontSources (\<lambda>d. sourceKey \<notin> fs_sourceKey ` set (site_font_sources d))
       (\<lambda>n d. d\<lparr>site_font_sources := site_font_sources d @ [\<lparr>fs_id = n, fs_sourceKey = sourceKey,
          fs_displayName = displayName, fs_baseUrl = baseUrl, fs_querySuffix = querySuffix,
          fs_preconnectLines = preconnectLines, fs_active = True\<rparr>]\<rparr>)"

text \<open>\<open>source_key\<close> is unique: a change that gives two rows one key fails.\<close>

definition UpdateSource :: "int \<Rightarrow> string \<Rightarrow> string \<Rightarrow> string \<Rightarrow> string \<Rightarrow> string \<Rightarrow> unit stx" where
  "UpdateSource sid sourceKey displayName baseUrl querySuffix preconnectLines =
     on_table kSiteFontSources (\<lambda>(w, d).
       if \<exists>r \<in> set (site_font_sources d). fs_id r = sid \<and> (\<exists>q \<in> set (site_font_sources d). fs_id q \<noteq> sid \<and> fs_sourceKey q = sourceKey)
       then (Inl (DbFailure ''constraint violation''), (w, d))
       else (Inr (), (w, d\<lparr>site_font_sources := map (\<lambda>r. if fs_id r = sid
          then r\<lparr>fs_sourceKey := sourceKey, fs_displayName := displayName, fs_baseUrl := baseUrl,
                 fs_querySuffix := querySuffix, fs_preconnectLines := preconnectLines\<rparr> else r) (site_font_sources d)\<rparr>)))"

definition GetSource :: "int \<Rightarrow> SiteFontSourceRow option stx" where
  "GetSource sid = rows_of kSiteFontSources (\<lambda>d. List.find (\<lambda>r. fs_id r = sid) (site_font_sources d))"

definition GetSourceByKey :: "string \<Rightarrow> SiteFontSourceRow option stx" where
  "GetSourceByKey key = rows_of kSiteFontSources (\<lambda>d. List.find (\<lambda>r. fs_sourceKey r = key) (site_font_sources d))"

definition GetAllSources :: "SiteFontSourceRow list stx" where
  "GetAllSources = rows_of kSiteFontSources (\<lambda>d. sort_key fs_sourceKey (site_font_sources d))"

definition GetActiveSources :: "SiteFontSourceRow list stx" where
  "GetActiveSources = rows_of kSiteFontSources (\<lambda>d. sort_key fs_sourceKey (filter fs_active (site_font_sources d)))"

definition DeleteSource :: "int \<Rightarrow> unit stx" where
  "DeleteSource sid = change_rows kSiteFontSources (\<lambda>d. d\<lparr>site_font_sources := filter (\<lambda>r. fs_id r \<noteq> sid) (site_font_sources d)\<rparr>)"

section \<open>Families\<close>

definition AddFont :: "string \<Rightarrow> string \<Rightarrow> string \<Rightarrow> int \<Rightarrow> string \<Rightarrow> int \<Rightarrow> int stx" where
  "AddFont family fallback sourceKind fontSourceId spec ordinal =
     insert_row kSiteFonts (\<lambda>_. True) (\<lambda>n d. d\<lparr>site_fonts := site_fonts d @ [\<lparr>sf_id = n, sf_family = family,
        sf_fallback = fallback, sf_sourceKind = sourceKind,
        sf_fontSourceId = (if 0 < fontSourceId then Some fontSourceId else None),
        sf_spec = spec, sf_ordinal = ordinal, sf_active = True\<rparr>]\<rparr>)"

definition change_font :: "int \<Rightarrow> (SiteFontRow \<Rightarrow> SiteFontRow) \<Rightarrow> unit stx" where
  "change_font fid f = change_rows kSiteFonts (\<lambda>d. d\<lparr>site_fonts := map (\<lambda>r. if sf_id r = fid then f r else r) (site_fonts d)\<rparr>)"

definition UpdateFont :: "int \<Rightarrow> string \<Rightarrow> string \<Rightarrow> string \<Rightarrow> int \<Rightarrow> string \<Rightarrow> int \<Rightarrow> unit stx" where
  "UpdateFont fid family fallback sourceKind fontSourceId spec ordinal =
     bindE (change_font fid (\<lambda>r. (if 0 < fontSourceId then r\<lparr>sf_fontSourceId := Some fontSourceId\<rparr> else r)
         \<lparr>sf_family := family, sf_fallback := fallback, sf_sourceKind := sourceKind, sf_spec := spec, sf_ordinal := ordinal\<rparr>)) (\<lambda>_.
     if fontSourceId \<le> 0 then change_font fid (\<lambda>r. r\<lparr>sf_fontSourceId := None\<rparr>) else retE ())"

definition GetFont :: "int \<Rightarrow> SiteFontRow option stx" where
  "GetFont fid = rows_of kSiteFonts (\<lambda>d. List.find (\<lambda>r. sf_id r = fid) (site_fonts d))"

definition GetFontByFamily :: "string \<Rightarrow> SiteFontRow option stx" where
  "GetFontByFamily family = rows_of kSiteFonts (\<lambda>d. List.find (\<lambda>r. sf_family r = family) (site_fonts d))"

definition by_ordinal :: "SiteFontRow list \<Rightarrow> SiteFontRow list" where
  "by_ordinal rows = sort_key sf_ordinal (sort_key sf_id rows)"

definition GetAllFonts :: "SiteFontRow list stx" where
  "GetAllFonts = rows_of kSiteFonts (\<lambda>d. by_ordinal (site_fonts d))"

definition GetActiveFonts :: "SiteFontRow list stx" where
  "GetActiveFonts = rows_of kSiteFonts (\<lambda>d. by_ordinal (filter sf_active (site_fonts d)))"

text \<open>The reference of the faces is declared \<open>ON DELETE CASCADE\<close> (\<open>fk_constraint\<close>): they go with their family.\<close>

definition DeleteFont :: "int \<Rightarrow> unit stx" where
  "DeleteFont fid = change_rows kSiteFonts (\<lambda>d. d\<lparr>site_fonts := filter (\<lambda>r. sf_id r \<noteq> fid) (site_fonts d),
     site_font_faces := filter (\<lambda>q. fc_fontId q \<noteq> fid) (site_font_faces d)\<rparr>)"

section \<open>Faces\<close>

definition AddFace :: "int \<Rightarrow> int \<Rightarrow> string \<Rightarrow> string \<Rightarrow> string \<Rightarrow> int stx" where
  "AddFace fid weight style format bytes =
     insert_row kSiteFontFaces (\<lambda>d. fid \<in> sf_id ` set (site_fonts d))
       (\<lambda>n d. d\<lparr>site_font_faces := site_font_faces d @ [\<lparr>fc_id = n, fc_fontId = fid, fc_weight = weight,
          fc_style = style, fc_format = format, fc_bytes = bytes\<rparr>]\<rparr>)"

definition GetFace :: "int \<Rightarrow> SiteFontFaceRow option stx" where
  "GetFace cid = rows_of kSiteFontFaces (\<lambda>d. List.find (\<lambda>r. fc_id r = cid) (site_font_faces d))"

definition GetFaceBytes :: "int \<Rightarrow> string stx" where
  "GetFaceBytes cid = bindE (GetFace cid) (\<lambda>r. case r of
     None \<Rightarrow> throwE (RuntimeError ''no rows'') | Some row \<Rightarrow> retE (fc_bytes row))"

definition GetFacesForFont :: "int \<Rightarrow> SiteFontFaceRow list stx" where
  "GetFacesForFont fid = rows_of kSiteFontFaces (\<lambda>d.
     sort_key fc_weight (sort_key fc_style (filter (\<lambda>r. fc_fontId r = fid) (site_font_faces d))))"

definition DeleteFace :: "int \<Rightarrow> unit stx" where
  "DeleteFace cid = change_rows kSiteFontFaces (\<lambda>d. d\<lparr>site_font_faces := filter (\<lambda>r. fc_id r \<noteq> cid) (site_font_faces d)\<rparr>)"

text \<open>The faces of the active families, in the order of their families, each with its family.\<close>

definition GetAllActiveFaces :: "(SiteFontFaceRow \<times> SiteFontRow) list stx" where
  "GetAllActiveFaces = bindE (rows_of kSiteFonts (\<lambda>_. ())) (\<lambda>_. rows_of kSiteFontFaces (\<lambda>d.
     concat (map (\<lambda>font. map (\<lambda>face. (face, font))
         (sort_key fc_weight (sort_key fc_style (filter (\<lambda>r. fc_fontId r = sf_id font) (site_font_faces d)))))
       (by_ordinal (filter sf_active (site_fonts d))))))"

section \<open>The inventory\<close>

record FontFaceDescriptor =
  fd_family :: string
  fd_weight :: int
  fd_style :: string
  fd_format :: string
  fd_url :: string

record SiteFontInventory =
  fi_stylesheets :: "string list"
  fi_preconnects :: "FontPreconnect list"
  fi_faces :: "FontFaceDescriptor list"

text \<open>
  Maps from the text of an identifier: \<open>sourcesById\<close> and, with the specifications of the active
  \<open>cdn\<close> families in font order, \<open>specsBySource\<close>. The sources come out in the order of these texts.
\<close>

definition sources_by_id :: "SiteFontSourceRow list \<Rightarrow> (string \<times> SiteFontSourceRow) list" where
  "sources_by_id rows = fold (\<lambda>r m. kv_assign (StringFromInt (fs_id r)) r m) rows []"

definition add_spec :: "(string \<times> SiteFontSourceRow) list \<Rightarrow> SiteFontRow \<Rightarrow> (string \<times> string list) list \<Rightarrow> (string \<times> string list) list" where
  "add_spec byId font m =
     (if sf_sourceKind font \<noteq> kSiteFontSourceKindCdn then m
      else let sourceId = (case sf_fontSourceId font of None \<Rightarrow> [] | Some n \<Rightarrow> StringFromInt n);
               spec = sf_spec font
           in if sourceId = [] \<or> spec = [] \<or> map_of byId sourceId = None then m
              else kv_assign sourceId ((case map_of m sourceId of None \<Rightarrow> [] | Some ss \<Rightarrow> ss) @ [spec]) m)"

definition add_preconnect :: "FontPreconnect \<Rightarrow> FontPreconnect list \<Rightarrow> FontPreconnect list" where
  "add_preconnect p ps = (if fp_href p \<in> fp_href ` set ps then ps else ps @ [p])"

definition add_source :: "(string \<times> SiteFontSourceRow) list \<Rightarrow> string \<times> string list \<Rightarrow> string list \<times> FontPreconnect list \<Rightarrow> string list \<times> FontPreconnect list" where
  "add_source byId = (\<lambda>(sourceId, specs) (sheets, pres).
     case map_of byId sourceId of
       None \<Rightarrow> (sheets, pres)
     | Some source \<Rightarrow>
       let url = BuildFontStylesheetUrl (fs_baseUrl source) specs (fs_querySuffix source)
       in if url = [] then (sheets, pres)
          else (sheets @ [url], fold add_preconnect (ParsePreconnectLines (fs_preconnectLines source)) pres))"

definition face_descriptor :: "string \<Rightarrow> SiteFontFaceRow \<times> SiteFontRow \<Rightarrow> FontFaceDescriptor list" where
  "face_descriptor faceUrlPrefix = (\<lambda>(face, font).
     if \<not> IsValidFontFamilyName (sf_family font) then []
     else let url = faceUrlPrefix @ StringFromInt (fc_id face)
          in if fc_format face = [] \<or> url = [] then []
             else [\<lparr>fd_family = sf_family font, fd_weight = fc_weight face, fd_style = fc_style face,
                    fd_format = fc_format face, fd_url = url\<rparr>])"

definition LoadSiteFontInventory :: "string \<Rightarrow> SiteFontInventory stx" where
  "LoadSiteFontInventory faceUrlPrefix =
     bindE GetActiveSources (\<lambda>sources.
     let byId = sources_by_id sources in
     bindE GetActiveFonts (\<lambda>fonts.
     let specs = fold (add_spec byId) fonts [];
         (sheets, pres) = fold (add_source byId) specs ([], []) in
     bindE GetAllActiveFaces (\<lambda>faces.
     retE \<lparr>fi_stylesheets = sheets, fi_preconnects = pres, fi_faces = concat (map (face_descriptor faceUrlPrefix) faces)\<rparr>)))"

definition LookupFontStack :: "string \<Rightarrow> string stx" where
  "LookupFontStack family =
     (if \<not> IsValidFontFamilyName family then retE []
      else bindE (GetFontByFamily family) (\<lambda>row. case row of
        None \<Rightarrow> retE [] | Some r \<Rightarrow> retE (ComposeFontStack (sf_family r) (sf_fallback r))))"

end
