(* ===== verification/ThemeImport.thy ===== *)
theory ThemeImport
  imports SiteFonts
begin

text \<open>
  Applying a theme to a tenant's database and taking one out of it
  (\<open>ImportThemeBundleJson\<close>, \<open>ApplyBundleFonts\<close>, \<open>EnsureBundleStorage\<close> of \<open>theme_bundle_import.cpp\<close>;
  \<open>ExportThemeBundle\<close> of \<open>theme_bundle_export.cpp\<close>; the registry of \<open>theme_bundle_sections.cpp\<close>). The
  handlers of application sections are registered by applications outside the repository and are
  arguments.
\<close>

section \<open>Sections\<close>

text \<open>
  A handler sees the bundle; the exporter also changes its files. The importer is given the problems
  found so far, which it may extend. It answers a reason, the empty one for success.
\<close>

record ThemeBundleSection =
  ts_name :: string
  ts_exporter :: "ThemeBundle \<Rightarrow> (string \<times> JValue \<times> ThemeBundle) stx"
  ts_importer :: "ThemeBundle \<Rightarrow> JValue \<Rightarrow> bool \<Rightarrow> BundleProblem list \<Rightarrow> (string \<times> BundleProblem list) stx"

fun RegisterThemeBundleSection :: "ThemeBundleSection \<Rightarrow> ThemeBundleSection list \<Rightarrow> ThemeBundleSection list" where
  "RegisterThemeBundleSection s [] = [s]"
| "RegisterThemeBundleSection s (t # ts) =
     (if ts_name t = ts_name s then t\<lparr>ts_exporter := ts_exporter s, ts_importer := ts_importer s\<rparr> # ts
      else t # RegisterThemeBundleSection s ts)"

definition FindThemeBundleSection :: "string \<Rightarrow> ThemeBundleSection list \<Rightarrow> ThemeBundleSection option" where
  "FindThemeBundleSection name ts = List.find (\<lambda>s. ts_name s = name) ts"

definition AddSectionProblem :: "string \<Rightarrow> string \<Rightarrow> string \<Rightarrow> BundleProblem list \<Rightarrow> BundleProblem list" where
  "AddSectionProblem sectionName item reason ps = AddProblem (''section:'' @ sectionName) item reason ps"

section \<open>Storage\<close>

definition bundle_tables :: "string list" where
  "bundle_tables = [kSiteFontSources, kSiteFonts, kSiteFontFaces, kSiteAssets]"

text \<open>\<open>CREATE TABLE\<close>; the table of the faces refers to the one of the families.\<close>

definition create_table :: "string \<Rightarrow> unit stx" where
  "create_table t = (\<lambda>(w, d).
     if aborted w then (Inl (DbFailure ''current transaction is aborted''), (w, d))
     else if t \<in> set (site_tables d) \<or> t = kSiteFontFaces \<and> kSiteFonts \<notin> set (site_tables d)
     then (Inl (DbFailure ''create table''), (w\<lparr>aborted := True\<rparr>, d))
     else (Inr (), (w, d\<lparr>site_tables := site_tables d @ [t]\<rparr>)))"

definition list_tables :: "string list stx" where
  "list_tables = (\<lambda>(w, d). if aborted w then (Inl (DbFailure ''current transaction is aborted''), (w, d))
     else (Inr (site_tables d), (w, d)))"

definition EnsureBundleStorage :: "unit stx" where
  "EnsureBundleStorage = bindE list_tables (\<lambda>tables.
     forE (\<lambda>t. if t \<in> set tables then retE () else create_table t) bundle_tables)"

section \<open>Fonts\<close>

definition pack_preconnects :: "BundleFontPreconnect list \<Rightarrow> string" where
  "pack_preconnects ps = PackLines (map (\<lambda>p. bp_url p @ ''|'' @ (if bp_crossorigin p then ''true'' else ''false'')) ps)"

definition apply_source :: "BundleFontSource \<Rightarrow> int stx" where
  "apply_source s =
     bindE (GetSourceByKey (bs_sourceKey s)) (\<lambda>existing. case existing of
       None \<Rightarrow> AddSource (bs_sourceKey s) (bs_displayName s) (bs_baseUrl s) (bs_querySuffix s) (pack_preconnects (bs_preconnects s))
     | Some row \<Rightarrow>
         bindE (UpdateSource (fs_id row) (bs_sourceKey s) (bs_displayName s) (bs_baseUrl s) (bs_querySuffix s)
            (pack_preconnects (bs_preconnects s))) (\<lambda>_. retE (fs_id row)))"

text \<open>The sources in order, and the identifier each key got.\<close>

fun apply_sources :: "BundleFontSource list \<Rightarrow> (string \<times> int) list \<Rightarrow> (string \<times> int) list stx" where
  "apply_sources [] ids = retE ids"
| "apply_sources (s # ss) ids = bindE (apply_source s) (\<lambda>n. apply_sources ss (kv_assign (bs_sourceKey s) n ids))"

definition delete_faces :: "int \<Rightarrow> unit stx" where
  "delete_faces fid = bindE (GetFacesForFont fid) (\<lambda>rows. forE (\<lambda>r. DeleteFace (fc_id r)) rows)"

definition add_face :: "KeyValueTable \<Rightarrow> int \<Rightarrow> BundleFontFace \<Rightarrow> unit stx" where
  "add_face assets fid f = (case map_of assets (bf_file f) of
     None \<Rightarrow> retE ()
   | Some bytes \<Rightarrow> bindE (AddFace fid (bf_weight f) (if bf_style f = ''italic'' then ''italic'' else ''normal'')
       (FontFormatFromMagicBytes bytes) bytes) (\<lambda>_. retE ()))"

definition apply_family :: "KeyValueTable \<Rightarrow> (string \<times> int) list \<Rightarrow> int \<Rightarrow> BundleFontFamily \<Rightarrow> unit stx" where
  "apply_family assets ids ordinal f =
     (let (sourceId, spec) =
        (if ff_sourceKind f = kSiteFontSourceKindCdn
         then (case map_of ids (ff_sourceKey f) of None \<Rightarrow> 0 | Some n \<Rightarrow> n, ff_spec f) else (0, [])) in
      bindE (GetFontByFamily (ff_family f)) (\<lambda>existing.
      bindE (case existing of
          None \<Rightarrow> AddFont (ff_family f) (ff_fallback f) (ff_sourceKind f) sourceId spec ordinal
        | Some row \<Rightarrow> bindE (UpdateFont (sf_id row) (ff_family f) (ff_fallback f) (ff_sourceKind f) sourceId spec ordinal)
            (\<lambda>_. retE (sf_id row))) (\<lambda>fid.
      bindE (delete_faces fid) (\<lambda>_. forE (add_face assets fid) (ff_faces f)))))"

text \<open>\<open>ordinal\<close> is an \<open>int\<close> that grows by ten for every family.\<close>

fun apply_families :: "KeyValueTable \<Rightarrow> (string \<times> int) list \<Rightarrow> int \<Rightarrow> BundleFontFamily list \<Rightarrow> unit stx" where
  "apply_families assets ids ordinal [] = retE ()"
| "apply_families assets ids ordinal (f # fs) =
     bindE (apply_family assets ids ordinal f) (\<lambda>_. apply_families assets ids (ordinal + 10) fs)"

definition drop_font :: "string set \<Rightarrow> SiteFontRow \<Rightarrow> unit stx" where
  "drop_font kept r = (if sf_family r \<in> kept then retE ()
     else bindE (delete_faces (sf_id r)) (\<lambda>_. DeleteFont (sf_id r)))"

definition drop_source :: "string set \<Rightarrow> SiteFontSourceRow \<Rightarrow> unit stx" where
  "drop_source kept r = (if fs_sourceKey r \<in> kept then retE () else DeleteSource (fs_id r))"

definition ApplyBundleFonts :: "ThemeBundle \<Rightarrow> bool \<Rightarrow> unit stx" where
  "ApplyBundleFonts b merge =
     bindE (apply_sources (tb_sources b) []) (\<lambda>ids.
     bindE (apply_families (tb_assets b) ids 10 (tb_families b)) (\<lambda>_.
     if merge then retE ()
     else bindE (bindE GetAllFonts (\<lambda>rows. forE (drop_font (ff_family ` set (tb_families b))) rows)) (\<lambda>_.
          bindE GetAllSources (\<lambda>rows. forE (drop_source (bs_sourceKey ` set (tb_sources b))) rows))))"

section \<open>Import\<close>

record ThemeBundleImportOptions =
  io_strictness :: BundleStrictness
  io_merge :: bool
  io_dryRun :: bool

definition content_write :: "ThemeBundle \<Rightarrow> bool \<Rightarrow> string \<Rightarrow> (string \<times> string) list" where
  "content_write b merge key =
     (case map_of (tb_content b) key of
        None \<Rightarrow> if merge then [] else [(key, [])]
      | Some v \<Rightarrow>
        let value = NormalizeLineEndings v in
        [(key, if value \<noteq> [] \<and> IsUrlSlot key \<and> IsBundleAssetReference value then kThemeBundleAssetUrlPrefix @ value else value)])"

definition token_write :: "ThemeBundle \<Rightarrow> bool \<Rightarrow> ThemeToken \<Rightarrow> (string \<times> string) list" where
  "token_write b merge token =
     (case map_of (tb_tokens b) (tt_key token) of
        None \<Rightarrow> if merge then [] else [(tt_key token, [])]
      | Some v \<Rightarrow> [(tt_key token, v)])"

definition put_image :: "string \<times> string \<Rightarrow> unit stx" where
  "put_image = (\<lambda>(name, bytes).
     if FontFormatFromMagicBytes bytes = []
     then bindE (PutAsset name (ImageTypeFromMagicBytes bytes) bytes) (\<lambda>_. retE ()) else retE ())"

definition apply_images :: "ThemeBundle \<Rightarrow> bool \<Rightarrow> unit stx" where
  "apply_images b merge =
     (let kept = fst ` set (filter (\<lambda>p. FontFormatFromMagicBytes (snd p) = []) (tb_assets b)) in
      bindE (forE put_image (tb_assets b)) (\<lambda>_.
      if merge then retE ()
      else bindE GetAllAssets (\<lambda>rows. forE (\<lambda>r. if sa_name r \<in> kept then retE () else DeleteAssetByName (sa_name r)) rows)))"

text \<open>The sections in order: a reason stops a strict import and becomes a problem of a lenient one.\<close>

fun apply_sections :: "ThemeBundleSection list \<Rightarrow> BundleStrictness \<Rightarrow> bool \<Rightarrow> ThemeBundle \<Rightarrow> (string \<times> JValue) list \<Rightarrow>
    BundleProblem list \<Rightarrow> (string \<times> BundleProblem list) stx" where
  "apply_sections sections strictness merge b [] ps = retE ([], ps)"
| "apply_sections sections strictness merge b ((name, body) # rest) ps =
     (case FindThemeBundleSection name sections of
        None \<Rightarrow> apply_sections sections strictness merge b rest ps
      | Some s \<Rightarrow> bindE (ts_importer s b body merge ps) (\<lambda>(reason, ps').
          if reason = [] then apply_sections sections strictness merge b rest ps'
          else if strictness = Strict then retE (reason, ps')
          else apply_sections sections strictness merge b rest (AddProblem (''section:'' @ name) [] reason ps')))"

definition apply_bundle :: "env \<Rightarrow> SecretsHelper \<Rightarrow> ThemeBundleSection list \<Rightarrow> ThemeBundleImportOptions \<Rightarrow> ThemeBundle \<Rightarrow>
    (string \<times> string) list \<Rightarrow> BundleImportReport \<Rightarrow> BundleImportReport stx" where
  "apply_bundle E S sections opt b writes report =
     bindE (apply_images b (io_merge opt)) (\<lambda>_.
     bindE (forE (\<lambda>(key, value). in_world (AddSecret E S key value)) writes) (\<lambda>_.
     bindE (ApplyBundleFonts b (io_merge opt)) (\<lambda>_.
     bindE (apply_sections sections (io_strictness opt) (io_merge opt) b (tb_appSections b) (rp_problems report)) (\<lambda>(reason, ps).
     retE (if reason \<noteq> [] then report\<lparr>rp_problems := ps, rp_error := reason\<rparr>
           else report\<lparr>rp_problems := ps, rp_ok := True\<rparr>)))))"

definition strict_reason :: "BundleImportReport \<Rightarrow> string" where
  "strict_reason report =
     (if rp_unknownKeys report \<noteq> [] then unknown_reason (rp_unknownKeys report)
      else if rp_problems report \<noteq> [] then problem_text (hd (rp_problems report)) else [])"

definition import_pruned :: "env \<Rightarrow> SecretsHelper \<Rightarrow> ThemeBundleSection list \<Rightarrow> ThemeBundleImportOptions \<Rightarrow> ThemeBundle \<Rightarrow>
    BundleImportReport \<Rightarrow> BundleImportReport stx" where
  "import_pruned E S sections opt b report =
     bindE (if io_dryRun opt then retE () else EnsureBundleStorage) (\<lambda>_.
     let report = report\<lparr>rp_skippedSections := map fst (filter (\<lambda>p. FindThemeBundleSection (fst p) sections = None) (tb_appSections b))\<rparr> in
     if io_strictness opt = Strict \<and> strict_reason report \<noteq> []
     then retE (report\<lparr>rp_error := strict_reason report\<rparr>)
     else let contents = concat (map (content_write b (io_merge opt)) BundleContentKeys);
              tokens = concat (map (token_write b (io_merge opt)) SiteThemeTokens);
              report = report\<lparr>rp_assetChanges := int (length (tb_assets b)), rp_fontFamilyChanges := int (length (tb_families b)),
                rp_contentChanges := int (length contents), rp_tokenChanges := int (length tokens)\<rparr>
          in if io_dryRun opt then retE (report\<lparr>rp_ok := True\<rparr>)
             else apply_bundle E S sections opt b (contents @ tokens) report)"

definition ImportThemeBundleJson :: "env \<Rightarrow> SecretsHelper \<Rightarrow> ThemeBundleSection list \<Rightarrow> JValue \<Rightarrow> KeyValueTable \<Rightarrow>
    ThemeBundleImportOptions \<Rightarrow> BundleImportReport stx" where
  "ImportThemeBundleJson E S sections json assets opt =
     bindE (\<lambda>s. (ReadBundleFormatVersion json, s)) (\<lambda>originalVersion.
     bindE (\<lambda>s. (MigrateBundleJson json [], s)) (\<lambda>(migrationError, migrated, applied).
     let report = new_report\<lparr>rp_migrationsApplied := applied\<rparr> in
     if migrationError \<noteq> [] then retE (report\<lparr>rp_error := migrationError\<rparr>)
     else let report = (if applied \<noteq> [] then report\<lparr>rp_migratedFrom := originalVersion\<rparr> else report) in
     bindE (\<lambda>s. (ThemeBundleFromJson migrated new_bundle, s)) (\<lambda>(parseError, parsed).
     if parseError \<noteq> [] then retE (report\<lparr>rp_error := parseError\<rparr>)
     else let b = parsed\<lparr>tb_assets := assets\<rparr>; fatal = FindFatalBundleProblem b in
     if fatal \<noteq> [] then retE (report\<lparr>rp_error := fatal\<rparr>)
     else let (b', unknown, ps) = PruneUnusableBundleItems b [] [] in
       import_pruned E S sections opt b' (report\<lparr>rp_unknownKeys := unknown, rp_problems := ps\<rparr>))))"

section \<open>What the statements of an import keep\<close>

text \<open>The handlers of application sections respect a relation.\<close>

definition sections_keep :: "(world \<times> site_db \<Rightarrow> world \<times> site_db \<Rightarrow> bool) \<Rightarrow> ThemeBundleSection list \<Rightarrow> bool" where
  "sections_keep R sections \<longleftrightarrow> (\<forall>s \<in> set sections. \<forall>b body m ps t x t'.
     ts_importer s b body m ps t = (Inr x, t') \<longrightarrow> R t t')"

locale site_frame = eff_frame R for R :: "world \<times> site_db \<Rightarrow> world \<times> site_db \<Rightarrow> bool"
begin

lemma framed_sections:
  assumes "sections_keep R sections"
  shows "framed (apply_sections sections strictness merge b bodies ps)"
proof (induction bodies arbitrary: ps)
  case (Cons p rest)
  obtain name body where p: "p = (name, body)" by (cases p)
  show ?case
  proof (cases "FindThemeBundleSection name sections")
    case None
    then show ?thesis using Cons p by simp
  next
    case (Some t)
    then have "t \<in> set sections" by (auto simp: FindThemeBundleSection_def dest: find_SomeD)
    then have "framed (ts_importer t b body merge ps)" for ps
      using assms by (auto simp: sections_keep_def framed_def)
    then show ?thesis using Some p Cons by (auto intro!: framed_bind framed_ret split: prod.split)
  qed
qed (simp add: framed_ret)

end

text \<open>What reading a secret depends on.\<close>

definition same_secrets :: "world \<times> site_db \<Rightarrow> world \<times> site_db \<Rightarrow> bool" where
  "same_secrets s s' \<longleftrightarrow> config_secrets (fst s') = config_secrets (fst s) \<and> (\<not> aborted (fst s) \<longrightarrow> \<not> aborted (fst s'))"

interpretation sec: site_frame same_secrets
  by unfold_locales (auto simp: same_secrets_def)

lemma sec_rows: "sec.framed (rows_of t f)"
  by (auto simp: sec.framed_def same_secrets_def rows_of_def on_table_def split: if_splits)

lemma sec_change: "sec.framed (change_rows t f)"
  by (auto simp: sec.framed_def same_secrets_def change_rows_def on_table_def split: if_splits)

lemma sec_insert: "sec.framed (insert_row t a f)"
  by (auto simp: sec.framed_def same_secrets_def insert_row_def on_table_def nextval_def split: if_splits)

lemma sec_UpdateSource: "sec.framed (UpdateSource i k n u q p)"
  by (auto simp: sec.framed_def same_secrets_def UpdateSource_def on_table_def split: if_splits)

lemma sec_DeleteFont: "sec.framed (DeleteFont i)"
  by (auto simp: sec.framed_def same_secrets_def DeleteFont_def change_rows_def on_table_def split: if_splits)

lemma sec_tables: "sec.framed list_tables" "sec.framed (create_table t)"
  by (auto simp: sec.framed_def same_secrets_def list_tables_def create_table_def split: if_splits)

lemmas site_steps = GetAssetByName_def PutAsset_def GetAllAssets_def DeleteAssetByName_def AddSource_def
  GetSourceByKey_def GetAllSources_def DeleteSource_def AddFont_def UpdateFont_def change_font_def
  GetFontByFamily_def GetAllFonts_def AddFace_def GetFacesForFont_def DeleteFace_def

lemmas sec_rules = sec.framed_rules sec_rows sec_change sec_insert sec_UpdateSource sec_DeleteFont sec_tables

lemma sec_storage: "sec.framed EnsureBundleStorage"
  unfolding EnsureBundleStorage_def by (intro sec_rules)

lemma sec_images: "sec.framed (apply_images b merge)"
  unfolding apply_images_def put_image_def site_steps Let_def by (intro sec_rules)

lemma sec_sources: "sec.framed (apply_sources ss ids)"
  unfolding site_steps by (induction ss arbitrary: ids) (auto simp: apply_source_def site_steps intro!: sec_rules)

lemma sec_families: "sec.framed (apply_families assets ids n fs)"
proof (induction fs arbitrary: n)
  case (Cons f fs)
  have "sec.framed (apply_family assets ids n f)"
    unfolding apply_family_def delete_faces_def add_face_def site_steps Let_def by (intro sec_rules)
  with Cons show ?case by (auto intro: sec.framed_bind)
qed (simp add: sec.framed_ret)

lemma sec_fonts: "sec.framed (ApplyBundleFonts b merge)"
  unfolding ApplyBundleFonts_def drop_font_def drop_source_def delete_faces_def site_steps
  by (intro sec_rules sec_sources sec_families)

section \<open>What an import writes is what the site serves\<close>

lemma AddSecret_eval:
  "\<not> aborted w \<Longrightarrow> in_world (AddSecret E S key v) (w, d) = (Inr (), (write_secret E S key v w, d))"
  by (cases S) (simp_all add: in_world_def write_secret_def AddSecret_def bindT_def Encrypt_Inr AddSecretRow_live)

lemma write_secret_live: "\<not> aborted w \<Longrightarrow> \<not> aborted (write_secret E S key v w)"
  by (cases S) (simp_all add: write_secret_def AddSecret_def bindT_def Encrypt_Inr AddSecretRow_live)

lemma write_secrets_live: "\<not> aborted w \<Longrightarrow> \<not> aborted (fold (\<lambda>(key, v). write_secret E S key v) writes w)"
proof (induction writes arbitrary: w)
  case (Cons p ps)
  then show ?case by (cases p) (simp add: write_secret_live)
qed simp

lemma AddSecrets_eval:
  "\<not> aborted w \<Longrightarrow> forE (\<lambda>(key, v). in_world (AddSecret E S key v)) writes (w, d) =
     (Inr (), (fold (\<lambda>(key, v). write_secret E S key v) writes w, d))"
proof (induction writes arbitrary: w)
  case (Cons p ps)
  then show ?case by (cases p) (simp add: bindE_def AddSecret_eval write_secret_live)
qed (simp add: retE_def)

lemma AddSecrets_read:
  assumes "\<not> aborted w" "S = None \<or> sodium_ok E" "distinct (map fst writes)" "(key, v) \<in> set writes"
  shows "read_secret E S key (fold (\<lambda>(key, v). write_secret E S key v) writes w) = Some v"
proof (cases S)
  case None
  then show ?thesis using plain_store.lookup_adds [of w writes key v E] assms by simp
next
  case (Some k)
  then show ?thesis using sealed_store.lookup_adds [of w E writes key v k] assms by simp
qed

lemma same_secrets_read:
  assumes "same_secrets (w, d) (w', d')" "\<not> aborted w"
  shows "read_secret E S key w' = read_secret E S key w"
  using assms by (simp add: same_secrets_def read_secret_def LookupSecret_live split: sum.splits)

text \<open>A successful statement ran in a transaction that was not aborted.\<close>

lemma live_rows: "rows_of t f (w, d) = (Inr x, s') \<Longrightarrow> \<not> aborted w"
  by (auto simp: rows_of_def on_table_def split: if_splits)

lemma NormalizeLineEndings_nonempty: "NormalizeLineEndings v = [] \<longleftrightarrow> v = []"
  by (cases v) (auto split: if_splits)

lemma asset_name_chars: "IsValidBundleAssetName v \<Longrightarrow> \<forall>c \<in> set v. IsAssetNameChar c"
  by (simp add: IsValidBundleAssetName_def list_all_iff split: if_splits)

lemma asset_char_plain: "IsAssetNameChar c \<Longrightarrow> c \<noteq> CHR 0x0D \<and> c \<noteq> CHR 0x0A \<and> \<not> IsControlByte c \<and> c \<noteq> CHR '' ''"
  by (auto simp: IsAssetNameChar_def is_alnum_def between_def IsControlByte_def)

lemma asset_name_no_cr: "IsValidBundleAssetName v \<Longrightarrow> CHR 0x0D \<notin> set v"
  using asset_name_chars asset_char_plain by blast

lemma lf_of_cr: "CHR 0x0D \<in> set v \<Longrightarrow> CHR 0x0A \<in> set (NormalizeLineEndings v)"
  by (induction v rule: NormalizeLineEndings.induct) auto

lemma asset_reference_normalized: "IsBundleAssetReference (NormalizeLineEndings v) \<longleftrightarrow> IsBundleAssetReference v"
proof (cases "CHR 0x0D \<in> set v")
  case True
  have "\<not> IsBundleAssetReference v" using True asset_name_no_cr by (auto simp: IsBundleAssetReference_def)
  moreover have "\<not> IsBundleAssetReference (NormalizeLineEndings v)"
    using lf_of_cr [OF True] asset_name_chars asset_char_plain by (auto simp: IsBundleAssetReference_def)
  ultimately show ?thesis by simp
qed (simp add: NormalizeLineEndings_id)

text \<open>What a pruned entry is written as, and that serving does not change it.\<close>

definition themed_content :: "ThemeBundle \<Rightarrow> string \<Rightarrow> string" where
  "themed_content b key =
     (case map_of (tb_content b) key of
        None \<Rightarrow> []
      | Some v \<Rightarrow> if IsUrlSlot key \<and> IsBundleAssetReference v then kThemeBundleAssetUrlPrefix @ v else NormalizeLineEndings v)"

lemma asset_reference_plain: "IsBundleAssetReference v \<Longrightarrow> v \<noteq> [] \<and> IsValidBundleAssetName v \<and> NormalizeLineEndings v = v"
  by (auto simp: IsBundleAssetReference_def NormalizeLineEndings_id asset_name_no_cr split: if_splits)

lemma content_write_replace: "content_write b False key = [(key, themed_content b key)]"
  by (auto simp: content_write_def themed_content_def Let_def asset_reference_normalized NormalizeLineEndings_nonempty
      dest: asset_reference_plain split: option.split)

definition themed_token :: "ThemeBundle \<Rightarrow> ThemeToken \<Rightarrow> string" where
  "themed_token b token = (case map_of (tb_tokens b) (tt_key token) of None \<Rightarrow> [] | Some v \<Rightarrow> v)"

lemma token_write_replace: "token_write b False token = [(tt_key token, themed_token b token)]"
  by (simp add: token_write_def themed_token_def split: option.split)

lemma asset_url_valid:
  assumes "IsValidBundleAssetName v"
  shows "IsValidSiteUrl (kThemeBundleAssetUrlPrefix @ v)" "CHR 0x0D \<notin> set (kThemeBundleAssetUrlPrefix @ v)"
proof -
  have "length v \<le> 64" using assms by (simp add: IsValidBundleAssetName_def kMaxAssetNameBytes_def split: if_splits)
  moreover have "\<not> list_ex (\<lambda>c. IsControlByte c \<or> c = CHR '' '') v"
    using asset_name_chars [OF assms] asset_char_plain by (auto simp: list_ex_iff)
  ultimately show "IsValidSiteUrl (kThemeBundleAssetUrlPrefix @ v)"
    by (simp add: IsValidSiteUrl_def kThemeBundleAssetUrlPrefix_def kMaxUrlBytes_def IsControlByte_def starts_with_iff)
  show "CHR 0x0D \<notin> set (kThemeBundleAssetUrlPrefix @ v)"
    using asset_name_no_cr [OF assms] by (simp add: kThemeBundleAssetUrlPrefix_def)
qed

lemma prune_map_sound:
  "prune_map f area m unknown ps = (m', unknown', ps') \<Longrightarrow> m' = filter (\<lambda>(key, v). f key v = Keep) m"
  by (induction m arbitrary: m' unknown ps) (auto split: verdict.splits prod.splits)

lemma pruned_parts:
  assumes "PruneUnusableBundleItems b unknown ps = (b', unknown', ps')"
  shows "tb_content b' = filter (\<lambda>(key, v). content_verdict b key v = Keep) (tb_content b)"
    and "tb_tokens b' = filter (\<lambda>(key, v). token_verdict key v = Keep) (tb_tokens b)"
    and "tb_assets b' = tb_assets b" and "tb_appSections b' = tb_appSections b"
  using assms by (auto simp: PruneUnusableBundleItems_def split: prod.splits dest!: prune_map_sound)

text \<open>A bundle as pruning leaves it.\<close>

definition pruned_ok :: "ThemeBundle \<Rightarrow> bool" where
  "pruned_ok b \<longleftrightarrow> (\<forall>(key, v) \<in> set (tb_content b). content_verdict b key v = Keep) \<and>
     (\<forall>(key, v) \<in> set (tb_tokens b). token_verdict key v = Keep)"

lemma prune_ok: "PruneUnusableBundleItems b unknown ps = (b', unknown', ps') \<Longrightarrow> pruned_ok b'"
  by (auto simp: pruned_ok_def pruned_parts content_verdict_def HasAsset_def cong: if_cong)

lemma slot_found: "(key, type) \<in> set SiteContentSlots \<Longrightarrow> FindContentSlot key = Some type \<and> key \<noteq> kSiteLogoUrl"
  using content_keys_distinct by (auto simp: FindContentSlot_def BundleContentKeys_def dest: image_eqI [of _ fst, OF fst_conv [symmetric]])

lemma NormalizeSlotValue_id:
  "ValidateSlotValue type v = [] \<Longrightarrow> CHR 0x0D \<notin> set v \<Longrightarrow> NormalizeSlotValue type v = v"
  by (simp add: NormalizeSlotValue_def NormalizeLineEndings_id)

lemma themed_content_served:
  assumes "pruned_ok b" "(key, type) \<in> set SiteContentSlots"
  shows "NormalizeSlotValue type (themed_content b key) = themed_content b key"
proof (cases "map_of (tb_content b) key")
  case None
  then show ?thesis by (simp add: themed_content_def NormalizeSlotValue_def)
next
  case (Some v)
  have slot: "FindContentSlot key = Some type" "key \<noteq> kSiteLogoUrl" using slot_found [OF assms(2)] by simp_all
  have keep: "content_verdict b key v = Keep" using assms(1) map_of_SomeD [OF Some] unfolding pruned_ok_def by blast
  show ?thesis
  proof (cases "IsUrlSlot key \<and> IsBundleAssetReference v")
    case True
    then have t: "type = Url" using slot by (simp add: IsUrlSlot_def)
    have "IsValidBundleAssetName v" using True asset_reference_plain by blast
    note url = asset_url_valid [OF this]
    have "ValidateSlotValue Url (kThemeBundleAssetUrlPrefix @ v) = []"
      using url(1) by (cases "kThemeBundleAssetUrlPrefix @ v") (auto simp: IsValidSiteUrl_def split: if_splits)
    then show ?thesis using url(2) True Some t by (simp add: themed_content_def NormalizeSlotValue_id)
  next
    case False
    have "ValidateSlotValue type (NormalizeLineEndings v) = []"
      using keep slot False by (cases "v = []") (auto simp: content_verdict_def Let_def split: if_splits)
    then show ?thesis using False Some by (auto simp: themed_content_def NormalizeSlotValue_id NormalizeLineEndings_no_cr)
  qed
qed

lemma token_found: "token \<in> set SiteThemeTokens \<Longrightarrow> FindThemeToken (tt_key token) = Some token"
proof -
  assume t: "token \<in> set SiteThemeTokens"
  show ?thesis
  proof (cases "FindThemeToken (tt_key token)")
    case None
    then show ?thesis using t by (auto simp: FindThemeToken_def find_None_iff)
  next
    case (Some t')
    then have "t' \<in> set SiteThemeTokens" "tt_key t' = tt_key token"
      unfolding FindThemeToken_def by (auto dest: find_SomeD)
    then have "t' = token" using token_keys_distinct t by (auto simp: distinct_map inj_on_def)
    with Some show ?thesis by simp
  qed
qed

lemma themed_token_valid:
  assumes "pruned_ok b" "token \<in> set SiteThemeTokens" "themed_token b token \<noteq> []"
  shows "IsValidThemeTokenValue (tt_type token) (themed_token b token)"
proof -
  obtain v where v: "map_of (tb_tokens b) (tt_key token) = Some v" "themed_token b token = v"
    using assms(3) by (auto simp: themed_token_def split: option.splits)
  then have "token_verdict (tt_key token) v = Keep"
    using assms(1) map_of_SomeD [OF v(1)] unfolding pruned_ok_def by blast
  then show ?thesis using token_found [OF assms(2)] v assms(3) by (auto simp: token_verdict_def split: if_splits)
qed

lemma mapT_live2:
  "(\<And>x. x \<in> set xs \<Longrightarrow> f x w = (Inr (g x), w)) \<Longrightarrow> mapT f xs w = (Inr (map g xs), w)"
  by (induction xs) (auto simp: bindT_def ret_def)

lemma LookupSecret_read: "read_secret E S key w = Some v \<longleftrightarrow> LookupSecret E S key w = (Inr v, w)"
  using LookupSecret_state by (fastforce simp: read_secret_def split: prod.splits sum.splits)

lemma LoadSiteContent_eval:
  assumes "\<And>key type. (key, type) \<in> set SiteContentSlots \<Longrightarrow> read_secret E S key w = Some (f key)"
  shows "\<exists>kv. LoadSiteContent E S w = (Inr kv, w) \<and>
    (\<forall>(key, type) \<in> set SiteContentSlots. map_of kv key = Some (NormalizeSlotValue type (f key)))"
proof -
  let ?kvs = "map (\<lambda>(key, type). (key, NormalizeSlotValue type (f key))) SiteContentSlots"
  have m: "mapT (\<lambda>(key, type). bindT (LookupSecret E S key) (\<lambda>stored. ret (key, NormalizeSlotValue type stored))) SiteContentSlots w = (Inr ?kvs, w)"
    using assms by (intro mapT_live2) (auto simp: bindT_def ret_def LookupSecret_read)
  have keys: "map fst ?kvs = map fst SiteContentSlots" by (simp add: comp_def case_prod_unfold)
  have d: "distinct (map fst ?kvs)" unfolding keys using content_keys_distinct by (simp add: BundleContentKeys_def)
  have "LoadSiteContent E S w = (Inr (assign_all ?kvs []), w)"
    unfolding LoadSiteContent_def bindT_def [of "mapT _ _"] m by (simp add: ret_def assign_all_def)
  moreover have "map_of (assign_all ?kvs []) key = Some (NormalizeSlotValue type (f key))" if "(key, type) \<in> set SiteContentSlots" for key type
  proof -
    have "map_of ?kvs key = Some (NormalizeSlotValue type (f key))" using that by (intro map_of_is_SomeI d) auto
    then show ?thesis using d by (simp add: map_of_assign_all del: map_map)
  qed
  ultimately show ?thesis by blast
qed

lemma ramp_variables: "map tt_cssVariable (ramp name human) = map (\<lambda>step. ''--palette-'' @ name @ ''-'' @ step)
   [''100'', ''200'', ''300'', ''400'', ''500'', ''600'', ''700'']"
  by (simp add: ramp_def token_of_def)

lemma token_variables_distinct: "distinct (map tt_cssVariable SiteThemeTokens)"
  unfolding SiteThemeTokens_def map_append ramp_variables map_map by (simp add: token_of_def)

lemma concat_single: "concat (map (\<lambda>x. if P x then [h x] else []) xs) = map h (filter P xs)"
  by (induction xs) auto

lemma map_of_filter_key:
  assumes "distinct (map key xs)" "x \<in> set xs"
  shows "map_of (map (\<lambda>x. (key x, v x)) (filter P xs)) (key x) = (if P x then Some (v x) else None)"
proof (cases "P x")
  case True
  have "distinct (map fst (map (\<lambda>x. (key x, v x)) (filter P xs)))"
    using assms(1) by (simp add: comp_def distinct_map_filter)
  then show ?thesis using True assms(2) by (auto intro!: map_of_is_SomeI)
next
  case False
  have "key y \<noteq> key x" if "y \<in> set xs" "P y" for y
    using assms that False by (auto simp: distinct_map inj_on_def)
  then have "key x \<notin> key ` {y \<in> set xs. P y}" by (metis (mono_tags, lifting) imageE mem_Collect_eq)
  then show ?thesis using False by (simp add: map_of_eq_None_iff image_image)
qed

lemma LoadSiteTheme_eval:
  assumes "\<And>token. token \<in> set SiteThemeTokens \<Longrightarrow> read_secret E S (tt_key token) w = Some (f token)"
  shows "\<exists>css. LoadSiteTheme E S w = (Inr css, w) \<and>
    (\<forall>token \<in> set SiteThemeTokens. map_of css (tt_cssVariable token) =
       (if IsValidThemeTokenValue (tt_type token) (f token) then Some (f token) else None))"
proof -
  let ?g = "\<lambda>token. if IsValidThemeTokenValue (tt_type token) (f token) then [(tt_cssVariable token, f token)] else []"
  have m: "mapT (\<lambda>token. bindT (LookupSecret E S (tt_key token)) (\<lambda>stored.
      ret (if IsValidThemeTokenValue (tt_type token) stored then [(tt_cssVariable token, stored)] else []))) SiteThemeTokens w
      = (Inr (map ?g SiteThemeTokens), w)"
    using assms by (intro mapT_live2) (auto simp: bindT_def ret_def LookupSecret_read)
  let ?P = "\<lambda>token. IsValidThemeTokenValue (tt_type token) (f token)"
  let ?kvs = "map (\<lambda>token. (tt_cssVariable token, f token)) (filter ?P SiteThemeTokens)"
  have d: "distinct (map fst ?kvs)" using token_variables_distinct by (simp add: comp_def distinct_map_filter)
  have "LoadSiteTheme E S w = (Inr (assign_all ?kvs []), w)"
    unfolding LoadSiteTheme_def bindT_def [of "mapT _ _"] m by (simp add: ret_def assign_all_def concat_single)
  moreover have "map_of (assign_all ?kvs []) (tt_cssVariable token) = (if ?P token then Some (f token) else None)"
    if "token \<in> set SiteThemeTokens" for token
    using map_of_filter_key [OF token_variables_distinct that, of f ?P] by (subst map_of_assign_all [OF _ d]) (simp_all split: option.split)
  ultimately show ?thesis by blast
qed

text \<open>The bundle an import goes on with: migrated, parsed, with its files, and pruned.\<close>

definition accepted_bundle :: "JValue \<Rightarrow> KeyValueTable \<Rightarrow> ThemeBundle option" where
  "accepted_bundle json assets =
     (case MigrateBundleJson json [] of
        Inr ([], migrated, _) \<Rightarrow>
          (case ThemeBundleFromJson migrated new_bundle of
             Inr ([], b) \<Rightarrow> Some (fst (PruneUnusableBundleItems (b\<lparr>tb_assets := assets\<rparr>) [] []))
           | _ \<Rightarrow> None)
      | _ \<Rightarrow> None)"

lemma import_accepted:
  assumes "ImportThemeBundleJson E S sections json assets opt s = (Inr report, s')" "rp_ok report"
  obtains b rep where "accepted_bundle json assets = Some b" "pruned_ok b" "\<not> rp_ok rep"
    "import_pruned E S sections opt b rep s = (Inr report, s')"
proof -
  note run = assms(1) [unfolded ImportThemeBundleJson_def]
  obtain v where v: "ReadBundleFormatVersion json = Inr v" using run by (auto elim!: bindE_InrE)
  obtain me migrated applied where m: "MigrateBundleJson json [] = Inr (me, migrated, applied)"
    using run by (auto elim!: bindE_InrE)
  have me: "me = []" using run assms(2) by (auto simp: v m bindE_def retE_def Let_def new_report_def split: if_splits)
  obtain pe parsed where p: "ThemeBundleFromJson migrated new_bundle = Inr (pe, parsed)"
    using run by (auto simp: v m me bindE_def Let_def split: sum.splits)
  have pe: "pe = []" using run assms(2) by (auto simp: v m me p bindE_def retE_def Let_def new_report_def split: if_splits)
  let ?b = "parsed\<lparr>tb_assets := assets\<rparr>"
  have fatal: "FindFatalBundleProblem ?b = []"
    using run assms(2) by (auto simp: v m me p pe bindE_def retE_def Let_def new_report_def split: if_splits)
  obtain b unknown ps where pr: "PruneUnusableBundleItems ?b [] [] = (b, unknown, ps)" by (cases "PruneUnusableBundleItems ?b [] []") auto
  define r0 where "r0 = new_report\<lparr>rp_migrationsApplied := applied\<rparr>"
  define rep where "rep = (if applied \<noteq> [] then r0\<lparr>rp_migratedFrom := v\<rparr> else r0)\<lparr>rp_unknownKeys := unknown, rp_problems := ps\<rparr>"
  have "\<not> rp_ok rep" by (simp add: rep_def r0_def new_report_def)
  moreover have "import_pruned E S sections opt b rep s = (Inr report, s')"
    using run by (cases "applied = []") (simp_all add: v m me p pe fatal pr bindE_def Let_def rep_def r0_def)
  moreover have acc: "accepted_bundle json assets = Some b" by (simp add: accepted_bundle_def m me p pe pr)
  ultimately show ?thesis using that [OF acc prune_ok [OF pr]] by blast
qed

lemma import_applied:
  assumes "import_pruned E S sections opt b rep s = (Inr report, s')" "rp_ok report" "\<not> rp_ok rep" "\<not> io_dryRun opt"
  obtains s1 rep' where "EnsureBundleStorage s = (Inr (), s1)"
    "apply_bundle E S sections opt b (concat (map (content_write b (io_merge opt)) BundleContentKeys) @
       concat (map (token_write b (io_merge opt)) SiteThemeTokens)) rep' s1 = (Inr report, s')"
  using assms unfolding import_pruned_def
  by (auto simp: Let_def retE_def elim!: bindE_InrE split: if_splits)

lemma concat_map_single: "concat (map (\<lambda>x. [f x]) xs) = map f xs"
  by (induction xs) auto

definition replace_writes :: "ThemeBundle \<Rightarrow> (string \<times> string) list" where
  "replace_writes b = map (\<lambda>key. (key, themed_content b key)) BundleContentKeys @
     map (\<lambda>token. (tt_key token, themed_token b token)) SiteThemeTokens"

lemma replace_writes: "concat (map (content_write b False) BundleContentKeys) @ concat (map (token_write b False) SiteThemeTokens) = replace_writes b"
proof -
  have "content_write b False = (\<lambda>key. [(key, themed_content b key)])" "token_write b False = (\<lambda>token. [(tt_key token, themed_token b token)])"
    by (simp_all add: fun_eq_iff content_write_replace token_write_replace)
  then show ?thesis by (simp add: replace_writes_def concat_map_single)
qed

lemma registry_keys_apart: "set BundleContentKeys \<inter> tt_key ` set SiteThemeTokens = {}"
proof -
  have "list_all (\<lambda>key. \<not> starts_with ''site_theme_'' key) BundleContentKeys"
    by (simp add: BundleContentKeys_def SiteContentSlots_def kSiteLogoUrl_def kSiteSocialLinks_def)
  moreover have "list_all (\<lambda>key. starts_with ''site_theme_'' key) (map tt_key SiteThemeTokens)"
    unfolding SiteThemeTokens_def map_append ramp_keys map_map by (simp add: token_of_def)
  ultimately show ?thesis by (auto simp: list_all_iff)
qed

lemma replace_writes_distinct: "distinct (map fst (replace_writes b))"
  using content_keys_distinct token_keys_distinct registry_keys_apart
  by (simp add: replace_writes_def comp_def)




definition demo_theme :: JValue where
  "demo_theme = JObject [(''format'', JString kThemeBundleFormat), (''format_version'', JInt 1),
     (''theme'', JObject [(''content'', JObject [(''site_hero_headline'', JString ''Hi'')]),
        (''tokens'', JObject [(''site_theme_primary'', JString ''#112233'')])])]"

definition demo_parsed :: ThemeBundle where
  "demo_parsed = new_bundle\<lparr>tb_formatVersion := 1, tb_content := [(''site_hero_headline'', ''Hi'')],
     tb_tokens := [(''site_theme_primary'', ''#112233'')]\<rparr>"

lemma demo_parsed_sel:
  "tb_content demo_parsed = [(''site_hero_headline'', ''Hi'')]" "tb_tokens demo_parsed = [(''site_theme_primary'', ''#112233'')]"
  "tb_sources demo_parsed = []" "tb_families demo_parsed = []" "tb_assets demo_parsed = []" "tb_appSections demo_parsed = []"
  "demo_parsed\<lparr>tb_assets := []\<rparr> = demo_parsed"
  by (simp_all add: demo_parsed_def new_bundle_def)

definition empty_site :: site_db where
  "empty_site = \<lparr>site_tables = [], site_assets = [], site_font_sources = [], site_fonts = [], site_font_faces = []\<rparr>"

definition replace_options :: ThemeBundleImportOptions where
  "replace_options = \<lparr>io_strictness = Lenient, io_merge = False, io_dryRun = False\<rparr>"

lemma demo_version: "ReadBundleFormatVersion demo_theme = Inr 1"
  by (simp add: ReadBundleFormatVersion_def FieldInt_def demo_theme_def HasChild_def narrow32_def)

lemma demo_migrates: "MigrateBundleJson demo_theme [] = Inr ([], demo_theme, [])"
  by (simp add: MigrateBundleJson_def demo_theme_def bundle_version_def HasChild_def narrow32_def
      CurrentBundleFormatVersion_def OldestSupportedBundleFormatVersion_def BundleMigrations_def SetKey_def)

lemma demo_parses: "ThemeBundleFromJson demo_theme new_bundle = Inr ([], demo_parsed)"
  by (simp add: ThemeBundleFromJson_def demo_theme_def demo_parsed_def new_bundle_def FieldString_def HasChild_def
      ReadBundleFormatVersion_def FieldInt_def narrow32_def ObjectField_def ArrayField_def Let_def read_content_def reserved_keys_def)

lemma demo_token: "\<exists>token. FindThemeToken ''site_theme_primary'' = Some token \<and> tt_type token = TColor \<and>
    token \<in> set SiteThemeTokens \<and> tt_key token = ''site_theme_primary'' \<and> tt_cssVariable token = ''--theme-primary''"
proof -
  let ?t = "token_of (''site_theme_primary'', ''--theme-primary'', TColor, Brand, ''Buttons, links and anything that should read as your brand.'')"
  have "?t \<in> set SiteThemeTokens" by (simp add: SiteThemeTokens_def)
  from token_found [OF this] this show ?thesis by (intro exI [of _ ?t]) (simp add: token_of_def)
qed

lemma demo_pruned: "PruneUnusableBundleItems demo_parsed [] [] = (demo_parsed, [], [])"
proof -
  have c: "content_verdict demo_parsed ''site_hero_headline'' ''Hi'' = Keep"
    by (simp add: content_verdict_def FindContentSlot_def SiteContentSlots_def kSiteLogoUrl_def IsUrlSlot_def
        kMaxLineBytes_def HasDisallowedControlByte_def IsControlByte_def)
  have t: "token_verdict ''site_theme_primary'' ''#112233'' = Keep"
    using demo_token by (auto simp: token_verdict_def IsValidThemeTokenValue_def IsValidHexColor_def IsHexDigit_def between_def)
  have same: "demo_parsed\<lparr>tb_content := tb_content demo_parsed, tb_tokens := tb_tokens demo_parsed,
      tb_sources := [], tb_families := []\<rparr> = demo_parsed"
    by (simp add: demo_parsed_def new_bundle_def)
  have pc: "prune_map (content_verdict demo_parsed) ''content'' (tb_content demo_parsed) [] [] = (tb_content demo_parsed, [], [])"
    by (simp add: demo_parsed_sel c)
  have pt: "prune_map token_verdict ''tokens'' (tb_tokens demo_parsed) [] [] = (tb_tokens demo_parsed, [], [])"
    by (simp add: demo_parsed_sel t)
  show ?thesis by (simp add: PruneUnusableBundleItems_def pc pt) (simp add: demo_parsed_sel same)
qed

lemma demo_not_fatal: "FindFatalBundleProblem demo_parsed = []"
  by (simp add: FindFatalBundleProblem_def demo_parsed_def new_bundle_def FindCaseInsensitiveDuplicate_def site_key_def starts_with_iff)


lemma demo_storage: "EnsureBundleStorage (emptyWorld, empty_site) = (Inr (), (emptyWorld, empty_site\<lparr>site_tables := bundle_tables\<rparr>))"
  by (simp add: EnsureBundleStorage_def bundle_tables_def list_tables_def create_table_def bindE_def retE_def emptyWorld_def
      empty_site_def kSiteFontSources_def kSiteFonts_def kSiteFontFaces_def kSiteAssets_def)

lemma demo_rows:
  assumes "\<not> aborted w" "t \<in> set bundle_tables"
  shows "rows_of t f (w, empty_site\<lparr>site_tables := bundle_tables\<rparr>) = (Inr (f (empty_site\<lparr>site_tables := bundle_tables\<rparr>)), (w, empty_site\<lparr>site_tables := bundle_tables\<rparr>))"
  using assms by (simp add: rows_of_def on_table_def)

lemma demo_applied:
  "\<exists>w'. apply_bundle demoEnv None [] replace_options demo_parsed (replace_writes demo_parsed) rep (emptyWorld, empty_site\<lparr>site_tables := bundle_tables\<rparr>) =
     (Inr (rep\<lparr>rp_ok := True\<rparr>), (w', empty_site\<lparr>site_tables := bundle_tables\<rparr>))"
proof -
  let ?d = "empty_site\<lparr>site_tables := bundle_tables\<rparr>"
  have live: "\<not> aborted emptyWorld" by (simp add: emptyWorld_def)
  note live' = write_secrets_live [OF live]
  have t: "kSiteAssets \<in> set bundle_tables" "kSiteFonts \<in> set bundle_tables" "kSiteFontSources \<in> set bundle_tables"
    by (simp_all add: bundle_tables_def)
  have im: "apply_images demo_parsed False (emptyWorld, ?d) = (Inr (), (emptyWorld, ?d))"
    by (simp add: apply_images_def demo_parsed_sel bindE_def retE_def GetAllAssets_def demo_rows [OF live t(1)]) (simp add: empty_site_def retE_def)
  have rows: "GetAllFonts (w, ?d) = (Inr [], (w, ?d))" "GetAllSources (w, ?d) = (Inr [], (w, ?d))" if "\<not> aborted w" for w
    unfolding GetAllFonts_def GetAllSources_def demo_rows [OF that t(2)] demo_rows [OF that t(3)]
    by (simp_all add: empty_site_def by_ordinal_def)
  have fo: "ApplyBundleFonts demo_parsed False (w, ?d) = (Inr (), (w, ?d))" if "\<not> aborted w" for w
    by (simp add: ApplyBundleFonts_def demo_parsed_sel bindE_def retE_def rows [OF that])
  show ?thesis
    by (simp add: apply_bundle_def replace_options_def bindE_def [of "apply_images _ _"] im)
      (simp add: bindE_def AddSecrets_eval [OF live] fo [OF live'] demo_parsed_sel retE_def)
qed


lemma demo_import:
  "\<exists>report w'. ImportThemeBundleJson demoEnv None [] demo_theme [] replace_options (emptyWorld, empty_site) =
     (Inr report, (w', empty_site\<lparr>site_tables := bundle_tables\<rparr>)) \<and> rp_ok report"
proof -
  have opt: "\<not> io_dryRun replace_options" "io_strictness replace_options \<noteq> Strict" "\<not> io_merge replace_options"
    by (simp_all add: replace_options_def)
  have "\<exists>report w'. import_pruned demoEnv None [] replace_options demo_parsed rep (emptyWorld, empty_site) =
     (Inr report, (w', empty_site\<lparr>site_tables := bundle_tables\<rparr>)) \<and> rp_ok report" for rep
  proof -
    obtain rep' where r: "import_pruned demoEnv None [] replace_options demo_parsed rep (emptyWorld, empty_site) =
       apply_bundle demoEnv None [] replace_options demo_parsed (replace_writes demo_parsed) rep' (emptyWorld, empty_site\<lparr>site_tables := bundle_tables\<rparr>)"
      by (simp add: import_pruned_def opt bindE_def demo_storage Let_def replace_writes)
    from demo_applied [of rep'] show ?thesis unfolding r by fastforce
  qed
  then show ?thesis
    by (simp add: ImportThemeBundleJson_def demo_version demo_migrates demo_parses demo_pruned demo_not_fatal bindE_def Let_def
        demo_parsed_sel)
qed


text \<open>
  (safety) A dry run writes nothing: whatever the theme, its files and the state, the database
  after the import is the database before it.
\<close>
theorem dry_run_writes_nothing:
  assumes "io_dryRun opt"
  shows "snd (ImportThemeBundleJson E S sections json assets opt s) = s"
  using assms by (auto simp: ImportThemeBundleJson_def import_pruned_def bindE_def retE_def Let_def split: sum.splits prod.splits)

lemma dry_run_writes_nothing_witness:
  "\<exists>report. ImportThemeBundleJson demoEnv None [] demo_theme [] (replace_options\<lparr>io_dryRun := True\<rparr>) (emptyWorld, empty_site) =
     (Inr report, (emptyWorld, empty_site)) \<and> rp_ok report"
proof -
  let ?opt = "replace_options\<lparr>io_dryRun := True\<rparr>"
  have "\<exists>report s'. ImportThemeBundleJson demoEnv None [] demo_theme [] ?opt (emptyWorld, empty_site) = (Inr report, s') \<and> rp_ok report"
    by (simp add: ImportThemeBundleJson_def demo_version demo_migrates demo_parses demo_pruned demo_not_fatal bindE_def Let_def
        demo_parsed_sel import_pruned_def replace_options_def retE_def)
  then show ?thesis
    using dry_run_writes_nothing [of ?opt demoEnv None "[]" demo_theme "[]" "(emptyWorld, empty_site)"] by fastforce
qed

end
