(* ===== verification/ThemeFonts.thy ===== *)
theory ThemeFonts
  imports ThemeImport
begin

text \<open>
  What an import leaves in the font tables: \<open>ApplyBundleFonts\<close> of \<open>theme_bundle_import.cpp\<close> statement by
  statement, and the whole \<open>ImportThemeBundleJson\<close>.
\<close>

section \<open>The font tables after an import\<close>

text \<open>Identifiers and family names are unique and the sequences are ahead of the tables.\<close>

definition fonts_ok :: "world \<times> site_db \<Rightarrow> bool" where
  "fonts_ok = (\<lambda>(w, d). distinct (map fs_id (site_font_sources d)) \<and> (\<forall>s \<in> set (site_font_sources d). 0 < fs_id s \<and> fs_id s < seqs w kSiteFontSources) \<and> 0 < seqs w kSiteFontSources \<and>
     distinct (map sf_id (site_fonts d)) \<and> (\<forall>r \<in> set (site_fonts d). sf_id r < seqs w kSiteFonts) \<and>
     distinct (map sf_family (site_fonts d)))"

lemma fonts_ok_sources:
  "fonts_ok (w, d) \<longleftrightarrow> distinct (map fs_id (site_font_sources d)) \<and> (\<forall>i \<in> set (map fs_id (site_font_sources d)). 0 < i \<and> i < seqs w kSiteFontSources) \<and> 0 < seqs w kSiteFontSources \<and>
     distinct (map sf_id (site_fonts d)) \<and> (\<forall>i \<in> set (map sf_id (site_fonts d)). i < seqs w kSiteFonts) \<and> distinct (map sf_family (site_fonts d))"
  by (simp add: fonts_ok_def)

text \<open>Steps that leave the sources and the families alone and only move other sequences.\<close>

definition same_fonts :: "world \<times> site_db \<Rightarrow> world \<times> site_db \<Rightarrow> bool" where
  "same_fonts s s' \<longleftrightarrow> site_fonts (snd s') = site_fonts (snd s) \<and> site_font_sources (snd s') = site_font_sources (snd s) \<and>
     seqs (fst s') kSiteFonts = seqs (fst s) kSiteFonts \<and> seqs (fst s') kSiteFontSources = seqs (fst s) kSiteFontSources"

interpretation fs: site_frame same_fonts
  by unfold_locales (auto simp: same_fonts_def)

lemma fs_rows: "fs.framed (rows_of t f)"
  by (auto simp: fs.framed_def same_fonts_def rows_of_def on_table_def split: if_splits)

lemma fs_faces: "fs.framed (DeleteFace i)" "fs.framed (AddFace fid weight style format bytes)"
  by (auto simp: fs.framed_def same_fonts_def DeleteFace_def AddFace_def change_rows_def insert_row_def on_table_def nextval_def
      kSiteFontFaces_def kSiteFonts_def kSiteFontSources_def split: if_splits)

lemma fs_delete_faces: "fs.framed (delete_faces fid)"
  unfolding delete_faces_def GetFacesForFont_def by (intro fs.framed_rules fs_rows fs_faces)

lemma fs_add_faces: "fs.framed (forE (add_face assets fid) fs)"
  unfolding add_face_def by (intro fs.framed_rules fs_faces)

lemma same_fonts_ok: "same_fonts s s' \<Longrightarrow> fonts_ok s \<Longrightarrow> fonts_ok s'"
  by (cases s; cases s') (simp add: same_fonts_def fonts_ok_def)

definition source_ids :: "site_db \<Rightarrow> (int \<times> string) set" where
  "source_ids d = (\<lambda>s. (fs_id s, fs_sourceKey s)) ` set (site_font_sources d)"

lemma find_row: "rows_of t (\<lambda>d. List.find P (f d)) (w, d) = (Inr r, (w', d')) \<Longrightarrow> w' = w \<and> d' = d \<and> r = List.find P (f d)"
  by (auto simp: rows_of_def on_table_def split: if_splits)

lemma AddSource_run:
  "AddSource k n u q p (w, d) = (Inr sid, (w', d')) \<Longrightarrow>
   sid = seqs w kSiteFontSources \<and> w' = w\<lparr>seqs := (seqs w)(kSiteFontSources := sid + 1)\<rparr> \<and>
   d' = d\<lparr>site_font_sources := site_font_sources d @ [\<lparr>fs_id = sid, fs_sourceKey = k, fs_displayName = n, fs_baseUrl = u,
      fs_querySuffix = q, fs_preconnectLines = p, fs_active = True\<rparr>]\<rparr>"
  by (auto simp: AddSource_def insert_row_def on_table_def nextval_def split: if_splits)

lemma UpdateSource_run:
  "UpdateSource sid k n u q p (w, d) = (Inr x, (w', d')) \<Longrightarrow>
   w' = w \<and> d' = d\<lparr>site_font_sources := map (\<lambda>r. if fs_id r = sid
          then r\<lparr>fs_sourceKey := k, fs_displayName := n, fs_baseUrl := u, fs_querySuffix := q, fs_preconnectLines := p\<rparr> else r)
          (site_font_sources d)\<rparr>"
  by (auto simp: UpdateSource_def on_table_def split: if_splits)

text \<open>Changing the row an identifier names leaves a column that is set to its own value as it is.\<close>

lemma map_row_column:
  assumes "distinct (map key xs)" "row \<in> set xs" "\<And>r. col (g r) = col row" "\<And>r. key (g r) = key r"
  shows "map col (map (\<lambda>r. if key r = key row then g r else r) xs) = map col xs"
    and "map key (map (\<lambda>r. if key r = key row then g r else r) xs) = map key xs"
    and "(\<lambda>r. (key r, col r)) ` set (map (\<lambda>r. if key r = key row then g r else r) xs) = (\<lambda>r. (key r, col r)) ` set xs"
proof -
  have one: "r = row" if "r \<in> set xs" "key r = key row" for r
    using assms(1,2) that by (auto simp: distinct_map inj_on_def)
  show "map col (map (\<lambda>r. if key r = key row then g r else r) xs) = map col xs"
    using one assms(3) by (auto simp: comp_def)
  show "map key (map (\<lambda>r. if key r = key row then g r else r) xs) = map key xs"
    using assms(4) by auto
  have "(\<lambda>r. (key r, col r)) (if key r = key row then g r else r) = (key r, col r)" if "r \<in> set xs" for r
    using one [OF that] assms(3,4) by auto
  then show "(\<lambda>r. (key r, col r)) ` set (map (\<lambda>r. if key r = key row then g r else r) xs) = (\<lambda>r. (key r, col r)) ` set xs"
    unfolding set_map image_image by (intro image_cong) auto
qed

lemma store_source_run:
  assumes "(case r of None \<Rightarrow> AddSource k name url suffix pres
     | Some row \<Rightarrow> bindE (UpdateSource (fs_id row) k name url suffix pres) (\<lambda>_. retE (fs_id row))) (w, d) = (Inr n, (w', d'))"
    and r: "r = List.find (\<lambda>r. fs_sourceKey r = k) (site_font_sources d)" and ok: "fonts_ok (w, d)"
  shows "fonts_ok (w', d') \<and> site_fonts d' = site_fonts d \<and> site_font_faces d' = site_font_faces d \<and> source_ids d' = insert (n, k) (source_ids d)"
proof (cases r)
  case None
  note a = AddSource_run [OF assms(1) [unfolded None option.case]]
  have "n \<notin> fs_id ` set (site_font_sources d)" using a ok by (auto simp: fonts_ok_def)
  then show ?thesis using a ok by (auto simp: fonts_ok_def source_ids_def kSiteFonts_def kSiteFontSources_def)
next
  case (Some row)
  have row: "row \<in> set (site_font_sources d)" "fs_sourceKey row = k"
    using r Some by (auto dest!: sym [of "Some row"] find_SomeD)
  from assms(1) [unfolded Some option.case] have u: "UpdateSource (fs_id row) k name url suffix pres (w, d) = (Inr (), (w', d'))"
    and n: "n = fs_id row" by (auto elim!: bindE_InrE simp: retE_def)
  note u' = UpdateSource_run [OF u]
  have ids: "distinct (map fs_id (site_font_sources d))" using ok by (simp add: fonts_ok_def)
  note m = map_row_column [of fs_id "site_font_sources d" row fs_sourceKey "\<lambda>r. r\<lparr>fs_sourceKey := k, fs_displayName := name,
     fs_baseUrl := url, fs_querySuffix := suffix, fs_preconnectLines := pres\<rparr>", OF ids row(1)]
  have w: "w' = w" "site_fonts d' = site_fonts d" "site_font_faces d' = site_font_faces d" using u' by simp_all
  have keep: "map fs_id (site_font_sources d') = map fs_id (site_font_sources d)" "source_ids d' = source_ids d"
    using m(2,3) u' row(2) by (simp_all add: source_ids_def)
  have "fonts_ok (w', d')"
    using ok w unfolding fonts_ok_sources keep(1) by (simp add: fonts_ok_sources)
  moreover have "(n, k) \<in> source_ids d" using row n by (auto simp: source_ids_def)
  ultimately show ?thesis using w keep(2) by auto
qed

lemma apply_source_run:
  assumes "apply_source s (w, d) = (Inr n, (w', d'))" "fonts_ok (w, d)"
  shows "fonts_ok (w', d') \<and> site_fonts d' = site_fonts d \<and> source_ids d' = insert (n, bs_sourceKey s) (source_ids d)"
proof -
  from assms(1) [unfolded apply_source_def] obtain r t where
    g: "GetSourceByKey (bs_sourceKey s) (w, d) = (Inr r, t)" and
    k: "(case r of None \<Rightarrow> AddSource (bs_sourceKey s) (bs_displayName s) (bs_baseUrl s) (bs_querySuffix s) (pack_preconnects (bs_preconnects s))
     | Some row \<Rightarrow> bindE (UpdateSource (fs_id row) (bs_sourceKey s) (bs_displayName s) (bs_baseUrl s) (bs_querySuffix s)
            (pack_preconnects (bs_preconnects s))) (\<lambda>_. retE (fs_id row))) t = (Inr n, (w', d'))"
    by (rule bindE_InrE)
  have t: "t = (w, d)" "r = List.find (\<lambda>r. fs_sourceKey r = bs_sourceKey s) (site_font_sources d)"
    using g by (cases t, auto simp: GetSourceByKey_def dest: find_row)+
  show ?thesis using store_source_run [OF k [unfolded t(1)] t(2) assms(2)] by simp
qed

lemma apply_sources_run:
  assumes "apply_sources ss ids (w, d) = (Inr ids', (w', d'))" "fonts_ok (w, d)" "\<forall>(k, n) \<in> set ids. (n, k) \<in> source_ids d"
  shows "fonts_ok (w', d') \<and> site_fonts d' = site_fonts d \<and> (\<forall>(k, n) \<in> set ids'. (n, k) \<in> source_ids d') \<and>
     snd ` source_ids d' = bs_sourceKey ` set ss \<union> snd ` source_ids d \<and> fst ` set ids' = bs_sourceKey ` set ss \<union> fst ` set ids"
  using assms
proof (induction ss arbitrary: ids w d)
  case (Cons s ss)
  from Cons.prems(1) [unfolded apply_sources.simps] obtain n t where a: "apply_source s (w, d) = (Inr n, t)"
    and b: "apply_sources ss (kv_assign (bs_sourceKey s) n ids) t = (Inr ids', (w', d'))" by (rule bindE_InrE)
  obtain w1 d1 where t: "t = (w1, d1)" by fastforce
  have s1: "fonts_ok (w1, d1)" "site_fonts d1 = site_fonts d" "source_ids d1 = insert (n, bs_sourceKey s) (source_ids d)"
    using apply_source_run [OF a [unfolded t] Cons.prems(2)] by simp_all
  have ids: "\<forall>(k, m) \<in> set (kv_assign (bs_sourceKey s) n ids). (m, k) \<in> source_ids d1"
    using Cons.prems(3) s1(3) by (auto dest!: set_kv_assign)
  show ?case using Cons.IH [OF b [unfolded t] s1(1) ids] s1 by (auto simp: keys_kv_assign)
qed (auto simp: retE_def)

text \<open>The row a family of a bundle becomes.\<close>

definition source_ref :: "(string \<times> int) list \<Rightarrow> BundleFontFamily \<Rightarrow> int option" where
  "source_ref ids f = (if ff_sourceKind f = kSiteFontSourceKindCdn then map_of ids (ff_sourceKey f) else None)"

definition font_of :: "(string \<times> int) list \<Rightarrow> BundleFontFamily \<Rightarrow> SiteFontRow \<Rightarrow> bool" where
  "font_of ids f r \<longleftrightarrow> sf_family r = ff_family f \<and> sf_fallback r = ff_fallback f \<and> sf_sourceKind r = ff_sourceKind f \<and>
     sf_spec r = (if ff_sourceKind f = kSiteFontSourceKindCdn then ff_spec f else []) \<and> sf_fontSourceId r = source_ref ids f"

definition ids_positive :: "(string \<times> int) list \<Rightarrow> bool" where
  "ids_positive ids \<longleftrightarrow> (\<forall>(k, n) \<in> set ids. 0 < n)"

lemma AddFont_run:
  assumes "AddFont a b c n e ord (w, d) = (Inr fid, (w', d'))"
  shows "fid = seqs w kSiteFonts \<and> w' = w\<lparr>seqs := (seqs w)(kSiteFonts := fid + 1)\<rparr> \<and>
   d' = d\<lparr>site_fonts := site_fonts d @ [\<lparr>sf_id = fid, sf_family = a, sf_fallback = b, sf_sourceKind = c,
        sf_fontSourceId = (if 0 < n then Some n else None), sf_spec = e, sf_ordinal = ord, sf_active = True\<rparr>]\<rparr>"
  using assms by (auto simp: AddFont_def insert_row_def on_table_def nextval_def split: if_splits)

lemma change_font_run:
  "change_font fid g (w, d) = (Inr x, (w', d')) \<Longrightarrow>
   w' = w \<and> d' = d\<lparr>site_fonts := map (\<lambda>r. if sf_id r = fid then g r else r) (site_fonts d)\<rparr>"
  by (auto simp: change_font_def change_rows_def on_table_def split: if_splits)

definition updated_font :: "string \<Rightarrow> string \<Rightarrow> string \<Rightarrow> int \<Rightarrow> string \<Rightarrow> int \<Rightarrow> SiteFontRow \<Rightarrow> SiteFontRow" where
  "updated_font a b c n e ord r = r\<lparr>sf_fontSourceId := (if 0 < n then Some n else None), sf_family := a, sf_fallback := b,
     sf_sourceKind := c, sf_spec := e, sf_ordinal := ord\<rparr>"

lemma UpdateFont_run:
  assumes "UpdateFont fid a b c n e ord (w, d) = (Inr x, (w', d'))"
  shows "w' = w \<and> d' = d\<lparr>site_fonts := map (\<lambda>r. if sf_id r = fid then updated_font a b c n e ord r else r) (site_fonts d)\<rparr>"
proof (cases "0 < n")
  case True
  then show ?thesis using assms by (auto simp: UpdateFont_def retE_def updated_font_def elim!: bindE_InrE dest!: change_font_run)
next
  case False
  from assms [unfolded UpdateFont_def] obtain y t where
    u: "change_font fid (\<lambda>r. (if 0 < n then r\<lparr>sf_fontSourceId := Some n\<rparr> else r)
         \<lparr>sf_family := a, sf_fallback := b, sf_sourceKind := c, sf_spec := e, sf_ordinal := ord\<rparr>) (w, d) = (Inr y, t)" and
    v: "(if n \<le> 0 then change_font fid (\<lambda>r. r\<lparr>sf_fontSourceId := None\<rparr>) else retE ()) t = (Inr x, (w', d'))"
    by (rule bindE_InrE)
  obtain w1 d1 where t: "t = (w1, d1)" by fastforce
  have n: "n \<le> 0" using False by simp
  note u1 = change_font_run [OF u [unfolded t]]
  note v1 = change_font_run [OF v [unfolded if_P [OF n] t]]
  show ?thesis using u1 v1 False by (auto simp: updated_font_def comp_def)
qed

text \<open>What one family does to the table: its row is there, the rows of other families are as before.\<close>

definition family_applied :: "(string \<times> int) list \<Rightarrow> BundleFontFamily \<Rightarrow> site_db \<Rightarrow> site_db \<Rightarrow> bool" where
  "family_applied ids f d d' \<longleftrightarrow> site_font_sources d' = site_font_sources d \<and>
     sf_family ` set (site_fonts d') = insert (ff_family f) (sf_family ` set (site_fonts d)) \<and>
     (\<forall>r \<in> set (site_fonts d'). if sf_family r = ff_family f then font_of ids f r else r \<in> set (site_fonts d))"

lemma source_number:
  "ids_positive ids \<Longrightarrow> (case map_of ids k of None \<Rightarrow> 0 | Some n \<Rightarrow> n) = n \<Longrightarrow> (if 0 < n then Some n else None) = map_of ids k"
  by (auto simp: ids_positive_def split: option.splits dest!: map_of_SomeD)

lemma store_family_run:
  assumes "(case r of None \<Rightarrow> AddFont (ff_family f) (ff_fallback f) (ff_sourceKind f) n e ord
        | Some row \<Rightarrow> bindE (UpdateFont (sf_id row) (ff_family f) (ff_fallback f) (ff_sourceKind f) n e ord)
            (\<lambda>_. retE (sf_id row))) (w, d) = (Inr fid, (w', d'))"
    and r: "r = List.find (\<lambda>r. sf_family r = ff_family f) (site_fonts d)" and ok: "fonts_ok (w, d)"
    and n: "(if 0 < n then Some n else None) = source_ref ids f" and e: "e = (if ff_sourceKind f = kSiteFontSourceKindCdn then ff_spec f else [])"
  shows "fonts_ok (w', d') \<and> family_applied ids f d d'"
proof (cases r)
  case None
  note a = AddFont_run [OF assms(1) [unfolded None option.case]]
  have "ff_family f \<notin> sf_family ` set (site_fonts d)" using r [unfolded None, symmetric] by (auto simp: find_None_iff)
  moreover from this have "\<forall>r \<in> set (site_fonts d). sf_family r \<noteq> ff_family f" by (metis imageI)
  ultimately show ?thesis using a ok n e
    by (auto simp: fonts_ok_def family_applied_def font_of_def kSiteFonts_def kSiteFontSources_def)
next
  case (Some row)
  have row: "row \<in> set (site_fonts d)" "sf_family row = ff_family f" using r Some by (auto dest!: sym [of "Some row"] find_SomeD)
  from assms(1) [unfolded Some option.case] have u: "UpdateFont (sf_id row) (ff_family f) (ff_fallback f) (ff_sourceKind f) n e ord (w, d) = (Inr (), (w', d'))"
    by (auto elim!: bindE_InrE simp: retE_def)
  define g where "g = updated_font (ff_family f) (ff_fallback f) (ff_sourceKind f) n e ord"
  note u' = UpdateFont_run [OF u, folded g_def]
  have g: "sf_family (g q) = sf_family row" "sf_id (g q) = sf_id q" "font_of ids f (g q)" for q
    using row n e by (simp_all add: g_def updated_font_def font_of_def)
  have ids: "distinct (map sf_id (site_fonts d))" using ok by (simp add: fonts_ok_def)
  note m = map_row_column [of sf_id _ row sf_family g, OF ids row(1) g(1,2)]
  have w: "w' = w" "site_font_sources d' = site_font_sources d" using u' by simp_all
  have keep: "map sf_id (site_fonts d') = map sf_id (site_fonts d)" "map sf_family (site_fonts d') = map sf_family (site_fonts d)"
    using m(1,2) u' by simp_all
  have ok': "fonts_ok (w', d')" using ok unfolding fonts_ok_sources keep w by simp
  have "set (map sf_family (site_fonts d')) = set (map sf_family (site_fonts d))" unfolding keep ..
  then have fams: "sf_family ` set (site_fonts d') = insert (ff_family f) (sf_family ` set (site_fonts d))"
    using imageI [OF row(1), of sf_family] row(2) by (simp add: insert_absorb)
  have fam: "distinct (map sf_family (site_fonts d))" using ok by (simp add: fonts_ok_def)
  have "if sf_family q = ff_family f then font_of ids f q else q \<in> set (site_fonts d)" if q: "q \<in> set (site_fonts d')" for q
  proof -
    obtain p where p: "p \<in> set (site_fonts d)" "q = (if sf_id p = sf_id row then g p else p)"
      using q u' by auto
    show ?thesis
    proof (cases "sf_id p = sf_id row")
      case False
      then have "p \<noteq> row" by auto
      then have "sf_family p \<noteq> sf_family row" using fam p(1) row(1) by (auto simp: distinct_map inj_on_def)
      then show ?thesis using p row False by simp
    qed (use p g row in auto)
  qed
  then show ?thesis using ok' fams w by (simp add: family_applied_def)
qed

lemma same_fonts_applied:
  assumes "same_fonts (w1, d1) (w', d')" "fonts_ok (w1, d1)" "family_applied ids f d d1"
  shows "fonts_ok (w', d') \<and> family_applied ids f d d'"
  using assms same_fonts_ok [OF assms(1,2)] by (auto simp: same_fonts_def family_applied_def)

lemma apply_family_run:
  assumes "apply_family assets ids ord f (w, d) = (Inr x, (w', d'))" "fonts_ok (w, d)" "ids_positive ids"
  shows "fonts_ok (w', d') \<and> family_applied ids f d d'"
proof -
  define p where "p = (if ff_sourceKind f = kSiteFontSourceKindCdn
         then (case map_of ids (ff_sourceKey f) of None \<Rightarrow> 0 | Some n \<Rightarrow> n, ff_spec f) else (0, []))"
  obtain n e where ne: "p = (n, e)" by fastforce
  have n: "(if 0 < n then Some n else None) = source_ref ids f"
    using ne source_number [OF assms(3), of "ff_sourceKey f"] by (auto simp: p_def source_ref_def split: if_splits)
  have e: "e = (if ff_sourceKind f = kSiteFontSourceKindCdn then ff_spec f else [])" using ne by (auto simp: p_def)
  from assms(1) [unfolded apply_family_def, folded p_def, unfolded ne Let_def prod.case] obtain r t where
    g: "GetFontByFamily (ff_family f) (w, d) = (Inr r, t)" and
    k: "bindE (case r of None \<Rightarrow> AddFont (ff_family f) (ff_fallback f) (ff_sourceKind f) n e ord
        | Some row \<Rightarrow> bindE (UpdateFont (sf_id row) (ff_family f) (ff_fallback f) (ff_sourceKind f) n e ord)
            (\<lambda>_. retE (sf_id row))) (\<lambda>fid. bindE (delete_faces fid) (\<lambda>_. forE (add_face assets fid) (ff_faces f))) t = (Inr x, (w', d'))"
    by (rule bindE_InrE)
  have t: "t = (w, d)" "r = List.find (\<lambda>r. sf_family r = ff_family f) (site_fonts d)"
    using g by (cases t, auto simp: GetFontByFamily_def dest: find_row)+
  from k [unfolded t(1)] obtain fid t1 where
    st: "(case r of None \<Rightarrow> AddFont (ff_family f) (ff_fallback f) (ff_sourceKind f) n e ord
        | Some row \<Rightarrow> bindE (UpdateFont (sf_id row) (ff_family f) (ff_fallback f) (ff_sourceKind f) n e ord)
            (\<lambda>_. retE (sf_id row))) (w, d) = (Inr fid, t1)" and
    fc: "bindE (delete_faces fid) (\<lambda>_. forE (add_face assets fid) (ff_faces f)) t1 = (Inr x, (w', d'))"
    by (rule bindE_InrE)
  obtain w1 d1 where t1: "t1 = (w1, d1)" by fastforce
  have "fs.framed (bindE (delete_faces fid) (\<lambda>_. forE (add_face assets fid) (ff_faces f)))"
    by (intro fs.framed_bind fs_delete_faces fs_add_faces)
  then have "same_fonts (w1, d1) (w', d')" using fc [unfolded t1] by (rule fs.framedD)
  then show ?thesis using store_family_run [OF st [unfolded t1] t(2) assms(2) n e] same_fonts_applied by metis
qed

lemma apply_families_run:
  assumes "apply_families assets ids ord fs (w, d) = (Inr x, (w', d'))" "fonts_ok (w, d)" "ids_positive ids"
  shows "fonts_ok (w', d') \<and> site_font_sources d' = site_font_sources d \<and>
     sf_family ` set (site_fonts d') = ff_family ` set fs \<union> sf_family ` set (site_fonts d) \<and>
     (\<forall>r \<in> set (site_fonts d'). (\<exists>f \<in> set fs. font_of ids f r) \<or> r \<in> set (site_fonts d) \<and> sf_family r \<notin> ff_family ` set fs)"
  using assms
proof (induction fs arbitrary: ord w d)
  case (Cons f fs)
  from Cons.prems(1) [unfolded apply_families.simps] obtain y t where a: "apply_family assets ids ord f (w, d) = (Inr y, t)"
    and b: "apply_families assets ids (ord + 10) fs t = (Inr x, (w', d'))" by (rule bindE_InrE)
  obtain w1 d1 where t: "t = (w1, d1)" by fastforce
  have s1: "fonts_ok (w1, d1)" "family_applied ids f d d1" using apply_family_run [OF a [unfolded t] Cons.prems(2,3)] by simp_all
  note IH = Cons.IH [OF b [unfolded t] s1(1) Cons.prems(3)]
  have fams: "sf_family ` set (site_fonts d') = ff_family ` set (f # fs) \<union> sf_family ` set (site_fonts d)"
    using IH s1(2) by (simp add: family_applied_def)
  have "(\<exists>g \<in> set (f # fs). font_of ids g r) \<or> r \<in> set (site_fonts d) \<and> sf_family r \<notin> ff_family ` set (f # fs)"
    if "r \<in> set (site_fonts d')" for r
  proof (cases "\<exists>g \<in> set fs. font_of ids g r")
    case False
    then have r: "r \<in> set (site_fonts d1)" "sf_family r \<notin> ff_family ` set fs" using IH that by blast+
    have "\<forall>r \<in> set (site_fonts d1). if sf_family r = ff_family f then font_of ids f r else r \<in> set (site_fonts d)"
      using s1(2) unfolding family_applied_def by simp
    from this r(1) have "if sf_family r = ff_family f then font_of ids f r else r \<in> set (site_fonts d)" by (rule bspec)
    with r(2) show ?thesis by (cases "sf_family r = ff_family f") simp_all
  qed auto
  moreover have "fonts_ok (w', d')" using IH by blast
  moreover have "site_font_sources d' = site_font_sources d" using IH s1(2) unfolding family_applied_def by simp
  ultimately show ?case using fams by blast
qed (auto simp: retE_def)

section \<open>Dropping\<close>

lemma DeleteFont_run:
  "DeleteFont i (w, d) = (Inr x, (w', d')) \<Longrightarrow> w' = w \<and> d' = d\<lparr>site_fonts := filter (\<lambda>r. sf_id r \<noteq> i) (site_fonts d),
     site_font_faces := filter (\<lambda>q. fc_fontId q \<noteq> i) (site_font_faces d)\<rparr>"
  by (auto simp: DeleteFont_def change_rows_def on_table_def split: if_splits)

lemma DeleteFaces_run:
  "forE (\<lambda>r. DeleteFace (fc_id r)) rows (w, d) = (Inr x, (w', d')) \<Longrightarrow>
   w' = w \<and> d' = d\<lparr>site_font_faces := filter (\<lambda>q. \<forall>r \<in> set rows. fc_id q \<noteq> fc_id r) (site_font_faces d)\<rparr>"
proof (induction rows arbitrary: w d)
  case (Cons r rows)
  from Cons.prems [unfolded forE.simps] obtain y t where a: "DeleteFace (fc_id r) (w, d) = (Inr y, t)"
    and b: "forE (\<lambda>r. DeleteFace (fc_id r)) rows t = (Inr x, (w', d'))" by (rule bindE_InrE)
  have t: "t = (w, d\<lparr>site_font_faces := filter (\<lambda>q. fc_id q \<noteq> fc_id r) (site_font_faces d)\<rparr>)"
    using a by (auto simp: DeleteFace_def change_rows_def on_table_def split: if_splits)
  show ?case using Cons.IH [OF b [unfolded t]] by (simp add: conj_commute)
qed (simp add: retE_def)

lemma delete_faces_run:
  assumes "delete_faces fid (w, d) = (Inr x, (w', d'))" "distinct (map fc_id (site_font_faces d))"
  shows "w' = w \<and> d' = d\<lparr>site_font_faces := filter (\<lambda>q. fc_fontId q \<noteq> fid) (site_font_faces d)\<rparr>"
proof -
  from assms(1) [unfolded delete_faces_def] obtain rows t where a: "GetFacesForFont fid (w, d) = (Inr rows, t)"
    and b: "forE (\<lambda>r. DeleteFace (fc_id r)) rows t = (Inr x, (w', d'))" by (rule bindE_InrE)
  have t: "t = (w, d)" "set rows = {q \<in> set (site_font_faces d). fc_fontId q = fid}"
    using a by (auto simp: GetFacesForFont_def rows_of_def on_table_def split: if_splits)
  have "filter (\<lambda>q. \<forall>r \<in> set rows. fc_id q \<noteq> fc_id r) (site_font_faces d) = filter (\<lambda>q. fc_fontId q \<noteq> fid) (site_font_faces d)"
    by (rule filter_cong) (use assms(2) t(2) in \<open>auto simp: distinct_map inj_on_def\<close>)
  then show ?thesis using DeleteFaces_run [OF b [unfolded t(1)]] by simp
qed

lemma drop_font_run:
  assumes "drop_font kept r (w, d) = (Inr x, (w', d'))" "fonts_ok (w, d)"
  shows "fonts_ok (w', d') \<and> site_font_sources d' = site_font_sources d \<and>
     site_fonts d' = filter (\<lambda>q. sf_family r \<in> kept \<or> sf_id q \<noteq> sf_id r) (site_fonts d)"
proof (cases "sf_family r \<in> kept")
  case True
  then show ?thesis using assms by (simp add: drop_font_def retE_def)
next
  case False
  from assms(1) [unfolded drop_font_def if_not_P [OF False]] obtain y t where a: "delete_faces (sf_id r) (w, d) = (Inr y, t)"
    and b: "DeleteFont (sf_id r) t = (Inr x, (w', d'))" by (rule bindE_InrE)
  obtain w1 d1 where t: "t = (w1, d1)" by fastforce
  note s1 = fs.framedD [OF fs_delete_faces a [unfolded t]]
  note d = DeleteFont_run [OF b [unfolded t]]
  have "fonts_ok (w1, d1)" using s1 assms(2) by (rule same_fonts_ok)
  then have "fonts_ok (w', d')" using d by (auto simp: fonts_ok_def distinct_map_filter)
  then show ?thesis using d s1 False by (simp add: same_fonts_def)
qed

lemma drop_fonts_run:
  assumes "forE (drop_font kept) rows (w, d) = (Inr x, (w', d'))" "fonts_ok (w, d)"
  shows "fonts_ok (w', d') \<and> site_font_sources d' = site_font_sources d \<and>
     site_fonts d' = filter (\<lambda>q. \<forall>r \<in> set rows. sf_family r \<in> kept \<or> sf_id q \<noteq> sf_id r) (site_fonts d)"
  using assms
proof (induction rows arbitrary: w d)
  case (Cons r rows)
  from Cons.prems(1) [unfolded forE.simps] obtain y t where a: "drop_font kept r (w, d) = (Inr y, t)"
    and b: "forE (drop_font kept) rows t = (Inr x, (w', d'))" by (rule bindE_InrE)
  obtain w1 d1 where t: "t = (w1, d1)" by fastforce
  note s1 = drop_font_run [OF a [unfolded t] Cons.prems(2)]
  note IH = Cons.IH [OF b [unfolded t] conjunct1 [OF s1]]
  show ?case using s1 IH by simp
qed (auto simp: retE_def)

lemma drop_sources_run:
  assumes "forE (drop_source kept) rows (w, d) = (Inr x, (w', d'))" "fonts_ok (w, d)"
  shows "fonts_ok (w', d') \<and> site_fonts d' = site_fonts d \<and>
     site_font_sources d' = filter (\<lambda>q. \<forall>r \<in> set rows. fs_sourceKey r \<in> kept \<or> fs_id q \<noteq> fs_id r) (site_font_sources d)"
  using assms
proof (induction rows arbitrary: w d)
  case (Cons r rows)
  from Cons.prems(1) [unfolded forE.simps] obtain y t where a: "drop_source kept r (w, d) = (Inr y, t)"
    and b: "forE (drop_source kept) rows t = (Inr x, (w', d'))" by (rule bindE_InrE)
  obtain w1 d1 where t: "t = (w1, d1)" by fastforce
  have s1: "w1 = w" "site_fonts d1 = site_fonts d" "site_font_sources d1 = filter (\<lambda>q. fs_sourceKey r \<in> kept \<or> fs_id q \<noteq> fs_id r) (site_font_sources d)"
    using a unfolding t by (auto simp: drop_source_def DeleteSource_def change_rows_def on_table_def retE_def split: if_splits)
  have "fonts_ok (w1, d1)" using Cons.prems(2) s1 by (auto simp: fonts_ok_def distinct_map_filter)
  note IH = Cons.IH [OF b [unfolded t] this]
  show ?case using s1 IH by simp
qed (auto simp: retE_def)

lemma filter_by_key:
  assumes "distinct (map key xs)" "set rows = set xs"
  shows "filter (\<lambda>q. \<forall>r \<in> set rows. P r \<or> key q \<noteq> key r) xs = filter P xs"
  by (rule filter_cong) (use assms in \<open>auto simp: distinct_map inj_on_def\<close>)

lemma image_filter: "f ` set (filter (\<lambda>x. f x \<in> A) xs) = f ` set xs \<inter> A"
  by auto

lemma kept_sources:
  assumes "site_font_sources d' = filter (\<lambda>r. fs_sourceKey r \<in> kept) (site_font_sources d)" "(n, k) \<in> source_ids d" "k \<in> kept"
  shows "(n, k) \<in> source_ids d'"
  using assms by (auto simp: source_ids_def)

text \<open>The tables hold the bundle's fonts and no other.\<close>

definition fonts_are :: "ThemeBundle \<Rightarrow> site_db \<Rightarrow> bool" where
  "fonts_are b d \<longleftrightarrow>
     sf_family ` set (site_fonts d) = ff_family ` set (tb_families b) \<and>
     fs_sourceKey ` set (site_font_sources d) = bs_sourceKey ` set (tb_sources b) \<and>
     (\<forall>r \<in> set (site_fonts d). \<exists>f \<in> set (tb_families b).
        sf_family r = ff_family f \<and> sf_fallback r = ff_fallback f \<and> sf_sourceKind r = ff_sourceKind f \<and>
        (case sf_fontSourceId r of
           None \<Rightarrow> \<not> (ff_sourceKind f = kSiteFontSourceKindCdn \<and> ff_sourceKey f \<in> bs_sourceKey ` set (tb_sources b))
         | Some n \<Rightarrow> ff_sourceKind f = kSiteFontSourceKindCdn \<and>
             (\<exists>q \<in> set (site_font_sources d). fs_id q = n \<and> fs_sourceKey q = ff_sourceKey f)))"

lemma ApplyBundleFonts_run:
  assumes "ApplyBundleFonts b False (w, d) = (Inr x, (w', d'))" "fonts_ok (w, d)"
  shows "fonts_ok (w', d') \<and> fonts_are b d'"
proof -
  from assms(1) [unfolded ApplyBundleFonts_def if_False] obtain ids t1 where
    a: "apply_sources (tb_sources b) [] (w, d) = (Inr ids, t1)" and
    a': "bindE (apply_families (tb_assets b) ids 10 (tb_families b)) (\<lambda>_.
       bindE (bindE GetAllFonts (\<lambda>rows. forE (drop_font (ff_family ` set (tb_families b))) rows)) (\<lambda>_.
          bindE GetAllSources (\<lambda>rows. forE (drop_source (bs_sourceKey ` set (tb_sources b))) rows))) t1 = (Inr x, (w', d'))"
    by (rule bindE_InrE)
  from a' obtain y2 t2 where f: "apply_families (tb_assets b) ids 10 (tb_families b) t1 = (Inr y2, t2)" and
    f': "bindE (bindE GetAllFonts (\<lambda>rows. forE (drop_font (ff_family ` set (tb_families b))) rows)) (\<lambda>_.
          bindE GetAllSources (\<lambda>rows. forE (drop_source (bs_sourceKey ` set (tb_sources b))) rows)) t2 = (Inr x, (w', d'))"
    by (rule bindE_InrE)
  from f' obtain y3 t3 where g: "bindE GetAllFonts (\<lambda>rows. forE (drop_font (ff_family ` set (tb_families b))) rows) t2 = (Inr y3, t3)" and
    g': "bindE GetAllSources (\<lambda>rows. forE (drop_source (bs_sourceKey ` set (tb_sources b))) rows) t3 = (Inr x, (w', d'))"
    by (rule bindE_InrE)
  from g obtain frows t2' where gr: "GetAllFonts t2 = (Inr frows, t2')" and gd: "forE (drop_font (ff_family ` set (tb_families b))) frows t2' = (Inr y3, t3)"
    by (rule bindE_InrE)
  from g' obtain srows t3' where hr: "GetAllSources t3 = (Inr srows, t3')" and hd: "forE (drop_source (bs_sourceKey ` set (tb_sources b))) srows t3' = (Inr x, (w', d'))"
    by (rule bindE_InrE)
  obtain w1 d1 where t1: "t1 = (w1, d1)" by fastforce
  obtain w2 d2 where t2: "t2 = (w2, d2)" by fastforce
  obtain w3 d3 where t3: "t3 = (w3, d3)" by fastforce
  have gr': "t2' = (w2, d2)" "set frows = set (site_fonts d2)"
    using gr unfolding t2 GetAllFonts_def rows_of_def on_table_def by (auto simp: by_ordinal_def split: if_splits)
  have hr': "t3' = (w3, d3)" "set srows = set (site_font_sources d3)"
    using hr unfolding t3 GetAllSources_def rows_of_def on_table_def by (auto split: if_splits)
  have s1: "fonts_ok (w1, d1)" "\<forall>(k, n) \<in> set ids. (n, k) \<in> source_ids d1" "fst ` set ids = bs_sourceKey ` set (tb_sources b)"
    "bs_sourceKey ` set (tb_sources b) \<subseteq> snd ` source_ids d1"
    using apply_sources_run [OF a [unfolded t1] assms(2)] by auto
  have pos: "ids_positive ids" using s1(1,2) by (fastforce simp: ids_positive_def source_ids_def fonts_ok_def)
  note s2 = apply_families_run [OF f [unfolded t1 t2] s1(1) pos]
  note s3 = drop_fonts_run [OF gd [unfolded gr'(1) t3] conjunct1 [OF s2]]
  note s4 = drop_sources_run [OF hd [unfolded hr'(1)] conjunct1 [OF s3]]
  have "distinct (map sf_id (site_fonts d2))" using s2 by (simp add: fonts_ok_def)
  then have fonts: "site_fonts d' = filter (\<lambda>r. sf_family r \<in> ff_family ` set (tb_families b)) (site_fonts d2)"
    using s3 s4 gr'(2) by (simp add: filter_by_key)
  have "distinct (map fs_id (site_font_sources d3))" using conjunct1 [OF s3] unfolding fonts_ok_sources by blast
  then have sources: "site_font_sources d' = filter (\<lambda>r. fs_sourceKey r \<in> bs_sourceKey ` set (tb_sources b)) (site_font_sources d1)"
    using s4 s3 s2 hr'(2) by (simp add: filter_by_key)
  have kept: "(n, k) \<in> source_ids d'" if "map_of ids k = Some n" for k n
  proof (rule kept_sources [OF sources])
    show "(n, k) \<in> source_ids d1" using s1(2) map_of_SomeD [OF that] by blast
    show "k \<in> bs_sourceKey ` set (tb_sources b)" using s1(3) map_of_SomeD [OF that] by force
  qed
  have 1: "sf_family ` set (site_fonts d') = ff_family ` set (tb_families b)" unfolding fonts image_filter using s2 by blast
  have 2: "fs_sourceKey ` set (site_font_sources d') = bs_sourceKey ` set (tb_sources b)"
    unfolding sources image_filter using s1(4) by (auto simp: source_ids_def image_image)
  have 3: "\<exists>f \<in> set (tb_families b). font_of ids f r" if "r \<in> set (site_fonts d')" for r
    using that s2 unfolding fonts by auto
  have 4: "case sf_fontSourceId r of
           None \<Rightarrow> \<not> (ff_sourceKind f = kSiteFontSourceKindCdn \<and> ff_sourceKey f \<in> bs_sourceKey ` set (tb_sources b))
         | Some n \<Rightarrow> ff_sourceKind f = kSiteFontSourceKindCdn \<and>
             (\<exists>q \<in> set (site_font_sources d'). fs_id q = n \<and> fs_sourceKey q = ff_sourceKey f)" if "font_of ids f r" for f r
  proof (cases "sf_fontSourceId r")
    case None
    then have "\<not> (ff_sourceKind f = kSiteFontSourceKindCdn \<and> map_of ids (ff_sourceKey f) \<noteq> None)"
      using that by (auto simp: font_of_def source_ref_def)
    then show ?thesis using None s1(3) by (simp add: map_of_eq_None_iff)
  next
    case (Some n)
    then have "map_of ids (ff_sourceKey f) = Some n" "ff_sourceKind f = kSiteFontSourceKindCdn"
      using that by (auto simp: font_of_def source_ref_def split: if_splits)
    then show ?thesis using Some kept [of "ff_sourceKey f" n] by (auto simp: source_ids_def)
  qed
  have "\<exists>f \<in> set (tb_families b). sf_family r = ff_family f \<and> sf_fallback r = ff_fallback f \<and> sf_sourceKind r = ff_sourceKind f \<and>
        (case sf_fontSourceId r of
           None \<Rightarrow> \<not> (ff_sourceKind f = kSiteFontSourceKindCdn \<and> ff_sourceKey f \<in> bs_sourceKey ` set (tb_sources b))
         | Some n \<Rightarrow> ff_sourceKind f = kSiteFontSourceKindCdn \<and>
             (\<exists>q \<in> set (site_font_sources d'). fs_id q = n \<and> fs_sourceKey q = ff_sourceKey f))" if r: "r \<in> set (site_fonts d')" for r
  proof -
    obtain f where f: "f \<in> set (tb_families b)" "font_of ids f r" using 3 [OF r] ..
    have "sf_family r = ff_family f \<and> sf_fallback r = ff_fallback f \<and> sf_sourceKind r = ff_sourceKind f"
      using f(2) by (simp add: font_of_def)
    with f(1) 4 [OF f(2)] show ?thesis by (intro bexI [of _ f] conjI) simp_all
  qed
  moreover have "fonts_ok (w', d')" using s4 ..
  ultimately show ?thesis unfolding fonts_are_def using 1 2 by blast
qed

section \<open>The whole import\<close>

lemma fs_AddSecret: "fs.framed (in_world (AddSecret E S key v))"
  by (auto simp: fs.framed_def same_fonts_def in_world_def AddSecret_def AddSecretRow_def bindT_def stmt_def lift_def Encrypt_Inr
      split: prod.splits sum.splits if_splits option.splits)

lemma fs_assets: "fs.framed (PutAsset name type bytes)" "fs.framed (DeleteAssetByName name)" "fs.framed GetAllAssets"
proof -
  have "fs.framed (change_rows kSiteAssets (\<lambda>d. d\<lparr>site_assets := f d\<rparr>))" for f
    by (auto simp: fs.framed_def same_fonts_def change_rows_def on_table_def split: if_splits)
  moreover have "fs.framed (insert_row kSiteAssets a (\<lambda>n d. d\<lparr>site_assets := f n d\<rparr>))" for a f
    by (auto simp: fs.framed_def same_fonts_def insert_row_def on_table_def nextval_def kSiteAssets_def kSiteFonts_def
        kSiteFontSources_def split: if_splits)
  ultimately show "fs.framed (PutAsset name type bytes)" "fs.framed (DeleteAssetByName name)"
    unfolding PutAsset_def DeleteAssetByName_def GetAssetByName_def by (auto intro!: fs.framed_rules fs_rows)
  show "fs.framed GetAllAssets" unfolding GetAllAssets_def by (rule fs_rows)
qed

lemma fs_images: "fs.framed (apply_images b merge)"
  unfolding apply_images_def put_image_def Let_def by (intro fs.framed_rules fs_assets)

lemma fs_storage: "fs.framed EnsureBundleStorage"
proof -
  have "fs.framed list_tables" "fs.framed (create_table t)" for t
    by (auto simp: fs.framed_def same_fonts_def list_tables_def create_table_def split: if_splits)
  then show ?thesis unfolding EnsureBundleStorage_def by (intro fs.framed_rules)
qed


text \<open>A site with the four tables, a family, its source and a face.\<close>

definition old_site :: site_db where
  "old_site = \<lparr>site_tables = bundle_tables, site_assets = [],
     site_font_sources = [\<lparr>fs_id = 1, fs_sourceKey = ''google'', fs_displayName = ''Google'', fs_baseUrl = [],
        fs_querySuffix = [], fs_preconnectLines = [], fs_active = True\<rparr>],
     site_fonts = [\<lparr>sf_id = 1, sf_family = ''Lato'', sf_fallback = ''serif'', sf_sourceKind = kSiteFontSourceKindCdn,
        sf_fontSourceId = Some 1, sf_spec = ''Lato'', sf_ordinal = 10, sf_active = True\<rparr>],
     site_font_faces = [\<lparr>fc_id = 1, fc_fontId = 1, fc_weight = 400, fc_style = ''normal'', fc_format = ''woff2'', fc_bytes = ''x''\<rparr>]\<rparr>"

definition old_world :: world where
  "old_world = emptyWorld\<lparr>seqs := (\<lambda>_. 2)\<rparr>"

lemma old_storage: "EnsureBundleStorage (old_world, old_site) = (Inr (), (old_world, old_site))"
  by (simp add: EnsureBundleStorage_def bundle_tables_def list_tables_def bindE_def retE_def old_world_def emptyWorld_def
      old_site_def kSiteFontSources_def kSiteFonts_def kSiteFontFaces_def kSiteAssets_def)

lemma old_tables: "kSiteAssets \<in> set bundle_tables" "kSiteFonts \<in> set bundle_tables" "kSiteFontSources \<in> set bundle_tables"
    "kSiteFontFaces \<in> set bundle_tables"
  by (simp_all add: bundle_tables_def)

definition bare_site :: site_db where
  "bare_site = old_site\<lparr>site_font_sources := [], site_fonts := [], site_font_faces := []\<rparr>"

lemma old_fonts:
  assumes "\<not> aborted w"
  shows "ApplyBundleFonts demo_parsed False (w, old_site) = (Inr (), (w, bare_site))"
proof -
  let ?row = "hd (site_fonts old_site)"
  let ?src = "hd (site_font_sources old_site)"
  have rows: "GetAllFonts (w, old_site) = (Inr [?row], (w, old_site))"
    using assms old_tables by (simp add: GetAllFonts_def rows_of_def on_table_def old_site_def by_ordinal_def)
  have faces: "delete_faces 1 (w, old_site) = (Inr (), (w, old_site\<lparr>site_font_faces := []\<rparr>))"
    using assms old_tables by (simp add: delete_faces_def GetFacesForFont_def DeleteFace_def change_rows_def rows_of_def on_table_def old_site_def
        bindE_def retE_def)
  have gone: "DeleteFont 1 (w, old_site\<lparr>site_font_faces := []\<rparr>) = (Inr (), (w, old_site\<lparr>site_font_faces := [], site_fonts := []\<rparr>))"
    using assms old_tables by (simp add: DeleteFont_def change_rows_def on_table_def old_site_def)
  have sources: "GetAllSources (w, old_site\<lparr>site_font_faces := [], site_fonts := []\<rparr>) = (Inr [?src], (w, old_site\<lparr>site_font_faces := [], site_fonts := []\<rparr>))"
    using assms old_tables by (simp add: GetAllSources_def rows_of_def on_table_def old_site_def)
  have dropped: "DeleteSource 1 (w, old_site\<lparr>site_font_faces := [], site_fonts := []\<rparr>) = (Inr (), (w, bare_site))"
    using assms old_tables by (simp add: DeleteSource_def change_rows_def on_table_def old_site_def bare_site_def)
  have ids: "sf_id ?row = 1" "fs_id ?src = 1" by (simp_all add: old_site_def)
  show ?thesis
    by (simp add: ApplyBundleFonts_def demo_parsed_sel bindE_def retE_def rows drop_font_def drop_source_def ids faces gone sources dropped)
qed

lemma old_applied:
  "\<exists>w'. apply_bundle demoEnv None [] replace_options demo_parsed (replace_writes demo_parsed) rep (old_world, old_site) =
     (Inr (rep\<lparr>rp_ok := True\<rparr>), (w', bare_site))"
proof -
  have live: "\<not> aborted old_world" by (simp add: old_world_def emptyWorld_def)
  have im: "apply_images demo_parsed False (old_world, old_site) = (Inr (), (old_world, old_site))"
    using live old_tables by (simp add: apply_images_def demo_parsed_sel bindE_def retE_def GetAllAssets_def rows_of_def on_table_def old_site_def)
  show ?thesis
    by (simp add: apply_bundle_def replace_options_def bindE_def [of "apply_images _ _"] im)
      (simp add: bindE_def AddSecrets_eval [OF live] old_fonts [OF write_secrets_live [OF live]] demo_parsed_sel retE_def)
qed

lemma old_import:
  "\<exists>report w'. ImportThemeBundleJson demoEnv None [] demo_theme [] replace_options (old_world, old_site) =
     (Inr report, (w', bare_site)) \<and> rp_ok report"
proof -
  have opt: "\<not> io_dryRun replace_options" "io_strictness replace_options \<noteq> Strict" "\<not> io_merge replace_options"
    by (simp_all add: replace_options_def)
  have "\<exists>report w'. import_pruned demoEnv None [] replace_options demo_parsed rep (old_world, old_site) =
     (Inr report, (w', bare_site)) \<and> rp_ok report" for rep
  proof -
    obtain rep' where r: "import_pruned demoEnv None [] replace_options demo_parsed rep (old_world, old_site) =
       apply_bundle demoEnv None [] replace_options demo_parsed (replace_writes demo_parsed) rep' (old_world, old_site)"
      by (simp add: import_pruned_def opt bindE_def old_storage Let_def replace_writes)
    from old_applied [of rep'] show ?thesis unfolding r by fastforce
  qed
  then show ?thesis
    by (simp add: ImportThemeBundleJson_def demo_version demo_migrates demo_parses demo_pruned demo_not_fatal bindE_def Let_def
        demo_parsed_sel)
qed


end
