(* ===== verification/ThemeExport.thy ===== *)
theory ThemeExport
  imports ThemeImport
begin

text \<open>
  Taking a theme out of a tenant's database (\<open>ExportThemeBundle\<close> of \<open>theme_bundle_export.cpp\<close>): the
  registered slots and tokens with the images they point at, the font tables, the sections of the
  application and the checks of the whole. What may come out is a matter of the two registries alone,
  and what comes out an import does not refuse.
\<close>

section \<open>Names for files\<close>

text \<open>The suffixes 2 to 999 in turn; \<open>n\<close> suffixes are left to try.\<close>

fun claim_suffix :: "ThemeBundle \<Rightarrow> string \<Rightarrow> string \<Rightarrow> nat \<Rightarrow> int \<Rightarrow> string" where
  "claim_suffix b stem extension 0 suffix = []"
| "claim_suffix b stem extension (Suc n) suffix =
     (let candidate = MakeAssetName (stem @ ''-'' @ StringFromInt suffix) extension
      in if candidate \<noteq> [] \<and> \<not> HasAsset b candidate then candidate else claim_suffix b stem extension n (suffix + 1))"

definition ClaimAssetName :: "ThemeBundle \<Rightarrow> string \<Rightarrow> string \<Rightarrow> string" where
  "ClaimAssetName b stem extension =
     (let name = MakeAssetName stem extension
      in if name = [] then []
         else if \<not> HasAsset b name then name
         else claim_suffix b stem extension 998 2)"

section \<open>Slots and tokens\<close>

record ThemeBundleExportOptions =
  eo_name :: string
  eo_description :: string
  eo_exportedAt :: string
  eo_app :: string
  eo_site :: string
  eo_honuwareVersion :: string

definition export_header :: "ThemeBundleExportOptions \<Rightarrow> ThemeBundle" where
  "export_header opt = new_bundle\<lparr>tb_formatVersion := CurrentBundleFormatVersion, tb_name := eo_name opt,
     tb_description := eo_description opt, tb_exportedAt := eo_exportedAt opt, tb_exportedFromApp := eo_app opt,
     tb_exportedFromSite := eo_site opt, tb_exportedFromHonuware := eo_honuwareVersion opt\<rparr>"

definition put_asset :: "string \<Rightarrow> string \<Rightarrow> ThemeBundle \<Rightarrow> ThemeBundle" where
  "put_asset name bytes b = b\<lparr>tb_assets := kv_assign name bytes (tb_assets b)\<rparr>"

definition export_slot :: "env \<Rightarrow> SecretsHelper \<Rightarrow> string \<Rightarrow> ThemeBundle \<Rightarrow> (string \<times> ThemeBundle) stx" where
  "export_slot E S key b =
     bindE (in_world (LookupSecret E S key)) (\<lambda>value.
     if \<not> starts_with kThemeBundleAssetUrlPrefix value then retE (value, b)
     else let name = drop (length kThemeBundleAssetUrlPrefix) value in
          if \<not> IsValidBundleAssetName name then retE (value, b)
          else bindE (GetAssetBytes name) (\<lambda>bytes.
               if bytes = [] then retE ([], b) else retE (name, put_asset name bytes b)))"

definition set_content :: "string \<Rightarrow> string \<Rightarrow> ThemeBundle \<Rightarrow> ThemeBundle" where
  "set_content key value b = b\<lparr>tb_content := kv_assign key value (tb_content b)\<rparr>"

definition set_token :: "string \<Rightarrow> string \<Rightarrow> ThemeBundle \<Rightarrow> ThemeBundle" where
  "set_token key value b = b\<lparr>tb_tokens := kv_assign key value (tb_tokens b)\<rparr>"

fun export_slots :: "env \<Rightarrow> SecretsHelper \<Rightarrow> (string \<times> SlotType) list \<Rightarrow> ThemeBundle \<Rightarrow> ThemeBundle stx" where
  "export_slots E S [] b = retE b"
| "export_slots E S ((key, type) # slots) b =
     bindE (if type = Url then export_slot E S key b
            else bindE (in_world (LookupSecret E S key)) (\<lambda>value. retE (value, b)))
       (\<lambda>(value, b'). export_slots E S slots (set_content key value b'))"

fun export_tokens :: "env \<Rightarrow> SecretsHelper \<Rightarrow> ThemeToken list \<Rightarrow> ThemeBundle \<Rightarrow> ThemeBundle stx" where
  "export_tokens E S [] b = retE b"
| "export_tokens E S (token # tokens) b =
     bindE (in_world (LookupSecret E S (tt_key token))) (\<lambda>value. export_tokens E S tokens (set_token (tt_key token) value b))"

section \<open>Fonts\<close>

definition source_of_row :: "SiteFontSourceRow \<Rightarrow> BundleFontSource" where
  "source_of_row r = \<lparr>bs_sourceKey = fs_sourceKey r, bs_displayName = fs_displayName r, bs_baseUrl = fs_baseUrl r,
     bs_querySuffix = fs_querySuffix r,
     bs_preconnects = map (\<lambda>p. \<lparr>bp_url = fp_href p, bp_crossorigin = fp_crossorigin p\<rparr>) (ParsePreconnectLines (fs_preconnectLines r))\<rparr>"

definition source_keys :: "SiteFontSourceRow list \<Rightarrow> (string \<times> string) list" where
  "source_keys rows = fold (\<lambda>r m. kv_assign (StringFromInt (fs_id r)) (fs_sourceKey r) m) rows []"

definition family_of_row :: "(string \<times> string) list \<Rightarrow> SiteFontRow \<Rightarrow> BundleFontFamily" where
  "family_of_row keys r =
     (let cdn = (sf_sourceKind r = kSiteFontSourceKindCdn);
          source = (case sf_fontSourceId r of None \<Rightarrow> [] | Some n \<Rightarrow> StringFromInt n)
      in \<lparr>ff_family = sf_family r, ff_fallback = sf_fallback r, ff_sourceKind = sf_sourceKind r,
          ff_sourceKey = (if cdn then (case map_of keys source of None \<Rightarrow> [] | Some k \<Rightarrow> k) else []),
          ff_spec = (if cdn then sf_spec r else []), ff_faces = []\<rparr>)"

text \<open>The faces of a family; the answer is a reason, the empty one for success.\<close>

fun export_faces :: "string \<Rightarrow> SiteFontFaceRow list \<Rightarrow> BundleFontFace list \<Rightarrow> ThemeBundle \<Rightarrow>
    (string \<times> BundleFontFace list \<times> ThemeBundle) stx" where
  "export_faces family [] fs b = retE ([], fs, b)"
| "export_faces family (r # rs) fs b =
     (let extension = ExtensionForFontFormat (fc_format r) in
      if extension = []
      then retE (''Font '' @ quoted family @ '' has a file in an unknown format ('' @ fc_format r @ '').'', fs, b)
      else let stem = family @ ''-'' @ StringFromInt (fc_weight r) @ ''-'' @ fc_style r;
               file = ClaimAssetName b stem extension in
      if file = [] then retE (''Could not name the font file for '' @ quoted family @ ''.'', fs, b)
      else bindE (GetFaceBytes (fc_id r)) (\<lambda>bytes.
           if bytes = [] then retE (''The font file for '' @ quoted family @ '' could not be read.'', fs, b)
           else export_faces family rs (fs @ [\<lparr>bf_weight = fc_weight r, bf_style = fc_style r, bf_file = file\<rparr>])
                  (put_asset file bytes b)))"

fun export_families :: "(string \<times> string) list \<Rightarrow> SiteFontRow list \<Rightarrow> ThemeBundle \<Rightarrow> (string \<times> ThemeBundle) stx" where
  "export_families keys [] b = retE ([], b)"
| "export_families keys (r # rs) b =
     bindE (GetFacesForFont (sf_id r)) (\<lambda>faces.
     bindE (export_faces (sf_family r) faces [] b) (\<lambda>(reason, fs, b').
     if reason \<noteq> [] then retE (reason, b')
     else export_families keys rs (b'\<lparr>tb_families := tb_families b' @ [(family_of_row keys r)\<lparr>ff_faces := fs\<rparr>]\<rparr>)))"

section \<open>Sections and the whole\<close>

fun export_sections :: "ThemeBundleSection list \<Rightarrow> ThemeBundle \<Rightarrow> (string \<times> ThemeBundle) stx" where
  "export_sections [] b = retE ([], b)"
| "export_sections (s # ss) b =
     bindE (ts_exporter s b) (\<lambda>(reason, body, b').
     if reason \<noteq> [] then retE (reason, b')
     else export_sections ss (b'\<lparr>tb_appSections := kv_assign (ts_name s) body (tb_appSections b')\<rparr>))"

fun export_asset_reason :: "KeyValueTable \<Rightarrow> string" where
  "export_asset_reason [] = []"
| "export_asset_reason ((name, bytes) # rest) =
     (if \<not> IsValidBundleAssetName name then quoted name @ '' is not a usable file name.''
      else if kMaxBundleAssetBytes < length bytes then quoted name @ '' is too large to put in a theme file.''
      else export_asset_reason rest)"

definition export_reason :: "ThemeBundle \<Rightarrow> string" where
  "export_reason b =
     (let duplicate = FindCaseInsensitiveDuplicate (map fst (tb_assets b)) in
      if export_asset_reason (tb_assets b) \<noteq> [] then export_asset_reason (tb_assets b)
      else if kMaxBundleAssets < length (tb_assets b) then ''This theme has more files than a theme file can hold.''
      else if kMaxBundleTotalBytes < sum_list (map (\<lambda>p. length (snd p)) (tb_assets b))
      then ''This theme'' @ [CHR 0x27] @ ''s files add up to more than a theme file can hold.''
      else if duplicate \<noteq> [] then ''Two files in this theme are both called '' @ quoted duplicate @ ''.''
      else [])"

text \<open>The answer is the reason and what is in \<open>out\<close> by then.\<close>

definition ExportThemeBundle :: "env \<Rightarrow> SecretsHelper \<Rightarrow> ThemeBundleSection list \<Rightarrow> ThemeBundleExportOptions \<Rightarrow>
    (string \<times> ThemeBundle) stx" where
  "ExportThemeBundle E S sections opt =
     bindE (export_slot E S kSiteLogoUrl (export_header opt)) (\<lambda>(value, b).
     bindE (export_slots E S SiteContentSlots (set_content kSiteLogoUrl value b)) (\<lambda>b.
     bindE (export_tokens E S SiteThemeTokens b) (\<lambda>b.
     bindE GetAllSources (\<lambda>sources.
     bindE GetAllFonts (\<lambda>fonts.
     bindE (export_families (source_keys sources) fonts (b\<lparr>tb_sources := map source_of_row sources\<rparr>)) (\<lambda>(reason, b).
     if reason \<noteq> [] then retE (reason, b)
     else bindE (export_sections sections b) (\<lambda>(reason, b).
     if reason \<noteq> [] then retE (reason, b) else retE (export_reason b, b))))))))"

section \<open>What may come out\<close>

definition registered_keys :: "string set" where
  "registered_keys = insert kSiteLogoUrl (fst ` set SiteContentSlots \<union> tt_key ` set SiteThemeTokens)"

definition same_view :: "world \<times> site_db \<Rightarrow> world \<times> site_db \<Rightarrow> bool" where
  "same_view s s' \<longleftrightarrow> snd s' = snd s \<and> aborted (fst s') = aborted (fst s) \<and>
     (\<forall>key \<in> registered_keys. map_of (config_secrets (fst s')) key = map_of (config_secrets (fst s)) key)"

interpretation view: eff_observer same_view
  by unfold_locales (auto simp: same_view_def)

lemma view_rows: "view.blind (rows_of t f)"
  by (auto simp: view.blind_def same_view_def rows_of_def on_table_def split: prod.splits)

lemma LookupSecret_alike:
  assumes "aborted u = aborted w" "map_of (config_secrets u) key = map_of (config_secrets w) key"
  shows "fst (LookupSecret E S key u) = fst (LookupSecret E S key w)"
proof (cases "aborted w")
  case True
  then show ?thesis using assms by (simp add: LookupSecret_def LookupSecretRow_def bindT_def query_def stmt_def)
next
  case False
  then show ?thesis using assms by (simp add: LookupSecret_live)
qed

lemma view_secret: "key \<in> registered_keys \<Longrightarrow> view.blind (in_world (LookupSecret E S key))"
proof -
  assume key: "key \<in> registered_keys"
  have st: "in_world (LookupSecret E S key) s = (fst (LookupSecret E S key (fst s)), s)" for s
    using LookupSecret_state [of E S key "fst s"] by (cases s; cases "LookupSecret E S key (fst s)") (auto simp: in_world_def)
  show ?thesis unfolding view.blind_def st using key by (auto simp: same_view_def intro!: LookupSecret_alike)
qed

lemma view_slot: "key \<in> registered_keys \<Longrightarrow> view.blind (export_slot E S key b)"
  unfolding export_slot_def GetAssetBytes_def GetAssetByName_def Let_def
  by (intro view.sees_rules view_secret view_rows)

lemma view_slots: "fst ` set slots \<subseteq> registered_keys \<Longrightarrow> view.blind (export_slots E S slots b)"
proof (induction slots arbitrary: b)
  case (Cons p slots)
  obtain key type where p: "p = (key, type)" by (cases p)
  have key: "key \<in> registered_keys" using Cons.prems p by simp
  show ?case unfolding p export_slots.simps
    by (intro view.sees_rules view_slot view_secret key Cons.IH) (use Cons.prems in simp)
qed (simp add: view.sees_ret)

lemma view_tokens: "tt_key ` set tokens \<subseteq> registered_keys \<Longrightarrow> view.blind (export_tokens E S tokens b)"
proof (induction tokens arbitrary: b)
  case (Cons token tokens)
  then show ?case by (auto intro!: view.sees_rules view_secret)
qed (simp add: view.sees_ret)

lemma view_faces: "view.blind (export_faces family rs fs b)"
proof (induction rs arbitrary: fs b)
  case (Cons r rs)
  show ?case unfolding export_faces.simps Let_def GetFaceBytes_def GetFace_def
    by (intro view.sees_rules view_rows Cons.IH)
qed (simp add: view.sees_ret)

lemma view_families: "view.blind (export_families keys rs b)"
proof (induction rs arbitrary: b)
  case (Cons r rs)
  show ?case unfolding export_families.simps GetFacesForFont_def
    by (intro view.sees_rules view_rows view_faces Cons.IH)
qed (simp add: view.sees_ret)

text \<open>The exporters of the application see no more either.\<close>

definition sections_blind :: "ThemeBundleSection list \<Rightarrow> bool" where
  "sections_blind sections \<longleftrightarrow> (\<forall>s \<in> set sections. \<forall>b t u. same_view t u \<longrightarrow>
     fst (ts_exporter s b t) = fst (ts_exporter s b u) \<and> same_view (snd (ts_exporter s b t)) (snd (ts_exporter s b u)))"

lemma view_sections: "sections_blind sections \<Longrightarrow> view.blind (export_sections sections b)"
proof (induction sections arbitrary: b)
  case (Cons s ss)
  have s: "view.blind (ts_exporter s b)" for b using Cons.prems by (auto simp: sections_blind_def view.blind_def)
  have ss: "sections_blind ss" using Cons.prems by (simp add: sections_blind_def)
  show ?case unfolding export_sections.simps by (intro view.sees_rules s Cons.IH ss)
qed (simp add: view.sees_ret)


section \<open>What comes out goes in\<close>

definition known_file :: "string \<Rightarrow> bool" where
  "known_file bytes \<longleftrightarrow> FontFormatFromMagicBytes bytes \<noteq> [] \<or> ImageTypeFromMagicBytes bytes \<noteq> []"

definition files_known :: "site_db \<Rightarrow> bool" where
  "files_known d \<longleftrightarrow> (\<forall>r \<in> set (site_assets d). known_file (sa_bytes r)) \<and> (\<forall>r \<in> set (site_font_faces d). known_file (fc_bytes r))"

text \<open>What is in a bundle under construction.\<close>

definition in_registry :: "ThemeBundle \<Rightarrow> bool" where
  "in_registry b \<longleftrightarrow> (\<forall>p \<in> set (tb_content b). fst p = kSiteLogoUrl \<or> FindContentSlot (fst p) \<noteq> None) \<and>
     (\<forall>p \<in> set (tb_tokens b). FindThemeToken (fst p) \<noteq> None) \<and> (\<forall>p \<in> set (tb_assets b). known_file (snd p))"

definition section_tame :: "ThemeBundleSection \<Rightarrow> bool" where
  "section_tame s \<longleftrightarrow> (\<forall>b t. in_registry b \<longrightarrow> givesE (ts_exporter s b) t (\<lambda>(reason, body, b') _. in_registry b'))"

lemma section_tameD:
  "section_tame s \<Longrightarrow> in_registry b \<Longrightarrow> givesE (ts_exporter s b) t (\<lambda>(reason, body, b') _. in_registry b')"
  unfolding section_tame_def by blast

lemma in_registry_steps:
  "in_registry b \<Longrightarrow> known_file bytes \<Longrightarrow> in_registry (put_asset name bytes b)"
  "in_registry b \<Longrightarrow> key = kSiteLogoUrl \<or> FindContentSlot key \<noteq> None \<Longrightarrow> in_registry (set_content key v b)"
  "in_registry b \<Longrightarrow> FindThemeToken key \<noteq> None \<Longrightarrow> in_registry (set_token key v b)"
  "in_registry (b\<lparr>tb_sources := ss\<rparr>) = in_registry b"
  "in_registry (b\<lparr>tb_families := fs\<rparr>) = in_registry b"
  "in_registry (b\<lparr>tb_appSections := bs\<rparr>) = in_registry b"
  by (auto simp: in_registry_def put_asset_def set_content_def set_token_def dest!: set_kv_assign)

lemma gives_rows: "givesE (rows_of t f) (w, d) (\<lambda>x s. s = (w, d) \<and> x = f d)"
  by (auto simp: givesE_def rows_of_def on_table_def split: if_splits)

lemma gives_secret: "givesE (in_world (LookupSecret E S key)) (w, d) (\<lambda>v s. s = (w, d))"
  using LookupSecret_state by (fastforce simp: givesE_def in_world_def split: prod.splits)

lemma gives_asset:
  assumes "files_known d"
  shows "givesE (GetAssetBytes name) (w, d) (\<lambda>bytes s. s = (w, d) \<and> (bytes = [] \<or> known_file bytes))"
  unfolding GetAssetBytes_def GetAssetByName_def
proof (rule gives_bind [OF gives_rows], rule gives_option)
  fix r t assume t: "t = (w, d) \<and> r = List.find (\<lambda>r. sa_name r = name) (site_assets d)"
  show "givesE (retE []) t (\<lambda>bytes s. s = (w, d) \<and> (bytes = [] \<or> known_file bytes))" using t by (auto intro: gives_ret)
  have "givesE (bindE (rows_of kSiteAssets (\<lambda>d. map sa_bytes (filter (\<lambda>r. sa_name r = name) (site_assets d))))
       (\<lambda>bs. case bs of [] \<Rightarrow> throwE (RuntimeError ''no rows'') | b # _ \<Rightarrow> retE b)) (w, d) (\<lambda>bytes s. s = (w, d) \<and> (bytes = [] \<or> known_file bytes))"
    by (rule gives_bind [OF gives_rows], intro gives_rules) (use assms in \<open>auto simp: files_known_def filter_eq_Cons_iff map_eq_Cons_conv\<close>)
  then show "givesE (bindE (rows_of kSiteAssets (\<lambda>d. map sa_bytes (filter (\<lambda>r. sa_name r = name) (site_assets d))))
       (\<lambda>bs. case bs of [] \<Rightarrow> throwE (RuntimeError ''no rows'') | b # _ \<Rightarrow> retE b)) t (\<lambda>bytes s. s = (w, d) \<and> (bytes = [] \<or> known_file bytes))" using t by simp
qed

lemma gives_face:
  assumes "files_known d"
  shows "givesE (GetFaceBytes cid) (w, d) (\<lambda>bytes s. s = (w, d) \<and> known_file bytes)"
  unfolding GetFaceBytes_def GetFace_def
  by (rule gives_bind [OF gives_rows], intro gives_rules)
    (use assms in \<open>auto simp: files_known_def dest!: sym [of "Some _"] find_SomeD\<close>)

lemma gives_slot:
  assumes "files_known d" "in_registry b"
  shows "givesE (export_slot E S key b) (w, d) (\<lambda>(v, b') s. s = (w, d) \<and> in_registry b')"
  unfolding export_slot_def Let_def
  by (rule gives_bind [OF gives_secret])
    (use assms in \<open>auto intro!: gives_rules gives_bind [OF gives_asset [OF assms(1)]] simp: in_registry_steps\<close>)

lemma gives_slots:
  "files_known d \<Longrightarrow> in_registry b \<Longrightarrow> \<forall>p \<in> set slots. FindContentSlot (fst p) \<noteq> None \<Longrightarrow>
   givesE (export_slots E S slots b) (w, d) (\<lambda>b' s. s = (w, d) \<and> in_registry b')"
proof (induction slots arbitrary: b)
  case (Cons p slots)
  obtain key type where p: "p = (key, type)" by (cases p)
  have "givesE (if type = Url then export_slot E S key b else bindE (in_world (LookupSecret E S key)) (\<lambda>value. retE (value, b)))
      (w, d) (\<lambda>(v, b') s. s = (w, d) \<and> in_registry b')"
    using Cons.prems by (intro gives_if gives_slot gives_bind [OF gives_secret] gives_ret) auto
  then show ?case unfolding p export_slots.simps
    by (rule gives_bind) (use Cons p in \<open>auto simp: in_registry_steps\<close>)
qed (simp add: gives_ret)

lemma gives_tokens:
  "in_registry b \<Longrightarrow> \<forall>token \<in> set tokens. FindThemeToken (tt_key token) \<noteq> None \<Longrightarrow>
   givesE (export_tokens E S tokens b) (w, d) (\<lambda>b' s. s = (w, d) \<and> in_registry b')"
proof (induction tokens arbitrary: b)
  case (Cons token tokens)
  then show ?case unfolding export_tokens.simps
    by (intro gives_bind [OF gives_secret]) (auto simp: in_registry_steps)
qed (simp add: gives_ret)

lemma gives_faces:
  "files_known d \<Longrightarrow> in_registry b \<Longrightarrow>
   givesE (export_faces family rs fs b) (w, d) (\<lambda>(reason, fs', b') s. s = (w, d) \<and> in_registry b')"
proof (induction rs arbitrary: fs b)
  case (Cons r rs)
  show ?case unfolding export_faces.simps Let_def
    by (intro gives_if gives_ret gives_bind [OF gives_face [OF Cons.prems(1)]])
      (use Cons in \<open>auto simp: in_registry_steps intro: gives_ret\<close>)
qed (simp add: gives_ret)

lemma gives_families:
  "files_known d \<Longrightarrow> in_registry b \<Longrightarrow>
   givesE (export_families keys rs b) (w, d) (\<lambda>(reason, b') s. s = (w, d) \<and> in_registry b')"
proof (induction rs arbitrary: b)
  case (Cons r rs)
  have "givesE (bindE (export_faces (sf_family r) faces [] b) (\<lambda>(reason, fs, b').
     if reason \<noteq> [] then retE (reason, b')
     else export_families keys rs (b'\<lparr>tb_families := tb_families b' @ [(family_of_row keys r)\<lparr>ff_faces := fs\<rparr>]\<rparr>))) (w, d)
     (\<lambda>(reason, b') s. s = (w, d) \<and> in_registry b')" for faces
    by (rule gives_bind [OF gives_faces [OF Cons.prems]])
      (use Cons in \<open>auto intro!: gives_rules simp: in_registry_steps\<close>)
  then show ?case unfolding export_families.simps GetFacesForFont_def by (intro gives_bind [OF gives_rows]) simp
qed (simp add: gives_ret)

lemma gives_sections:
  "list_all section_tame sections \<Longrightarrow> in_registry b \<Longrightarrow> givesE (export_sections sections b) t (\<lambda>(reason, b') s. in_registry b')"
proof (induction sections arbitrary: b t)
  case (Cons x xs)
  have "givesE (ts_exporter x b) t (\<lambda>(reason, body, b') s. in_registry b')"
    using Cons.prems by (intro section_tameD) simp_all
  then show ?case unfolding export_sections.simps
    by (rule gives_bind) (use Cons in \<open>auto intro!: gives_rules simp: in_registry_steps\<close>)
qed (simp add: gives_ret)

lemma export_asset_reason_ok:
  "export_asset_reason assets = [] \<Longrightarrow> \<forall>p \<in> set assets. known_file (snd p) \<Longrightarrow> fatal_asset assets = []"
  by (induction assets rule: export_asset_reason.induct) (auto simp: known_file_def quoted_def split: if_splits)

lemma export_reason_ok:
  assumes "export_reason b = []" "in_registry b"
  shows "FindFatalBundleProblem b = []"
proof -
  have c: "List.find (\<lambda>(key, _). key \<noteq> kSiteLogoUrl \<and> FindContentSlot key = None \<and> \<not> site_key key) (tb_content b) = None"
    using assms(2) by (auto simp: find_None_iff in_registry_def)
  have t: "List.find (\<lambda>(key, _). FindThemeToken key = None \<and> \<not> site_key key) (tb_tokens b) = None"
    using assms(2) by (auto simp: find_None_iff in_registry_def)
  have a: "export_asset_reason (tb_assets b) = []" using assms(1) by (auto simp: export_reason_def Let_def split: if_splits)
  have "fatal_asset (tb_assets b) = []" using export_asset_reason_ok [OF a] assms(2) by (simp add: in_registry_def)
  then show ?thesis using assms(1) c t by (auto simp: FindFatalBundleProblem_def export_reason_def Let_def split: if_splits)
qed

definition exported_ok :: "string \<times> ThemeBundle \<Rightarrow> world \<times> site_db \<Rightarrow> bool" where
  "exported_ok = (\<lambda>(reason, b) _. in_registry b \<and> (reason = [] \<longrightarrow> export_reason b = []))"

lemma exported_refused: "in_registry b \<Longrightarrow> reason \<noteq> [] \<Longrightarrow> exported_ok (reason, b) s"
  by (simp add: exported_ok_def)

lemma gives_end:
  assumes "list_all section_tame sections" "in_registry b"
  shows "givesE (bindE (export_sections sections b) (\<lambda>(reason, b).
     if reason \<noteq> [] then retE (reason, b) else retE (export_reason b, b))) t exported_ok"
  by (rule gives_bind [OF gives_sections [OF assms]]) (auto intro!: gives_rules simp: exported_ok_def)

lemma gives_fonts:
  assumes "files_known d" "list_all section_tame sections" "in_registry b"
  shows "givesE (bindE (export_families keys fonts b) (\<lambda>(reason, b).
     if reason \<noteq> [] then retE (reason, b)
     else bindE (export_sections sections b) (\<lambda>(reason, b).
     if reason \<noteq> [] then retE (reason, b) else retE (export_reason b, b)))) (w, d) exported_ok"
  by (rule gives_bind [OF gives_families [OF assms(1,3)]])
    (auto intro!: gives_end [OF assms(2)] gives_ret exported_refused)

lemma gives_export:
  assumes "files_known d" "list_all section_tame sections"
  shows "givesE (ExportThemeBundle E S sections opt) (w, d) exported_ok"
proof -
  have reg: "in_registry (export_header opt)" by (simp add: in_registry_def export_header_def new_bundle_def)
  have slots: "\<forall>p \<in> set SiteContentSlots. FindContentSlot (fst p) \<noteq> None" using slot_found by (metis option.distinct(1) prod.collapse)
  have tokens: "\<forall>token \<in> set SiteThemeTokens. FindThemeToken (tt_key token) \<noteq> None" using token_found by (metis option.distinct(1))
  show ?thesis unfolding ExportThemeBundle_def GetAllSources_def GetAllFonts_def
  proof (rule gives_bind [OF gives_slot [OF assms(1) reg]], clarify, rule gives_bind [OF gives_slots [OF assms(1) _ slots]],
      simp add: in_registry_steps, clarify, rule gives_bind [OF gives_tokens [OF _ tokens]], assumption, clarify)
    fix b assume b: "in_registry b"
    show "givesE (bindE (rows_of kSiteFontSources (\<lambda>d. sort_key fs_sourceKey (site_font_sources d))) (\<lambda>sources.
       bindE (rows_of kSiteFonts (\<lambda>d. by_ordinal (site_fonts d))) (\<lambda>fonts.
       bindE (export_families (source_keys sources) fonts (b\<lparr>tb_sources := map source_of_row sources\<rparr>)) (\<lambda>(reason, b).
       if reason \<noteq> [] then retE (reason, b)
       else bindE (export_sections sections b) (\<lambda>(reason, b).
       if reason \<noteq> [] then retE (reason, b) else retE (export_reason b, b)))))) (w, d) exported_ok"
      by (rule gives_bind [OF gives_rows], clarify, rule gives_bind [OF gives_rows], clarify, rule gives_fonts [OF assms])
        (simp add: b in_registry_steps)
  qed
qed


lemma registered_site: "key \<in> registered_keys \<Longrightarrow> starts_with ''site_'' key"
proof -
  have "list_all (starts_with ''site_'') (map fst SiteContentSlots)"
    by (simp add: SiteContentSlots_def kSiteSocialLinks_def)
  moreover have "list_all (starts_with ''site_'') (map tt_key SiteThemeTokens)"
    unfolding SiteThemeTokens_def map_append ramp_keys map_map by (simp add: token_of_def)
  ultimately show "key \<in> registered_keys \<Longrightarrow> starts_with ''site_'' key"
    by (auto simp: registered_keys_def list_all_iff kSiteLogoUrl_def)
qed

definition demo_export :: ThemeBundleExportOptions where
  "demo_export = \<lparr>eo_name = ''Studio'', eo_description = [], eo_exportedAt = ''2024-01-01'', eo_app = [], eo_site = [], eo_honuwareVersion = []\<rparr>"

text \<open>A site with a logo of its own.\<close>

definition logo_png :: string where
  "logo_png = [CHR 0x89, CHR ''P'', CHR ''N'', CHR ''G'', CHR 0x0D, CHR 0x0A, CHR 0x1A, CHR 0x0A, CHR ''x'', CHR ''x'', CHR ''x'', CHR ''x'']"

definition logo_site :: site_db where
  "logo_site = empty_site\<lparr>site_tables := bundle_tables, site_assets := [\<lparr>sa_id = 1, sa_name = ''logo.png'', sa_type = ''image/png'', sa_bytes = logo_png\<rparr>]\<rparr>"

definition logo_world :: world where
  "logo_world = emptyWorld\<lparr>config_secrets := [(kSiteLogoUrl, ''/api/site_asset/logo.png'')]\<rparr>"

lemma logo_secret:
  "in_world (LookupSecret demoEnv None key) (logo_world, d) =
     (Inr (if key = kSiteLogoUrl then ''/api/site_asset/logo.png'' else []), (logo_world, d))"
  by (simp add: in_world_def LookupSecret_live logo_world_def emptyWorld_def)


lemma logo_slots:
  "kSiteLogoUrl \<notin> fst ` set slots \<Longrightarrow> \<exists>b'. export_slots demoEnv None slots b (logo_world, d) = (Inr b', (logo_world, d)) \<and> tb_assets b' = tb_assets b"
proof (induction slots arbitrary: b)
  case (Cons p slots)
  obtain key type where p: "p = (key, type)" by (cases p)
  have key: "kSiteLogoUrl \<noteq> key" using Cons.prems p by auto
  have "export_slots demoEnv None (p # slots) b (logo_world, d) = export_slots demoEnv None slots (set_content key [] b) (logo_world, d)"
    using not_sym [OF key] unfolding p by (cases "type = Url") (simp_all add: bindE_def logo_secret export_slot_def retE_def kThemeBundleAssetUrlPrefix_def)
  then show ?case using Cons.IH [of "set_content key [] b"] Cons.prems by (simp add: set_content_def)
qed (simp add: retE_def)

lemma logo_tokens:
  "\<exists>b'. export_tokens demoEnv None tokens b (logo_world, d) = (Inr b', (logo_world, d)) \<and> tb_assets b' = tb_assets b"
proof (induction tokens arbitrary: b)
  case (Cons token tokens)
  then show ?case using Cons.IH [of "set_token (tt_key token) v b" for v] by (simp add: bindE_def logo_secret set_token_def)
qed (simp add: retE_def)

lemma logo_slot:
  "\<exists>b'. export_slot demoEnv None kSiteLogoUrl (export_header opt) (logo_world, logo_site) = (Inr (''logo.png'', b'), (logo_world, logo_site)) \<and>
     tb_assets b' = [(''logo.png'', logo_png)]"
proof -
  have live: "\<not> aborted logo_world" "kSiteAssets \<in> set (site_tables logo_site)"
    by (simp_all add: logo_world_def emptyWorld_def logo_site_def bundle_tables_def)
  have g: "GetAssetBytes ''logo.png'' (logo_world, logo_site) = (Inr logo_png, (logo_world, logo_site))"
    using live by (simp add: GetAssetBytes_def GetAssetByName_def bindE_def rows_of_def on_table_def)
      (simp add: logo_site_def retE_def bindE_def rows_of_def on_table_def)
  have "IsValidBundleAssetName ''logo.png''" by code_simp
  then show ?thesis
    by (simp add: export_slot_def Let_def bindE_def logo_secret kThemeBundleAssetUrlPrefix_def g retE_def put_asset_def export_header_def new_bundle_def)
      (simp add: logo_png_def)
qed

lemma logo_export:
  "\<exists>b. ExportThemeBundle demoEnv None [] demo_export (logo_world, logo_site) = (Inr ([], b), (logo_world, logo_site)) \<and>
     tb_assets b = [(''logo.png'', logo_png)]"
proof -
  obtain b1 where 1: "export_slot demoEnv None kSiteLogoUrl (export_header demo_export) (logo_world, logo_site) = (Inr (''logo.png'', b1), (logo_world, logo_site))"
    "tb_assets b1 = [(''logo.png'', logo_png)]" using logo_slot by blast
  have apart: "kSiteLogoUrl \<notin> fst ` set SiteContentSlots" using slot_found by force
  obtain b2 where 2: "export_slots demoEnv None SiteContentSlots (set_content kSiteLogoUrl ''logo.png'' b1) (logo_world, logo_site) = (Inr b2, (logo_world, logo_site))"
    "tb_assets b2 = [(''logo.png'', logo_png)]" using logo_slots [OF apart, of "set_content kSiteLogoUrl ''logo.png'' b1"] 1(2) by (auto simp: set_content_def)
  obtain b3 where 3: "export_tokens demoEnv None SiteThemeTokens b2 (logo_world, logo_site) = (Inr b3, (logo_world, logo_site))"
    "tb_assets b3 = [(''logo.png'', logo_png)]" using logo_tokens 2(2) by metis
  have rows: "GetAllSources (logo_world, logo_site) = (Inr [], (logo_world, logo_site))" "GetAllFonts (logo_world, logo_site) = (Inr [], (logo_world, logo_site))"
    by (simp_all add: GetAllSources_def GetAllFonts_def rows_of_def on_table_def logo_world_def emptyWorld_def logo_site_def empty_site_def bundle_tables_def by_ordinal_def)
  have "IsValidBundleAssetName ''logo.png''" by code_simp
  then have "export_reason (b3\<lparr>tb_sources := []\<rparr>) = []"
    using 3(2) by (simp add: export_reason_def Let_def kMaxBundleAssetBytes_def kMaxBundleAssets_def kMaxBundleTotalBytes_def logo_png_def
        FindCaseInsensitiveDuplicate_def)
  then show ?thesis using 1 2 3 by (simp add: ExportThemeBundle_def bindE_def rows source_keys_def retE_def)
qed


end
