(* ===== verification/Dates.thy ===== *)
theory Dates
  imports CppTypes "HOL-Library.Signed_Division"
begin

text \<open>
  Moments, dates and wall clocks (\<open>foundation/util/date_time_util.cpp\<close>). A moment is the number of
  microseconds since 1970 in UTC, a \<^emph>\<open>date token\<close> the moment of UTC midnight that stands for a date.
  The conversion between days and dates is the date library (\<open>cal\<close>), the rules of a time zone are the C
  library's (\<open>tz\<close>): both are arguments. Setting \<open>TZ\<close>, converting under it and putting it back, all under
  one mutex, is one call of \<open>tz\<close> with the zone as its argument.
\<close>

section \<open>The date library and the time zones\<close>

record calendar =
  ymd_of :: "int \<Rightarrow> int \<times> int \<times> int"
  days_of :: "int \<times> int \<times> int \<Rightarrow> int"

text \<open>\<open>struct tm\<close>, with the month from 0 and the year from 1900.\<close>

record ctm =
  tm_year :: int
  tm_mon :: int
  tm_mday :: int
  tm_hour :: int
  tm_min :: int
  tm_sec :: int
  tm_wday :: int
  tm_isdst :: int

record zones =
  localtime :: "string \<Rightarrow> int \<Rightarrow> ctm"
  mktime :: "string \<Rightarrow> ctm \<Rightarrow> int"

definition kDayUs :: int where "kDayUs = 86400000000"

section \<open>Reading a timestamp\<close>

text \<open>\<open>std::from_chars\<close> for an \<open>int\<close>: a minus sign and digits as far as they go.\<close>

definition leading_int :: "string \<Rightarrow> int option" where
  "leading_int s =
     (case s of
        [] \<Rightarrow> None
      | c # cs \<Rightarrow>
        if c = CHR ''-'' then (if cs \<noteq> [] \<and> is_digit (hd cs) then Some (- int (read_digits 0 cs)) else None)
        else if is_digit c then Some (int (read_digits 0 s)) else None)"

definition expect_char :: "string \<Rightarrow> nat \<Rightarrow> char \<Rightarrow> unit res" where
  "expect_char s pos ch =
     (if length s \<le> pos \<or> s ! pos \<noteq> ch
      then Inl (RuntimeError (''bad format at pos '' @ StringFromInt (int pos) @ '': '' @ s)) else Inr ())"

definition int_at :: "string \<Rightarrow> nat \<Rightarrow> nat \<Rightarrow> int res" where
  "int_at s pos len =
     (case leading_int (take len (drop pos s)) of
        None \<Rightarrow> Inl (RuntimeError (''bad number at pos '' @ StringFromInt (int pos) @ '': '' @ s))
      | Some n \<Rightarrow> Inr n)"

text \<open>Fractional seconds as microseconds, and what follows them.\<close>

definition read_fraction :: "string \<Rightarrow> int \<times> string" where
  "read_fraction rest =
     (case rest of
        [] \<Rightarrow> (0, [])
      | c # cs \<Rightarrow>
        if c \<noteq> CHR ''.'' then (0, rest)
        else let digits = takeWhile is_digit cs; used = take 6 digits
             in (int (read_digits 0 used) * 10 ^ (6 - length used), dropWhile is_digit cs))"

definition two_digits :: "string \<Rightarrow> int option" where
  "two_digits s =
     (if 2 \<le> length s \<and> is_digit (s ! 0) \<and> is_digit (s ! 1)
      then Some (10 * int (digit_val (s ! 0)) + int (digit_val (s ! 1))) else None)"

text \<open>The offset in minutes and what follows it; \<open>s\<close> is the whole text, for the messages.\<close>

definition pos_in :: "string \<Rightarrow> string \<Rightarrow> string" where
  "pos_in s rest = StringFromInt (int (length s - length rest)) @ '': '' @ s"

definition read_offset :: "string \<Rightarrow> string \<Rightarrow> (int \<times> string) res" where
  "read_offset s rest =
     (case rest of
        [] \<Rightarrow> Inl (RuntimeError (''missing time zone offset: '' @ s))
      | c # cs \<Rightarrow>
        if c = CHR ''Z'' then Inr (0, cs)
        else if c \<noteq> CHR ''+'' \<and> c \<noteq> CHR ''-''
        then Inl (RuntimeError (''expected '' @ [CHR 0x27] @ ''Z'' @ [CHR 0x27] @ '' or sign at pos '' @ pos_in s rest))
        else case two_digits cs of
          None \<Rightarrow> Inl (RuntimeError (''bad tz hour at pos '' @ pos_in s cs))
        | Some h \<Rightarrow>
          let after = drop 2 cs; sign = (if c = CHR ''-'' then -1 else 1) in
          if after \<noteq> [] \<and> hd after = CHR '':''
          then (case two_digits (tl after) of
                  None \<Rightarrow> Inl (RuntimeError (''bad tz minute at pos '' @ pos_in s (tl after)))
                | Some m \<Rightarrow> Inr (sign * (h * 60 + m), drop 2 (tl after)))
          else case two_digits after of
                 Some m \<Rightarrow> Inr (sign * (h * 60 + m), drop 2 after)
               | None \<Rightarrow> Inr (sign * (h * 60), after))"

definition StringToEpochMillis :: "calendar \<Rightarrow> string \<Rightarrow> int res" where
  "StringToEpochMillis cal s =
     (if length s < 19 then Inl (RuntimeError (''timestamp too short: '' @ s))
      else
        rbind (expect_char s 4 (CHR ''-'')) (\<lambda>_. rbind (expect_char s 7 (CHR ''-'')) (\<lambda>_.
        rbind (expect_char s 10 (CHR '' '')) (\<lambda>_. rbind (expect_char s 13 (CHR '':'')) (\<lambda>_.
        rbind (expect_char s 16 (CHR '':'')) (\<lambda>_.
        rbind (int_at s 0 4) (\<lambda>year. rbind (int_at s 5 2) (\<lambda>month. rbind (int_at s 8 2) (\<lambda>day.
        rbind (int_at s 11 2) (\<lambda>hour. rbind (int_at s 14 2) (\<lambda>mins. rbind (int_at s 17 2) (\<lambda>sec.
        let (micros, rest) = read_fraction (drop 19 s) in
        rbind (read_offset s rest) (\<lambda>(tz_minutes, tail).
        if dropWhile is_space tail \<noteq> [] then Inl (RuntimeError (''trailing characters after timestamp: '' @ dropWhile is_space tail))
        else if \<not> (1 \<le> month \<and> month \<le> 12 \<and> 1 \<le> day \<and> day \<le> 31) then Inl (RuntimeError (''invalid Y-M-D: '' @ s))
        else Inr ((days_of cal (year, month, day) * kDayUs + ((hour * 60 + mins) * 60 + sec) * 1000000 + micros
               - tz_minutes * 60000000) sdiv 1000))))))))))))))"

section \<open>Showing dates and times\<close>

definition kMonthNames :: "string list" where
  "kMonthNames = [''January'', ''February'', ''March'', ''April'', ''May'', ''June'',
     ''July'', ''August'', ''September'', ''October'', ''November'', ''December'']"

definition show_date :: "int \<Rightarrow> int \<Rightarrow> int \<Rightarrow> string" where
  "show_date year month day = kMonthNames ! nat (month - 1) @ '' '' @ StringFromInt day @ '', '' @ StringFromInt year"

definition pad_zero :: "nat \<Rightarrow> string \<Rightarrow> string" where
  "pad_zero w s = replicate (w - length s) (CHR ''0'') @ s"

definition show_time :: "int \<Rightarrow> int \<Rightarrow> string" where
  "show_time hours mins =
     (let ampm = (if 12 \<le> hours then ''PM'' else ''AM'');
          h = (if 12 < hours then hours - 12 else hours);
          h12 = (if h = 0 then 12 else h)
      in StringFromInt h12 @ '':'' @ pad_zero 2 (StringFromInt mins) @ '' '' @ ampm)"

definition utc_ymd :: "calendar \<Rightarrow> int \<Rightarrow> int \<times> int \<times> int" where
  "utc_ymd cal us = ymd_of cal (us div kDayUs)"

text \<open>Hour, minute and second of the day in UTC.\<close>

definition utc_clock :: "int \<Rightarrow> int \<times> int \<times> int" where
  "utc_clock us = (let t = us mod kDayUs in (t div 3600000000, t div 60000000 mod 60, t div 1000000 mod 60))"

definition FormatDateFromMicroseconds :: "calendar \<Rightarrow> int \<Rightarrow> string" where
  "FormatDateFromMicroseconds cal us = (case utc_ymd cal us of (year, month, day) \<Rightarrow> show_date year month day)"

definition FormatTimeFromMicroseconds :: "int \<Rightarrow> string" where
  "FormatTimeFromMicroseconds us = (case utc_clock us of (hours, mins, _) \<Rightarrow> show_time hours mins)"

section \<open>Time zones\<close>

definition IanaToPosixTz :: "string \<Rightarrow> string" where
  "IanaToPosixTz iana =
     (case map_of [(''America/Los_Angeles'', ''PST8PDT,M3.2.0,M11.1.0''), (''America/Denver'', ''MST7MDT,M3.2.0,M11.1.0''),
        (''America/Chicago'', ''CST6CDT,M3.2.0,M11.1.0''), (''America/New_York'', ''EST5EDT,M3.2.0,M11.1.0''),
        (''America/Phoenix'', ''MST7''), (''America/Anchorage'', ''AKST9AKDT,M3.2.0,M11.1.0''), (''Pacific/Honolulu'', ''HST10''),
        (''US/Pacific'', ''PST8PDT,M3.2.0,M11.1.0''), (''US/Mountain'', ''MST7MDT,M3.2.0,M11.1.0''),
        (''US/Central'', ''CST6CDT,M3.2.0,M11.1.0''), (''US/Eastern'', ''EST5EDT,M3.2.0,M11.1.0''),
        (''UTC'', ''UTC0''), (''Etc/UTC'', ''UTC0'')] iana of
      Some posix \<Rightarrow> posix | None \<Rightarrow> iana)"

text \<open>The division of the microseconds rounds towards zero.\<close>

definition ToLocalTm :: "zones \<Rightarrow> int \<Rightarrow> string \<Rightarrow> ctm" where
  "ToLocalTm tz us timezone = localtime tz (IanaToPosixTz timezone) (us sdiv 1000000)"

definition LocalTmToUs :: "zones \<Rightarrow> ctm \<Rightarrow> string \<Rightarrow> int" where
  "LocalTmToUs tz tm timezone = mktime tz (IanaToPosixTz timezone) tm * 1000000"

definition FormatDateIn :: "calendar \<Rightarrow> zones \<Rightarrow> int \<Rightarrow> string \<Rightarrow> string" where
  "FormatDateIn cal tz us timezone =
     (if timezone = [] then FormatDateFromMicroseconds cal us
      else let t = ToLocalTm tz us timezone in show_date (tm_year t + 1900) (tm_mon t + 1) (tm_mday t))"

definition FormatTimeIn :: "zones \<Rightarrow> int \<Rightarrow> string \<Rightarrow> string" where
  "FormatTimeIn tz us timezone =
     (if timezone = [] then FormatTimeFromMicroseconds us
      else let t = ToLocalTm tz us timezone in show_time (tm_hour t) (tm_min t))"

definition GetDayOfWeek :: "zones \<Rightarrow> int \<Rightarrow> string \<Rightarrow> int" where
  "GetDayOfWeek tz us timezone = tm_wday (ToLocalTm tz us timezone)"

definition GetMidnightUs :: "zones \<Rightarrow> int \<Rightarrow> string \<Rightarrow> int" where
  "GetMidnightUs tz us timezone =
     LocalTmToUs tz ((ToLocalTm tz us timezone)\<lparr>tm_hour := 0, tm_min := 0, tm_sec := 0, tm_isdst := -1\<rparr>) timezone"

definition LocalWallClockToUs :: "zones \<Rightarrow> int \<Rightarrow> int \<Rightarrow> string \<Rightarrow> int" where
  "LocalWallClockToUs tz dayUs minutesAfterMidnight timezone =
     LocalTmToUs tz ((ToLocalTm tz dayUs timezone)\<lparr>tm_hour := minutesAfterMidnight sdiv 60,
       tm_min := minutesAfterMidnight smod 60, tm_sec := 0, tm_isdst := -1\<rparr>) timezone"

section \<open>Months and date tokens\<close>

definition StartOfMonthUs :: "calendar \<Rightarrow> int \<Rightarrow> int \<Rightarrow> int" where
  "StartOfMonthUs cal year month = days_of cal (year, month, 1) * kDayUs"

definition EndOfMonthUs :: "calendar \<Rightarrow> int \<Rightarrow> int \<Rightarrow> int" where
  "EndOfMonthUs cal year month =
     (if month = 12 then StartOfMonthUs cal (year + 1) 1 else StartOfMonthUs cal year (month + 1))"

definition StartOfContainingMonthUs :: "calendar \<Rightarrow> int \<Rightarrow> int" where
  "StartOfContainingMonthUs cal us = (case utc_ymd cal us of (year, month, _) \<Rightarrow> StartOfMonthUs cal year month)"

definition EndOfContainingMonthUs :: "calendar \<Rightarrow> int \<Rightarrow> int" where
  "EndOfContainingMonthUs cal us = (case utc_ymd cal us of (year, month, _) \<Rightarrow> EndOfMonthUs cal year month)"

definition CalendarDateWallClockToUs :: "calendar \<Rightarrow> zones \<Rightarrow> int \<Rightarrow> int \<Rightarrow> string \<Rightarrow> int" where
  "CalendarDateWallClockToUs cal tz dateTokenUs minutesAfterMidnight timezone =
     (case utc_ymd cal dateTokenUs of (year, month, day) \<Rightarrow>
        LocalTmToUs tz \<lparr>tm_year = year - 1900, tm_mon = month - 1, tm_mday = day, tm_hour = minutesAfterMidnight sdiv 60,
          tm_min = minutesAfterMidnight smod 60, tm_sec = 0, tm_wday = 0, tm_isdst = -1\<rparr> timezone)"

definition LocalDateTokenUs :: "calendar \<Rightarrow> zones \<Rightarrow> int \<Rightarrow> string \<Rightarrow> int" where
  "LocalDateTokenUs cal tz us timezone =
     (let t = ToLocalTm tz us timezone in days_of cal (tm_year t + 1900, tm_mon t + 1, tm_mday t) * kDayUs)"

section \<open>What is relied on\<close>

definition is_leap :: "int \<Rightarrow> bool" where
  "is_leap y \<longleftrightarrow> y mod 4 = 0 \<and> (y mod 100 \<noteq> 0 \<or> y mod 400 = 0)"

definition last_day :: "int \<Rightarrow> int \<Rightarrow> int" where
  "last_day y m = (if m = 2 then (if is_leap y then 29 else 28) else if m \<in> {4, 6, 9, 11} then 30 else 31)"

definition valid_ymd :: "int \<times> int \<times> int \<Rightarrow> bool" where
  "valid_ymd = (\<lambda>(y, m, d). -32767 \<le> y \<and> y \<le> 32767 \<and> 1 \<le> m \<and> m \<le> 12 \<and> 1 \<le> d \<and> d \<le> last_day y m)"

text \<open>The days of the years from -32767 to 32767, the range of the library.\<close>

definition in_years :: "int \<Rightarrow> bool" where
  "in_years n \<longleftrightarrow> -12687428 \<le> n \<and> n \<le> 11248737"

text \<open>
  What the documentation of the date library says: days and valid dates correspond to each other, days
  of a month are consecutive and a month begins when the month before it is over.
\<close>

definition calendar_ok :: "calendar \<Rightarrow> bool" where
  "calendar_ok cal \<longleftrightarrow>
     (\<forall>n. in_years n \<longrightarrow> valid_ymd (ymd_of cal n) \<and> days_of cal (ymd_of cal n) = n) \<and>
     (\<forall>p. valid_ymd p \<longrightarrow> ymd_of cal (days_of cal p) = p) \<and>
     (\<forall>y m d. valid_ymd (y, m, d) \<longrightarrow> days_of cal (y, m, d) = days_of cal (y, m, 1) + (d - 1)) \<and>
     (\<forall>y m. valid_ymd (y, m, 1) \<and> m < 12 \<longrightarrow> days_of cal (y, m + 1, 1) = days_of cal (y, m, 1) + last_day y m) \<and>
     (\<forall>y. valid_ymd (y, 1, 1) \<and> valid_ymd (y + 1, 1, 1) \<longrightarrow> days_of cal (y + 1, 1, 1) = days_of cal (y, 12, 1) + 31)"

section \<open>The Gregorian calendar\<close>

definition days_before_year :: "int \<Rightarrow> int" where
  "days_before_year y = 365 * y + (y - 1) div 4 - (y - 1) div 100 + (y - 1) div 400 - 719527"

definition days_before_month :: "int \<Rightarrow> int \<Rightarrow> int" where
  "days_before_month y m = [0, 31, 59, 90, 120, 151, 181, 212, 243, 273, 304, 334] ! nat (m - 1) + (if 2 < m \<and> is_leap y then 1 else 0)"

definition gregorian_days :: "int \<times> int \<times> int \<Rightarrow> int" where
  "gregorian_days = (\<lambda>(y, m, d). days_before_year y + days_before_month y m + (d - 1))"

definition gregorian_year :: "int \<Rightarrow> int" where
  "gregorian_year n = (let e = (n + 719527) * 400 div 146097
     in if n < days_before_year e then e - 1 else if n < days_before_year (e + 1) then e else e + 1)"

definition gregorian_month :: "int \<Rightarrow> int \<Rightarrow> int" where
  "gregorian_month y k = int (length (filter (\<lambda>m. days_before_month y m \<le> k) [1, 2, 3, 4, 5, 6, 7, 8, 9, 10, 11, 12]))"

definition gregorian_ymd :: "int \<Rightarrow> int \<times> int \<times> int" where
  "gregorian_ymd n = (let y = gregorian_year n; k = n - days_before_year y; m = gregorian_month y k
     in (y, m, k - days_before_month y m + 1))"

definition gregorian :: calendar where
  "gregorian = \<lparr>ymd_of = gregorian_ymd, days_of = gregorian_days\<rparr>"

lemma div_step:
  fixes y n :: int
  assumes "0 < n"
  shows "y div n = (y - 1) div n + (if y mod n = 0 then 1 else 0)"
proof (cases "y mod n = 0")
  case True
  have "y - 1 = n * (y div n - 1) + (n - 1)" using True div_mult_mod_eq [of y n] by (simp add: algebra_simps)
  then have "(y - 1) div n = y div n - 1" by (rule int_div_pos_eq) (use assms in simp_all)
  then show ?thesis using True by simp
next
  case False
  have "y - 1 = n * (y div n) + (y mod n - 1)" using div_mult_mod_eq [of y n] by (simp add: algebra_simps)
  moreover have "0 \<le> y mod n - 1" using False assms pos_mod_sign [of n y] by linarith
  moreover have "y mod n - 1 < n" using pos_mod_bound [of n y] assms by linarith
  ultimately have "(y - 1) div n = y div n" by (rule int_div_pos_eq)
  then show ?thesis using False by simp
qed

lemma dby_step: "days_before_year (y + 1) = days_before_year y + (if is_leap y then 366 else 365)"
proof -
  have d4: "y div 4 = (y - 1) div 4 + (if y mod 4 = 0 then 1 else 0)" by (rule div_step) simp
  have d100: "y div 100 = (y - 1) div 100 + (if y mod 100 = 0 then 1 else 0)" by (rule div_step) simp
  have d400: "y div 400 = (y - 1) div 400 + (if y mod 400 = 0 then 1 else 0)" by (rule div_step) simp
  have "y mod 400 = 0 \<Longrightarrow> y mod 100 = 0"
    unfolding dvd_eq_mod_eq_0 [symmetric] by (rule dvd_trans [of 100 400]) simp_all
  moreover have "y mod 100 = 0 \<Longrightarrow> y mod 4 = 0"
    unfolding dvd_eq_mod_eq_0 [symmetric] by (rule dvd_trans [of 4 100]) simp_all
  ultimately show ?thesis
    unfolding days_before_year_def is_leap_def add_diff_cancel_right' d4 d100 d400
    by (cases "y mod 4 = 0"; cases "y mod 100 = 0"; cases "y mod 400 = 0") simp_all
qed

lemma dby_mono: "a \<le> b \<Longrightarrow> days_before_year a \<le> days_before_year b"
proof (induction b rule: int_ge_induct)
  case (step i)
  then show ?case using dby_step [of i] by (simp split: if_splits)
qed simp

lemma dby_strict: "a < b \<Longrightarrow> days_before_year a < days_before_year b"
  using dby_mono [of "a + 1" b] dby_step [of a] by (auto split: if_splits)

lemma year_estimate:
  assumes "e = (n + 719527) * 400 div 146097"
  shows "days_before_year (e - 1) \<le> n" "n < days_before_year (e + 2)"
proof -
  have e: "146097 * e \<le> (n + 719527) * 400" "(n + 719527) * 400 < 146097 * e + 146097"
    unfolding assms by linarith+
  have d: "4 * (x div 4) \<le> x" "x < 4 * (x div 4) + 4" "100 * (x div 100) \<le> x" "x < 100 * (x div 100) + 100"
    "400 * (x div 400) \<le> x" "x < 400 * (x div 400) + 400" for x :: int by linarith+
  have bound: "400 * days_before_year y \<le> 146097 * y - 287810800 + 400 - 97"
    "146097 * y - 287810800 - 400 - 97 - 400 < 400 * days_before_year y" for y
  proof -
    define p q r where "p = (y - 1) div 4" "q = (y - 1) div 100" "r = (y - 1) div 400"
    have "4 * p \<le> y - 1" "y - 1 < 4 * p + 4" "100 * q \<le> y - 1" "y - 1 < 100 * q + 100" "400 * r \<le> y - 1" "y - 1 < 400 * r + 400"
      unfolding p_q_r_def by (rule d)+
    then show "400 * days_before_year y \<le> 146097 * y - 287810800 + 400 - 97"
      "146097 * y - 287810800 - 400 - 97 - 400 < 400 * days_before_year y"
      unfolding days_before_year_def p_q_r_def [symmetric] by simp_all
  qed
  show "days_before_year (e - 1) \<le> n" using e bound(1) [of "e - 1"] by simp
  show "n < days_before_year (e + 2)" using e bound(2) [of "e + 2"] by simp
qed

lemma gregorian_year:
  "days_before_year (gregorian_year n) \<le> n \<and> n < days_before_year (gregorian_year n + 1)"
proof -
  define e where "e = (n + 719527) * 400 div 146097"
  note b = year_estimate [OF e_def]
  show ?thesis using b unfolding gregorian_year_def Let_def e_def [symmetric] by (auto simp: add.assoc)
qed

lemma gregorian_year_unique:
  assumes "days_before_year y \<le> n" "n < days_before_year (y + 1)"
  shows "gregorian_year n = y"
proof (rule ccontr)
  assume "gregorian_year n \<noteq> y"
  then consider "gregorian_year n + 1 \<le> y" | "y + 1 \<le> gregorian_year n" by linarith
  then show False
  proof cases
    case 1
    then show ?thesis using dby_mono [OF 1] gregorian_year [of n] assms by linarith
  next
    case 2
    then show ?thesis using dby_mono [OF 2] gregorian_year [of n] assms by linarith
  qed
qed

lemma months: "1 \<le> m \<and> m \<le> 12 \<longleftrightarrow> m \<in> {1, 2, 3, 4, 5, 6, 7, 8, 9, 10, 11, 12}" for m :: int
  unfolding insert_iff empty_iff by presburger

lemma dbm_values:
  "days_before_month y 1 = 0" "days_before_month y 2 = 31"
  "days_before_month y 3 = (if is_leap y then 60 else 59)" "days_before_month y 4 = (if is_leap y then 91 else 90)"
  "days_before_month y 5 = (if is_leap y then 121 else 120)" "days_before_month y 6 = (if is_leap y then 152 else 151)"
  "days_before_month y 7 = (if is_leap y then 182 else 181)" "days_before_month y 8 = (if is_leap y then 213 else 212)"
  "days_before_month y 9 = (if is_leap y then 244 else 243)" "days_before_month y 10 = (if is_leap y then 274 else 273)"
  "days_before_month y 11 = (if is_leap y then 305 else 304)" "days_before_month y 12 = (if is_leap y then 335 else 334)"
  by (simp_all add: days_before_month_def)

lemma gregorian_month_of:
  assumes "1 \<le> m" "m \<le> 12" "1 \<le> d" "d \<le> last_day y m"
  shows "gregorian_month y (days_before_month y m + (d - 1)) = m"
    "0 \<le> days_before_month y m + (d - 1)" "days_before_month y m + (d - 1) < (if is_leap y then 366 else 365)"
proof -
  have "m \<in> {1, 2, 3, 4, 5, 6, 7, 8, 9, 10, 11, 12}" using assms(1,2) months by blast
  then show "gregorian_month y (days_before_month y m + (d - 1)) = m"
    using assms(3,4) by (elim insertE emptyE) (simp_all add: gregorian_month_def dbm_values last_day_def split: if_splits)
  have "m \<in> {1, 2, 3, 4, 5, 6, 7, 8, 9, 10, 11, 12}" using assms(1,2) months by blast
  then show "0 \<le> days_before_month y m + (d - 1)" "days_before_month y m + (d - 1) < (if is_leap y then 366 else 365)"
    using assms(3,4) by (auto simp: dbm_values last_day_def split: if_splits)
qed

lemma gregorian_month_bounds:
  assumes "0 \<le> k" "k < (if is_leap y then 366 else 365)"
  defines "m \<equiv> gregorian_month y k"
  shows "1 \<le> m" "m \<le> 12" "days_before_month y m \<le> k" "k - days_before_month y m < last_day y m"
proof -
  have "1 \<le> m \<and> m \<le> 12 \<and> days_before_month y m \<le> k \<and> k - days_before_month y m < last_day y m"
  proof (cases "is_leap y")
    case True
    consider "k < 31" | "31 \<le> k" "k < 60" | "60 \<le> k" "k < 91" | "91 \<le> k" "k < 121" | "121 \<le> k" "k < 152" | "152 \<le> k" "k < 182"
      | "182 \<le> k" "k < 213" | "213 \<le> k" "k < 244" | "244 \<le> k" "k < 274" | "274 \<le> k" "k < 305" | "305 \<le> k" "k < 335" | "335 \<le> k"
      by linarith
    then show ?thesis by cases (use True assms(1,2) in \<open>simp_all add: m_def gregorian_month_def dbm_values last_day_def\<close>)
  next
    case False
    consider "k < 31" | "31 \<le> k" "k < 59" | "59 \<le> k" "k < 90" | "90 \<le> k" "k < 120" | "120 \<le> k" "k < 151" | "151 \<le> k" "k < 181"
      | "181 \<le> k" "k < 212" | "212 \<le> k" "k < 243" | "243 \<le> k" "k < 273" | "273 \<le> k" "k < 304" | "304 \<le> k" "k < 334" | "334 \<le> k"
      by linarith
    then show ?thesis by cases (use False assms(1,2) in \<open>simp_all add: m_def gregorian_month_def dbm_values last_day_def\<close>)
  qed
  then show "1 \<le> m" "m \<le> 12" "days_before_month y m \<le> k" "k - days_before_month y m < last_day y m" by simp_all
qed

lemma year_range:
  assumes "in_years n"
  shows "-32767 \<le> gregorian_year n \<and> gregorian_year n \<le> 32767"
proof -
  have lo: "days_before_year (-32767) = -12687428" and hi: "days_before_year 32768 = 11248738"
    by (simp_all add: days_before_year_def)
  note g = gregorian_year [of n]
  have "-32767 \<le> gregorian_year n"
  proof (rule ccontr)
    assume "\<not> -32767 \<le> gregorian_year n"
    then have "days_before_year (gregorian_year n + 1) \<le> days_before_year (-32767)" by (intro dby_mono) linarith
    then show False using g lo assms by (simp add: in_years_def)
  qed
  moreover have "gregorian_year n \<le> 32767"
  proof (rule ccontr)
    assume "\<not> gregorian_year n \<le> 32767"
    then have "days_before_year 32768 \<le> days_before_year (gregorian_year n)" by (intro dby_mono) linarith
    then show False using g hi assms by (simp add: in_years_def)
  qed
  ultimately show ?thesis ..
qed

lemma gregorian_ok: "calendar_ok gregorian"
  unfolding calendar_ok_def
proof (intro conjI allI impI)
  fix n assume n: "in_years n"
  define y where "y = gregorian_year n"
  define k where "k = n - days_before_year y"
  have k: "0 \<le> k" "k < (if is_leap y then 366 else 365)"
    using gregorian_year [of n] dby_step [of y] by (auto simp: k_def y_def)
  note m = gregorian_month_bounds [OF k]
  have eq: "gregorian_ymd n = (y, gregorian_month y k, k - days_before_month y (gregorian_month y k) + 1)"
    by (simp add: gregorian_ymd_def Let_def y_def k_def)
  show "valid_ymd (ymd_of gregorian n)"
    using m year_range [OF n] by (simp add: gregorian_def eq valid_ymd_def y_def)
  show "days_of gregorian (ymd_of gregorian n) = n"
    by (simp add: gregorian_def eq gregorian_days_def) (simp add: k_def)
next
  fix p assume p: "valid_ymd p"
  obtain y m d where ymd: "p = (y, m, d)" by (cases p)
  have v: "1 \<le> m" "m \<le> 12" "1 \<le> d" "d \<le> last_day y m" using p by (simp_all add: ymd valid_ymd_def)
  note g = gregorian_month_of [OF v]
  have "gregorian_year (days_before_year y + (days_before_month y m + (d - 1))) = y"
    using g(2,3) dby_step [of y] by (intro gregorian_year_unique) (auto split: if_splits)
  then show "ymd_of gregorian (days_of gregorian p) = p"
    using g(1) by (simp add: gregorian_def ymd gregorian_days_def gregorian_ymd_def Let_def add.assoc)
next
  fix y m d assume "valid_ymd (y, m, d)"
  show "days_of gregorian (y, m, d) = days_of gregorian (y, m, 1) + (d - 1)"
    by (simp add: gregorian_def gregorian_days_def)
next
  fix y m assume a: "valid_ymd (y, m, 1) \<and> m < 12"
  then have "m \<in> {1, 2, 3, 4, 5, 6, 7, 8, 9, 10, 11, 12}" "m \<noteq> 12" using months [of m] by (auto simp: valid_ymd_def)
  then have "days_before_month y (m + 1) = days_before_month y m + last_day y m"
    by (elim insertE emptyE) (simp_all add: dbm_values last_day_def)
  then show "days_of gregorian (y, m + 1, 1) = days_of gregorian (y, m, 1) + last_day y m"
    by (simp add: gregorian_def gregorian_days_def)
next
  fix y assume "valid_ymd (y, 1, 1) \<and> valid_ymd (y + 1, 1, 1)"
  show "days_of gregorian (y + 1, 1, 1) = days_of gregorian (y, 12, 1) + 31"
    by (simp add: gregorian_def gregorian_days_def dby_step dbm_values)
qed

section \<open>Months\<close>

lemma next_month:
  assumes "calendar_ok cal" "valid_ymd (y, m, 1)" "m = 12 \<Longrightarrow> y < 32767"
  shows "EndOfMonthUs cal y m = (days_of cal (y, m, 1) + last_day y m) * kDayUs"
proof (cases "m = 12")
  case True
  then have "valid_ymd (y, 1, 1)" "valid_ymd (y + 1, 1, 1)" using assms(2,3) by (auto simp: valid_ymd_def last_day_def)
  then have "days_of cal (y + 1, 1, 1) = days_of cal (y, 12, 1) + 31" using assms(1) unfolding calendar_ok_def by blast
  then show ?thesis using True by (simp add: EndOfMonthUs_def StartOfMonthUs_def last_day_def)
next
  case False
  then have "m < 12" using assms(2) by (simp add: valid_ymd_def)
  then have "days_of cal (y, m + 1, 1) = days_of cal (y, m, 1) + last_day y m" using assms(1,2) unfolding calendar_ok_def by blast
  then show ?thesis using False by (simp add: EndOfMonthUs_def StartOfMonthUs_def)
qed

lemma day_part: "us div kDayUs * kDayUs \<le> us" "us < (us div kDayUs + 1) * kDayUs"
proof -
  have "us div kDayUs * kDayUs + us mod kDayUs = us" by (rule div_mult_mod_eq)
  moreover have "0 \<le> us mod kDayUs" "us mod kDayUs < kDayUs" by (simp_all add: kDayUs_def)
  moreover have "(us div kDayUs + 1) * kDayUs = us div kDayUs * kDayUs + kDayUs" by (simp add: distrib_right)
  ultimately show "us div kDayUs * kDayUs \<le> us" "us < (us div kDayUs + 1) * kDayUs" by linarith+
qed

lemma ymd_month:
  assumes "calendar_ok cal" "in_years (us div kDayUs)" "utc_ymd cal us = (y, m, d)"
  shows "valid_ymd (y, m, d)" "valid_ymd (y, m, 1)" "days_of cal (y, m, 1) + (d - 1) = us div kDayUs"
proof -
  have v: "valid_ymd (y, m, d)" "days_of cal (y, m, d) = us div kDayUs"
    using assms unfolding calendar_ok_def utc_ymd_def by (metis, metis)
  then show "valid_ymd (y, m, d)" "valid_ymd (y, m, 1)" by (auto simp: valid_ymd_def last_day_def)
  show "days_of cal (y, m, 1) + (d - 1) = us div kDayUs"
    using assms(1) v unfolding calendar_ok_def by metis
qed

text \<open>
  C37. (bounds) The month a moment lies in. For every moment of the years the date library knows (but the
  last), the start of its month is not after it and the end of its month is after it, exactly the days of that
  month later; both are themselves starts of months, so months follow each other without a gap and
  without an overlap.
\<close>
theorem months_partition_time:
  assumes "calendar_ok cal" "in_years (us div kDayUs)" "utc_ymd cal us = (y, m, d)" "y < 32767"
  shows "StartOfContainingMonthUs cal us \<le> us \<and> us < EndOfContainingMonthUs cal us \<and>
    EndOfContainingMonthUs cal us = StartOfContainingMonthUs cal us + last_day y m * kDayUs \<and>
    StartOfContainingMonthUs cal (StartOfContainingMonthUs cal us) = StartOfContainingMonthUs cal us \<and>
    StartOfContainingMonthUs cal (EndOfContainingMonthUs cal us) = EndOfContainingMonthUs cal us"
proof -
  note v = ymd_month [OF assms(1-3)]
  have rt: "utc_ymd cal (days_of cal p * kDayUs) = p" if "valid_ymd p" for p
  proof -
    have "ymd_of cal (days_of cal p) = p" using assms(1) that unfolding calendar_ok_def by blast
    then show ?thesis by (simp add: utc_ymd_def kDayUs_def)
  qed
  have st: "StartOfContainingMonthUs cal us = days_of cal (y, m, 1) * kDayUs"
    by (simp add: StartOfContainingMonthUs_def StartOfMonthUs_def assms(3))
  have en: "EndOfContainingMonthUs cal us = (days_of cal (y, m, 1) + last_day y m) * kDayUs"
    using next_month [OF assms(1) v(2)] assms(4) by (simp add: EndOfContainingMonthUs_def assms(3))
  have d: "1 \<le> d" "d \<le> last_day y m" using v(1) by (simp_all add: valid_ymd_def)
  have "days_of cal (y, m, 1) * kDayUs \<le> us div kDayUs * kDayUs" using d v(3) by (simp add: kDayUs_def)
  then have le: "days_of cal (y, m, 1) * kDayUs \<le> us" using day_part(1) [of us] by linarith
  have "(us div kDayUs + 1) * kDayUs \<le> (days_of cal (y, m, 1) + last_day y m) * kDayUs" using d v(3) by (simp add: kDayUs_def)
  then have less: "us < (days_of cal (y, m, 1) + last_day y m) * kDayUs" using day_part(2) [of us] by linarith
  have again: "StartOfContainingMonthUs cal (days_of cal (y', m', 1) * kDayUs) = days_of cal (y', m', 1) * kDayUs" if "valid_ymd (y', m', 1)" for y' m'
    by (simp add: StartOfContainingMonthUs_def StartOfMonthUs_def rt [OF that])
  obtain y' m' where nx: "valid_ymd (y', m', 1)" "EndOfContainingMonthUs cal us = days_of cal (y', m', 1) * kDayUs"
  proof (cases "m = 12")
    case True
    have "valid_ymd (y + 1, 1, 1)" using v(2) assms(4) by (auto simp: valid_ymd_def last_day_def)
    then show ?thesis using that True by (simp add: EndOfContainingMonthUs_def EndOfMonthUs_def StartOfMonthUs_def assms(3))
  next
    case False
    have "valid_ymd (y, m + 1, 1)" using v(2) False by (auto simp: valid_ymd_def last_day_def)
    then show ?thesis using that False by (simp add: EndOfContainingMonthUs_def EndOfMonthUs_def StartOfMonthUs_def assms(3))
  qed
  show ?thesis using le less st en again [OF v(2)] again [OF nx(1)] nx(2) by (simp add: distrib_right)
qed

lemma months_partition_time_witness:
  "StartOfContainingMonthUs gregorian 1709208000000000 = 1706745600000000 \<and>
   EndOfContainingMonthUs gregorian 1709208000000000 = 1706745600000000 + 29 * kDayUs"
proof -
  have ymd: "utc_ymd gregorian 1709208000000000 = (2024, 2, 29)" unfolding gregorian_def utc_ymd_def kDayUs_def by code_simp
  have n: "in_years (1709208000000000 div kDayUs)" by (simp add: in_years_def kDayUs_def)
  have s: "StartOfContainingMonthUs gregorian 1709208000000000 = 1706745600000000"
    unfolding StartOfContainingMonthUs_def ymd by (simp add: StartOfMonthUs_def gregorian_def gregorian_days_def days_before_year_def days_before_month_def kDayUs_def)
  have l: "last_day 2024 2 = 29" by (simp add: last_day_def is_leap_def)
  show ?thesis using months_partition_time [OF gregorian_ok n ymd] s l by simp
qed

section \<open>Date tokens\<close>

text \<open>
  What the C library documents of \<open>mktime\<close>: a wall clock that exists on a date of the zone is resolved to a
  moment that the zone shows as that date. (Where clocks jump over midnight it does not.)
\<close>

definition keeps_date :: "zones \<Rightarrow> string \<Rightarrow> ctm \<Rightarrow> bool" where
  "keeps_date tz zone tm \<longleftrightarrow> (let t = localtime tz zone (mktime tz zone tm) in
     tm_year t = tm_year tm \<and> tm_mon t = tm_mon tm \<and> tm_mday t = tm_mday tm)"

definition wall_clock :: "int \<times> int \<times> int \<Rightarrow> int \<Rightarrow> ctm" where
  "wall_clock = (\<lambda>(year, month, day) minutes. \<lparr>tm_year = year - 1900, tm_mon = month - 1, tm_mday = day,
     tm_hour = minutes sdiv 60, tm_min = minutes smod 60, tm_sec = 0, tm_wday = 0, tm_isdst = -1\<rparr>)"

text \<open>
  (roundtrip) A date survives its wall clock. The moment of a wall clock on the date a token stands for
  lies, in the same zone, on that date: reading the token back gives the token, in every zone and for every
  minute of the day the zone's clock shows on that date.
\<close>
theorem date_token_round_trip:
  assumes "calendar_ok cal" "in_years n" "keeps_date tz (IanaToPosixTz zone) (wall_clock (ymd_of cal n) minutes)"
  shows "LocalDateTokenUs cal tz (CalendarDateWallClockToUs cal tz (n * kDayUs) minutes zone) zone = n * kDayUs"
proof -
  obtain y m d where ymd: "ymd_of cal n = (y, m, d)" by (metis prod_cases3)
  have u: "utc_ymd cal (n * kDayUs) = (y, m, d)" by (simp add: utc_ymd_def kDayUs_def ymd)
  have c: "CalendarDateWallClockToUs cal tz (n * kDayUs) minutes zone = mktime tz (IanaToPosixTz zone) (wall_clock (y, m, d) minutes) * 1000000"
    by (simp add: CalendarDateWallClockToUs_def u LocalTmToUs_def wall_clock_def)
  have s: "(k * 1000000) sdiv 1000000 = k" for k :: int by (simp add: signed_divide_int_def abs_mult sgn_mult mult_sgn_abs)
  have "days_of cal (y, m, d) = n" using assms(1,2) ymd unfolding calendar_ok_def by metis
  then show ?thesis using assms(3) unfolding c LocalDateTokenUs_def ToLocalTm_def s
    by (simp add: keeps_date_def Let_def ymd wall_clock_def)
qed

text \<open>A zone without summer time, eight hours behind UTC.\<close>

definition pacific_standard :: zones where
  "pacific_standard = \<lparr>
     localtime = (\<lambda>_ s. let l = s - 8 * 3600; k = l mod 86400 in case gregorian_ymd (l div 86400) of (y, m, d) \<Rightarrow>
       \<lparr>tm_year = y - 1900, tm_mon = m - 1, tm_mday = d, tm_hour = k div 3600, tm_min = k div 60 mod 60, tm_sec = k mod 60,
        tm_wday = (l div 86400 + 4) mod 7, tm_isdst = 0\<rparr>),
     mktime = (\<lambda>_ t. gregorian_days (tm_year t + 1900, tm_mon t + 1, tm_mday t) * 86400 + tm_hour t * 3600 + tm_min t * 60 + tm_sec t + 8 * 3600)\<rparr>"

lemma date_token_round_trip_witness:
  "LocalDateTokenUs gregorian pacific_standard
     (CalendarDateWallClockToUs gregorian pacific_standard (20000 * kDayUs) 1170 ''America/Los_Angeles'') ''America/Los_Angeles'' = 20000 * kDayUs"
proof (rule date_token_round_trip [OF gregorian_ok])
  show "in_years 20000" by (simp add: in_years_def)
  show "keeps_date pacific_standard (IanaToPosixTz ''America/Los_Angeles'') (wall_clock (ymd_of gregorian 20000) 1170)"
    unfolding keeps_date_def pacific_standard_def gregorian_def by code_simp
qed

section \<open>Two things the code does\<close>

text \<open>A field that begins with a digit passes: 3 March is read from \<open>3x\<close>.\<close>

theorem timestamp_with_letters:
  "StringToEpochMillis gregorian ''2024-03-3x 00:00:00Z'' = StringToEpochMillis gregorian ''2024-03-03 00:00:00Z''"
  "StringToEpochMillis gregorian ''2024-03-3x 00:00:00Z'' = Inr 1709424000000"
  unfolding gregorian_def by code_simp+

text \<open>Half a second before 1970 is 11:59 PM in UTC and midnight in the zone \<open>UTC\<close>.\<close>

definition utc_zone :: zones where
  "utc_zone = \<lparr>
     localtime = (\<lambda>_ s. case gregorian_ymd (s div 86400) of (y, m, d) \<Rightarrow>
       \<lparr>tm_year = y - 1900, tm_mon = m - 1, tm_mday = d, tm_hour = s mod 86400 div 3600, tm_min = s div 60 mod 60, tm_sec = s mod 60,
        tm_wday = (s div 86400 + 4) mod 7, tm_isdst = 0\<rparr>),
     mktime = (\<lambda>_ t. gregorian_days (tm_year t + 1900, tm_mon t + 1, tm_mday t) * 86400 + tm_hour t * 3600 + tm_min t * 60 + tm_sec t)\<rparr>"

theorem before_1970_two_times:
  "FormatTimeFromMicroseconds (-500000) = ''11:59 PM''"
  "FormatTimeIn utc_zone (-500000) ''UTC'' = ''12:00 AM''"
  unfolding utc_zone_def by code_simp+

end
