(* ===== verification/ICal.thy ===== *)
theory ICal
  imports Dates SqlText "HOL-Library.While_Combinator"
begin

text \<open>
  Calendar files (\<open>foundation/util/ical_generator.cpp\<close>): dates in the notation of iCalendar, escaping,
  the lines of events, their folding at 75 octets without cutting a UTF-8 sequence, identifiers and
  recurrence rules. The clock is the argument \<open>now\<close>, one reading per call that reads it; the counter of
  synthetic identifiers is part of the state that is passed along.
\<close>

definition crlf :: string where "crlf = [CHR 0x0D, CHR 0x0A]"

section \<open>Dates and text\<close>

definition FormatUtcDateTime :: "calendar \<Rightarrow> int \<Rightarrow> string" where
  "FormatUtcDateTime cal us =
     (case utc_ymd cal us of (year, month, day) \<Rightarrow> case utc_clock us of (hours, mins, secs) \<Rightarrow>
        pad_zero 4 (StringFromInt year) @ pad_zero 2 (StringFromInt month) @ pad_zero 2 (StringFromInt day) @ ''T'' @
        pad_zero 2 (StringFromInt hours) @ pad_zero 2 (StringFromInt mins) @ pad_zero 2 (StringFromInt secs) @ ''Z'')"

definition FormatFloatingDateTime :: "calendar \<Rightarrow> int \<Rightarrow> string" where
  "FormatFloatingDateTime cal us =
     (let utc = FormatUtcDateTime cal us in if utc \<noteq> [] \<and> last utc = CHR ''Z'' then butlast utc else utc)"

definition escape_char :: "char \<Rightarrow> string" where
  "escape_char c =
     (if c = CHR 0x5C then [CHR 0x5C, CHR 0x5C] else if c = CHR '','' then [CHR 0x5C, CHR '','']
      else if c = CHR '';'' then [CHR 0x5C, CHR '';''] else if c = CHR 0x0A then [CHR 0x5C, CHR ''n'']
      else if c = CHR 0x0D then [] else [c])"

definition EscapeICalText :: "string \<Rightarrow> string" where
  "EscapeICalText text = concat (map escape_char text)"

section \<open>Folding\<close>

definition is_continuation :: "char \<Rightarrow> bool" where
  "is_continuation c \<longleftrightarrow> (of_char c :: nat) div 64 = 2"

text \<open>The octets the next segment takes: back off to the start of a sequence, unless nothing would be left.\<close>

fun back_off :: "string \<Rightarrow> nat \<Rightarrow> nat" where
  "back_off line 0 = 0"
| "back_off line (Suc n) = (if is_continuation (line ! Suc n) then back_off line n else Suc n)"

definition segment_length :: "nat \<Rightarrow> string \<Rightarrow> nat" where
  "segment_length budget line =
     (let n = min budget (length line) in
      if n < length line then (let k = back_off line n in if k = 0 then n else k) else n)"

lemma back_off_le: "back_off line n \<le> n"
  by (induction n) (auto intro: le_SucI)

lemma segment_length_pos: "line \<noteq> [] \<Longrightarrow> 0 < budget \<Longrightarrow> 0 < segment_length budget line"
  by (auto simp: segment_length_def Let_def)

lemma segment_length_le: "segment_length budget line \<le> budget" "segment_length budget line \<le> length line"
  using back_off_le [of line "min budget (length line)"] by (auto simp: segment_length_def Let_def)

function fold_rest :: "string \<Rightarrow> string list" where
  "fold_rest line = (if line = [] then [] else
     take (segment_length 74 line) line # fold_rest (drop (segment_length 74 line) line))"
  by pat_completeness auto
termination
  by (relation "measure length") (auto simp: segment_length_pos)

declare fold_rest.simps [simp del]

definition fold_segments :: "string \<Rightarrow> string list" where
  "fold_segments line = take (segment_length 75 line) line # fold_rest (drop (segment_length 75 line) line)"

definition FoldLine :: "string \<Rightarrow> string" where
  "FoldLine line = (if length line \<le> 75 then line else join (crlf @ '' '') (fold_segments line))"

text \<open>
  The loop as it is written: the position, the text so far and whether the segment is the first; each
  turn takes at most 75 octets, 74 after the space of a continuation line.
\<close>

definition fold_cond :: "string \<Rightarrow> nat \<times> string \<times> bool \<Rightarrow> bool" where
  "fold_cond line = (\<lambda>(pos, result, firstSegment). pos < length line)"

definition fold_body :: "string \<Rightarrow> nat \<times> string \<times> bool \<Rightarrow> nat \<times> string \<times> bool" where
  "fold_body line = (\<lambda>(pos, result, firstSegment).
     let budget = (if firstSegment then 75 else 74); n = segment_length budget (drop pos line) in
     (pos + n, result @ (if firstSegment then [] else crlf @ '' '') @ take n (drop pos line), False))"

section \<open>Events\<close>

record ICalConfig =
  ic_prodId :: string
  ic_uidDomain :: string
  ic_calendarName :: string
  ic_refreshInterval :: string

record ICalEvent =
  ie_title :: string
  ie_startTimeUs :: int
  ie_endTimeUs :: int
  ie_timezone :: string
  ie_location :: string
  ie_description :: string
  ie_uid :: string
  ie_status :: string
  ie_rrule :: string
  ie_organizerEmail :: string
  ie_organizerName :: string
  ie_attendeeEmail :: string
  ie_attendeeName :: string
  ie_sequence :: string
  ie_floatingLocal :: bool

text \<open>The readings of the clock so far and the counter.\<close>

record ical_state =
  is_reads :: nat
  is_counter :: "64 word"

definition now_us_read :: "(nat \<Rightarrow> int) \<Rightarrow> ical_state \<Rightarrow> int \<times> ical_state" where
  "now_us_read now s = (now (is_reads s), s\<lparr>is_reads := Suc (is_reads s)\<rparr>)"

definition SyntheticUid :: "(nat \<Rightarrow> int) \<Rightarrow> string \<Rightarrow> ical_state \<Rightarrow> string \<times> ical_state" where
  "SyntheticUid now uidDomain s =
     (case now_us_read now s of (us, s') \<Rightarrow>
       (''synthetic-'' @ StringFromInt us @ ''-'' @ StringFromInt (uint (is_counter s')) @ ''@'' @ uidDomain,
        s'\<lparr>is_counter := is_counter s' + 1\<rparr>))"

definition ResolveUid :: "(nat \<Rightarrow> int) \<Rightarrow> string \<Rightarrow> string \<Rightarrow> ical_state \<Rightarrow> string \<times> ical_state" where
  "ResolveUid now uid uidDomain s = (if uid \<noteq> [] then (uid, s) else SyntheticUid now uidDomain s)"

definition ical_line :: "string \<Rightarrow> string \<Rightarrow> string" where
  "ical_line prefix v = prefix @ v @ crlf"

definition optional_line :: "string \<Rightarrow> string \<Rightarrow> string" where
  "optional_line prefix v = (if v = [] then [] else ical_line prefix v)"

definition EmitVEvent :: "calendar \<Rightarrow> (nat \<Rightarrow> int) \<Rightarrow> ICalEvent \<Rightarrow> string \<Rightarrow> ical_state \<Rightarrow> string \<times> ical_state" where
  "EmitVEvent cal now e uidDomain s =
     (case ResolveUid now (ie_uid e) uidDomain s of (uid, s1) \<Rightarrow>
      case now_us_read now s1 of (stamp, s2) \<Rightarrow>
      let time = (if ie_floatingLocal e then FormatFloatingDateTime cal else FormatUtcDateTime cal)
      in (ical_line ''BEGIN:VEVENT'' [] @ ical_line ''UID:'' uid @ ical_line ''DTSTAMP:'' (FormatUtcDateTime cal stamp) @
          ical_line ''SEQUENCE:'' (if ie_sequence e = [] then ''0'' else ie_sequence e) @
          optional_line ''STATUS:'' (ie_status e) @
          ical_line ''DTSTART:'' (time (ie_startTimeUs e)) @ ical_line ''DTEND:'' (time (ie_endTimeUs e)) @
          ical_line ''SUMMARY:'' (EscapeICalText (ie_title e)) @
          (if ie_location e = [] then [] else ical_line ''LOCATION:'' (EscapeICalText (ie_location e))) @
          (if ie_description e = [] then [] else ical_line ''DESCRIPTION:'' (EscapeICalText (ie_description e))) @
          optional_line ''RRULE:'' (ie_rrule e) @
          (if ie_organizerEmail e = [] then []
           else ical_line ''ORGANIZER;CN='' (EscapeICalText (ie_organizerName e) @ '':mailto:'' @ ie_organizerEmail e)) @
          (if ie_attendeeEmail e = [] then []
           else ical_line ''ATTENDEE;CN='' (EscapeICalText (ie_attendeeName e) @ '';RSVP=FALSE:mailto:'' @ ie_attendeeEmail e)) @
          ical_line ''END:VEVENT'' [], s2))"

fun emit_events :: "calendar \<Rightarrow> (nat \<Rightarrow> int) \<Rightarrow> ICalEvent list \<Rightarrow> string \<Rightarrow> ical_state \<Rightarrow> string \<times> ical_state" where
  "emit_events cal now [] uidDomain s = ([], s)"
| "emit_events cal now (e # es) uidDomain s =
     (case EmitVEvent cal now e uidDomain s of (text, s1) \<Rightarrow>
      case emit_events cal now es uidDomain s1 of (rest, s2) \<Rightarrow> (text @ rest, s2))"

text \<open>The text between two CR LF, the last line without the one that ends the text.\<close>

fun crlf_lines :: "string \<Rightarrow> string \<Rightarrow> string list" where
  "crlf_lines acc [] = (if acc = [] then [] else [rev acc])"
| "crlf_lines acc [c] = [rev (c # acc)]"
| "crlf_lines acc (c # d # cs) =
     (if c = CHR 0x0D \<and> d = CHR 0x0A then rev acc # crlf_lines [] cs else crlf_lines (c # acc) (d # cs))"

definition fold_document :: "string \<Rightarrow> string" where
  "fold_document raw = concat (map (\<lambda>l. FoldLine l @ crlf) (crlf_lines [] raw))"

definition calendar_text :: "calendar \<Rightarrow> (nat \<Rightarrow> int) \<Rightarrow> ICalEvent list \<Rightarrow> ICalConfig \<Rightarrow> ical_state \<Rightarrow> string \<times> ical_state" where
  "calendar_text cal now events config s =
     (case emit_events cal now events (ic_uidDomain config) s of (body, s') \<Rightarrow>
       (ical_line ''BEGIN:VCALENDAR'' [] @ ical_line ''VERSION:2.0'' [] @ ical_line ''PRODID:'' (ic_prodId config) @
        ical_line ''CALSCALE:GREGORIAN'' [] @ ical_line ''METHOD:PUBLISH'' [] @
        (if ic_calendarName config = [] then [] else ical_line ''X-WR-CALNAME:'' (EscapeICalText (ic_calendarName config))) @
        (if ic_refreshInterval config = [] then []
         else ical_line ''REFRESH-INTERVAL;VALUE=DURATION:'' (ic_refreshInterval config) @
              ical_line ''X-PUBLISHED-TTL:'' (ic_refreshInterval config)) @
        body @ ical_line ''END:VCALENDAR'' [], s'))"

definition GenerateICalendar :: "calendar \<Rightarrow> (nat \<Rightarrow> int) \<Rightarrow> ICalEvent list \<Rightarrow> ICalConfig \<Rightarrow> ical_state \<Rightarrow> string \<times> ical_state" where
  "GenerateICalendar cal now events config s =
     (case calendar_text cal now events config s of (raw, s') \<Rightarrow> (fold_document raw, s'))"

section \<open>Identifiers and recurrence\<close>

definition BuildBookingUid :: "int \<Rightarrow> string \<Rightarrow> string" where
  "BuildBookingUid bookingId uidDomain = ''booking-'' @ StringFromInt bookingId @ ''@'' @ uidDomain"

definition BuildSessionUid :: "int \<Rightarrow> string \<Rightarrow> string" where
  "BuildSessionUid sessionId uidDomain = ''session-'' @ StringFromInt sessionId @ ''@'' @ uidDomain"

definition BuildTemplateUid :: "int \<Rightarrow> int \<Rightarrow> string \<Rightarrow> string" where
  "BuildTemplateUid scheduleId pid uidDomain =
     ''schedule-'' @ StringFromInt scheduleId @ ''-person-'' @ StringFromInt pid @ ''@'' @ uidDomain"

definition BuildTemplateOccurrenceUid :: "int \<Rightarrow> int \<Rightarrow> int \<Rightarrow> string \<Rightarrow> string" where
  "BuildTemplateOccurrenceUid slotId pid occurrenceDateUs uidDomain =
     ''slot-'' @ StringFromInt slotId @ ''-person-'' @ StringFromInt pid @ ''-occ-'' @ StringFromInt occurrenceDateUs @ ''@'' @ uidDomain"

definition JoinByDay :: "int list \<Rightarrow> string" where
  "JoinByDay days = join '','' (map (\<lambda>d. [''SU'', ''MO'', ''TU'', ''WE'', ''TH'', ''FR'', ''SA''] ! nat d) (filter (\<lambda>d. 0 \<le> d \<and> d \<le> 6) days))"

definition UntilClause :: "calendar \<Rightarrow> int \<Rightarrow> string" where
  "UntilClause cal untilUs = (if untilUs \<le> 0 then [] else '';UNTIL='' @ FormatUtcDateTime cal untilUs)"

definition BuildWeeklyRRule :: "calendar \<Rightarrow> int list \<Rightarrow> int \<Rightarrow> string" where
  "BuildWeeklyRRule cal days untilUs = ''FREQ=WEEKLY;BYDAY='' @ JoinByDay days @ UntilClause cal untilUs"

definition BuildBiweeklyRRule :: "calendar \<Rightarrow> int list \<Rightarrow> int \<Rightarrow> string" where
  "BuildBiweeklyRRule cal days untilUs = ''FREQ=WEEKLY;INTERVAL=2;BYDAY='' @ JoinByDay days @ UntilClause cal untilUs"

definition BuildCustomRRule :: "calendar \<Rightarrow> int \<Rightarrow> int \<Rightarrow> string" where
  "BuildCustomRRule cal intervalDays untilUs =
     ''FREQ=DAILY;INTERVAL='' @ StringFromInt intervalDays @ UntilClause cal untilUs"

section \<open>Folding is undone by unfolding\<close>

text \<open>What a reader does first: a line break that a space follows is taken away.\<close>

fun unfold_text :: "string \<Rightarrow> string" where
  "unfold_text (a # b # c # cs) =
     (if a = CHR 0x0D \<and> b = CHR 0x0A \<and> c = CHR '' '' then unfold_text cs else a # unfold_text (b # c # cs))"
| "unfold_text cs = cs"

fun no_crlf :: "string \<Rightarrow> bool" where
  "no_crlf [] \<longleftrightarrow> True"
| "no_crlf [a] \<longleftrightarrow> True"
| "no_crlf (a # b # cs) \<longleftrightarrow> \<not> (a = CHR 0x0D \<and> b = CHR 0x0A) \<and> no_crlf (b # cs)"

lemma no_crlf_if_no_cr: "CHR 0x0D \<notin> set l \<Longrightarrow> no_crlf l"
  by (induction l rule: no_crlf.induct) auto

lemma no_crlf_Cons: "no_crlf (a # l) \<Longrightarrow> no_crlf l"
  by (cases l) auto

lemma no_crlf_append: "no_crlf (l @ r) \<Longrightarrow> no_crlf l \<and> no_crlf r"
proof (induction l rule: no_crlf.induct)
  case (3 a b cs)
  then show ?case by simp
next
  case (2 v)
  then show ?case using no_crlf_Cons by simp
qed simp

lemma unfold_text_Cons:
  "\<not> (a = CHR 0x0D \<and> (\<exists>cs. x = CHR 0x0A # CHR '' '' # cs)) \<Longrightarrow> unfold_text (a # x) = a # unfold_text x"
  by (cases x rule: unfold_text.cases) auto

lemma unfold_text_segment:
  "no_crlf l \<Longrightarrow> r = [] \<or> hd r = CHR 0x0D \<Longrightarrow> unfold_text (l @ r) = l @ unfold_text r"
proof (induction l rule: no_crlf.induct)
  case (3 a b cs)
  have "unfold_text (a # b # cs @ r) = a # unfold_text (b # cs @ r)"
    by (rule unfold_text_Cons) (use 3 in auto)
  then show ?case using 3 by simp
next
  case (2 v)
  then show ?case by (auto intro!: unfold_text_Cons)
qed simp

lemma unfold_text_break: "unfold_text (crlf @ '' '' @ r) = unfold_text r"
  by (simp add: crlf_def)

lemma unfold_text_join:
  "\<forall>l \<in> set ss. no_crlf l \<Longrightarrow> unfold_text (join (crlf @ '' '') ss @ r) = concat ss @ unfold_text r"
  if "r = [] \<or> hd r = CHR 0x0D"
proof (induction "crlf @ '' ''" ss rule: join.induct)
  case 1
  then show ?case by simp
next
  case (2 s)
  then show ?case using that by (simp add: unfold_text_segment)
next
  case (3 s t ts)
  have "unfold_text (s @ (crlf @ '' '') @ (join (crlf @ '' '') (t # ts) @ r)) = s @ unfold_text ((crlf @ '' '') @ (join (crlf @ '' '') (t # ts) @ r))"
    using 3 by (intro unfold_text_segment) (simp_all add: crlf_def)
  also have "unfold_text ((crlf @ '' '') @ (join (crlf @ '' '') (t # ts) @ r)) = unfold_text (join (crlf @ '' '') (t # ts) @ r)"
    using unfold_text_break by simp
  finally show ?case using 3 by simp
qed

lemma concat_fold_rest: "concat (fold_rest line) = line"
  by (induction line rule: fold_rest.induct) (subst fold_rest.simps, simp)

lemma concat_fold_segments: "concat (fold_segments line) = line"
  by (simp add: fold_segments_def concat_fold_rest)

lemma segments_no_crlf: "no_crlf (concat ss) \<Longrightarrow> \<forall>l \<in> set ss. no_crlf l"
  by (induction ss) (auto dest: no_crlf_append)

lemma unfold_FoldLine:
  "no_crlf line \<Longrightarrow> r = [] \<or> hd r = CHR 0x0D \<Longrightarrow> unfold_text (FoldLine line @ r) = line @ unfold_text r"
  using unfold_text_join [OF _ segments_no_crlf, of r "fold_segments line"]
  by (simp add: FoldLine_def unfold_text_segment concat_fold_segments)

section \<open>Lines\<close>

lemma crlf_lines_segment:
  "no_crlf l \<Longrightarrow> crlf_lines acc (l @ crlf @ r) = (rev acc @ l) # crlf_lines [] r"
proof (induction l arbitrary: acc rule: no_crlf.induct)
  case (3 a b cs)
  then show ?case by (cases "cs @ crlf @ r") simp_all
qed (simp_all add: crlf_def)

definition lined :: "string \<Rightarrow> bool" where
  "lined t \<longleftrightarrow> (\<exists>ls. t = concat (map (\<lambda>l. l @ crlf) ls) \<and> (\<forall>l \<in> set ls. no_crlf l \<and> l \<noteq> [] \<and> hd l \<noteq> CHR '' ''))"

lemma lined_Nil [simp]: "lined []"
  unfolding lined_def by (rule exI [of _ "[]"]) simp

lemma lined_append [simp]:
  assumes "lined a" "lined b"
  shows "lined (a @ b)"
proof -
  obtain as bs where "a = concat (map (\<lambda>l. l @ crlf) as)" "b = concat (map (\<lambda>l. l @ crlf) bs)"
    "\<forall>l \<in> set as \<union> set bs. no_crlf l \<and> l \<noteq> [] \<and> hd l \<noteq> CHR '' ''"
    using assms unfolding lined_def by blast
  then show ?thesis unfolding lined_def by (intro exI [of _ "as @ bs"]) simp
qed

lemma lined_line:
  "p \<noteq> [] \<Longrightarrow> hd p \<noteq> CHR '' '' \<Longrightarrow> CHR 0x0D \<notin> set p \<Longrightarrow> CHR 0x0D \<notin> set v \<Longrightarrow> lined (ical_line p v)"
  unfolding lined_def by (rule exI [of _ "[p @ v]"]) (simp add: ical_line_def no_crlf_if_no_cr)

lemma crlf_lines_lined:
  "\<forall>l \<in> set ls. no_crlf l \<Longrightarrow> crlf_lines [] (concat (map (\<lambda>l. l @ crlf) ls)) = ls"
  by (induction ls) (simp_all add: crlf_lines_segment)

lemma unfold_folded_lines:
  assumes "\<forall>l \<in> set ls. no_crlf l \<and> l \<noteq> [] \<and> hd l \<noteq> CHR '' ''"
  shows "unfold_text (concat (map (\<lambda>l. FoldLine l @ crlf) ls)) = concat (map (\<lambda>l. l @ crlf) ls)"
  using assms
proof (induction ls)
  case (Cons l ls)
  let ?rest = "concat (map (\<lambda>l. FoldLine l @ crlf) ls)"
  have FL: "hd (FoldLine k) = hd k" if "k \<noteq> []" for k
  proof (cases "length k \<le> 75")
    case False
    obtain more where "FoldLine k = take (segment_length 75 k) k @ more"
      using False by (cases "fold_rest (drop (segment_length 75 k) k)") (simp_all add: FoldLine_def fold_segments_def)
    then show ?thesis using that segment_length_pos [of k 75] by (simp add: hd_append hd_take)
  qed (simp add: FoldLine_def)
  have start: "?rest = [] \<or> hd ?rest \<noteq> CHR '' ''"
  proof (cases ls)
    case (Cons k ks)
    then have "k \<noteq> []" "hd k \<noteq> CHR '' ''" using Cons.prems by simp_all
    then show ?thesis using FL [of k] Cons by (cases "FoldLine k") (auto simp: crlf_def)
  qed simp
  have "unfold_text (FoldLine l @ (crlf @ ?rest)) = l @ unfold_text (crlf @ ?rest)"
    using Cons.prems by (intro unfold_FoldLine) (simp_all add: crlf_def)
  also have "unfold_text (crlf @ ?rest) = crlf @ unfold_text ?rest"
    using start by (cases ls; cases ?rest) (auto simp: crlf_def unfold_text_Cons)
  finally show ?case using Cons by simp
qed simp

lemma unfold_fold_document: "lined raw \<Longrightarrow> unfold_text (fold_document raw) = raw"
  unfolding lined_def fold_document_def by (elim exE) (simp add: crlf_lines_lined unfold_folded_lines)

section \<open>Escaped text\<close>

fun unescape_text :: "string \<Rightarrow> string" where
  "unescape_text (a # b # cs) =
     (if a = CHR 0x5C then (if b = CHR ''n'' then CHR 0x0A else b) # unescape_text cs else a # unescape_text (b # cs))"
| "unescape_text cs = cs"

lemma unescape_text_Cons: "a \<noteq> CHR 0x5C \<Longrightarrow> unescape_text (a # x) = a # unescape_text x"
  by (cases x) simp_all

lemma unescape_EscapeICalText: "unescape_text (EscapeICalText t) = filter (\<lambda>c. c \<noteq> CHR 0x0D) t"
proof (induction t)
  case (Cons c t)
  then show ?case
    by (simp add: EscapeICalText_def escape_char_def unescape_text_Cons del: unescape_text.simps)
       (simp add: EscapeICalText_def)
qed (simp add: EscapeICalText_def)

lemma EscapeICalText_chars: "CHR 0x0D \<notin> set (EscapeICalText t)" "CHR 0x0A \<notin> set (EscapeICalText t)"
  by (auto simp: EscapeICalText_def escape_char_def split: if_splits)

section \<open>A whole calendar\<close>

lemma no_cr_digits: "CHR 0x0D \<notin> set (StringFromInt n)"
proof -
  have "CHR 0x0D \<notin> set (show_nat k)" for k using show_nat_digits [of k] by (auto simp: is_digit_def)
  then show ?thesis by (simp add: StringFromInt_def)
qed

definition plain_event :: "ICalEvent \<Rightarrow> bool" where
  "plain_event e \<longleftrightarrow> (\<forall>v \<in> {ie_uid e, ie_sequence e, ie_status e, ie_rrule e, ie_organizerEmail e, ie_attendeeEmail e}. CHR 0x0D \<notin> set v)"

definition plain_config :: "ICalConfig \<Rightarrow> bool" where
  "plain_config c \<longleftrightarrow> (\<forall>v \<in> {ic_prodId c, ic_uidDomain c, ic_refreshInterval c}. CHR 0x0D \<notin> set v)"

lemma no_cr_pad: "CHR 0x0D \<notin> set (pad_zero w s) \<longleftrightarrow> CHR 0x0D \<notin> set s"
  by (auto simp: pad_zero_def)

lemma no_cr_dates: "CHR 0x0D \<notin> set (FormatUtcDateTime cal us)" "CHR 0x0D \<notin> set (FormatFloatingDateTime cal us)"
proof -
  show utc: "CHR 0x0D \<notin> set (FormatUtcDateTime cal us)"
    by (simp add: FormatUtcDateTime_def no_cr_pad no_cr_digits split: prod.split)
  show "CHR 0x0D \<notin> set (FormatFloatingDateTime cal us)"
    using utc by (auto simp: FormatFloatingDateTime_def Let_def dest: in_set_butlastD)
qed

lemma no_cr_uid:
  "ResolveUid now uid ud s = (u, s') \<Longrightarrow> CHR 0x0D \<notin> set uid \<Longrightarrow> CHR 0x0D \<notin> set ud \<Longrightarrow> CHR 0x0D \<notin> set u"
  by (auto simp: ResolveUid_def SyntheticUid_def now_us_read_def no_cr_digits split: if_splits)

lemma lined_if: "(\<not> b \<Longrightarrow> lined t) \<Longrightarrow> lined (if b then [] else t)"
  by simp

lemma no_cr_if: "CHR 0x0D \<notin> set a \<Longrightarrow> CHR 0x0D \<notin> set b \<Longrightarrow> CHR 0x0D \<notin> set (if P then a else b)"
  by simp

lemma no_cr_append: "CHR 0x0D \<notin> set a \<Longrightarrow> CHR 0x0D \<notin> set b \<Longrightarrow> CHR 0x0D \<notin> set (a @ b)"
  by simp

lemmas ical_lines = lined_line no_cr_dates no_cr_digits EscapeICalText_chars

lemma lined_event:
  assumes "plain_event e" "CHR 0x0D \<notin> set ud" "EmitVEvent cal now e ud s = (t, s')"
  shows "lined t"
proof -
  obtain u s1 where u: "ResolveUid now (ie_uid e) ud s = (u, s1)" by (cases "ResolveUid now (ie_uid e) ud s")
  have "CHR 0x0D \<notin> set u" using no_cr_uid [OF u _ assms(2)] assms(1) by (simp add: plain_event_def)
  moreover have "CHR 0x0D \<notin> set ((if ie_floatingLocal e then FormatFloatingDateTime cal else FormatUtcDateTime cal) us)" for us
    using no_cr_dates by (cases "ie_floatingLocal e") simp_all
  moreover have "t = fst (EmitVEvent cal now e ud s)" using assms(3) by simp
  ultimately show ?thesis using assms(1)
    unfolding EmitVEvent_def u now_us_read_def Let_def optional_line_def plain_event_def
    by (simp only: prod.case fst_conv) (intro lined_append lined_if lined_line no_cr_if no_cr_append no_cr_dates EscapeICalText_chars; simp)
qed

lemma lined_events:
  "\<forall>e \<in> set es. plain_event e \<Longrightarrow> CHR 0x0D \<notin> set ud \<Longrightarrow> emit_events cal now es ud s = (t, s') \<Longrightarrow> lined t"
proof (induction es arbitrary: s t)
  case (Cons e es)
  then show ?case by (auto split: prod.splits intro!: lined_append dest: lined_event [rotated 2])
qed simp

lemma lined_calendar:
  assumes "\<forall>e \<in> set es. plain_event e" "plain_config c"
  shows "lined (fst (calendar_text cal now es c s))"
proof -
  obtain body s' where b: "emit_events cal now es (ic_uidDomain c) s = (body, s')" by (cases "emit_events cal now es (ic_uidDomain c) s")
  have "lined body" using lined_events [OF assms(1) _ b] assms(2) by (simp add: plain_config_def)
  then show ?thesis using assms(2)
    by (auto simp: calendar_text_def b plain_config_def ical_lines intro!: lined_append lined_line)
qed

text \<open>
  C19. (roundtrip) What a calendar program reads of a generated file is what was put in: unfolding the
  document gives back the unfolded lines, and unescaping a text field gives back the field (but for its
  carriage returns). The fields that are written without being escaped must hold no carriage return.
\<close>
theorem ical_document_reads_back:
  assumes "\<forall>e \<in> set es. plain_event e" "plain_config c"
  shows "unfold_text (fst (GenerateICalendar cal now es c s)) = fst (calendar_text cal now es c s) \<and>
    unescape_text (EscapeICalText t) = filter (\<lambda>ch. ch \<noteq> CHR 0x0D) t"
proof -
  obtain raw s' where r: "calendar_text cal now es c s = (raw, s')" by (cases "calendar_text cal now es c s")
  then have "lined raw" using lined_calendar [OF assms, of cal now s] by simp
  then show ?thesis by (simp add: GenerateICalendar_def r unfold_fold_document unescape_EscapeICalText)
qed


text \<open>An event whose description must be escaped and folded.\<close>

definition evening_class :: ICalEvent where
  "evening_class = \<lparr>ie_title = ''Yoga, evening'', ie_startTimeUs = 1709424000000000, ie_endTimeUs = 1709427600000000,
     ie_timezone = [], ie_location = ''Hall; left door'', ie_description = replicate 80 (CHR ''x''), ie_uid = [], ie_status = ''CONFIRMED'',
     ie_rrule = BuildWeeklyRRule gregorian [0, 2] 0, ie_organizerEmail = ''a@b.c'', ie_organizerName = ''A'',
     ie_attendeeEmail = [], ie_attendeeName = [], ie_sequence = ''0'', ie_floatingLocal = False\<rparr>"

definition studio_config :: ICalConfig where
  "studio_config = \<lparr>ic_prodId = ''-//X//EN'', ic_uidDomain = ''x.y'', ic_calendarName = [], ic_refreshInterval = ''PT1H''\<rparr>"

lemma ical_document_reads_back_witness:
  "unfold_text (fst (GenerateICalendar gregorian (\<lambda>_. 0) [evening_class] studio_config \<lparr>is_reads = 0, is_counter = 0\<rparr>)) =
     fst (calendar_text gregorian (\<lambda>_. 0) [evening_class] studio_config \<lparr>is_reads = 0, is_counter = 0\<rparr>)"
proof -
  have p: "\<forall>e \<in> set [evening_class]. plain_event e" "plain_config studio_config"
    by (simp_all add: plain_event_def plain_config_def evening_class_def studio_config_def
        BuildWeeklyRRule_def JoinByDay_def UntilClause_def)
  show ?thesis using ical_document_reads_back [OF p] by blast
qed

section \<open>What the code does with some inputs\<close>

text \<open>Days are not de-duplicated, and a recurrence rule or an address may bring its own lines.\<close>

theorem days_repeat: "JoinByDay [1, 1] = ''MO,MO''"
  by (simp add: JoinByDay_def)

theorem rrule_brings_lines:
  "''ATTACH:http://evil'' \<in> set (crlf_lines [] (fst (EmitVEvent gregorian (\<lambda>_. 0)
     (evening_class\<lparr>ie_rrule := ''FREQ=DAILY'' @ crlf @ ''ATTACH:http://evil''\<rparr>) ''x.y'' \<lparr>is_reads = 0, is_counter = 0\<rparr>)))"
  unfolding gregorian_def evening_class_def by code_simp

section \<open>No line is longer than 75 octets\<close>

definition physical :: "string \<Rightarrow> string list" where
  "physical l = (if length l \<le> 75 then [l] else (case fold_segments l of s # ss \<Rightarrow> s # map (Cons (CHR '' '')) ss))"

lemma no_crlf_snoc: "no_crlf (l @ [c]) \<longleftrightarrow> no_crlf l \<and> (l = [] \<or> \<not> (last l = CHR 0x0D \<and> c = CHR 0x0A))"
  by (induction l rule: no_crlf.induct) auto

lemma crlf_lines_no_crlf:
  "no_crlf (rev acc) \<Longrightarrow> acc = [] \<or> t = [] \<or> \<not> (hd acc = CHR 0x0D \<and> hd t = CHR 0x0A) \<Longrightarrow>
   \<forall>l \<in> set (crlf_lines acc t). no_crlf l"
  by (induction acc t rule: crlf_lines.induct) (auto simp: no_crlf_snoc last_rev)

lemma join_lines: "join (crlf @ '' '') (s # ss) @ crlf = concat (map (\<lambda>l. l @ crlf) (s # map (Cons (CHR '' '')) ss))"
  by (induction ss arbitrary: s) simp_all

lemma FoldLine_physical: "FoldLine l @ crlf = concat (map (\<lambda>l. l @ crlf) (physical l))"
proof (cases "length l \<le> 75")
  case False
  obtain s ss where s: "fold_segments l = s # ss" by (simp add: fold_segments_def)
  show ?thesis using False join_lines [of s ss] by (simp add: FoldLine_def physical_def s)
qed (simp add: FoldLine_def physical_def)

lemma fold_rest_bound: "\<forall>s \<in> set (fold_rest line). length s \<le> 74"
proof (induction line rule: fold_rest.induct)
  case (1 line)
  then show ?case
    using segment_length_le [of 74 line] by (subst fold_rest.simps) (cases "line = []"; simp)
qed

lemma physical_bound: "\<forall>s \<in> set (physical l). length s \<le> 75"
  using segment_length_le [of 75 l] fold_rest_bound [of "drop (segment_length 75 l) l"]
  by (auto simp: physical_def fold_segments_def)

lemma physical_no_crlf: "no_crlf l \<Longrightarrow> \<forall>s \<in> set (physical l). no_crlf s"
proof -
  assume l: "no_crlf l"
  have "no_crlf (CHR '' '' # s)" if "no_crlf s" for s using that by (cases s) simp_all
  moreover have "\<forall>s \<in> set (fold_segments l). no_crlf s"
    using l by (intro segments_no_crlf) (simp add: concat_fold_segments)
  ultimately show ?thesis using l by (auto simp: physical_def fold_segments_def)
qed

lemma concat_map_concat: "concat (map f (concat (map g xs))) = concat (map (\<lambda>x. concat (map f (g x))) xs)"
  by (induction xs) simp_all

lemma fold_document_lines: "crlf_lines [] (fold_document raw) = concat (map physical (crlf_lines [] raw))"
proof -
  have "fold_document raw = concat (map (\<lambda>l. l @ crlf) (concat (map physical (crlf_lines [] raw))))"
    by (simp add: fold_document_def FoldLine_physical concat_map_concat)
  moreover have "\<forall>s \<in> set (concat (map physical (crlf_lines [] raw))). no_crlf s"
    using crlf_lines_no_crlf [of "[]" raw] physical_no_crlf by auto
  ultimately show ?thesis using crlf_lines_lined by simp
qed

text \<open>
  (bounds) No line of a generated calendar is longer than the 75 octets the standard allows, whatever
  the events, their texts and the configuration.
\<close>
theorem ical_lines_short:
  "list_all (\<lambda>l. length l \<le> 75) (crlf_lines [] (fst (GenerateICalendar cal now es c s)))"
  by (auto simp: list_all_iff GenerateICalendar_def fold_document_lines physical_bound split: prod.split)

section \<open>No character is cut\<close>

text \<open>A text is a sequence of well-formed sequences of UTF-8: a first octet and one to three that continue it.\<close>

definition continuations :: "char \<Rightarrow> nat option" where
  "continuations c = (let n = (of_char c :: nat) in
     if n < 128 then Some 0 else if n < 194 then None else if n < 224 then Some 1
     else if n < 240 then Some 2 else if n < 245 then Some 3 else None)"

fun utf8_from :: "nat \<Rightarrow> string \<Rightarrow> bool" where
  "utf8_from k [] \<longleftrightarrow> k = 0"
| "utf8_from (Suc k) (c # cs) \<longleftrightarrow> is_continuation c \<and> utf8_from k cs"
| "utf8_from 0 (c # cs) \<longleftrightarrow> (case continuations c of None \<Rightarrow> False | Some k \<Rightarrow> utf8_from k cs)"

abbreviation utf8 :: "string \<Rightarrow> bool" where "utf8 \<equiv> utf8_from 0"

lemma continuations_not: "continuations c = Some k \<Longrightarrow> \<not> is_continuation c \<and> k \<le> 3"
  by (auto simp: continuations_def is_continuation_def Let_def split: if_splits)

lemma utf8_start: "utf8 (c # cs) \<Longrightarrow> \<not> is_continuation c"
  by (auto dest: continuations_not split: option.splits)

lemma utf8_split:
  "utf8_from k line \<Longrightarrow> n \<le> length line \<Longrightarrow> n = length line \<or> \<not> is_continuation (line ! n) \<Longrightarrow>
   utf8_from k (take n line) \<and> utf8 (drop n line)"
proof (induction k line arbitrary: n rule: utf8_from.induct)
  case (2 k c cs)
  then show ?case by (cases n) auto
next
  case (3 c cs)
  show ?case
  proof (cases n)
    case 0
    then show ?thesis using 3 by simp
  next
    case (Suc m)
    obtain k where "continuations c = Some k" using 3(2) by (auto split: option.splits)
    then show ?thesis using 3 Suc by simp
  qed
qed simp

lemma utf8_next_start:
  "utf8_from k line \<Longrightarrow> k < length line \<Longrightarrow> \<exists>i \<le> k. \<not> is_continuation (line ! i)"
proof (induction k line rule: utf8_from.induct)
  case (2 k c cs)
  then obtain i where "i \<le> k" "\<not> is_continuation (cs ! i)" by auto
  then show ?case by (intro exI [of _ "Suc i"]) simp
next
  case (3 c cs)
  then show ?case using utf8_start [of c cs] by (intro exI [of _ 0]) (simp del: utf8_from.simps)
qed simp

lemma back_off_start: "back_off line n = 0 \<Longrightarrow> 1 \<le> i \<Longrightarrow> i \<le> n \<Longrightarrow> is_continuation (line ! i)"
  by (induction n) (auto split: if_splits simp: le_Suc_eq)

lemma back_off_at: "back_off line n = k \<Longrightarrow> k \<noteq> 0 \<Longrightarrow> \<not> is_continuation (line ! k)"
  by (induction n arbitrary: k) (auto split: if_splits)

lemma segment_length_start:
  assumes "utf8 line" "5 \<le> budget" "line \<noteq> []"
  shows "segment_length budget line = length line \<or> \<not> is_continuation (line ! segment_length budget line)"
proof (cases "length line \<le> budget")
  case False
  have "back_off line budget \<noteq> 0"
  proof
    assume b: "back_off line budget = 0"
    obtain c cs where l: "line = c # cs" using assms(3) by (cases line) auto
    obtain k where k: "continuations c = Some k" "utf8_from k cs" using assms(1) l by (auto split: option.splits)
    have "k \<le> 3" using continuations_not [OF k(1)] by simp
    moreover have "k < length cs" using False assms(2) l \<open>k \<le> 3\<close> by simp
    ultimately obtain i where "i \<le> 3" "\<not> is_continuation (cs ! i)" using utf8_next_start [OF k(2)] by (meson order_trans)
    then show False using back_off_start [OF b, of "Suc i"] assms(2) l by simp
  qed
  then show ?thesis using False back_off_at by (simp add: segment_length_def)
qed (simp add: segment_length_def)

lemma utf8_segment:
  assumes "utf8 line" "5 \<le> budget"
  shows "utf8 (take (segment_length budget line) line) \<and> utf8 (drop (segment_length budget line) line)"
proof (cases "line = []")
  case False
  show ?thesis by (rule utf8_split [OF assms(1) segment_length_le(2) segment_length_start [OF assms False]])
qed simp

lemma utf8_fold_rest: "utf8 line \<Longrightarrow> \<forall>s \<in> set (fold_rest line). utf8 s"
proof (induction line rule: fold_rest.induct)
  case (1 line)
  then show ?case using utf8_segment [of line 74] by (subst fold_rest.simps) (cases "line = []"; simp)
qed

text \<open>
  C36. (safety) Folding never cuts a character: when the line is well-formed UTF-8, so is each of its
  segments, the segments put together are the line, and none is empty.
\<close>
theorem folding_keeps_characters:
  assumes "utf8 line"
  shows "list_all utf8 (fold_segments line) \<and> concat (fold_segments line) = line \<and> (line \<noteq> [] \<longrightarrow> [] \<notin> set (fold_segments line))"
proof -
  have "[] \<notin> set (fold_rest l)" for l
  proof (induction l rule: fold_rest.induct)
    case (1 l)
    then show ?case using segment_length_pos [of l 74] by (subst fold_rest.simps) (cases "l = []"; simp)
  qed
  then show ?thesis
    using utf8_segment [OF assms, of 75] utf8_fold_rest segment_length_pos [of line 75]
    by (auto simp: list_all_iff fold_segments_def concat_fold_rest)
qed

lemma folding_keeps_characters_witness:
  "list_all utf8 (fold_segments (replicate 74 (CHR ''a'') @ [CHR 0xC3, CHR 0xA9, CHR ''b'']))"
proof -
  have "utf8 (replicate 74 (CHR ''a'') @ [CHR 0xC3, CHR 0xA9, CHR ''b''])" by code_simp
  then show ?thesis using folding_keeps_characters by blast
qed

section \<open>The loop ends\<close>

lemma fold_loop_rest:
  "\<exists>p. while_option (fold_cond line) (fold_body line) (pos, result, False) =
     Some (p, result @ concat (map (\<lambda>s. crlf @ '' '' @ s) (fold_rest (drop pos line))), False)"
proof (induction "drop pos line" arbitrary: pos result rule: fold_rest.induct)
  case 1
  show ?case
  proof (cases "pos < length line")
    case False
    then show ?thesis
      by (subst while_option_unfold, subst fold_rest.simps) (simp add: fold_cond_def)
  next
    case True
    define n where "n = segment_length 74 (drop pos line)"
    have IH: "\<exists>p. while_option (fold_cond line) (fold_body line) (pos + n, r, False) =
        Some (p, r @ concat (map (\<lambda>s. crlf @ '' '' @ s) (fold_rest (drop (pos + n) line))), False)" for r
      using 1 [of "pos + n"] True by (simp add: n_def add.commute)
    have "fold_rest (drop pos line) = take n (drop pos line) # fold_rest (drop (pos + n) line)"
      using True by (subst fold_rest.simps) (simp add: n_def add.commute)
    then show ?thesis
      using IH [of "result @ crlf @ '' '' @ take n (drop pos line)"] True
      by (subst while_option_unfold) (simp add: fold_cond_def fold_body_def n_def [symmetric] Let_def)
  qed
qed

lemma join_segments: "join sep (s # ss) = s @ concat (map (\<lambda>t. sep @ t) ss)"
  by (induction ss arbitrary: s) simp_all

text \<open>
  C20. (termination) The folding loop ends on every line, also on one whose octets all continue a
  sequence, where no split is allowed; what it has built then is the folded line, the segments joined by
  line breaks.
\<close>
theorem fold_loop_returns:
  "\<exists>p first. while_option (fold_cond line) (fold_body line) (0, [], True) =
     Some (p, join (crlf @ '' '') (fold_segments line), first)"
proof (cases "line = []")
  case True
  have "fold_rest [] = []" by (subst fold_rest.simps) simp
  then show ?thesis using True by (intro exI [of _ 0] exI [of _ True], subst while_option_unfold) (simp add: fold_cond_def fold_segments_def)
next
  case False
  define n where "n = segment_length 75 line"
  obtain p where "while_option (fold_cond line) (fold_body line) (n, take n line, False) =
      Some (p, take n line @ concat (map (\<lambda>s. crlf @ '' '' @ s) (fold_rest (drop n line))), False)"
    using fold_loop_rest by blast
  moreover have "fold_body line (0, [], True) = (n, take n line, False)" by (simp add: fold_body_def n_def Let_def)
  ultimately have "while_option (fold_cond line) (fold_body line) (0, [], True) = Some (p, join (crlf @ '' '') (fold_segments line), False)"
    using False by (subst while_option_unfold) (simp add: fold_cond_def fold_segments_def n_def [symmetric] join_segments)
  then show ?thesis by blast
qed

end
