(* ===== verification/SiteAdmin.thy ===== *)
theory SiteAdmin
  imports Endpoints ThemeFonts ThemeExport Dates
begin

text \<open>
  The endpoints a studio's site is read and edited through: \<open>site_info.cpp\<close>, \<open>site_asset.cpp\<close>,
  \<open>site_font_face.cpp\<close> for every visitor, \<open>manage_site_theme.cpp\<close>, \<open>manage_site_fonts.cpp\<close> and
  \<open>manage_site_theme_bundle.cpp\<close> for administrators, from the request's parts on (routing and headers
  of the request are the HTTP library). The parser of JSON text is the argument \<open>load\<close>; the blocks an
  application adds to the site information are an argument as its theme sections are.
\<close>

section \<open>Requests\<close>

text \<open>A file that is sent: its type, its caching and its bytes.\<close>

record file_reply =
  fr_contentType :: string
  fr_cacheControl :: string
  fr_bytes :: string

definition RunSiteTransaction :: "env \<Rightarrow> 'a stx \<Rightarrow> 'a stx" where
  "RunSiteTransaction E m = (\<lambda>(w, d).
     case m (w\<lparr>tx_start := now_of E w, aborted := False\<rparr>, d) of
       (Inl e, (w', d')) \<Rightarrow> (Inl e, (rolled_back w w', d))
     | (Inr x, (w', d')) \<Rightarrow> (Inr x, if aborted w' then (rolled_back w w', d) else (w', d')))"

text \<open>The \<open>catch\<close> of a route's handler.\<close>

definition handled :: "reply stx \<Rightarrow> reply stx" where
  "handled m = catchE m (\<lambda>e. case e of Undefined s \<Rightarrow> throwE (Undefined s) | _ \<Rightarrow> retE (Refuse (InternalError (exn_what e))))"

definition RequireAdmin :: "problem option stx" where
  "RequireAdmin = (\<lambda>(w, d).
     if \<not> IsLoggedIn w then (Inr (Some (Json.NotAuthenticated ''Login required'')), (w, d))
     else bindE (in_world IsAdmin) (\<lambda>admin. retE (if admin then None else Some (Json.NotAuthorized ''Admin required''))) (w, d))"

definition with_admin :: "reply stx \<Rightarrow> reply stx" where
  "with_admin m = bindE RequireAdmin (\<lambda>p. case p of Some e \<Rightarrow> retE (Refuse e) | None \<Rightarrow> m)"

text \<open>A field that is there and no text throws.\<close>

definition field_text :: "JValue \<Rightarrow> string \<Rightarrow> string res" where
  "field_text obj name = (case HasChild obj name of None \<Rightarrow> Inr [] | Some v \<Rightarrow> get_string v)"

definition array_of :: "JValue option \<Rightarrow> JValue list" where
  "array_of v = (case v of Some (JArray xs) \<Rightarrow> xs | _ \<Rightarrow> [])"

section \<open>Files for visitors\<close>

definition ContentTypeForImage :: "string \<Rightarrow> string" where
  "ContentTypeForImage type =
     (if type = ''png'' then ''image/png'' else if type = ''jpeg'' then ''image/jpeg''
      else if type = ''gif'' then ''image/gif'' else if type = ''webp'' then ''image/webp''
      else if type = ''svg'' then ''image/svg+xml'' else ''application/octet-stream'')"

definition GetSiteAsset :: "env \<Rightarrow> string \<Rightarrow> (problem + file_reply) stx" where
  "GetSiteAsset E name =
     (if \<not> IsValidBundleAssetName name then retE (Inl (NotFound ''No such image''))
      else RunSiteTransaction E
        (bindE (GetAssetByName name) (\<lambda>row. case row of
           None \<Rightarrow> retE (Inl (NotFound ''No such image''))
         | Some r \<Rightarrow> bindE (GetAssetBytes name) (\<lambda>bytes.
             if bytes = [] then retE (Inl (NotFound ''No such image''))
             else retE (Inr \<lparr>fr_contentType = ContentTypeForImage (sa_type r), fr_cacheControl = ''no-cache'', fr_bytes = bytes\<rparr>)))))"

definition ContentTypeForFormat :: "string \<Rightarrow> string" where
  "ContentTypeForFormat format =
     (if format = ''woff2'' then ''font/woff2'' else if format = ''woff'' then ''font/woff''
      else if format = ''ttf'' then ''font/ttf'' else if format = ''otf'' then ''font/otf'' else [])"

definition GetSiteFontFace :: "env \<Rightarrow> int \<Rightarrow> (problem + file_reply) stx" where
  "GetSiteFontFace E faceId =
     bindE (RunSiteTransaction E
       (bindE (GetFace faceId) (\<lambda>face. case face of
          None \<Rightarrow> retE ([], [])
        | Some r \<Rightarrow> if ContentTypeForFormat (fc_format r) = [] then retE ([], [])
            else bindE (GetFaceBytes faceId) (\<lambda>bytes. retE (ContentTypeForFormat (fc_format r), bytes)))))
     (\<lambda>(contentType, bytes).
       if contentType = [] \<or> bytes = [] then retE (Inl (NotFound ''Font face not found''))
       else retE (Inr \<lparr>fr_contentType = contentType,
         fr_cacheControl = ''public, max-age=31536000, immutable'', fr_bytes = bytes\<rparr>))"

section \<open>Site information\<close>

record SiteInfoBlock =
  sb_name :: string
  sb_build :: "JValue stx"

fun RegisterSiteInfoBlock :: "SiteInfoBlock \<Rightarrow> SiteInfoBlock list \<Rightarrow> SiteInfoBlock list" where
  "RegisterSiteInfoBlock s [] = [s]"
| "RegisterSiteInfoBlock s (t # ts) =
     (if sb_name t = sb_name s then t\<lparr>sb_build := sb_build s\<rparr> # ts else t # RegisterSiteInfoBlock s ts)"

definition preconnect_json :: "FontPreconnect \<Rightarrow> JValue" where
  "preconnect_json p = json_object [(''href'', JString (fp_href p)), (''crossorigin'', JBool (fp_crossorigin p))]"

definition face_info_json :: "FontFaceDescriptor \<Rightarrow> JValue" where
  "face_info_json f = json_object [(''family'', JString (fd_family f)), (''weight'', JInt (fd_weight f)),
     (''style'', JString (fd_style f)), (''format'', JString (fd_format f)), (''url'', JString (fd_url f))]"

definition text_object :: "KeyValueTable \<Rightarrow> JValue" where
  "text_object t = JObject (map (\<lambda>(k, v). (k, JString v)) t)"

definition BuildSiteInfoResponse :: "string \<Rightarrow> string \<Rightarrow> string \<Rightarrow> KeyValueTable \<Rightarrow> KeyValueTable \<Rightarrow> SiteFontInventory \<Rightarrow>
    (string \<times> JValue) list \<Rightarrow> JValue" where
  "BuildSiteInfoResponse displayName url logoUrl content theme fonts appBlocks =
     json_object [(''display_name'', JString displayName), (''website_url'', JString url), (''logo_url'', JString logoUrl),
       (''content'', text_object content), (''theme'', text_object theme),
       (''fonts'', json_object [(''preconnects'', JArray (map preconnect_json (fi_preconnects fonts))),
          (''stylesheets'', JArray (map JString (fi_stylesheets fonts))),
          (''faces'', JArray (map face_info_json (fi_faces fonts)))]),
       (''app'', JObject appBlocks)]"

definition font_roles :: "string list" where
  "font_roles = [''--font-body'', ''--font-heading'', ''--font-display'']"

fun resolve_roles :: "string list \<Rightarrow> KeyValueTable \<Rightarrow> KeyValueTable stx" where
  "resolve_roles [] theme = retE theme"
| "resolve_roles (role # rs) theme = (case map_of theme role of
     None \<Rightarrow> resolve_roles rs theme
   | Some family \<Rightarrow> bindE (LookupFontStack family) (\<lambda>stack.
       resolve_roles rs (if stack = [] then kv_erase role theme else kv_assign role stack theme)))"

fun build_blocks :: "SiteInfoBlock list \<Rightarrow> (string \<times> JValue) list \<Rightarrow> (string \<times> JValue) list stx" where
  "build_blocks [] m = retE m"
| "build_blocks (s # ss) m = bindE (sb_build s) (\<lambda>v. build_blocks ss (kv_assign (sb_name s) v m))"

definition GetSiteInfoTx :: "env \<Rightarrow> SecretsHelper \<Rightarrow> SiteInfoBlock list \<Rightarrow>
    (TenantBranding \<times> string \<times> KeyValueTable \<times> KeyValueTable \<times> SiteFontInventory \<times> (string \<times> JValue) list) stx" where
  "GetSiteInfoTx E S blocks =
     bindE (in_world (LoadTenantBranding E S)) (\<lambda>branding.
     bindE (in_world (LookupSecret E S kSiteLogoUrl)) (\<lambda>logoUrl.
     bindE (in_world (LoadSiteContent E S)) (\<lambda>content.
     bindE (in_world (LoadSiteTheme E S)) (\<lambda>theme.
     bindE (LoadSiteFontInventory ''/api/site_font_face/'') (\<lambda>fonts.
     bindE (resolve_roles font_roles theme) (\<lambda>theme.
     bindE (build_blocks blocks []) (\<lambda>appBlocks.
     retE (branding, logoUrl, content, theme, fonts, appBlocks))))))))"

text \<open>\<open>tenantName\<close> is the display name of the request's tenant.\<close>

definition GetSiteInfo :: "env \<Rightarrow> SecretsHelper \<Rightarrow> SiteInfoBlock list \<Rightarrow> string \<Rightarrow> JValue stx" where
  "GetSiteInfo E S blocks tenantName =
     bindE (RunSiteTransaction E (GetSiteInfoTx E S blocks)) (\<lambda>(branding, logoUrl, content, theme, fonts, appBlocks).
       let displayName = (if studioName branding = [] then tenantName else studioName branding)
       in retE (BuildSiteInfoResponse displayName (websiteUrl branding) logoUrl content theme fonts appBlocks))"

section \<open>The theme editor\<close>

fun SlotTypeName :: "SlotType \<Rightarrow> string" where
  "SlotTypeName Line = ''line''"
| "SlotTypeName Lines = ''lines''"
| "SlotTypeName Markdown = ''markdown''"
| "SlotTypeName Url = ''url''"
| "SlotTypeName Color = ''color''"

fun TokenTypeName :: "ThemeTokenType \<Rightarrow> string" where
  "TokenTypeName TColor = ''color''"
| "TokenTypeName TLength = ''length''"
| "TokenTypeName TFontFamily = ''font''"
| "TokenTypeName TWeight = ''weight''"

fun TokenGroupName :: "ThemeTokenGroup \<Rightarrow> string" where
  "TokenGroupName Brand = ''brand''"
| "TokenGroupName Surface = ''surface''"
| "TokenGroupName Status = ''status''"
| "TokenGroupName Shell = ''shell''"
| "TokenGroupName Palette = ''palette''"
| "TokenGroupName Radius = ''radius''"
| "TokenGroupName TypeScale = ''type_scale''"
| "TokenGroupName FontRole = ''font_role''"

fun mapE :: "('a \<Rightarrow> 'b stx) \<Rightarrow> 'a list \<Rightarrow> 'b list stx" where
  "mapE f [] = retE []"
| "mapE f (x # xs) = bindE (f x) (\<lambda>y. bindE (mapE f xs) (\<lambda>ys. retE (y # ys)))"

definition slot_row :: "env \<Rightarrow> SecretsHelper \<Rightarrow> string \<times> SlotType \<Rightarrow> JValue stx" where
  "slot_row E S = (\<lambda>(key, type). bindE (in_world (LookupSecret E S key)) (\<lambda>stored.
     retE (json_object [(''key'', JString key), (''type'', JString (SlotTypeName type)), (''value'', JString stored),
       (''is_set'', JBool (stored \<noteq> []))])))"

definition token_row :: "env \<Rightarrow> SecretsHelper \<Rightarrow> ThemeToken \<Rightarrow> JValue stx" where
  "token_row E S token = bindE (in_world (LookupSecret E S (tt_key token))) (\<lambda>stored.
     retE (json_object [(''key'', JString (tt_key token)), (''css_variable'', JString (tt_cssVariable token)),
       (''type'', JString (TokenTypeName (tt_type token))), (''group'', JString (TokenGroupName (tt_group token))),
       (''description'', JString (tt_description token)), (''value'', JString stored), (''is_set'', JBool (stored \<noteq> []))]))"

definition GetManageSiteTheme :: "env \<Rightarrow> SecretsHelper \<Rightarrow> reply stx" where
  "GetManageSiteTheme E S = RunSiteTransaction E (with_admin
     (bindE (mapE (slot_row E S) SiteContentSlots) (\<lambda>content.
      bindE (mapE (token_row E S) SiteThemeTokens) (\<lambda>theme.
      bindE GetActiveFonts (\<lambda>fonts.
      retE (Answer (json_object [(''content'', JArray content), (''theme'', JArray theme),
        (''font_families'', JArray (map (\<lambda>r. json_object [(''family'', JString (sf_family r)),
           (''fallback'', JString (sf_fallback r)), (''source_kind'', JString (sf_sourceKind r))]) fonts))])))))))"

text \<open>The writes a request asks for; the first value that is not acceptable is the answer.\<close>

fun slot_writes :: "JValue \<Rightarrow> (string \<times> SlotType) list \<Rightarrow> (string + (string \<times> string) list) res" where
  "slot_writes content [] = Inr (Inr [])"
| "slot_writes content ((key, type) # slots) =
     (case HasChild content key of
        None \<Rightarrow> slot_writes content slots
      | Some v \<Rightarrow> rbind (get_string v) (\<lambda>text.
          let norm = NormalizeLineEndings text; reason = ValidateSlotValue type norm in
          if reason \<noteq> [] then Inr (Inl (key @ '': '' @ reason))
          else rbind (slot_writes content slots) (\<lambda>r. Inr (case r of Inl e \<Rightarrow> Inl e | Inr ws \<Rightarrow> Inr ((key, norm) # ws)))))"

fun token_writes :: "JValue \<Rightarrow> ThemeToken list \<Rightarrow> (string + (string \<times> string) list) res" where
  "token_writes theme [] = Inr (Inr [])"
| "token_writes theme (token # tokens) =
     (case HasChild theme (tt_key token) of
        None \<Rightarrow> token_writes theme tokens
      | Some v \<Rightarrow> rbind (get_string v) (\<lambda>text.
          if text \<noteq> [] \<and> \<not> IsValidThemeTokenValue (tt_type token) text
          then Inr (Inl (tt_key token @ '': not a valid '' @ TokenTypeName (tt_type token) @ '' value.''))
          else rbind (token_writes theme tokens) (\<lambda>r. Inr (case r of Inl e \<Rightarrow> Inl e | Inr ws \<Rightarrow> Inr ((tt_key token, text) # ws)))))"

definition object_child :: "JValue \<Rightarrow> string \<Rightarrow> JValue" where
  "object_child obj name = (case HasChild obj name of Some v \<Rightarrow> if HasChildren v then v else JNull | None \<Rightarrow> JNull)"

definition theme_writes :: "JValue \<Rightarrow> (string + (string \<times> string) list) res" where
  "theme_writes body =
     rbind (slot_writes (object_child body ''content'') SiteContentSlots) (\<lambda>c. case c of
       Inl e \<Rightarrow> Inr (Inl e)
     | Inr cs \<Rightarrow> rbind (token_writes (object_child body ''theme'') SiteThemeTokens) (\<lambda>t. case t of
         Inl e \<Rightarrow> Inr (Inl e) | Inr ts \<Rightarrow> Inr (Inr (cs @ ts))))"

definition PutManageSiteTheme :: "env \<Rightarrow> SecretsHelper \<Rightarrow> (string \<Rightarrow> JValue res) \<Rightarrow> string \<Rightarrow> reply stx" where
  "PutManageSiteTheme E S load text = RunSiteTransaction E (with_admin
     (bindE (liftE (load text)) (\<lambda>body.
      if \<not> HasChildren body then retE (Refuse (BadRequest ''No message body.''))
      else bindE (liftE (theme_writes body)) (\<lambda>r. case r of
        Inl e \<Rightarrow> retE (Refuse (ValidationError e [] []))
      | Inr ws \<Rightarrow>
          if ws = [] then retE (Refuse (BadRequest ''No recognised branding fields in the request.''))
          else bindE (forE (\<lambda>(key, v). in_world (AddSecret E S key v)) ws) (\<lambda>_.
            retE (Answer (json_object [(''saved'', JInt (int (length ws)))])))))))"

section \<open>The font editor\<close>

definition source_row_json :: "SiteFontSourceRow \<Rightarrow> JValue" where
  "source_row_json r = json_object [(''id'', JString (StringFromInt (fs_id r))), (''source_key'', JString (fs_sourceKey r)),
     (''display_name'', JString (fs_displayName r)), (''base_url'', JString (fs_baseUrl r)),
     (''query_suffix'', JString (fs_querySuffix r)), (''preconnect_lines'', JString (fs_preconnectLines r))]"

definition face_row_json :: "SiteFontFaceRow \<Rightarrow> JValue" where
  "face_row_json r = json_object [(''id'', JString (StringFromInt (fc_id r))), (''weight'', JString (StringFromInt (fc_weight r))),
     (''style'', JString (fc_style r)), (''format'', JString (fc_format r))]"

definition font_row_json :: "(string \<times> string) list \<Rightarrow> SiteFontRow \<Rightarrow> JValue stx" where
  "font_row_json keys r = bindE (GetFacesForFont (sf_id r)) (\<lambda>faces.
     let source = (case sf_fontSourceId r of None \<Rightarrow> [] | Some n \<Rightarrow> StringFromInt n) in
     retE (json_object [(''id'', JString (StringFromInt (sf_id r))), (''family'', JString (sf_family r)),
       (''fallback'', JString (sf_fallback r)), (''source_kind'', JString (sf_sourceKind r)),
       (''font_source_id'', JString source),
       (''source_key'', JString (case map_of keys source of None \<Rightarrow> [] | Some k \<Rightarrow> k)),
       (''spec'', JString (sf_spec r)), (''ordinal'', JString (StringFromInt (sf_ordinal r))),
       (''faces'', JArray (map face_row_json faces))]))"

definition kMaxFontFaceBytes :: nat where
  "kMaxFontFaceBytes = 5 * 1024 * 1024"

definition GetManageSiteFonts :: "env \<Rightarrow> reply stx" where
  "GetManageSiteFonts E = RunSiteTransaction E (with_admin
     (bindE GetAllSources (\<lambda>sources.
      bindE GetAllFonts (\<lambda>fonts.
      bindE (mapE (font_row_json (source_keys sources)) fonts) (\<lambda>families.
      retE (Answer (json_object [(''sources'', JArray (map source_row_json sources)), (''families'', JArray families),
        (''max_face_bytes'', JInt (int kMaxFontFaceBytes))])))))))"

text \<open>The first reason against the sources, and against the families; the names seen so far are an argument.\<close>

fun check_sources :: "JValue list \<Rightarrow> string set \<Rightarrow> string res" where
  "check_sources [] keys = Inr []"
| "check_sources (s # ss) keys =
     rbind (field_text s ''source_key'') (\<lambda>key.
     rbind (field_text s ''base_url'') (\<lambda>baseUrl.
     if key = [] then Inr ''Every font source needs a key.''
     else if key \<in> keys then Inr (''Two font sources share the key '' @ [CHR 0x27] @ key @ [CHR 0x27] @ ''.'')
     else if \<not> IsValidFontSourceUrl baseUrl then Inr (key @ '': the address must be an https:// URL.'')
     else rbind (field_text s ''query_suffix'') (\<lambda>suffix.
       if suffix \<noteq> [] \<and> \<not> IsValidFontSpec suffix then Inr (key @ '': that URL suffix is not a valid query fragment.'')
       else rbind (field_text s ''preconnect_lines'') (\<lambda>_. check_sources ss (insert key keys)))))"

fun check_families :: "JValue list \<Rightarrow> string set \<Rightarrow> string res" where
  "check_families [] names = Inr []"
| "check_families (f # fs) names =
     rbind (field_text f ''family'') (\<lambda>name.
     rbind (field_text f ''fallback'') (\<lambda>fallback.
     rbind (field_text f ''source_kind'') (\<lambda>kind.
     if \<not> IsValidFontFamilyName name then Inr ([CHR 0x27] @ name @ [CHR 0x27] @ '' is not a usable font family name.'')
     else if name \<in> names then Inr (''Two families are both called '' @ [CHR 0x27] @ name @ [CHR 0x27] @ ''.'')
     else if fallback = [] \<or> \<not> IsValidFontFamilyList fallback then Inr (name @ '': needs a fallback (for example sans-serif).'')
     else if kind \<notin> set [kSiteFontSourceKindCdn, kSiteFontSourceKindUploaded, kSiteFontSourceKindSystem]
     then Inr (name @ '': unknown font source kind '' @ [CHR 0x27] @ kind @ [CHR 0x27] @ ''.'')
     else if kind = kSiteFontSourceKindCdn
     then rbind (field_text f ''spec'') (\<lambda>spec.
        if \<not> IsValidFontSpec spec then Inr (name @ '': that font specification is not valid.'')
        else rbind (field_text f ''source_key'') (\<lambda>key.
          if key = [] then Inr (name @ '': a downloaded font needs a source.'')
          else check_families fs (insert name names)))
     else check_families fs (insert name names))))"

definition put_source :: "string \<Rightarrow> string \<Rightarrow> string \<Rightarrow> string \<Rightarrow> string \<Rightarrow> int stx" where
  "put_source key displayName baseUrl suffix preconnects =
     bindE (GetSourceByKey key) (\<lambda>existing. case existing of
       None \<Rightarrow> AddSource key displayName baseUrl suffix preconnects
     | Some row \<Rightarrow> bindE (UpdateSource (fs_id row) key displayName baseUrl suffix preconnects) (\<lambda>_. retE (fs_id row)))"

fun put_sources :: "JValue list \<Rightarrow> (string \<times> int) list \<Rightarrow> string set \<Rightarrow> ((string \<times> int) list \<times> string set) stx" where
  "put_sources [] ids kept = retE (ids, kept)"
| "put_sources (s # ss) ids kept =
     bindE (liftE (field_text s ''source_key'')) (\<lambda>key.
     bindE (liftE (field_text s ''display_name'')) (\<lambda>displayName.
     bindE (liftE (field_text s ''base_url'')) (\<lambda>baseUrl.
     bindE (liftE (field_text s ''query_suffix'')) (\<lambda>suffix.
     bindE (liftE (field_text s ''preconnect_lines'')) (\<lambda>preconnects.
     bindE (put_source key displayName baseUrl suffix preconnects) (\<lambda>n.
     put_sources ss (kv_assign key n ids) (insert key kept)))))))"

definition put_font :: "string \<Rightarrow> string \<Rightarrow> string \<Rightarrow> int \<Rightarrow> string \<Rightarrow> int \<Rightarrow> unit stx" where
  "put_font family fallback kind sourceId spec ordinal =
     bindE (GetFontByFamily family) (\<lambda>existing. case existing of
       None \<Rightarrow> bindE (AddFont family fallback kind sourceId spec ordinal) (\<lambda>_. retE ())
     | Some row \<Rightarrow> UpdateFont (sf_id row) family fallback kind sourceId spec ordinal)"

fun put_fonts :: "JValue list \<Rightarrow> (string \<times> int) list \<Rightarrow> int \<Rightarrow> string set \<Rightarrow> string set stx" where
  "put_fonts [] ids ordinal kept = retE kept"
| "put_fonts (f # fs) ids ordinal kept =
     bindE (liftE (field_text f ''family'')) (\<lambda>name.
     bindE (liftE (field_text f ''fallback'')) (\<lambda>fallback.
     bindE (liftE (field_text f ''source_kind'')) (\<lambda>kind.
     bindE (if kind = kSiteFontSourceKindCdn
            then bindE (liftE (field_text f ''source_key'')) (\<lambda>key.
                 bindE (liftE (field_text f ''spec'')) (\<lambda>spec.
                 retE (case map_of ids key of None \<Rightarrow> 0 | Some n \<Rightarrow> n, spec)))
            else retE (0, [])) (\<lambda>(sourceId, spec).
     bindE (put_font name fallback kind sourceId spec ordinal) (\<lambda>_.
     put_fonts fs ids (ordinal + 10) (insert name kept))))))"

definition reconcile_fonts :: "JValue list \<Rightarrow> JValue list \<Rightarrow> (string set \<times> string set) stx" where
  "reconcile_fonts sources families =
     bindE (put_sources sources [] {}) (\<lambda>(ids, keptSources).
     bindE (put_fonts families ids 10 {}) (\<lambda>keptFamilies.
     bindE (bindE GetAllFonts (\<lambda>rows. forE (drop_font keptFamilies) rows)) (\<lambda>_.
     bindE (bindE GetAllSources (\<lambda>rows. forE (drop_source keptSources) rows)) (\<lambda>_.
     retE (keptSources, keptFamilies)))))"

definition PutManageSiteFonts :: "env \<Rightarrow> (string \<Rightarrow> JValue res) \<Rightarrow> string \<Rightarrow> reply stx" where
  "PutManageSiteFonts E load text = RunSiteTransaction E (with_admin
     (bindE (liftE (load text)) (\<lambda>body.
      if \<not> HasChildren body then retE (Refuse (BadRequest ''No message body.''))
      else let sources = array_of (HasChild body ''sources''); families = array_of (HasChild body ''families'') in
        bindE (liftE (check_sources sources {})) (\<lambda>reason.
        if reason \<noteq> [] then retE (Refuse (ValidationError reason [] []))
        else bindE (liftE (check_families families {})) (\<lambda>reason.
        if reason \<noteq> [] then retE (Refuse (ValidationError reason [] []))
        else bindE (reconcile_fonts sources families) (\<lambda>(keptSources, keptFamilies).
          retE (Answer (json_object [(''sources'', JInt (int (card keptSources))), (''families'', JInt (int (card keptFamilies)))]))))))))"

text \<open>The weight and the style are parts of the address; \<open>weight\<close> is read as an \<open>int\<close>.\<close>

definition PostManageSiteFontFace :: "env \<Rightarrow> int \<Rightarrow> int \<Rightarrow> string \<Rightarrow> string \<Rightarrow> reply stx" where
  "PostManageSiteFontFace E fontId weight pathStyle body = RunSiteTransaction E (with_admin
     (let style = (if pathStyle \<noteq> ''italic'' then ''normal'' else pathStyle); format = FontFormatFromMagicBytes body in
      if weight < 1 \<or> 1000 < weight then retE (Refuse (ValidationError ''A font weight must be between 1 and 1000.'' [] []))
      else if body = [] then retE (Refuse (BadRequest ''No font file in the request.''))
      else if kMaxFontFaceBytes < length body then retE (Refuse (ValidationError ''That font file is too large.'' [] []))
      else if format = [] then retE (Refuse (ValidationError ''That file is not a WOFF2, WOFF, TTF or OTF font.'' [] []))
      else bindE (GetFont fontId) (\<lambda>font.
        if font = None then retE (Refuse (NotFound ''Font family not found''))
        else bindE (AddFace fontId weight style format body) (\<lambda>faceId.
          retE (Answer (json_object [(''id'', JInt faceId), (''format'', JString format), (''weight'', JInt weight), (''style'', JString style)]))))))"

definition DeleteManageSiteFontFace :: "env \<Rightarrow> int \<Rightarrow> reply stx" where
  "DeleteManageSiteFontFace E faceId = RunSiteTransaction E (with_admin
     (bindE (GetFace faceId) (\<lambda>face.
      if face = None then retE (Refuse (NotFound ''Font face not found''))
      else bindE (DeleteFace faceId) (\<lambda>_. retE (Answer (json_object [(''deleted'', JBool True)]))))))"

section \<open>Theme files\<close>

text \<open>A flag of the address, as it is given: absent, or with its text.\<close>

definition FlagIsSet :: "string option \<Rightarrow> bool" where
  "FlagIsSet flag = (case flag of None \<Rightarrow> False | Some text \<Rightarrow> text \<in> set [[], ''1'', ''true''])"

definition OptionsFrom :: "string option \<Rightarrow> string option \<Rightarrow> bool \<Rightarrow> ThemeBundleImportOptions" where
  "OptionsFrom strict merge dryRun =
     \<lparr>io_strictness = (if FlagIsSet strict then Strict else Lenient), io_merge = FlagIsSet merge, io_dryRun = dryRun\<rparr>"

text \<open>\<open>NotImported\<close> holds the response that was begun, the report written behind it and the status.\<close>

datatype import_reply =
    Rejected problem
  | Imported JValue
  | NotImported problem JValue int

text \<open>The work of the transaction; \<open>Inl\<close> stands for the exception that carries the report.\<close>

definition import_work :: "env \<Rightarrow> SecretsHelper \<Rightarrow> ThemeBundleSection list \<Rightarrow> (string \<Rightarrow> JValue res) \<Rightarrow> zip_archive \<Rightarrow> string \<Rightarrow>
    ThemeBundleImportOptions \<Rightarrow> (BundleImportReport + import_reply) stx" where
  "import_work E S sections load archive body opt =
     bindE RequireAdmin (\<lambda>p. case p of Some e \<Rightarrow> retE (Inr (Rejected e)) | None \<Rightarrow>
     if body = [] then retE (Inr (Rejected (BadRequest ''No theme file in the request.'')))
     else bindE (liftE (ThemeBundleFromZip load archive body JNull [])) (\<lambda>(zipError, json, assets).
       if zipError \<noteq> [] then retE (Inr (Rejected (BadRequest zipError)))
       else bindE (ImportThemeBundleJson E S sections json assets opt) (\<lambda>report.
         if \<not> rp_ok report then retE (Inl report) else retE (Inr (Imported (BundleImportReportToJson report))))))"

definition RunImport :: "env \<Rightarrow> SecretsHelper \<Rightarrow> ThemeBundleSection list \<Rightarrow> (string \<Rightarrow> JValue res) \<Rightarrow> zip_archive \<Rightarrow> string \<Rightarrow>
    string option \<Rightarrow> string option \<Rightarrow> bool \<Rightarrow> import_reply stx" where
  "RunImport E S sections load archive body strict merge dryRun = (\<lambda>(w, d).
     case import_work E S sections load archive body (OptionsFrom strict merge dryRun) (w\<lparr>tx_start := now_of E w, aborted := False\<rparr>, d) of
       (Inl (Undefined t), (w', _)) \<Rightarrow> (Inl (Undefined t), (rolled_back w w', d))
     | (Inl e, (w', _)) \<Rightarrow>
         let text = ''The theme file could not be applied: '' @ exn_what e
         in (Inr (NotImported (InternalError text) (BundleImportReportToJson (new_report\<lparr>rp_error := text\<rparr>)) 500), (rolled_back w w', d))
     | (Inr (Inl report), (w', _)) \<Rightarrow>
         (Inr (NotImported (ValidationError (rp_error report) [] []) (BundleImportReportToJson report) 400), (rolled_back w w', d))
     | (Inr (Inr r), (w', d')) \<Rightarrow> (Inr r, if aborted w' then (rolled_back w w', d) else (w', d')))"

text \<open>
  The export for an administrator: the file's entries are the bundle; writing the zip is libzip
  (\<open>zipped\<close>, the empty text when it fails). \<open>app\<close> and \<open>version\<close> are texts of the environment.
\<close>

definition GetManageSiteThemeBundle :: "env \<Rightarrow> SecretsHelper \<Rightarrow> ThemeBundleSection list \<Rightarrow> calendar \<Rightarrow> (ThemeBundle \<Rightarrow> string) \<Rightarrow> string \<Rightarrow> string \<Rightarrow>
    (problem + string \<times> string) stx" where
  "GetManageSiteThemeBundle E S sections cal zipped app version = RunSiteTransaction E
     (bindE RequireAdmin (\<lambda>p. case p of Some e \<Rightarrow> retE (Inl e) | None \<Rightarrow>
      bindE (in_world (LookupSecret E S ''mail_sender_name'')) (\<lambda>name.
      bindE (in_world (now_us E)) (\<lambda>us.
      bindE (in_world (LookupSecret E S ''website_address'')) (\<lambda>site.
      bindE (ExportThemeBundle E S sections \<lparr>eo_name = name, eo_description = [],
         eo_exportedAt = FormatDateFromMicroseconds cal us, eo_app = app, eo_site = site, eo_honuwareVersion = version\<rparr>) (\<lambda>(reason, b).
      if reason \<noteq> [] then retE (Inl (InternalError reason))
      else if zipped b = [] then retE (Inl (InternalError ''The theme file could not be built.''))
      else let stem = SanitizeAssetStem name
           in retE (Inr ((if stem = [] then ''theme'' else stem) @ ''-theme.zip'', zipped b))))))))"

section \<open>What an administrator's request may change\<close>

lemma reads_IsAdmin: "reads IsAdmin"
proof -
  have "reads (bindT (GetRoleId n) (\<lambda>roleId. bindT (GetRoleAssignmentsForPerson p) (\<lambda>rids. ret (list_ex (\<lambda>rid. rid = roleId) rids))))" for n p
    unfolding GetRoleId_def GetRoleAssignmentsForPerson_def by (intro read_rules)
  then show ?thesis
    unfolding IsAdmin_def by (simp add: reads_def ActiveUserHasRole_def)
qed

lemma RequireAdmin_run:
  assumes "RequireAdmin (w, d) = (Inr p, (w', d'))"
  shows "d' = d \<and> w' = w\<lparr>tick := tick w'\<rparr> \<and> (p = None \<longrightarrow> IsLoggedIn w)"
proof (cases "IsLoggedIn w")
  case True
  then show ?thesis using assms reads_IsAdmin
    by (auto simp: RequireAdmin_def bindE_def in_world_def retE_def reads_def split: prod.splits sum.splits)
qed (use assms in \<open>auto simp: RequireAdmin_def\<close>)

text \<open>The outcome of a request in its transaction: the tables are those of its work or those before.\<close>

definition secrets_and_site :: "world \<times> site_db \<Rightarrow> (string \<times> string) list \<times> site_db" where
  "secrets_and_site s = (config_secrets (fst s), snd s)"

lemma rolled_back_secrets [simp]: "config_secrets (rolled_back w w') = config_secrets w"
  by (simp add: rolled_back_def)

lemma RunSiteTransaction_Inr:
  assumes "RunSiteTransaction E m (w, d) = (Inr x, s')"
  obtains w1 d1 where "m (w\<lparr>tx_start := now_of E w, aborted := False\<rparr>, d) = (Inr x, (w1, d1))"
    "s' = (if aborted w1 then (rolled_back w w1, d) else (w1, d1))"
  using assms by (auto simp: RunSiteTransaction_def split: prod.splits sum.splits)

lemma RunSiteTransaction_Inl:
  "RunSiteTransaction E m s = (Inl e, s') \<Longrightarrow> secrets_and_site s' = secrets_and_site s"
  by (cases s) (auto simp: RunSiteTransaction_def secrets_and_site_def split: prod.splits sum.splits)

section \<open>The theme editor\<close>

lemma slot_writes_Cons:
  assumes "slot_writes content ((key, type) # slots) = Inr (Inr ws)"
  obtains "slot_writes content slots = Inr (Inr ws)"
  | v vs where "ws = (key, v) # vs" "slot_writes content slots = Inr (Inr vs)"
proof (cases "HasChild content key")
  case (Some j)
  obtain t where t: "get_string j = Inr t" using assms Some by (auto simp: rbind_eq_Inr)
  have ok: "ValidateSlotValue type (NormalizeLineEndings t) = []"
    using assms Some t by (auto simp: Let_def split: if_splits)
  obtain r where r: "slot_writes content slots = Inr r" using assms Some t ok by (auto simp: rbind_eq_Inr Let_def)
  obtain vs where vs: "r = Inr vs" using assms Some t ok r by (cases r) (auto simp: Let_def)
  have "ws = (key, NormalizeLineEndings t) # vs" using assms Some t ok r vs by (simp add: Let_def)
  then show ?thesis using that(2) r vs by blast
qed (use assms that(1) in simp)

lemma slot_writes_keys:
  "slot_writes content slots = Inr (Inr ws) \<Longrightarrow> distinct (map fst slots) \<Longrightarrow> set (map fst ws) \<subseteq> set (map fst slots) \<and> distinct (map fst ws)"
proof (induction slots arbitrary: ws)
  case (Cons p slots)
  obtain key type where p: "p = (key, type)" by (cases p)
  from Cons.prems(1) [unfolded p] show ?case
  proof (cases rule: slot_writes_Cons)
    case 1
    then show ?thesis using Cons.IH [OF 1] Cons.prems(2) by auto
  next
    case (2 v vs)
    then show ?thesis using Cons.IH [OF 2(2)] Cons.prems(2) p by auto
  qed
qed simp

lemma token_writes_Cons:
  assumes "token_writes theme (t # tokens) = Inr (Inr ws)"
  obtains "token_writes theme tokens = Inr (Inr ws)"
  | v vs where "ws = (tt_key t, v) # vs" "token_writes theme tokens = Inr (Inr vs)"
proof (cases "HasChild theme (tt_key t)")
  case (Some j)
  obtain v where v: "get_string j = Inr v" using assms Some by (auto simp: rbind_eq_Inr)
  have ok: "\<not> (v \<noteq> [] \<and> \<not> IsValidThemeTokenValue (tt_type t) v)"
    using assms Some v by (auto split: if_splits)
  obtain r where r: "token_writes theme tokens = Inr r" using assms Some v ok by (auto simp: rbind_eq_Inr split: if_splits)
  obtain vs where vs: "r = Inr vs" using assms Some v ok r by (cases r) (auto split: if_splits)
  have "ws = (tt_key t, v) # vs" using assms Some v ok r vs by (auto split: if_splits)
  then show ?thesis using that(2) r vs by blast
qed (use assms that(1) in simp)

lemma token_writes_keys:
  "token_writes theme tokens = Inr (Inr ws) \<Longrightarrow> distinct (map tt_key tokens) \<Longrightarrow>
   set (map fst ws) \<subseteq> tt_key ` set tokens \<and> distinct (map fst ws)"
proof (induction tokens arbitrary: ws)
  case (Cons t tokens)
  from Cons.prems(1) show ?case
  proof (cases rule: token_writes_Cons)
    case 1
    then show ?thesis using Cons.IH [OF 1] Cons.prems(2) by auto
  next
    case (2 v vs)
    then show ?thesis using Cons.IH [OF 2(2)] Cons.prems(2) by auto
  qed
qed simp

lemma theme_writes_parts:
  assumes "theme_writes body = Inr (Inr ws)"
  obtains cs ts where "slot_writes (object_child body ''content'') SiteContentSlots = Inr (Inr cs)"
    "token_writes (object_child body ''theme'') SiteThemeTokens = Inr (Inr ts)" "ws = cs @ ts"
proof -
  obtain c where c: "slot_writes (object_child body ''content'') SiteContentSlots = Inr c"
    using assms by (auto simp: theme_writes_def rbind_eq_Inr)
  obtain cs where cs: "c = Inr cs" using assms c by (cases c) (simp_all add: theme_writes_def)
  obtain t where t: "token_writes (object_child body ''theme'') SiteThemeTokens = Inr t"
    using assms c cs by (auto simp: theme_writes_def rbind_eq_Inr)
  obtain ts where ts: "t = Inr ts" using assms c cs t by (cases t) (simp_all add: theme_writes_def)
  have "ws = cs @ ts" using assms c cs t ts by (simp add: theme_writes_def)
  then show ?thesis using that c cs t ts by blast
qed

lemma theme_writes_distinct:
  assumes "theme_writes body = Inr (Inr ws)"
  shows "distinct (map fst ws)"
proof -
  obtain cs ts where c: "slot_writes (object_child body ''content'') SiteContentSlots = Inr (Inr cs)"
    and t: "token_writes (object_child body ''theme'') SiteThemeTokens = Inr (Inr ts)" and ws: "ws = cs @ ts"
    by (rule theme_writes_parts [OF assms])
  have d: "distinct (map fst SiteContentSlots)" and sub: "set (map fst SiteContentSlots) \<subseteq> set BundleContentKeys"
    using content_keys_distinct by (auto simp: BundleContentKeys_def)
  note k = slot_writes_keys [OF c d] token_writes_keys [OF t token_keys_distinct]
  have "set (map fst cs) \<inter> set (map fst ts) = {}" using k sub registry_keys_apart by blast
  then show ?thesis using k unfolding ws by simp
qed

text \<open>Whatever is not written stays.\<close>

lemma write_secret_other: "k \<noteq> key \<Longrightarrow> map_of (config_secrets (write_secret E S key v w)) k = map_of (config_secrets w) k"
  by (cases S) (auto simp: write_secret_def AddSecret_def AddSecretRow_def bindT_def stmt_def lift_def Encrypt_Inr map_add_def map_of_filter_other
      split: prod.splits sum.splits if_splits option.splits)

lemma write_secrets_other:
  "k \<notin> fst ` set ws \<Longrightarrow> map_of (config_secrets (fold (\<lambda>(key, v). write_secret E S key v) ws w)) k = map_of (config_secrets w) k"
proof (induction ws arbitrary: w)
  case (Cons p ws)
  then show ?case by (cases p) (simp add: write_secret_other)
qed simp

definition theme_work :: "env \<Rightarrow> SecretsHelper \<Rightarrow> (string \<Rightarrow> JValue res) \<Rightarrow> string \<Rightarrow> reply stx" where
  "theme_work E S load text = with_admin
     (bindE (liftE (load text)) (\<lambda>body.
      if \<not> HasChildren body then retE (Refuse (BadRequest ''No message body.''))
      else bindE (liftE (theme_writes body)) (\<lambda>r. case r of
        Inl e \<Rightarrow> retE (Refuse (ValidationError e [] []))
      | Inr ws \<Rightarrow>
          if ws = [] then retE (Refuse (BadRequest ''No recognised branding fields in the request.''))
          else bindE (forE (\<lambda>(key, v). in_world (AddSecret E S key v)) ws) (\<lambda>_.
            retE (Answer (json_object [(''saved'', JInt (int (length ws)))]))))))"

lemma theme_work_run:
  assumes "theme_work E S load text (w, d) = (Inr r, s')" "\<not> aborted w"
  shows "(\<exists>p. r = Refuse p \<and> secrets_and_site s' = (config_secrets w, d)) \<or>
    (\<exists>j body ws w0. r = Answer j \<and> IsLoggedIn w \<and> load text = Inr body \<and> theme_writes body = Inr (Inr ws) \<and> ws \<noteq> [] \<and>
       config_secrets w0 = config_secrets w \<and> \<not> aborted w0 \<and> s' = (fold (\<lambda>(key, v). write_secret E S key v) ws w0, d))"
proof -
  from assms(1) [unfolded theme_work_def with_admin_def] obtain p t where
    a: "RequireAdmin (w, d) = (Inr p, t)" and
    k: "(case p of Some e \<Rightarrow> retE (Refuse e) | None \<Rightarrow> bindE (liftE (load text)) (\<lambda>body.
      if \<not> HasChildren body then retE (Refuse (BadRequest ''No message body.''))
      else bindE (liftE (theme_writes body)) (\<lambda>r. case r of
        Inl e \<Rightarrow> retE (Refuse (ValidationError e [] []))
      | Inr ws \<Rightarrow>
          if ws = [] then retE (Refuse (BadRequest ''No recognised branding fields in the request.''))
          else bindE (forE (\<lambda>(key, v). in_world (AddSecret E S key v)) ws) (\<lambda>_.
            retE (Answer (json_object [(''saved'', JInt (int (length ws)))])))))) t = (Inr r, s')"
    by (rule bindE_InrE)
  obtain w0 d0 where t: "t = (w0, d0)" by fastforce
  note adm = RequireAdmin_run [OF a [unfolded t]]
  obtain n where w0: "w0 = w\<lparr>tick := n\<rparr>" and d0: "d0 = d" using adm by blast
  have refuse: "secrets_and_site t = (config_secrets w, d)" by (simp add: secrets_and_site_def t w0 d0)
  have live: "\<not> aborted w0" using assms(2) by (simp add: w0)
  show ?thesis
  proof (cases p)
    case (Some e)
    then show ?thesis using k refuse by (auto simp: retE_def)
  next
    case None
    note k' = k [unfolded None option.case]
    obtain body where b: "load text = Inr body" using k' by (auto simp: bindE_def liftE_def split: sum.splits)
    show ?thesis
    proof (cases "HasChildren body")
      case False
      then show ?thesis using k' b refuse by (auto simp: bindE_def liftE_def retE_def)
    next
      case True
      obtain x where x: "theme_writes body = Inr x" using k' b True by (auto simp: bindE_def liftE_def split: sum.splits)
      show ?thesis
      proof (cases x)
        case (Inl e)
        then show ?thesis using k' b True x refuse by (auto simp: bindE_def liftE_def retE_def)
      next
        case (Inr ws)
        show ?thesis
        proof (cases "ws = []")
          case True
          then show ?thesis using k' b \<open>HasChildren body\<close> x Inr refuse by (auto simp: bindE_def liftE_def retE_def)
        next
          case False
          have "r = Answer (json_object [(''saved'', JInt (int (length ws)))]) \<and> s' = (fold (\<lambda>(key, v). write_secret E S key v) ws w0, d)"
            using k' b True x Inr False AddSecrets_eval [OF live, of E S ws d]
            by (simp add: bindE_def liftE_def t d0 retE_def)
          then show ?thesis using b x Inr False adm None live w0
            by (intro disjI2 exI [of _ "json_object [(''saved'', JInt (int (length ws)))]"] exI [of _ body] exI [of _ ws] exI [of _ w0]) simp
        qed
      qed
    qed
  qed
qed

lemma PutManageSiteTheme_work: "PutManageSiteTheme E S load text = RunSiteTransaction E (theme_work E S load text)"
  by (simp add: PutManageSiteTheme_def theme_work_def)

text \<open>
  C15. (error) A request to the theme editor is applied as a whole or not at all. When it is accepted, the
  person is signed in and every setting it names reads back as it was sent (line ends normalized), while
  every setting it does not name is as before; refused for any reason, also for the last of its values,
  or failing on the way, it leaves every setting and every table of the site as it was.
\<close>
theorem theme_editor_all_or_nothing:
  assumes "PutManageSiteTheme E S load text (w, d) = (r, (w', d'))" "S = None \<or> sodium_ok E"
  shows "case r of
      Inr (Answer j) \<Rightarrow> IsLoggedIn w \<and> (\<exists>body ws. load text = Inr body \<and> theme_writes body = Inr (Inr ws) \<and>
        (\<forall>(key, v) \<in> set ws. read_secret E S key w' = Some v) \<and>
        (\<forall>key. key \<notin> fst ` set ws \<longrightarrow> map_of (config_secrets w') key = map_of (config_secrets w) key)) \<and> d' = d
    | _ \<Rightarrow> config_secrets w' = config_secrets w \<and> d' = d"
proof (cases r)
  case (Inl e)
  have "secrets_and_site (w', d') = secrets_and_site (w, d)"
    using assms(1) Inl unfolding PutManageSiteTheme_work by (intro RunSiteTransaction_Inl) simp
  then show ?thesis using Inl by (simp add: secrets_and_site_def)
next
  case (Inr x)
  let ?w = "w\<lparr>tx_start := now_of E w, aborted := False\<rparr>"
  obtain w1 d1 where m: "theme_work E S load text (?w, d) = (Inr x, (w1, d1))"
    and s': "(w', d') = (if aborted w1 then (rolled_back w w1, d) else (w1, d1))"
    using assms(1) Inr unfolding PutManageSiteTheme_work by (auto elim: RunSiteTransaction_Inr)
  have "\<not> aborted ?w" by simp
  from theme_work_run [OF m this] show ?thesis
  proof (elim disjE exE conjE)
    fix p assume p: "x = Refuse p" "secrets_and_site (w1, d1) = (config_secrets ?w, d)"
    then show ?thesis using Inr s' by (cases "aborted w1") (simp_all add: secrets_and_site_def)
  next
    fix j body ws w0
    assume h: "x = Answer j" "IsLoggedIn ?w" "load text = Inr body" "theme_writes body = Inr (Inr ws)"
      "config_secrets w0 = config_secrets ?w" "\<not> aborted w0" "(w1, d1) = (fold (\<lambda>(key, v). write_secret E S key v) ws w0, d)"
    have "\<not> aborted w1" using h(6,7) write_secrets_live by simp
    then have w': "w' = fold (\<lambda>(key, v). write_secret E S key v) ws w0" "d' = d" using s' h(7) by simp_all
    have "read_secret E S key w' = Some v" if "(key, v) \<in> set ws" for key v
      unfolding w' using AddSecrets_read [OF h(6) assms(2) theme_writes_distinct [OF h(4)] that] .
    moreover have "map_of (config_secrets w') key = map_of (config_secrets w) key" if "key \<notin> fst ` set ws" for key
      using write_secrets_other [OF that] h(5) by (simp add: w')
    ultimately show ?thesis using Inr h(1-4) w'(2) by (auto simp: IsLoggedIn_def)
  qed
qed

text \<open>An administrator sets the browser title and an accent colour.\<close>

definition admin_world :: world where
  "admin_world = emptyWorld\<lparr>session_personId := 7, roles := [(1, ''admin'')], role_assignments := [(7, 1)]\<rparr>"

definition title_request :: JValue where
  "title_request = JObject [(''content'', JObject [(''site_browser_title'', JString ''Yoga'')])]"

lemma token_writes_none: "token_writes JNull tokens = Inr (Inr [])"
  by (induction tokens) (simp_all add: HasChild_def)

lemma title_writes: "theme_writes title_request = Inr (Inr [(''site_browser_title'', ''Yoga'')])"
proof -
  have c: "object_child title_request ''content'' = JObject [(''site_browser_title'', JString ''Yoga'')]"
    "object_child title_request ''theme'' = JNull"
    by (simp_all add: object_child_def title_request_def HasChild_def)
  have "slot_writes (JObject [(''site_browser_title'', JString ''Yoga'')]) SiteContentSlots = Inr (Inr [(''site_browser_title'', ''Yoga'')])"
    by (simp add: SiteContentSlots_def kSiteSocialLinks_def HasChild_def) code_simp
  then show ?thesis by (simp add: theme_writes_def c token_writes_none)
qed

lemma admin_signed_in:
  "RequireAdmin (admin_world\<lparr>tx_start := n, aborted := False\<rparr>, d) = (Inr None, (admin_world\<lparr>tx_start := n, aborted := False\<rparr>, d))"
  by (simp add: RequireAdmin_def IsLoggedIn_def admin_world_def bindE_def in_world_def IsAdmin_def ActiveUserHasRole_def bindT_def
      GetRoleId_def GetRoleAssignmentsForPerson_def query_def stmt_def ret_def retE_def)

lemma theme_editor_all_or_nothing_witness:
  "\<exists>j w'. PutManageSiteTheme demoEnv None (\<lambda>_. Inr title_request) [] (admin_world, empty_site) = (Inr (Answer j), (w', empty_site)) \<and>
     read_secret demoEnv None ''site_browser_title'' w' = Some ''Yoga''"
proof -
  let ?w = "admin_world\<lparr>tx_start := now_of demoEnv admin_world, aborted := False\<rparr>"
  let ?w' = "write_secret demoEnv None ''site_browser_title'' ''Yoga'' ?w"
  have "theme_work demoEnv None (\<lambda>_. Inr title_request) [] (?w, empty_site) =
      (Inr (Answer (json_object [(''saved'', JInt 1)])), (?w', empty_site))"
    by (simp add: theme_work_def with_admin_def bindE_def admin_signed_in liftE_def title_writes AddSecret_eval retE_def)
       (simp add: title_request_def)
  moreover have "\<not> aborted ?w'" by (rule write_secret_live) simp
  ultimately have run: "PutManageSiteTheme demoEnv None (\<lambda>_. Inr title_request) [] (admin_world, empty_site) =
      (Inr (Answer (json_object [(''saved'', JInt 1)])), (?w', empty_site))"
    by (simp add: PutManageSiteTheme_work RunSiteTransaction_def)
  from theme_editor_all_or_nothing [OF run] have "read_secret demoEnv None ''site_browser_title'' ?w' = Some ''Yoga''"
    by (auto simp: title_writes)
  with run show ?thesis by blast
qed

section \<open>The font editor\<close>

lemma put_source_run:
  assumes "put_source k n u q p (w, d) = (Inr i, (w', d'))" "fonts_ok (w, d)"
  shows "fonts_ok (w', d') \<and> site_fonts d' = site_fonts d \<and> site_font_faces d' = site_font_faces d"
proof -
  from assms(1) [unfolded put_source_def] obtain r t where
    g: "GetSourceByKey k (w, d) = (Inr r, t)" and
    st: "(case r of None \<Rightarrow> AddSource k n u q p
     | Some row \<Rightarrow> bindE (UpdateSource (fs_id row) k n u q p) (\<lambda>_. retE (fs_id row))) t = (Inr i, (w', d'))"
    by (rule bindE_InrE)
  have t: "t = (w, d)" "r = List.find (\<lambda>r. fs_sourceKey r = k) (site_font_sources d)"
    using g by (cases t, auto simp: GetSourceByKey_def dest: find_row)+
  show ?thesis using store_source_run [OF st [unfolded t(1)] t(2) assms(2)] by simp
qed

lemma liftE_run: "liftE r s = (Inr x, t) \<longleftrightarrow> r = Inr x \<and> t = s"
  by (auto simp: liftE_def)

lemma put_sources_run:
  assumes "put_sources ss ids kept (w, d) = (Inr (ids', kept'), (w', d'))" "fonts_ok (w, d)"
  shows "fonts_ok (w', d') \<and> site_fonts d' = site_fonts d \<and> site_font_faces d' = site_font_faces d"
  using assms
proof (induction ss arbitrary: ids kept w d)
  case (Cons s ss)
  from Cons.prems(1) obtain key n u q p i t where
    a: "put_source key n u q p (w, d) = (Inr i, t)" and
    b: "put_sources ss (kv_assign key i ids) (insert key kept) t = (Inr (ids', kept'), (w', d'))"
    by (auto simp: liftE_run elim!: bindE_InrE)
  obtain w1 d1 where t: "t = (w1, d1)" by fastforce
  note s1 = put_source_run [OF a [unfolded t] Cons.prems(2)]
  show ?case using Cons.IH [OF b [unfolded t]] s1 by simp
qed (simp add: retE_def)

text \<open>Identifiers keep their families.\<close>

definition named_ids :: "site_db \<Rightarrow> (int \<times> string) set" where
  "named_ids d = (\<lambda>r. (sf_id r, sf_family r)) ` set (site_fonts d)"

lemma put_font_run:
  assumes "put_font name fallback kind n e ord (w, d) = (Inr x, (w', d'))" "fonts_ok (w, d)"
  shows "fonts_ok (w', d') \<and> named_ids d \<subseteq> named_ids d' \<and> snd ` named_ids d' = insert name (snd ` named_ids d) \<and>
    site_font_faces d' = site_font_faces d"
proof -
  from assms(1) [unfolded put_font_def] obtain r t where
    g: "GetFontByFamily name (w, d) = (Inr r, t)" and
    k: "(case r of None \<Rightarrow> bindE (AddFont name fallback kind n e ord) (\<lambda>_. retE ())
       | Some row \<Rightarrow> UpdateFont (sf_id row) name fallback kind n e ord) t = (Inr x, (w', d'))"
    by (rule bindE_InrE)
  have t: "t = (w, d)" "r = List.find (\<lambda>r. sf_family r = name) (site_fonts d)"
    using g by (cases t, auto simp: GetFontByFamily_def dest: find_row)+
  show ?thesis
  proof (cases r)
    case None
    from k [unfolded None option.case t(1)] obtain fid where "AddFont name fallback kind n e ord (w, d) = (Inr fid, (w', d'))"
      by (auto elim!: bindE_InrE simp: retE_def)
    note a = AddFont_run [OF this]
    have "name \<notin> sf_family ` set (site_fonts d)" using t(2) [unfolded None, symmetric] by (auto simp: find_None_iff)
    then show ?thesis using a assms(2)
      by (auto simp: fonts_ok_def named_ids_def kSiteFonts_def kSiteFontSources_def)
  next
    case (Some row)
    have row: "row \<in> set (site_fonts d)" "sf_family row = name" using t(2) Some by (auto dest!: sym [of "Some row"] find_SomeD)
    define g where "g = updated_font name fallback kind n e ord"
    note u = UpdateFont_run [OF k [unfolded Some option.case t(1)], folded g_def]
    have g: "sf_family (g q) = sf_family row" "sf_id (g q) = sf_id q" for q
      using row by (simp_all add: g_def updated_font_def)
    have ids: "distinct (map sf_id (site_fonts d))" using assms(2) by (simp add: fonts_ok_def)
    note m = map_row_column [of sf_id _ row sf_family g, OF ids row(1) g(1,2)]
    have same: "named_ids d' = named_ids d" using m(3) u by (simp add: named_ids_def)
    have "map sf_id (site_fonts d') = map sf_id (site_fonts d)" "map sf_family (site_fonts d') = map sf_family (site_fonts d)"
      "w' = w" "site_font_sources d' = site_font_sources d" using m(1,2) u by simp_all
    then have "fonts_ok (w', d')" using assms(2) unfolding fonts_ok_sources by simp
    moreover have "name \<in> snd ` named_ids d" using row by (auto simp: named_ids_def image_image)
    ultimately show ?thesis using same u by (simp add: insert_absorb)
  qed
qed

definition family_names :: "JValue list \<Rightarrow> string set" where
  "family_names fs = {name. \<exists>f \<in> set fs. field_text f ''family'' = Inr name}"

lemma put_fonts_run:
  assumes "put_fonts fs ids ord kept (w, d) = (Inr kept', (w', d'))" "fonts_ok (w, d)"
  shows "fonts_ok (w', d') \<and> named_ids d \<subseteq> named_ids d' \<and> snd ` named_ids d' = family_names fs \<union> snd ` named_ids d \<and>
    site_font_faces d' = site_font_faces d \<and> kept' = family_names fs \<union> kept"
  using assms
proof (induction fs arbitrary: ord kept w d)
  case (Cons f fs)
  from Cons.prems(1) obtain name fallback kind n e t where name: "field_text f ''family'' = Inr name" and
    a: "put_font name fallback kind n e ord (w, d) = (Inr (), t)" and
    b: "put_fonts fs ids (ord + 10) (insert name kept) t = (Inr kept', (w', d'))"
    by (auto simp: liftE_run retE_def elim!: bindE_InrE split: if_splits)
  obtain w1 d1 where t: "t = (w1, d1)" by fastforce
  note s1 = put_font_run [OF a [unfolded t] Cons.prems(2)]
  note IH = Cons.IH [OF b [unfolded t] conjunct1 [OF s1]]
  have "family_names (f # fs) = insert name (family_names fs)" using name by (auto simp: family_names_def)
  then show ?case using s1 IH by auto
qed (auto simp: retE_def family_names_def)

lemma drop_font_faces:
  assumes "drop_font kept r (w, d) = (Inr x, (w', d'))" "distinct (map fc_id (site_font_faces d))"
  shows "site_font_faces d' = filter (\<lambda>q. sf_family r \<in> kept \<or> fc_fontId q \<noteq> sf_id r) (site_font_faces d)"
proof (cases "sf_family r \<in> kept")
  case False
  from assms(1) [unfolded drop_font_def if_not_P [OF False]] obtain y t where a: "delete_faces (sf_id r) (w, d) = (Inr y, t)"
    and b: "DeleteFont (sf_id r) t = (Inr x, (w', d'))" by (rule bindE_InrE)
  obtain w1 d1 where t: "t = (w1, d1)" by fastforce
  show ?thesis using delete_faces_run [OF a [unfolded t] assms(2)] DeleteFont_run [OF b [unfolded t]] False by simp
qed (use assms in \<open>simp add: drop_font_def retE_def\<close>)

lemma drop_fonts_faces:
  assumes "forE (drop_font kept) rows (w, d) = (Inr x, (w', d'))" "distinct (map fc_id (site_font_faces d))"
  shows "site_font_faces d' = filter (\<lambda>q. \<forall>r \<in> set rows. sf_family r \<in> kept \<or> fc_fontId q \<noteq> sf_id r) (site_font_faces d)"
  using assms
proof (induction rows arbitrary: w d)
  case (Cons r rows)
  from Cons.prems(1) [unfolded forE.simps] obtain y t where a: "drop_font kept r (w, d) = (Inr y, t)"
    and b: "forE (drop_font kept) rows t = (Inr x, (w', d'))" by (rule bindE_InrE)
  obtain w1 d1 where t: "t = (w1, d1)" by fastforce
  note s1 = drop_font_faces [OF a [unfolded t] Cons.prems(2)]
  have "distinct (map fc_id (site_font_faces d1))" using Cons.prems(2) s1 by (simp add: distinct_map_filter)
  note IH = Cons.IH [OF b [unfolded t] this]
  show ?case using s1 IH by (simp add: conj_commute)
qed (auto simp: retE_def)

lemma drop_sources_faces:
  "forE (drop_source kept) rows (w, d) = (Inr x, (w', d')) \<Longrightarrow> site_font_faces d' = site_font_faces d \<and> w' = w"
proof (induction rows arbitrary: w d)
  case (Cons r rows)
  from Cons.prems(1) [unfolded forE.simps] obtain y t where a: "drop_source kept r (w, d) = (Inr y, t)"
    and b: "forE (drop_source kept) rows t = (Inr x, (w', d'))" by (rule bindE_InrE)
  obtain w1 d1 where t: "t = (w1, d1)" by fastforce
  have "site_font_faces d1 = site_font_faces d \<and> w1 = w"
    using a unfolding t by (auto simp: drop_source_def DeleteSource_def change_rows_def on_table_def retE_def split: if_splits)
  then show ?case using Cons.IH [OF b [unfolded t]] by simp
qed (simp add: retE_def)

lemma reconcile_fonts_run:
  assumes "reconcile_fonts sources families (w, d) = (Inr (ks, kf), (w', d'))" "fonts_ok (w, d)" "distinct (map fc_id (site_font_faces d))"
  shows "\<not> aborted w' \<and> fonts_ok (w', d') \<and> sf_family ` set (site_fonts d') = family_names families \<and>
    (\<forall>r \<in> set (site_fonts d). sf_family r \<in> family_names families \<longrightarrow> (sf_id r, sf_family r) \<in> named_ids d') \<and>
    site_font_faces d' = filter (\<lambda>q. \<forall>r \<in> set (site_fonts d). fc_fontId q = sf_id r \<longrightarrow> sf_family r \<in> family_names families) (site_font_faces d)"
proof -
  let ?K = "family_names families"
  from assms(1) obtain ids t1 kf' t2 y3 t3 where
    a: "put_sources sources [] {} (w, d) = (Inr (ids, ks), t1)" and
    b: "put_fonts families ids 10 {} t1 = (Inr kf', t2)" and
    c: "bindE GetAllFonts (\<lambda>rows. forE (drop_font kf') rows) t2 = (Inr y3, t3)" and
    e: "bindE (bindE GetAllSources (\<lambda>rows. forE (drop_source ks) rows)) (\<lambda>_. retE (ks, kf')) t3 = (Inr (ks, kf), (w', d'))"
    unfolding reconcile_fonts_def by (auto elim!: bindE_InrE simp: retE_def bindE_def split: prod.splits sum.splits)
  obtain w1 d1 where t1: "t1 = (w1, d1)" by fastforce
  obtain w2 d2 where t2: "t2 = (w2, d2)" by fastforce
  obtain w3 d3 where t3: "t3 = (w3, d3)" by fastforce
  note s1 = put_sources_run [OF a [unfolded t1] assms(2)]
  note s2 = put_fonts_run [OF b [unfolded t1 t2] conjunct1 [OF s1]]
  have K: "kf' = ?K" using s2 by simp
  from c obtain rows t2' where g: "GetAllFonts t2 = (Inr rows, t2')" and gd: "forE (drop_font kf') rows t2' = (Inr y3, t3)" by (rule bindE_InrE)
  have g': "t2' = (w2, d2)" "set rows = set (site_fonts d2)"
    using g unfolding t2 GetAllFonts_def rows_of_def on_table_def by (auto simp: by_ordinal_def split: if_splits)
  note s3 = drop_fonts_run [OF gd [unfolded g'(1) t3] conjunct1 [OF s2]]
  have "distinct (map fc_id (site_font_faces d2))" using s1 s2 assms(3) by simp
  note f3 = drop_fonts_faces [OF gd [unfolded g'(1) t3] this]
  from e obtain srows t3' y where h: "GetAllSources t3 = (Inr srows, t3')" and hd: "forE (drop_source ks) srows t3' = (Inr y, (w', d'))"
    by (auto elim!: bindE_InrE simp: retE_def)
  have h': "t3' = (w3, d3)" "\<not> aborted w3" using h unfolding t3 GetAllSources_def rows_of_def on_table_def by (auto split: if_splits)
  note s4 = drop_sources_run [OF hd [unfolded h'(1)] conjunct1 [OF s3]] and f4 = drop_sources_faces [OF hd [unfolded h'(1)]]
  have n1: "named_ids d1 = named_ids d" using s1 by (simp add: named_ids_def)
  have d2: "distinct (map sf_id (site_fonts d2))" "distinct (map sf_family (site_fonts d2))" using s2 by (simp_all add: fonts_ok_def)
  have fonts: "site_fonts d' = filter (\<lambda>r. sf_family r \<in> ?K) (site_fonts d2)"
    using s3 s4 g'(2) K filter_by_key [OF d2(1) g'(2), of "\<lambda>r. sf_family r \<in> ?K"] by simp
  have fams2: "sf_family ` set (site_fonts d2) = ?K \<union> sf_family ` set (site_fonts d)"
    using s1 s2 by (simp add: named_ids_def image_image)
  have old: "\<exists>q \<in> set (site_fonts d). sf_id q = sf_id r \<and> sf_family q = sf_family r" if r: "r \<in> set (site_fonts d2)" "sf_family r \<notin> ?K" for r
  proof -
    obtain q where q: "q \<in> set (site_fonts d)" "sf_family q = sf_family r" using fams2 imageI [OF r(1), of sf_family] r(2) by force
    have "(sf_id q, sf_family q) \<in> named_ids d2" using q(1) s2 n1 by (auto simp: named_ids_def)
    then obtain r' where r': "r' \<in> set (site_fonts d2)" "sf_id r' = sf_id q" "sf_family r' = sf_family q" by (auto simp: named_ids_def)
    have "r' = r" using d2(2) r(1) r' q(2) by (auto simp: distinct_map inj_on_def)
    then show ?thesis using q r'(2) by (intro bexI [of _ q]) simp_all
  qed
  have kept: "(sf_id r, sf_family r) \<in> named_ids d2" if "r \<in> set (site_fonts d)" for r
    using subsetD [OF conjunct1 [OF conjunct2 [OF s2]], of "(sf_id r, sf_family r)"] that n1 by (simp add: named_ids_def)
  have cond: "(\<forall>r \<in> set rows. sf_family r \<in> ?K \<or> fc_fontId q \<noteq> sf_id r) \<longleftrightarrow> (\<forall>r \<in> set (site_fonts d). fc_fontId q = sf_id r \<longrightarrow> sf_family r \<in> ?K)" for q
  proof
    assume h: "\<forall>r \<in> set rows. sf_family r \<in> ?K \<or> fc_fontId q \<noteq> sf_id r"
    show "\<forall>r \<in> set (site_fonts d). fc_fontId q = sf_id r \<longrightarrow> sf_family r \<in> ?K"
    proof (intro ballI impI)
      fix r assume r: "r \<in> set (site_fonts d)" "fc_fontId q = sf_id r"
      obtain r' where "r' \<in> set (site_fonts d2)" "sf_id r' = sf_id r" "sf_family r' = sf_family r"
        using kept [OF r(1)] by (auto simp: named_ids_def)
      then show "sf_family r \<in> ?K" using h r(2) g'(2) by auto
    qed
  next
    assume h: "\<forall>r \<in> set (site_fonts d). fc_fontId q = sf_id r \<longrightarrow> sf_family r \<in> ?K"
    show "\<forall>r \<in> set rows. sf_family r \<in> ?K \<or> fc_fontId q \<noteq> sf_id r"
    proof (intro ballI)
      fix r assume "r \<in> set rows"
      then show "sf_family r \<in> ?K \<or> fc_fontId q \<noteq> sf_id r" using old [of r] h g'(2) by metis
    qed
  qed
  have "site_font_faces d' = filter (\<lambda>q. \<forall>r \<in> set rows. sf_family r \<in> ?K \<or> fc_fontId q \<noteq> sf_id r) (site_font_faces d)"
    using f3 f4 s1 s2 K by simp
  also have "\<dots> = filter (\<lambda>q. \<forall>r \<in> set (site_fonts d). fc_fontId q = sf_id r \<longrightarrow> sf_family r \<in> ?K) (site_font_faces d)"
    by (rule filter_cong [OF refl cond])
  finally have faces: "site_font_faces d' = filter (\<lambda>q. \<forall>r \<in> set (site_fonts d). fc_fontId q = sf_id r \<longrightarrow> sf_family r \<in> ?K) (site_font_faces d)" .
  show ?thesis
  proof (intro conjI ballI impI)
    show "\<not> aborted w'" using f4 h'(2) by simp
    show "fonts_ok (w', d')" using s4 ..
    show "sf_family ` set (site_fonts d') = ?K" unfolding fonts image_filter fams2 by blast
    show "(sf_id r, sf_family r) \<in> named_ids d'" if "r \<in> set (site_fonts d)" "sf_family r \<in> ?K" for r
      using kept [OF that(1)] that(2) by (auto simp: named_ids_def fonts)
    show "site_font_faces d' = filter (\<lambda>q. \<forall>r \<in> set (site_fonts d). fc_fontId q = sf_id r \<longrightarrow> sf_family r \<in> ?K) (site_font_faces d)"
      by (rule faces)
  qed
qed

definition fonts_work :: "(string \<Rightarrow> JValue res) \<Rightarrow> string \<Rightarrow> reply stx" where
  "fonts_work load text = with_admin
     (bindE (liftE (load text)) (\<lambda>body.
      if \<not> HasChildren body then retE (Refuse (BadRequest ''No message body.''))
      else let sources = array_of (HasChild body ''sources''); families = array_of (HasChild body ''families'') in
        bindE (liftE (check_sources sources {})) (\<lambda>reason.
        if reason \<noteq> [] then retE (Refuse (ValidationError reason [] []))
        else bindE (liftE (check_families families {})) (\<lambda>reason.
        if reason \<noteq> [] then retE (Refuse (ValidationError reason [] []))
        else bindE (reconcile_fonts sources families) (\<lambda>(keptSources, keptFamilies).
          retE (Answer (json_object [(''sources'', JInt (int (card keptSources))), (''families'', JInt (int (card keptFamilies)))])))))))"

lemma PutManageSiteFonts_work: "PutManageSiteFonts E load text = RunSiteTransaction E (fonts_work load text)"
  by (simp add: PutManageSiteFonts_def fonts_work_def)

lemma fonts_work_run:
  assumes "fonts_work load text (w, d) = (Inr x, (w1, d1))"
  shows "(\<exists>p. x = Refuse p \<and> d1 = d) \<or>
    (\<exists>j body ks kf n. x = Answer j \<and> IsLoggedIn w \<and> load text = Inr body \<and>
      reconcile_fonts (array_of (HasChild body ''sources'')) (array_of (HasChild body ''families'')) (w\<lparr>tick := n\<rparr>, d) = (Inr (ks, kf), (w1, d1)))"
proof -
  from assms [unfolded fonts_work_def with_admin_def] obtain p w0 where
    a: "RequireAdmin (w, d) = (Inr p, w0)" and
    k: "(case p of Some e \<Rightarrow> retE (Refuse e) | None \<Rightarrow> bindE (liftE (load text)) (\<lambda>body.
      if \<not> HasChildren body then retE (Refuse (BadRequest ''No message body.''))
      else let sources = array_of (HasChild body ''sources''); families = array_of (HasChild body ''families'') in
        bindE (liftE (check_sources sources {})) (\<lambda>reason.
        if reason \<noteq> [] then retE (Refuse (ValidationError reason [] []))
        else bindE (liftE (check_families families {})) (\<lambda>reason.
        if reason \<noteq> [] then retE (Refuse (ValidationError reason [] []))
        else bindE (reconcile_fonts sources families) (\<lambda>(keptSources, keptFamilies).
          retE (Answer (json_object [(''sources'', JInt (int (card keptSources))), (''families'', JInt (int (card keptFamilies)))]))))))) w0
      = (Inr x, (w1, d1))" by (rule bindE_InrE)
  obtain w2 d2 where w0: "w0 = (w2, d2)" by fastforce
  note adm = RequireAdmin_run [OF a [unfolded w0]]
  obtain n where st: "w0 = (w\<lparr>tick := n\<rparr>, d)" using adm w0 by blast
  show ?thesis
  proof (cases p)
    case (Some e)
    then show ?thesis using k st by (auto simp: retE_def)
  next
    case None
    note k' = k [unfolded None option.case Let_def st]
    from k' obtain body where b: "load text = Inr body" and
      k2: "(if \<not> HasChildren body then retE (Refuse (BadRequest ''No message body.''))
      else bindE (liftE (check_sources (array_of (HasChild body ''sources'')) {})) (\<lambda>reason.
        if reason \<noteq> [] then retE (Refuse (ValidationError reason [] []))
        else bindE (liftE (check_families (array_of (HasChild body ''families'')) {})) (\<lambda>reason.
        if reason \<noteq> [] then retE (Refuse (ValidationError reason [] []))
        else bindE (reconcile_fonts (array_of (HasChild body ''sources'')) (array_of (HasChild body ''families''))) (\<lambda>(keptSources, keptFamilies).
          retE (Answer (json_object [(''sources'', JInt (int (card keptSources))), (''families'', JInt (int (card keptFamilies)))])))))) (w\<lparr>tick := n\<rparr>, d)
      = (Inr x, (w1, d1))"
      by (elim bindE_InrE) (simp add: liftE_run)
    show ?thesis
    proof (cases "x")
      case (Refuse q)
      have "d1 = d" using k2 unfolding Refuse
        by (auto simp: retE_def liftE_run elim!: bindE_InrE split: if_splits)
      then show ?thesis using Refuse by simp
    next
      case (Answer j)
      have "\<exists>ks kf. reconcile_fonts (array_of (HasChild body ''sources'')) (array_of (HasChild body ''families'')) (w\<lparr>tick := n\<rparr>, d) = (Inr (ks, kf), (w1, d1))"
        using k2 unfolding Answer by (auto simp: retE_def liftE_run elim!: bindE_InrE split: if_splits)
      then show ?thesis using Answer b adm None by blast
    qed
  qed
qed

text \<open>
  C14. (safety) Editing the fonts of a site never loses an uploaded file of a family that stays. After an
  accepted request the families are exactly those of the request, a family that was there before keeps its
  identifier, and the uploaded files are those from before, less the files of the families the request
  left out; anything else the request is answered with leaves the tables as they were.
\<close>
theorem font_editor_keeps_files:
  assumes "PutManageSiteFonts E load text (w, d) = (r, (w', d'))" "fonts_ok (w, d)" "distinct (map fc_id (site_font_faces d))"
  shows "case r of
      Inr (Answer j) \<Rightarrow> IsLoggedIn w \<and> (\<exists>body. load text = Inr body \<and>
        (let kept = family_names (array_of (HasChild body ''families'')) in
         sf_family ` set (site_fonts d') = kept \<and>
         (\<forall>f \<in> set (site_fonts d). sf_family f \<in> kept \<longrightarrow> (sf_id f, sf_family f) \<in> named_ids d') \<and>
         site_font_faces d' = filter (\<lambda>q. \<forall>f \<in> set (site_fonts d). fc_fontId q = sf_id f \<longrightarrow> sf_family f \<in> kept) (site_font_faces d)))
    | _ \<Rightarrow> d' = d"
proof (cases r)
  case (Inl e)
  have "secrets_and_site (w', d') = secrets_and_site (w, d)"
    using assms(1) Inl unfolding PutManageSiteFonts_work by (intro RunSiteTransaction_Inl) simp
  then show ?thesis using Inl by (simp add: secrets_and_site_def)
next
  case (Inr x)
  let ?w = "w\<lparr>tx_start := now_of E w, aborted := False\<rparr>"
  obtain w1 d1 where m: "fonts_work load text (?w, d) = (Inr x, (w1, d1))"
    and s': "(w', d') = (if aborted w1 then (rolled_back w w1, d) else (w1, d1))"
    using assms(1) Inr unfolding PutManageSiteFonts_work by (auto elim: RunSiteTransaction_Inr)
  have ok: "fonts_ok (?w, d)" using assms(2) by (simp add: fonts_ok_def)
  from fonts_work_run [OF m] show ?thesis
  proof (elim disjE exE conjE)
    fix p assume "x = Refuse p" "d1 = d"
    then show ?thesis using Inr s' by (cases "aborted w1") simp_all
  next
    fix j body ks kf n
    assume h: "x = Answer j" "IsLoggedIn ?w" "load text = Inr body"
      "reconcile_fonts (array_of (HasChild body ''sources'')) (array_of (HasChild body ''families'')) (?w\<lparr>tick := n\<rparr>, d) = (Inr (ks, kf), (w1, d1))"
    have "fonts_ok (?w\<lparr>tick := n\<rparr>, d)" using ok by (simp add: fonts_ok_def)
    note rc = reconcile_fonts_run [OF h(4) this assms(3)]
    have "d' = d1" using s' rc by simp
    then show ?thesis using Inr h(1-3) rc by (simp add: Let_def IsLoggedIn_def)
  qed
qed

text \<open>Dropping one of two families, each with an uploaded file.\<close>

definition two_fonts :: site_db where
  "two_fonts = empty_site\<lparr>site_tables := bundle_tables,
     site_fonts := [\<lparr>sf_id = 1, sf_family = ''Inter'', sf_fallback = ''serif'', sf_sourceKind = kSiteFontSourceKindUploaded,
         sf_fontSourceId = None, sf_spec = [], sf_ordinal = 10, sf_active = True\<rparr>,
       \<lparr>sf_id = 2, sf_family = ''Lora'', sf_fallback = ''serif'', sf_sourceKind = kSiteFontSourceKindUploaded,
         sf_fontSourceId = None, sf_spec = [], sf_ordinal = 20, sf_active = True\<rparr>],
     site_font_faces := [\<lparr>fc_id = 1, fc_fontId = 1, fc_weight = 400, fc_style = ''normal'', fc_format = ''woff2'', fc_bytes = ''wOF2a''\<rparr>,
       \<lparr>fc_id = 2, fc_fontId = 2, fc_weight = 400, fc_style = ''normal'', fc_format = ''woff2'', fc_bytes = ''wOF2b''\<rparr>]\<rparr>"

definition font_request :: JValue where
  "font_request = JObject [(''families'', JArray [JObject [(''family'', JString ''Inter''), (''fallback'', JString ''sans-serif''),
     (''source_kind'', JString ''uploaded'')]])]"

definition font_admin :: world where
  "font_admin = admin_world\<lparr>seqs := (\<lambda>_. 3)\<rparr>"

lemma font_editor_keeps_files_witness:
  "\<exists>j w' d'. PutManageSiteFonts demoEnv (\<lambda>_. Inr font_request) [] (font_admin, two_fonts) = (Inr (Answer j), (w', d')) \<and>
     sf_family ` set (site_fonts d') = {''Inter''} \<and> map fc_bytes (site_font_faces d') = [''wOF2a'']"
proof -
  have "case PutManageSiteFonts demoEnv (\<lambda>_. Inr font_request) [] (font_admin, two_fonts) of (Inr (Answer j), _) \<Rightarrow> True | _ \<Rightarrow> False"
    unfolding two_fonts_def font_admin_def admin_world_def font_request_def by code_simp
  then obtain j w' d' where run: "PutManageSiteFonts demoEnv (\<lambda>_. Inr font_request) [] (font_admin, two_fonts) = (Inr (Answer j), (w', d'))"
    by (cases "PutManageSiteFonts demoEnv (\<lambda>_. Inr font_request) [] (font_admin, two_fonts)") (auto split: sum.splits reply.splits)
  have ok: "fonts_ok (font_admin, two_fonts)" "distinct (map fc_id (site_font_faces two_fonts))"
    by (simp_all add: fonts_ok_def two_fonts_def font_admin_def empty_site_def)
  have k: "family_names (array_of (HasChild font_request ''families'')) = {''Inter''}"
    by (auto simp: family_names_def font_request_def HasChild_def array_of_def field_text_def)
  let ?F = "family_names (array_of (HasChild font_request ''families''))"
  have "sf_family ` set (site_fonts d') = ?F \<and>
    site_font_faces d' = filter (\<lambda>q. \<forall>f \<in> set (site_fonts two_fonts). fc_fontId q = sf_id f \<longrightarrow> sf_family f \<in> ?F) (site_font_faces two_fonts)"
    using font_editor_keeps_files [OF run ok] unfolding sum.case reply.case Let_def by (elim conjE exE) simp
  then have f: "sf_family ` set (site_fonts d') = {''Inter''}"
    and c: "site_font_faces d' = filter (\<lambda>q. \<forall>f \<in> set (site_fonts two_fonts). fc_fontId q = sf_id f \<longrightarrow> sf_family f \<in> {''Inter''}) (site_font_faces two_fonts)"
    unfolding k by (rule conjunct1, rule conjunct2)
  have "map fc_bytes (site_font_faces d') = [''wOF2a'']" unfolding c by (simp add: two_fonts_def)
  with run f show ?thesis by (intro exI conjI)
qed

section \<open>Importing a theme file\<close>

lemma bindE_lift: "bindE (liftE r) f s = (case r of Inl e \<Rightarrow> (Inl e, s) | Inr x \<Rightarrow> f x s)"
  by (simp add: bindE_def liftE_def split: sum.split)

lemma import_work_run:
  assumes "import_work E S sections load archive body opt (w, d) = (Inr (Inr r), (w', d'))"
  shows "(case r of Imported j \<Rightarrow> io_dryRun opt \<longrightarrow> config_secrets w' = config_secrets w \<and> d' = d | _ \<Rightarrow> config_secrets w' = config_secrets w \<and> d' = d)"
proof -
  from assms [unfolded import_work_def] obtain p w0 where
    a: "RequireAdmin (w, d) = (Inr p, w0)" and
    k: "(case p of Some e \<Rightarrow> retE (Inr (Rejected e)) | None \<Rightarrow>
     if body = [] then retE (Inr (Rejected (BadRequest ''No theme file in the request.'')))
     else bindE (liftE (ThemeBundleFromZip load archive body JNull [])) (\<lambda>(zipError, json, assets).
       if zipError \<noteq> [] then retE (Inr (Rejected (BadRequest zipError)))
       else bindE (ImportThemeBundleJson E S sections json assets opt) (\<lambda>report.
         if \<not> rp_ok report then retE (Inl report) else retE (Inr (Imported (BundleImportReportToJson report)))))) w0
      = (Inr (Inr r), (w', d'))" by (rule bindE_InrE)
  obtain w2 d2 where w0: "w0 = (w2, d2)" by fastforce
  obtain n where st: "w0 = (w\<lparr>tick := n\<rparr>, d)" using RequireAdmin_run [OF a [unfolded w0]] w0 by blast
  show ?thesis
  proof (cases "p \<noteq> None \<or> body = []")
    case True
    then show ?thesis using k st by (auto simp: retE_def split: option.splits)
  next
    case False
    then have p: "p = None" and b: "body \<noteq> []" by auto
    obtain ze json assets where z: "ThemeBundleFromZip load archive body JNull [] = Inr (ze, json, assets)"
      using k [unfolded p option.case if_not_P [OF b]] by (auto elim!: bindE_InrE simp: liftE_run)
    show ?thesis
    proof (cases "ze = []")
      case False
      then show ?thesis using k p b z st by (auto simp: bindE_def liftE_def retE_def)
    next
      case True
      have "bindE (ImportThemeBundleJson E S sections json assets opt) (\<lambda>report.
         if \<not> rp_ok report then retE (Inl report) else retE (Inr (Imported (BundleImportReportToJson report)))) (w\<lparr>tick := n\<rparr>, d)
        = (Inr (Inr r), (w', d'))"
        using k p b z st True by (simp add: bindE_lift)
      then obtain report t where i: "ImportThemeBundleJson E S sections json assets opt (w\<lparr>tick := n\<rparr>, d) = (Inr report, t)" and
        f: "(if \<not> rp_ok report then retE (Inl report) else retE (Inr (Imported (BundleImportReportToJson report)))) t = (Inr (Inr r), (w', d'))"
        by (rule bindE_InrE)
      have r: "r = Imported (BundleImportReportToJson report)" "t = (w', d')" using f by (auto simp: retE_def split: if_splits)
      have "(w', d') = (w\<lparr>tick := n\<rparr>, d)" if "io_dryRun opt"
        using dry_run_writes_nothing [OF that, of E S sections json assets "(w\<lparr>tick := n\<rparr>, d)"] i r(2) by simp
      then show ?thesis using r by simp
    qed
  qed
qed

text \<open>
  C16. (safety) Importing a theme file is all or nothing. Unless the answer is that the theme was applied,
  every setting and every table of the site is as before, whatever the file, the sections of the
  application and the point of the failure: a theme refused by its last section leaves nothing behind.
  The route that only checks a file leaves everything as before whatever it answers.
\<close>
theorem import_route_all_or_nothing:
  assumes "RunImport E S sections load archive body strict merge dryRun (w, d) = (r, (w', d'))"
    and "dryRun \<or> (\<forall>report. r \<noteq> Inr (Imported report))"
  shows "config_secrets w' = config_secrets w \<and> d' = d"
proof -
  let ?w = "w\<lparr>tx_start := now_of E w, aborted := False\<rparr>"
  let ?opt = "OptionsFrom strict merge dryRun"
  have opt: "io_dryRun ?opt = dryRun" by (simp add: OptionsFrom_def)
  obtain x w1 d1 where i: "import_work E S sections load archive body ?opt (?w, d) = (x, (w1, d1))"
    by (cases "import_work E S sections load archive body ?opt (?w, d)") auto
  note run = assms(1) [unfolded RunImport_def prod.case i]
  consider (err) e where "x = Inl e" | (refused) report where "x = Inr (Inl report)" | (finished) r' where "x = Inr (Inr r')"
    by (cases x) (auto, metis sum.exhaust)
  then show ?thesis
  proof cases
    case err
    then show ?thesis using run by (cases e) (auto simp: Let_def)
  next
    case refused
    then show ?thesis using run by auto
  next
    case finished
    have r: "r = Inr r'" "(w', d') = (if aborted w1 then (rolled_back w w1, d) else (w1, d1))" using run finished by simp_all
    have "config_secrets w1 = config_secrets w \<and> d1 = d"
      using import_work_run [OF i [unfolded finished]] assms(2) r(1) opt by (cases r') auto
    then show ?thesis using r(2) by (cases "aborted w1") simp_all
  qed
qed

text \<open>A file that is no zip.\<close>

lemma import_route_all_or_nothing_witness:
  "\<exists>p w'. RunImport demoEnv None [] (\<lambda>_. Inr JNull) NotAZip ''x'' None None False (admin_world, logo_site) = (Inr (Rejected p), (w', logo_site))"
proof -
  define q where "q = RunImport demoEnv None [] (\<lambda>_. Inr JNull) NotAZip ''x'' None None False (admin_world, logo_site)"
  obtain r w' d' where q: "q = (r, (w', d'))" by (cases q) auto
  have "\<exists>p. fst q = Inr (Rejected p)"
    by (simp add: q_def RunImport_def import_work_def bindE_def admin_signed_in retE_def liftE_def ThemeBundleFromZip_def Let_def)
  then obtain p where r: "r = Inr (Rejected p)" by (auto simp: q)
  then have "d' = logo_site" using import_route_all_or_nothing [OF q [unfolded q_def]] by simp
  then show ?thesis using q r unfolding q_def by blast
qed

end
