(* ===== verification/Spec2Isabelle.thy ===== *)
theory Spec2Isabelle
  imports Prelude CppTypes StringUtil Schema SqlText Crud World AuthTables Secrets AuthTokens LoginGate Person Session
    PasswordReset Endpoints Account Guards Effects Connections Migration Tenancy Json Scheduler Branding ThemeBundle
    SiteFonts ThemeImport ThemeFonts ThemeExport Dates ICal SiteAdmin
begin

text \<open>
  A model of \<^verbatim>\<open>honuware server components\<close>, the C++ building blocks of a
  Crow web server over PostgreSQL. The repository is a stack of layers, foundation, data,
  services and platform, with a scheduler beside the server; a theory here models a group of files
  of one layer and imports the theories of the layers below it.

  \<^bold>\<open>Foundation\<close> (\<open>components/foundation/util\<close>)

    \<^item> \<open>CppTypes\<close>: \<open>types.h\<close> and \<open>types.cpp\<close>: the string maps, tables and results
      every layer passes around, conversions between them, and decimal numbers. A
      \<open>std::map\<close> is a strictly sorted association list, so iteration order is the order of the code.
    \<^item> \<open>StringUtil\<close>: templates, URL encoding, CR/LF, FNV-1a hashing (64-bit words), \<open>bytea\<close> in hex,
      the comparison in constant time.
    \<^item> \<open>Json\<close>: \<open>json_value.h\<close>, \<open>json_util.cpp\<close>, \<open>key_value_table_json.cpp\<close> and \<open>error_response.cpp\<close>:
      JSON values, their text, the conversions to and from string tables, the error responses.
    \<^item> \<open>Effects\<close>: steps on a state that may throw, the locale \<open>transaction_provider\<close>, what every
      \<open>RunInTransaction\<close> promises (\<open>transaction_provider.h\<close>), and the locales for steps that keep a
      relation or look at a view only.
    \<^item> \<open>Dates\<close>: \<open>date_time_util.cpp\<close>: timestamps, months, wall clocks and date tokens; the date library and
      the rules of time zones are arguments, and the Gregorian calendar is shown to be such a library.
    \<^item> \<open>ICal\<close>: \<open>ical_generator.cpp\<close>: calendar files, their escaping and their folding.

  \<^bold>\<open>Data\<close> (\<open>components/data/sql_util\<close>)

    \<^item> \<open>Schema\<close>: \<open>schema/*.cpp\<close>: columns, tables, foreign keys and the schema object that
      holds them, with the invariant every sequence of modifications keeps.
    \<^item> \<open>SqlText\<close>: the SQL generators of \<open>db_and_table_operations.cpp\<close> and
      \<open>database_crud_helpers.cpp\<close>: statement text and the parameters that travel beside it.
    \<^item> \<open>Crud\<close>: the row operations that run those statements, over a transaction that is a parameter.
    \<^item> \<open>Connections\<close>: \<open>production_transaction_provider.cpp\<close> and \<open>pooled_transaction_provider.cpp\<close>:
      one connection that dies and is replaced, and the pool, as one thread uses it and as a step
      relation of many threads with the mutex and the condition variable.

  \<^bold>\<open>Services\<close> (\<open>components/services\<close>)

    \<^item> \<open>Secrets\<close>: configuration secrets, their encryption at rest and its migration.

  \<^bold>\<open>Platform\<close> (\<open>components/platform\<close>)

    \<^item> \<open>World\<close>: the tables, the request's session and cookies, the job queue and the
      services outside the repository; the transaction monad \<open>'a tx\<close> with abort, throw and catch.
    \<^item> \<open>AuthTables\<close>, \<open>AuthTokens\<close>: the table helpers, one step per SQL statement.
    \<^item> \<open>LoginGate\<close>: the rate limit of the authentication requests.
    \<^item> \<open>Person\<close>: password hashing, registration, verification, login with lockout, session and
      device tokens, roles and permissions.
    \<^item> \<open>Session\<close>: the signed-in request: cookies and the access decisions of the endpoints.
    \<^item> \<open>PasswordReset\<close>: the forgotten-password link.
    \<^item> \<open>Endpoints\<close>: the login, verification, forgotten-password and reset requests, end to end.
    \<^item> \<open>Account\<close>: the start of every request (\<open>EndpointAuthHelper::Initialize\<close>) and the endpoints of a
      person's own account: registration, remember-me, logout, password and data changes, activation.
    \<^item> \<open>Guards\<close>: what a request passes before its handler: \<open>csrf_guard.cpp\<close>,
      \<open>cloudfront_origin_guard.cpp\<close>, \<open>security_headers.cpp\<close>, \<open>proxy_trust.cpp\<close> and the log throttles.
    \<^item> \<open>Migration\<close>: \<open>business_logic/migration\<close>: the ledger of applied migrations and the runner.
    \<^item> \<open>Tenancy\<close>: \<open>business_logic/tenancy\<close> and \<open>tenant_resolution_guard.cpp\<close>: tenants, resolvers
      and their cache, the guard, the registry of resources, provisioning and migrating all tenants.

    \<^item> \<open>Branding\<close>: \<open>business_logic/branding\<close>: validation of a site's values, the registries of content
      slots and design tokens and what is served of them, names and types of theme files, font rules.
    \<^item> \<open>ThemeBundle\<close>: a theme as a file: the bundle and its JSON, reading a zip or a directory, versions,
      and the checks that refuse a bundle or drop single items of it.
    \<^item> \<open>SiteFonts\<close>: \<open>site_fonts.cpp\<close>, \<open>site_assets.cpp\<close>, \<open>site_font_inventory.cpp\<close>: the tables of fonts and
      files as lists of rows with serial keys, one step per statement, and the fonts a page loads.
    \<^item> \<open>ThemeImport\<close>, \<open>ThemeFonts\<close>: \<open>theme_bundle_import.cpp\<close> and \<open>theme_bundle_sections.cpp\<close>: writing a theme
      to the site, and what its fonts are afterwards. \<open>ThemeExport\<close>: \<open>theme_bundle_export.cpp\<close>.
    \<^item> \<open>SiteAdmin\<close>: the endpoints around them: \<open>site_info.cpp\<close>, \<open>site_asset.cpp\<close>, \<open>site_font_face.cpp\<close>,
      \<open>manage_site_theme.cpp\<close>, \<open>manage_site_fonts.cpp\<close>, \<open>manage_site_theme_bundle.cpp\<close>.

  \<^bold>\<open>Scheduler\<close> (\<open>components/scheduler\<close>)

    \<^item> \<open>Scheduler\<close>: the API client with its cookie jar, the jobs and their targets, the timers, and
      the reload of the job set.

  How they interact: a request passes the guards, of which the tenant guard picks its database; an
  endpoint runs in one transaction of a pool; it asks \<open>LoginGate\<close>, which counts
  rows of \<open>login_attempts\<close>; calls \<open>PersonHelper\<close> or \<open>PasswordResetHelper\<close>, which read
  and write the tables through the helpers; and signs the request in through \<open>Session\<close>,
  which writes cookies. Configuration comes from \<open>Secrets\<close>. Mails and attempt records are jobs
  queued for later. The scheduler signs in like a person and calls endpoints through the same guards:
  \<open>client_passes_csrf_guard\<close> composes its client with the server's guard. Migrations run on any
  transaction provider, per tenant in \<open>MigrateAllTenants\<close>.

  \<^bold>\<open>What the lemmas show.\<close> Round trips (numbers, result tables, URL encoding, \<open>bytea\<close>, JSON text,
  secrets at rest); functional contracts of the generators (no user text in the SQL, parameters
  in order), of the gate's decision, of login, of the guards and of the access decisions; invariants
  (schema, lockout, attempts bounded by their limit however the requests interleave, tokens used once,
  one pending wait per job); what a transaction, a migration run and a provisioning leave behind when
  the network fails at any point; safety and absence of lost wake-ups of the pool, and its refinement
  of a counting semaphore; what a theme file may bring in, what an import leaves behind and what an export can reveal; that folded
  calendar text unfolds to what was written, and that the folding loop ends; and end-to-end facts about requests (a login that succeeds, a locked account,
  a forgotten password that tells nothing, a request routed to its own tenant). Some theorems state
  what the code does where that is not what it means to do; the manifest lists them as findings.

  \<^bold>\<open>Interfaces.\<close> Shared contracts are locales: \<open>attempt_ledger\<close> and
  \<open>attempt_rows\<close> (bounded attempts), \<open>owned_rows\<close> (rows that go with their person),
  \<open>tx_frame\<close> and \<open>request_frame\<close> (steps along a relation), \<open>transaction_provider\<close> (all or nothing),
  \<open>migration_host\<close> extending it, \<open>tenant_resolver\<close> (what a lookup may answer), \<open>eff_frame\<close> and
  \<open>site_frame\<close> extending it (steps of the site that keep a relation), \<open>eff_observer\<close> (steps that see only
  a view of the state); each is interpreted on
  the model's own definitions, the providers on both the single connection and the pool, the resolver
  on both the control database and the fixed tenant.

  \<^bold>\<open>Modelling choices.\<close> Fallible code returns \<open>exn + 'a\<close>; undefined behaviour of C++ is the
  error \<open>Undefined\<close>, which no handler catches. Integers that the code keeps in 32 or 64 bits are
  \<open>int\<close> with the range checked where the code or PostgreSQL can leave it. PostgreSQL, libsodium,
  the clock and the mail server are fields of \<open>env\<close>, read in the order of the statements;
  \<open>now_us()\<close> is read once per statement. Strings hold no NUL byte. Every loop is a structural
  recursion or a function with a measure; only the reader of JSON text, a specification, takes fuel,
  and \<open>fuel\<close> of a value is enough for its text. What the network does to each exchange with the
  database is a parameter \<open>net\<close>, one \<open>netstep\<close> per exchange, and what the servers answer to the
  scheduler is a parameter \<open>transport\<close>; theorems hold for all of them. Timers follow the documented
  behaviour of \<open>steady_timer\<close>: cancelling aborts pending waits, a wait that has expired keeps its
  success. A double is the text the C++ library prints for it.

  \<^bold>\<open>Not modelled.\<close> The HTTP server and its routing, JSON parsing, image scaling, the HTTP exchange of
  the scheduler, Square payments, the test doubles, the statements of the framework migrations, the
  creation of the control database, the mail helper of a tenant, the timer errors other than an abort,
  and the parts of the platform listed as not modelled in the manifest: their logic is either I/O
  around libraries or left to later work.
\<close>

end
